(* ===== verification/Prelude.thy ===== *)
theory Prelude
  imports Main "HOL-Library.Word" "HOL-Library.List_Lexorder" "HOL-Library.Char_ord"
begin

unbundle bit_operations_syntax

text \<open>
  Shared vocabulary of the development: machine words and byte strings, Rust's
  \<open>Result\<close> and \<open>Option\<close> combinators over the sum type \<open>'e + 'a\<close> (\<open>Inl\<close> is \<open>Err\<close>),
  checked \<open>usize\<close> arithmetic (64 bits), decimal printing for error messages, and the
  theorem collections that the component theories extend.
\<close>

section \<open>Types\<close>

type_synonym u8 = "8 word"
type_synonym u16 = "16 word"
type_synonym u32 = "32 word"
type_synonym u64 = "64 word"
type_synonym bytes = "u8 list"

text \<open>
  \<open>result_simps\<close> turns an equation about a chain of fallible steps into its parts;
  \<open>guards\<close> collects the characterisations \<open>check x = Inr () \<longleftrightarrow> ...\<close> of validators.
\<close>

named_theorems result_simps
named_theorems guards

section \<open>Results\<close>

text \<open>\<open>andThen m f\<close> is \<open>f(m?)\<close>: the error of \<open>m\<close> returns early.\<close>

fun andThen :: "'e + 'a \<Rightarrow> ('a \<Rightarrow> 'e + 'b) \<Rightarrow> 'e + 'b" where
  "andThen (Inl e) f = Inl e"
| "andThen (Inr x) f = f x"

lemma andThen_cong [fundef_cong]:
  "m = m' \<Longrightarrow> (\<And>x. m' = Inr x \<Longrightarrow> f x = f' x) \<Longrightarrow> andThen m f = andThen m' f'"
  by (cases m') auto

lemma andThen_eq_Inr [result_simps]:
  "andThen m f = Inr y \<longleftrightarrow> (\<exists>x. m = Inr x \<and> f x = Inr y)"
  by (cases m) auto

lemma andThen_eq_Inl [result_simps]:
  "andThen m f = Inl e \<longleftrightarrow> m = Inl e \<or> (\<exists>x. m = Inr x \<and> f x = Inl e)"
  by (cases m) auto

lemma andThen_Inr [simp]: "andThen m Inr = m"
  by (cases m) auto

lemma andThen_unit [simp]: "andThen m (\<lambda>_. Inr ()) = m"
  by (cases m) auto

lemma andThen_split:
  "P (andThen m f) \<longleftrightarrow> (\<forall>e. m = Inl e \<longrightarrow> P (Inl e)) \<and> (\<forall>x. m = Inr x \<longrightarrow> P (f x))"
  by (cases m) auto

text \<open>A method that changes the state only when it succeeds.\<close>

lemma commit_eq_Inr [result_simps]:
  "(case r of Inl e \<Rightarrow> (Inl e, s) | Inr x \<Rightarrow> (Inr x, g x)) = (Inr y, s') \<longleftrightarrow> r = Inr y \<and> s' = g y"
  by (cases r) auto

lemma andThen_assoc: "andThen (andThen m f) g = andThen m (\<lambda>x. andThen (f x) g)"
  by (cases m) auto

text \<open>A guard: \<open>if c { return Err(e) }\<close>.\<close>

definition require :: "bool \<Rightarrow> 'e \<Rightarrow> 'e + unit" where
  "require c e = (if c then Inr () else Inl e)"

lemma require_simps [simp]: "require True e = Inr ()" "require False e = Inl e"
  by (simp_all add: require_def)

lemma require_eq [result_simps]:
  "require c e = Inr u \<longleftrightarrow> c" "require c e = Inl e' \<longleftrightarrow> \<not> c \<and> e' = e"
  by (auto simp: require_def)

fun ok_or :: "'a option \<Rightarrow> 'e \<Rightarrow> 'e + 'a" where
  "ok_or None e = Inl e"
| "ok_or (Some x) e = Inr x"

lemma ok_or_eq [result_simps]:
  "ok_or x e = Inr y \<longleftrightarrow> x = Some y" "ok_or x e = Inl e' \<longleftrightarrow> x = None \<and> e' = e"
  by (cases x; auto)+

fun map_err :: "('e \<Rightarrow> 'f) \<Rightarrow> 'e + 'a \<Rightarrow> 'f + 'a" where
  "map_err f (Inl e) = Inl (f e)"
| "map_err f (Inr x) = Inr x"

lemma map_err_eq [result_simps]:
  "map_err f m = Inr y \<longleftrightarrow> m = Inr y" "map_err f m = Inl e' \<longleftrightarrow> (\<exists>e. m = Inl e \<and> e' = f e)"
  by (cases m; auto)+

fun map_ok :: "('a \<Rightarrow> 'b) \<Rightarrow> 'e + 'a \<Rightarrow> 'e + 'b" where
  "map_ok f (Inl e) = Inl e"
| "map_ok f (Inr x) = Inr (f x)"

lemma map_ok_eq [result_simps]:
  "map_ok f m = Inr y \<longleftrightarrow> (\<exists>x. m = Inr x \<and> y = f x)" "map_ok f m = Inl e \<longleftrightarrow> m = Inl e"
  by (cases m; auto)+

definition is_ok :: "'e + 'a \<Rightarrow> bool" where
  "is_ok m = (case m of Inl _ \<Rightarrow> False | Inr _ \<Rightarrow> True)"

lemma is_ok_simps [simp]: "is_ok (Inl e) = False" "is_ok (Inr x) = True"
  by (simp_all add: is_ok_def)

lemma is_ok_iff: "is_ok m \<longleftrightarrow> (\<exists>x. m = Inr x)"
  by (cases m) auto

text \<open>Early returns.\<close>

lemma early_return_eq [result_simps]:
  "(if c then Inl e else m) = Inr y \<longleftrightarrow> \<not> c \<and> m = Inr y"
  by simp

text \<open>\<open>Option::transpose\<close> and \<open>collect::<Result<Vec<_>, _>>\<close>.\<close>

fun transpose_opt :: "('e + 'a) option \<Rightarrow> 'e + 'a option" where
  "transpose_opt None = Inr None"
| "transpose_opt (Some (Inl e)) = Inl e"
| "transpose_opt (Some (Inr x)) = Inr (Some x)"

lemma transpose_opt_eq [result_simps]:
  "transpose_opt x = Inr y \<longleftrightarrow>
     (x = None \<and> y = None) \<or> (\<exists>z. x = Some (Inr z) \<and> y = Some z)"
  by (cases x rule: transpose_opt.cases) auto

fun traverse :: "('a \<Rightarrow> 'e + 'b) \<Rightarrow> 'a list \<Rightarrow> 'e + 'b list" where
  "traverse f [] = Inr []"
| "traverse f (x # xs) = andThen (f x) (\<lambda>y. andThen (traverse f xs) (\<lambda>ys. Inr (y # ys)))"

lemma traverse_eq_Inr:
  "traverse f xs = Inr ys \<longleftrightarrow> list_all2 (\<lambda>x y. f x = Inr y) xs ys"
proof (induction xs arbitrary: ys)
  case Nil
  then show ?case by auto
next
  case (Cons x xs)
  then show ?case by (auto simp: result_simps list_all2_Cons1)
qed

lemma traverse_length: "traverse f xs = Inr ys \<Longrightarrow> length ys = length xs"
  by (auto simp: traverse_eq_Inr dest: list_all2_lengthD)

lemma traverse_mem:
  assumes "traverse f xs = Inr ys" and "y \<in> set ys"
  shows "\<exists>x \<in> set xs. f x = Inr y"
proof -
  have all2: "list_all2 (\<lambda>x y. f x = Inr y) xs ys" using assms(1) by (simp add: traverse_eq_Inr)
  then show ?thesis using assms(2) by (induction rule: list_all2_induct) auto
qed

lemma traverse_cong [fundef_cong]:
  "xs = ys \<Longrightarrow> (\<And>x. x \<in> set ys \<Longrightarrow> f x = g x) \<Longrightarrow> traverse f xs = traverse g ys"
  by (induction xs arbitrary: ys) auto

lemma traverse_map_Inr: "(\<And>x. x \<in> set xs \<Longrightarrow> f x = Inr (g x)) \<Longrightarrow> traverse f xs = Inr (map g xs)"
  by (induction xs) auto

fun for_each :: "('a \<Rightarrow> 'e + unit) \<Rightarrow> 'a list \<Rightarrow> 'e + unit" where
  "for_each f [] = Inr ()"
| "for_each f (x # xs) = andThen (f x) (\<lambda>_. for_each f xs)"

lemma for_each_ok [guards]: "for_each f xs = Inr u \<longleftrightarrow> (\<forall>x \<in> set xs. f x = Inr ())"
  by (induction xs) (auto simp: result_simps)

lemma for_each_cong [fundef_cong]:
  "xs = ys \<Longrightarrow> (\<And>x. x \<in> set ys \<Longrightarrow> f x = g x) \<Longrightarrow> for_each f xs = for_each g ys"
  by (induction xs arbitrary: ys) auto

section \<open>Checked 64-bit arithmetic\<close>

definition usize_limit :: nat where
  "usize_limit = 2 ^ 64"

definition checked_add :: "nat \<Rightarrow> nat \<Rightarrow> nat option" where
  "checked_add a b = (if a + b < usize_limit then Some (a + b) else None)"

lemma checked_add_Some [result_simps]:
  "checked_add a b = Some c \<longleftrightarrow> c = a + b \<and> a + b < usize_limit"
  by (auto simp: checked_add_def)

definition checked_sub :: "nat \<Rightarrow> nat \<Rightarrow> nat option" where
  "checked_sub a b = (if b \<le> a then Some (a - b) else None)"

lemma checked_sub_Some [result_simps]: "checked_sub a b = Some c \<longleftrightarrow> b \<le> a \<and> c = a - b"
  by (auto simp: checked_sub_def)

text \<open>\<open>i64::try_from\<close>, \<open>u64::try_from\<close> and \<open>u16::try_from\<close> on a CBOR integer.\<close>

definition in_i64 :: "int \<Rightarrow> bool" where
  "in_i64 i \<longleftrightarrow> - (2 ^ 63) \<le> i \<and> i < 2 ^ 63"

definition in_u64 :: "int \<Rightarrow> bool" where
  "in_u64 i \<longleftrightarrow> 0 \<le> i \<and> i < 2 ^ 64"

definition in_u16 :: "int \<Rightarrow> bool" where
  "in_u16 i \<longleftrightarrow> 0 \<le> i \<and> i < 2 ^ 16"

definition try_i64 :: "int \<Rightarrow> int option" where
  "try_i64 i = (if in_i64 i then Some i else None)"

definition try_u64 :: "int \<Rightarrow> nat option" where
  "try_u64 i = (if in_u64 i then Some (nat i) else None)"

definition try_u16 :: "int \<Rightarrow> nat option" where
  "try_u16 i = (if in_u16 i then Some (nat i) else None)"

lemma try_i64_Some [result_simps]: "try_i64 i = Some j \<longleftrightarrow> j = i \<and> in_i64 i"
  by (auto simp: try_i64_def)

lemma try_i64_None [result_simps]: "try_i64 i = None \<longleftrightarrow> \<not> in_i64 i"
  by (simp add: try_i64_def)

section \<open>Text and bytes\<close>

text \<open>
  A Rust \<open>String\<close> is the list of its UTF-8 bytes, one \<open>char\<close> per byte, so that
  \<open>length\<close> and the order agree with \<open>str::len\<close> and \<open>Ord for str\<close>.
\<close>

definition text_bytes :: "string \<Rightarrow> bytes" where
  "text_bytes s = map of_char s"

lemma text_bytes_inj: "text_bytes s = text_bytes t \<longleftrightarrow> s = t"
proof
  have to_nat: "unat (of_char c :: u8) = of_char c" for c
  proof -
    have "unat (of_nat (of_char c) :: u8) = of_char c"
      using nat_of_char_less_256 [of c] by (simp add: unsigned_of_nat take_bit_nat_eq_self)
    then show ?thesis by (simp add: of_nat_of_char)
  qed
  have inj: "c = d" if "of_char c = (of_char d :: u8)" for c d
    using arg_cong [OF that, of unat] by (simp add: to_nat)
  show "text_bytes s = text_bytes t \<Longrightarrow> s = t"
    unfolding text_bytes_def by (rule map_injective) (auto intro: injI inj)
qed simp

lemma text_bytes_length [simp]: "length (text_bytes s) = length s"
  by (simp add: text_bytes_def)

fun show_nat :: "nat \<Rightarrow> string" where
  "show_nat n =
     (if n < 10 then [char_of (48 + n)] else show_nat (n div 10) @ [char_of (48 + n mod 10)])"

declare show_nat.simps [simp del]

definition show_int :: "int \<Rightarrow> string" where
  "show_int i = (if i < 0 then ''-'' @ show_nat (nat (- i)) else show_nat (nat i))"

end
