(* ===== verification/Errors.thy ===== *)
theory Errors
  imports Prelude
begin

text \<open>
  \<open>src/src/error.rs\<close>: the crate-wide error enum. \<open>AlgorithmMismatch\<close> carries the declared
  and the expected identifier as text, \<open>LimitExceeded\<close> the resource and its bound. The
  conversions from the library's encoder and decoder errors are \<open>map_err Cbor\<close>.
\<close>

datatype error =
    Cbor string
  | UnexpectedType string
  | Verify string
  | InvalidState string
  | AlgorithmMismatch string string
  | KeyOperation string
  | LimitExceeded string nat
  | Custom string

text \<open>\<open>impl Display for Error\<close>.\<close>

fun error_display :: "error \<Rightarrow> string" where
  "error_display (Cbor msg) = ''cose: cbor error: '' @ msg"
| "error_display (UnexpectedType msg) = ''cose: unexpected type: '' @ msg"
| "error_display (Verify msg) = ''cose: verification failed: '' @ msg"
| "error_display (InvalidState msg) = ''cose: invalid state: '' @ msg"
| "error_display (AlgorithmMismatch declared expected) =
     ''cose: algorithm mismatch, declared '' @ declared @ '', expected '' @ expected"
| "error_display (KeyOperation msg) = ''cose: key operation denied: '' @ msg"
| "error_display (LimitExceeded resource limit) =
     ''cose: '' @ resource @ '' limit '' @ show_nat limit @ '' exceeded''"
| "error_display (Custom msg) = ''cose: '' @ msg"

end
