(* ===== verification/Labels.thy ===== *)
theory Labels
  imports Errors
begin

text \<open>
  \<open>src/src/label.rs\<close>: COSE labels, \<open>int / tstr\<close>. The integer payload is a Rust \<open>i64\<close>; the
  model keeps it as an \<open>int\<close> and every conversion that can leave the range checks it with
  \<open>in_i64\<close>. The derived \<open>Ord\<close> puts all integers (in signed order) before all texts (in
  byte order), which is the \<open>linorder\<close> instance below.
\<close>

datatype label = LInt int | LText string

fun as_int :: "label \<Rightarrow> int option" where
  "as_int (LInt i) = Some i"
| "as_int (LText s) = None"

fun as_text :: "label \<Rightarrow> string option" where
  "as_text (LText s) = Some s"
| "as_text (LInt i) = None"

text \<open>\<open>impl Display for Label\<close>.\<close>

fun show_label :: "label \<Rightarrow> string" where
  "show_label (LInt i) = show_int i"
| "show_label (LText s) = s"

fun wf_label :: "label \<Rightarrow> bool" where
  "wf_label (LInt i) = in_i64 i"
| "wf_label (LText s) = True"

section \<open>The derived order\<close>

instantiation label :: linorder
begin

fun less_eq_label :: "label \<Rightarrow> label \<Rightarrow> bool" where
  "less_eq_label (LInt i) (LInt j) = (i \<le> j)"
| "less_eq_label (LInt i) (LText t) = True"
| "less_eq_label (LText s) (LInt j) = False"
| "less_eq_label (LText s) (LText t) = (s \<le> t)"

definition less_label :: "label \<Rightarrow> label \<Rightarrow> bool" where
  "less_label a b = (a \<le> b \<and> \<not> b \<le> (a :: label))"

instance
proof
  fix a b c :: label
  show "(a < b) = (a \<le> b \<and> \<not> b \<le> a)" by (rule less_label_def)
  show "a \<le> a" by (cases a) auto
  show "a \<le> b \<Longrightarrow> b \<le> c \<Longrightarrow> a \<le> c" by (cases a; cases b; cases c) auto
  show "a \<le> b \<Longrightarrow> b \<le> a \<Longrightarrow> a = b" by (cases a; cases b) auto
  show "a \<le> b \<or> b \<le> a" by (cases a; cases b) auto
qed

end

lemma less_label_simps [simp]:
  "LInt i < LInt j \<longleftrightarrow> i < j"
  "LInt i < LText t"
  "\<not> LText s < LInt j"
  "LText s < LText t \<longleftrightarrow> s < t"
  by (auto simp: less_label_def)

end
