(* ===== verification/CborValue.thy ===== *)
theory CborValue
  imports Labels
begin

text \<open>
  The dynamic CBOR value of the \<open>cbor2\<close> crate, with the constructors that the program
  names, and the crate's encoder and decoder as a record of parameters. \<open>cbor2\<close> is not
  part of the repository: no definition of this development fixes what its functions
  compute; where a property depends on them, the documented behaviour appears as a
  hypothesis of the property.
\<close>

text \<open>An IEEE 754 binary64 value is its bit pattern.\<close>

datatype f64 = F64 (f64_bits: u64)

datatype "value" =
    VInteger int
  | VFloat f64
  | VBytes bytes
  | VText string
  | VBool bool
  | VNull
  | VSimple u8
  | VTag u64 "value"
  | VArray "value list"
  | VMap "(value \<times> value) list"

text \<open>\<open>From<Label> for Value\<close> and the \<open>Label\<close> visitor that the decoder drives.\<close>

fun value_of_label :: "label \<Rightarrow> value" where
  "value_of_label (LInt i) = VInteger i"
| "value_of_label (LText s) = VText s"

lemma value_of_label_inj [simp]: "value_of_label a = value_of_label b \<longleftrightarrow> a = b"
  by (cases a; cases b) auto

fun label_visitor :: "value \<Rightarrow> string + label" where
  "label_visitor (VInteger i) =
     (case try_i64 i of Some j \<Rightarrow> Inr (LInt j) | None \<Rightarrow> Inl ''integer label out of range'')"
| "label_visitor (VText s) = Inr (LText s)"
| "label_visitor _ = Inl ''invalid type, expected an integer or text string COSE label''"

lemma label_visitor_wf: "label_visitor v = Inr l \<Longrightarrow> wf_label l"
  by (cases v rule: label_visitor.cases) (auto simp: result_simps split: option.splits)

lemma label_visitor_value_of_label: "wf_label l \<Longrightarrow> label_visitor (value_of_label l) = Inr l"
  by (cases l) (auto simp: try_i64_def)

text \<open>
  A fragment of a streamed array: a text or byte string, \<open>nil\<close>, an already encoded item
  spliced in as \<open>cbor2::RawValue\<close>, or a nested array of fragments.
\<close>

datatype frag = FText string | FBytes bytes | FNull | FRaw bytes | FArray "frag list"

text \<open>
  The functions of \<open>cbor2\<close> that the program calls; an error is the library's message.
  \<^item> \<open>lib_from_slice\<close>: \<open>cbor2::from_slice::<Value>\<close>;
  \<^item> \<open>lib_from_slice_map\<close>: \<open>cbor2::from_slice::<BTreeMap<Label, Value>>\<close>, given the key
    visitor: the entries in wire order;
  \<^item> \<open>lib_from_slice_wire4\<close>, \<open>lib_from_slice_wire3\<close>, \<open>lib_from_slice_sign\<close>: the derived
    decoders of the private wire structs \<open>[bstr, map, bstr / nil, bstr]\<close>,
    \<open>[bstr, map, bstr / nil]\<close> and \<open>[bstr, map, bstr / nil, [+ [bstr, map, bstr]]]\<close>;
  \<^item> \<open>lib_from_slice_mac\<close>, \<open>lib_from_slice_encrypt\<close>: those of \<open>[bstr, map, bstr / nil, bstr, [* recipient]]\<close>
    and \<open>[bstr, map, bstr / nil, [* recipient]]\<close>; \<open>lib_from_slice_recipient\<close>: one recipient;
  \<^item> \<open>lib_from_slice_array\<close>: the encoded elements of an array, as \<open>cbor2::RawValue\<close>;
  \<^item> \<open>lib_to_vec\<close>, \<open>lib_to_canonical_vec\<close>: the ordinary and the deterministic encoder;
  \<^item> \<open>lib_encode_frags\<close>, \<open>lib_serialized_size\<close>: \<open>cbor2::to_vec\<close> or \<open>to_writer\<close> on a tuple of
    fragments, and \<open>cbor2::serialized_size\<close> of it;
  \<^item> \<open>lib_raw_value\<close>: \<open>cbor2::RawValue::new\<close>; \<open>lib_validate_slice\<close>: \<open>cbor2::validate_slice\<close>;
  \<^item> \<open>lib_display_value\<close>: \<open>Display for Value\<close>, which some messages print;
  \<^item> \<open>lib_recursion_limit\<close>: \<open>cbor2::de::DEFAULT_RECURSION_LIMIT\<close>.
\<close>

type_synonym wire_header = "(label \<times> value) list"

text \<open>
  A \<open>COSE_recipient\<close> as its visitor meets it: the encoded protected, unprotected and
  ciphertext items (the visitor reads all three as \<open>cbor2::RawValue\<close>) and the nested
  recipients, when present.
\<close>

datatype wire_recipient =
  WireRecipient (wr_protected: bytes) (wr_unprotected: bytes) (wr_ciphertext: bytes)
    (wr_recipients: "wire_recipient list option")

record cbor2 =
  lib_from_slice :: "bytes \<Rightarrow> string + value"
  lib_from_slice_map :: "(value \<Rightarrow> string + label) \<Rightarrow> bytes \<Rightarrow> string + wire_header"
  lib_from_slice_wire4 ::
    "(value \<Rightarrow> string + label) \<Rightarrow> bytes \<Rightarrow> string + (bytes \<times> wire_header \<times> bytes option \<times> bytes)"
  lib_from_slice_wire3 ::
    "(value \<Rightarrow> string + label) \<Rightarrow> bytes \<Rightarrow> string + (bytes \<times> wire_header \<times> bytes option)"
  lib_from_slice_sign ::
    "(value \<Rightarrow> string + label) \<Rightarrow> bytes \<Rightarrow>
      string + (bytes \<times> wire_header \<times> bytes option \<times> (bytes \<times> wire_header \<times> bytes) list)"
  lib_from_slice_mac ::
    "(value \<Rightarrow> string + label) \<Rightarrow> bytes \<Rightarrow>
      string + (bytes \<times> wire_header \<times> bytes option \<times> bytes \<times> wire_recipient list)"
  lib_from_slice_encrypt ::
    "(value \<Rightarrow> string + label) \<Rightarrow> bytes \<Rightarrow>
      string + (bytes \<times> wire_header \<times> bytes option \<times> wire_recipient list)"
  lib_from_slice_recipient :: "bytes \<Rightarrow> string + wire_recipient"
  lib_from_slice_array :: "bytes \<Rightarrow> string + bytes list"
  lib_to_vec :: "value \<Rightarrow> string + bytes"
  lib_to_canonical_vec :: "value \<Rightarrow> string + bytes"
  lib_encode_frags :: "frag list \<Rightarrow> string + bytes"
  lib_serialized_size :: "frag list \<Rightarrow> string + nat"
  lib_raw_value :: "bytes \<Rightarrow> string + bytes"
  lib_validate_slice :: "bytes \<Rightarrow> string + unit"
  lib_recursion_limit :: nat
  lib_display_value :: "value \<Rightarrow> string"

text \<open>Calls through \<open>?\<close>: a library error becomes \<open>Error::Cbor\<close>.\<close>

abbreviation cbor_from_slice :: "cbor2 \<Rightarrow> bytes \<Rightarrow> error + value" where
  "cbor_from_slice cb d \<equiv> map_err Cbor (lib_from_slice cb d)"

abbreviation cbor_to_canonical_vec :: "cbor2 \<Rightarrow> value \<Rightarrow> error + bytes" where
  "cbor_to_canonical_vec cb v \<equiv> map_err Cbor (lib_to_canonical_vec cb v)"

abbreviation cbor_to_vec :: "cbor2 \<Rightarrow> value \<Rightarrow> error + bytes" where
  "cbor_to_vec cb v \<equiv> map_err Cbor (lib_to_vec cb v)"

end
