(* ===== verification/CborHead.thy ===== *)
theory CborHead
  imports CborValue
begin

text \<open>
  CBOR item heads. \<open>write_head\<close> (\<open>src/src/map.rs\<close>) emits a head in its preferred form;
  \<open>fold_be\<close> is the big-endian accumulation with which \<open>src/src/strict.rs\<close> reads the argument
  back. The lemmas relate the two for every 64-bit argument.
\<close>

text \<open>\<open>to_be_bytes\<close> of Rust's unsigned integers.\<close>

definition to_be_bytes :: "'a::len word \<Rightarrow> bytes" where
  "to_be_bytes w = map (\<lambda>i. ucast (drop_bit (8 * i) w)) (rev [0..<LENGTH('a) div 8])"

definition write_head :: "u8 \<Rightarrow> u64 \<Rightarrow> bytes" where
  "write_head major0 argument =
     (let major = push_bit 5 major0 in
      if argument < 24 then [major OR ucast argument]
      else if argument \<le> 0xff then [major OR 24, ucast argument]
      else if argument \<le> 0xffff then (major OR 25) # to_be_bytes (ucast argument :: u16)
      else if argument \<le> 0xffffffff then (major OR 26) # to_be_bytes (ucast argument :: u32)
      else (major OR 27) # to_be_bytes argument)"

definition fold_be :: "bytes \<Rightarrow> u64" where
  "fold_be bs = foldl (\<lambda>value byte. (push_bit 8 value) OR ucast byte) 0 bs"

lemma length_to_be_bytes [simp]: "length (to_be_bytes (w :: 'a::len word)) = LENGTH('a) div 8"
  by (simp add: to_be_bytes_def)

lemma foldl_be_bytes:
  fixes w v :: u64
  shows "foldl (\<lambda>value byte. (push_bit 8 value) OR ucast byte) v
      (map (\<lambda>i. ucast (drop_bit (8 * i) w) :: u8) (rev [0..<n])) =
    push_bit (8 * n) v OR take_bit (8 * n) w"
proof (induction n arbitrary: v)
  case 0
  then show ?case by simp
next
  case (Suc n)
  have "push_bit (8 * n) (push_bit 8 v OR ucast (ucast (drop_bit (8 * n) w) :: u8)) OR take_bit (8 * n) w =
      push_bit (8 * Suc n) v OR take_bit (8 * Suc n) w"
    by (rule bit_word_eqI) (auto simp: bit_simps not_le less_diff_conv2 add.commute)
  then show ?case by (simp add: Suc)
qed

lemma fold_be_to_be_bytes:
  fixes w :: "'a::len word"
  assumes "LENGTH('a) \<le> 64" and "8 dvd LENGTH('a)"
  shows "fold_be (to_be_bytes w) = ucast w"
proof -
  have "to_be_bytes w =
      map (\<lambda>i. ucast (drop_bit (8 * i) (ucast w :: u64)) :: u8) (rev [0..<LENGTH('a) div 8])"
    unfolding to_be_bytes_def using assms(1)
    by (intro map_cong refl bit_word_eqI) (auto simp: bit_simps)
  then have "fold_be (to_be_bytes w) = take_bit (8 * (LENGTH('a) div 8)) (ucast w :: u64)"
    by (simp add: fold_be_def foldl_be_bytes)
  also have "\<dots> = ucast w"
    using assms(2) by (intro bit_word_eqI) (auto simp: bit_simps dest: bit_imp_le_length)
  finally show ?thesis .
qed

text \<open>Reading back the argument bytes of each head form.\<close>

lemma ucast_ucast_le:
  fixes w :: u64
  shows "w \<le> 0xff \<Longrightarrow> ucast (ucast w :: u8) = w"
    and "w \<le> 0xffff \<Longrightarrow> ucast (ucast w :: u16) = w"
    and "w \<le> 0xffffffff \<Longrightarrow> ucast (ucast w :: u32) = w"
  by (simp_all add: word_le_nat_alt unsigned_ucast_eq word_unat_eq_iff unsigned_take_bit_eq take_bit_nat_eq_self)

lemma fold_be_single: "w \<le> 0xff \<Longrightarrow> fold_be [ucast w] = w"
  by (simp add: fold_be_def ucast_ucast_le)

section \<open>The shape of a written head\<close>

text \<open>How many argument bytes follow the initial byte with additional information \<open>a\<close>.\<close>

definition tail_width :: "u8 \<Rightarrow> nat" where
  "tail_width a = (if a \<le> 23 then 0 else if a = 24 then 1 else if a = 25 then 2
    else if a = 26 then 4 else 8)"

lemma write_head_form:
  obtains a t where "write_head m n = (push_bit 5 m OR a) # t" "a \<le> 27" "length t = tail_width a"
    "n = (if a \<le> 23 then ucast a else fold_be t)"
proof -
  have small: "ucast (ucast n :: u8) = n \<and> (ucast n :: u8) \<le> 23" if "n < 24"
  proof -
    have "unat n < 24" using that by (simp add: word_less_nat_alt)
    then show ?thesis
      by (simp add: word_le_nat_alt word_unat_eq_iff unsigned_ucast_eq unsigned_take_bit_eq
          take_bit_nat_eq_self)
  qed
  consider "n < 24" | "\<not> n < 24" "n \<le> 0xff" | "\<not> n < 24" "\<not> n \<le> 0xff" "n \<le> 0xffff"
    | "\<not> n < 24" "\<not> n \<le> 0xff" "\<not> n \<le> 0xffff" "n \<le> 0xffffffff"
    | "\<not> n < 24" "\<not> n \<le> 0xff" "\<not> n \<le> 0xffff" "\<not> n \<le> 0xffffffff" by blast
  then show thesis
  proof cases
    case 1
    have "(ucast n :: u8) \<le> 27" using small [OF 1] by (auto intro: order_trans)
    then show thesis using 1 small
      by (intro that [of "ucast n" "[]"]) (auto simp: write_head_def tail_width_def)
  next
    case 2
    then show thesis
      by (intro that [of 24 "[ucast n]"]) (auto simp: write_head_def tail_width_def fold_be_single)
  next
    case 3
    then show thesis
      by (intro that [of 25 "to_be_bytes (ucast n :: u16)"])
        (auto simp: write_head_def tail_width_def fold_be_to_be_bytes ucast_ucast_le)
  next
    case 4
    then show thesis
      by (intro that [of 26 "to_be_bytes (ucast n :: u32)"])
        (auto simp: write_head_def tail_width_def fold_be_to_be_bytes ucast_ucast_le)
  next
    case 5
    then show thesis
      by (intro that [of 27 "to_be_bytes n"])
        (auto simp: write_head_def tail_width_def fold_be_to_be_bytes)
  qed
qed

text \<open>The two fields of the initial byte.\<close>

lemma initial_byte_fields:
  fixes m a :: u8
  assumes "m < 8" and "a < 32"
  shows "drop_bit 5 (push_bit 5 m OR a) = m" "(push_bit 5 m OR a) AND 0x1f = a"
proof -
  have m: "bit m i \<Longrightarrow> i < 3" for i
  proof (rule ccontr)
    assume b: "bit m i" and "\<not> i < 3"
    have "take_bit 3 m = m" using assms(1)
      by (simp add: word_unat_eq_iff unsigned_take_bit_eq take_bit_nat_eq_self word_less_nat_alt)
    then have "bit (take_bit 3 m) i" using b by simp
    then show False using \<open>\<not> i < 3\<close> by (simp add: bit_simps)
  qed
  have a: "bit a i \<Longrightarrow> i < 5" for i
  proof (rule ccontr)
    assume b: "bit a i" and "\<not> i < 5"
    have "take_bit 5 a = a" using assms(2)
      by (simp add: word_unat_eq_iff unsigned_take_bit_eq take_bit_nat_eq_self word_less_nat_alt)
    then have "bit (take_bit 5 a) i" using b by simp
    then show False using \<open>\<not> i < 5\<close> by (simp add: bit_simps)
  qed
  show "drop_bit 5 (push_bit 5 m OR a) = m"
    by (rule bit_word_eqI) (auto simp: bit_simps dest: m a)
  have "(push_bit 5 m OR a) AND mask 5 = a"
    by (rule bit_word_eqI) (auto simp: bit_simps dest: m a)
  then show "(push_bit 5 m OR a) AND 0x1f = a" by (simp add: mask_eq_exp_minus_1)
qed

text \<open>Heads are self-delimiting: a head is determined by any buffer that starts with it.\<close>

lemma write_head_prefix_free:
  assumes "write_head m n @ x = write_head m' n' @ y" and "m < 8" and "m' < 8"
  shows "m = m' \<and> n = n' \<and> x = y"
proof -
  obtain a t where h: "write_head m n = (push_bit 5 m OR a) # t" "a \<le> 27" "length t = tail_width a"
    "n = (if a \<le> 23 then ucast a else fold_be t)" by (rule write_head_form)
  obtain a' t' where h': "write_head m' n' = (push_bit 5 m' OR a') # t'" "a' \<le> 27"
    "length t' = tail_width a'" "n' = (if a' \<le> 23 then ucast a' else fold_be t')"
    by (rule write_head_form)
  have lt: "a < 32" "a' < 32" using h(2) h'(2) by (auto intro: order_le_less_trans)
  have byte: "push_bit 5 m OR a = push_bit 5 m' OR a'" and rest: "t @ x = t' @ y"
    using assms(1) by (simp_all add: h(1) h'(1))
  have "m = m'" using initial_byte_fields(1) [OF assms(2) lt(1)] initial_byte_fields(1) [OF assms(3) lt(2)]
      byte by simp
  moreover have aa: "a = a'"
    using initial_byte_fields(2) [OF assms(2) lt(1)] initial_byte_fields(2) [OF assms(3) lt(2)]
      byte by simp
  moreover have "t = t' \<and> x = y" using rest h(3) h'(3) aa by simp
  ultimately show ?thesis using h(4) h'(4) by simp
qed

end
