(* ===== verification/BTreeMap.thy ===== *)
theory BTreeMap
  imports Prelude
begin

text \<open>
  Rust's \<open>BTreeMap\<close> as its iteration order: an association list with strictly increasing
  keys. The interface \<open>ordered_map\<close> states what the map's clients rely on, and the
  operations below satisfy it.
\<close>

section \<open>The interface\<close>

locale ordered_map =
  fixes emp :: "'m"
    and look :: "'m \<Rightarrow> 'k \<Rightarrow> 'v option"
    and ins :: "'k \<Rightarrow> 'v \<Rightarrow> 'm \<Rightarrow> 'm"
    and del :: "'k \<Rightarrow> 'm \<Rightarrow> 'm"
    and inv :: "'m \<Rightarrow> bool"
  assumes look_emp: "look emp k = None"
    and look_ins: "inv m \<Longrightarrow> look (ins k v m) j = (if j = k then Some v else look m j)"
    and look_del: "inv m \<Longrightarrow> look (del k m) j = (if j = k then None else look m j)"
    and inv_emp: "inv emp"
    and inv_ins: "inv m \<Longrightarrow> inv (ins k v m)"
    and inv_del: "inv m \<Longrightarrow> inv (del k m)"
    and ext: "inv m \<Longrightarrow> inv n \<Longrightarrow> look m = look n \<Longrightarrow> m = n"
begin

lemma ins_ins: "inv m \<Longrightarrow> ins k v (ins k w m) = ins k v m"
  by (rule ext) (auto simp: look_ins inv_ins)

lemma ins_commute: "inv m \<Longrightarrow> j \<noteq> k \<Longrightarrow> ins j v (ins k w m) = ins k w (ins j v m)"
  by (rule ext) (auto simp: look_ins inv_ins)

lemma del_ins_same: "inv m \<Longrightarrow> look m k = None \<Longrightarrow> del k (ins k v m) = m"
  by (rule ext) (auto simp: look_ins look_del inv_ins inv_del)

lemma del_ins_other: "inv m \<Longrightarrow> j \<noteq> k \<Longrightarrow> del j (ins k v m) = ins k v (del j m)"
  by (rule ext) (auto simp: look_ins look_del inv_ins inv_del)

lemma ins_look: "inv m \<Longrightarrow> look m k = Some v \<Longrightarrow> ins k v m = m"
  by (rule ext) (auto simp: look_ins inv_ins)

lemma del_absent: "inv m \<Longrightarrow> look m k = None \<Longrightarrow> del k m = m"
  by (rule ext) (auto simp: look_del inv_del)

end

section \<open>The sorted association list\<close>

fun bt_get :: "('k \<times> 'v) list \<Rightarrow> 'k \<Rightarrow> 'v option" where
  "bt_get [] k = None"
| "bt_get ((a, b) # m) k = (if a = k then Some b else bt_get m k)"

fun bt_insert :: "'k::linorder \<Rightarrow> 'v \<Rightarrow> ('k \<times> 'v) list \<Rightarrow> ('k \<times> 'v) list" where
  "bt_insert k v [] = [(k, v)]"
| "bt_insert k v ((a, b) # m) =
     (if k < a then (k, v) # (a, b) # m
      else if k = a then (k, v) # m else (a, b) # bt_insert k v m)"

fun bt_remove :: "'k \<Rightarrow> ('k \<times> 'v) list \<Rightarrow> ('k \<times> 'v) list" where
  "bt_remove k [] = []"
| "bt_remove k ((a, b) # m) = (if a = k then m else (a, b) # bt_remove k m)"

definition bt_keys :: "('k \<times> 'v) list \<Rightarrow> 'k set" where
  "bt_keys m = fst ` set m"

definition wf_bt :: "('k::linorder \<times> 'v) list \<Rightarrow> bool" where
  "wf_bt m \<longleftrightarrow> sorted_wrt (<) (map fst m)"

lemma bt_keys_simps [simp]:
  "bt_keys [] = {}" "bt_keys ((a, b) # m) = insert a (bt_keys m)"
  by (auto simp: bt_keys_def)

lemma wf_bt_simps [simp]:
  "wf_bt []"
  "wf_bt ((a, b) # m) \<longleftrightarrow> (\<forall>k \<in> bt_keys m. a < k) \<and> wf_bt m"
  by (auto simp: wf_bt_def bt_keys_def)

lemma bt_get_eq_map_of: "bt_get m = map_of m"
  by (rule ext) (induct_tac m; auto)

lemma bt_get_None_iff: "bt_get m k = None \<longleftrightarrow> k \<notin> bt_keys m"
  by (simp add: bt_get_eq_map_of map_of_eq_None_iff bt_keys_def)

lemma bt_get_in_set: "bt_get m k = Some v \<Longrightarrow> (k, v) \<in> set m"
  by (simp add: bt_get_eq_map_of map_of_SomeD)

lemma wf_bt_distinct: "wf_bt m \<Longrightarrow> distinct (map fst m)"
  unfolding wf_bt_def using strict_sorted_iff by blast

lemma bt_get_Some_iff: "wf_bt m \<Longrightarrow> bt_get m k = Some v \<longleftrightarrow> (k, v) \<in> set m"
  by (simp add: bt_get_eq_map_of wf_bt_distinct)

lemma keys_bt_insert [simp]: "bt_keys (bt_insert k v m) = insert k (bt_keys m)"
  by (induction k v m rule: bt_insert.induct) auto

lemma keys_bt_remove: "wf_bt m \<Longrightarrow> bt_keys (bt_remove k m) = bt_keys m - {k}"
  by (induction k m rule: bt_remove.induct) auto

lemma wf_bt_insert: "wf_bt m \<Longrightarrow> wf_bt (bt_insert k v m)"
  by (induction k v m rule: bt_insert.induct) (auto simp: not_less dest: order_less_trans)

lemma wf_bt_remove: "wf_bt m \<Longrightarrow> wf_bt (bt_remove k m)"
  by (induction k m rule: bt_remove.induct) (auto simp: keys_bt_remove)

lemma bt_get_insert: "bt_get (bt_insert k v m) j = (if j = k then Some v else bt_get m j)"
  by (induction k v m rule: bt_insert.induct) auto

lemma bt_get_remove:
  "wf_bt m \<Longrightarrow> bt_get (bt_remove k m) j = (if j = k then None else bt_get m j)"
  by (induction k m rule: bt_remove.induct) (auto simp: bt_get_None_iff)

lemma wf_bt_ext:
  assumes "wf_bt m" and "wf_bt n" and "bt_get m = bt_get n"
  shows "m = n"
  using assms
proof (induction m arbitrary: n)
  case Nil
  then show ?case by (cases n) (auto simp: fun_eq_iff split: if_splits)
next
  case (Cons x m)
  obtain a b where x: "x = (a, b)" by (cases x)
  from Cons.prems(3) x obtain c d n' where n: "n = (c, d) # n'"
    by (cases n) (auto simp: fun_eq_iff split: if_splits)
  have keys: "insert a (bt_keys m) = insert c (bt_keys n')"
    using Cons.prems(3) unfolding x n
    by (metis (no_types, opaque_lifting) bt_get_None_iff bt_keys_simps(2) set_eqI)
  have ac: "a = c"
  proof (rule ccontr)
    assume "a \<noteq> c"
    with keys have "c \<in> bt_keys m" and "a \<in> bt_keys n'" by auto
    then show False using Cons.prems(1,2) by (auto simp: x n dest: order_less_asym)
  qed
  have "b = d" using fun_cong [OF Cons.prems(3), of a] ac by (simp add: x n)
  have "bt_get m j = bt_get n' j" for j
  proof (cases "j = a")
    case True
    have "a \<notin> bt_keys m" "a \<notin> bt_keys n'"
      using Cons.prems(1,2) ac by (auto simp: x n)
    then show ?thesis using True by (metis bt_get_None_iff)
  next
    case False
    then show ?thesis using fun_cong [OF Cons.prems(3), of j] ac by (simp add: x n)
  qed
  then have "m = n'" using Cons.prems(1,2) by (intro Cons.IH) (auto simp: x n)
  with ac \<open>b = d\<close> show ?case by (simp add: x n)
qed

interpretation bt: ordered_map "[]" bt_get bt_insert bt_remove
    "wf_bt :: ('k::linorder \<times> 'v) list \<Rightarrow> bool"
  by unfold_locales
    (auto simp: bt_get_insert bt_get_remove wf_bt_insert wf_bt_remove intro: wf_bt_ext)

section \<open>Derived operations\<close>

definition bt_contains :: "('k \<times> 'v) list \<Rightarrow> 'k \<Rightarrow> bool" where
  "bt_contains m k = (bt_get m k \<noteq> None)"

lemma bt_contains_iff: "bt_contains m k \<longleftrightarrow> k \<in> bt_keys m"
  by (simp add: bt_contains_def bt_get_None_iff)

lemma bt_contains_insert [simp]: "bt_contains (bt_insert k v m) j \<longleftrightarrow> j = k \<or> bt_contains m j"
  by (auto simp: bt_contains_def bt_get_insert)

text \<open>\<open>FromIterator\<close>: successive insertion, the last value of a key wins.\<close>

definition bt_from_list :: "('k::linorder \<times> 'v) list \<Rightarrow> ('k \<times> 'v) list" where
  "bt_from_list kvs = fold (\<lambda>(k, v) m. bt_insert k v m) kvs []"

lemma wf_bt_from_list: "wf_bt (bt_from_list kvs)"
proof -
  have "wf_bt m \<Longrightarrow> wf_bt (fold (\<lambda>(k, v) m. bt_insert k v m) kvs m)" for m
    by (induction kvs arbitrary: m) (auto simp: wf_bt_insert split: prod.splits)
  then show ?thesis by (simp add: bt_from_list_def)
qed

lemma bt_get_fold:
  "bt_get (fold (\<lambda>(k, v) m. bt_insert k v m) kvs m) j =
     (case bt_get (rev kvs) j of Some v \<Rightarrow> Some v | None \<Rightarrow> bt_get m j)"
proof (induction kvs arbitrary: m rule: rev_induct)
  case Nil
  then show ?case by simp
next
  case (snoc x kvs)
  then show ?case by (cases x) (simp add: bt_get_insert)
qed

lemma bt_from_list_id:
  assumes m: "wf_bt m"
  shows "bt_from_list m = m"
proof (rule wf_bt_ext [OF wf_bt_from_list m])
  have rev: "bt_get (rev m) = bt_get m"
    using wf_bt_distinct [OF m]
    by (simp add: bt_get_eq_map_of, intro map_of_inject_set [THEN iffD2])
      (auto simp: rev_map [symmetric])
  show "bt_get (bt_from_list m) = bt_get m"
    by (rule ext) (simp add: bt_from_list_def bt_get_fold rev split: option.splits)
qed

end
