(* ===== verification/StrictProps.thy ===== *)
theory StrictProps
  imports Strict
begin

text \<open>
  What the strict parser guarantees. \<open>item_wf\<close> is the well-formedness of a parsed item
  against the bytes it was read from (RFC 8949, section 3): the head of every item agrees
  with its kind and argument, the members lie one after the other inside the content, a
  definite length is the number of members or bytes that follow. \<open>parse_sound\<close> shows that
  every accepted item has it, together with the depth, item and definiteness limits, and
  \<open>parse_enough_fuel\<close> that the fuel of \<open>root\<close> always suffices.
\<close>

section \<open>Well-formed items\<close>

fun consecutive :: "nat \<Rightarrow> item list \<Rightarrow> nat \<Rightarrow> bool" where
  "consecutive a [] b \<longleftrightarrow> a = b"
| "consecutive a (c # cs) b \<longleftrightarrow> it_start c = a \<and> consecutive (it_end c) cs b"

fun major_of :: "kind \<Rightarrow> u8" where
  "major_of KUnsigned = 0" | "major_of KNegative = 1" | "major_of KBytes = 2"
| "major_of KText = 3" | "major_of KArray = 4" | "major_of KMap = 5"
| "major_of (KTag t) = 6" | "major_of (KSimple s) = 7" | "major_of KFloat = 7"

text \<open>The members of an item, by kind; \<open>stop\<close> is where the content ends.\<close>

definition members_wf :: "kind \<Rightarrow> bool \<Rightarrow> u64 \<Rightarrow> nat \<Rightarrow> item list \<Rightarrow> nat \<Rightarrow> bool" where
  "members_wf kind indefinite argument start members stop =
     (case kind of
        KTag t \<Rightarrow> \<not> indefinite \<and> argument = t \<and> length members = 1 \<and> consecutive start members stop
      | KArray \<Rightarrow> consecutive start members stop \<and> (indefinite \<or> length members = unat argument)
      | KMap \<Rightarrow> members = []
      | KBytes \<Rightarrow>
          if indefinite
          then consecutive start members stop \<and> (\<forall>c \<in> set members. it_kind c = KBytes \<and> \<not> it_indefinite c)
          else members = [] \<and> stop = start + unat argument
      | KText \<Rightarrow>
          if indefinite
          then consecutive start members stop \<and> (\<forall>c \<in> set members. it_kind c = KText \<and> \<not> it_indefinite c)
          else members = [] \<and> stop = start + unat argument
      | _ \<Rightarrow> members = [] \<and> \<not> indefinite \<and> stop = start)"

definition head_wf :: "bytes \<Rightarrow> kind \<Rightarrow> nat \<Rightarrow> nat \<Rightarrow> bool" where
  "head_wf data kind start content_start \<longleftrightarrow>
     start < content_start \<and> content_start \<le> length data \<and>
     drop_bit 5 (data ! start) = major_of kind"

fun item_wf :: "bytes \<Rightarrow> item \<Rightarrow> bool" where
  "item_wf data (Item kind start content_start stop indefinite children) \<longleftrightarrow>
     head_wf data kind start content_start \<and>
     content_start \<le> stop \<and> stop \<le> length data \<and>
     (indefinite \<longrightarrow> content_start < stop \<and> data ! (stop - 1) = 0xff) \<and>
     members_wf kind indefinite (head_argument (slice data start content_start)) content_start
       children (if indefinite then stop - 1 else stop) \<and>
     (\<forall>c \<in> set children. item_wf data c)"

fun item_depth :: "item \<Rightarrow> nat" where
  "item_depth (Item kind start content_start stop indefinite children) =
     (if children = [] then 0 else Suc (Max (set (map item_depth children))))"

fun item_count :: "item \<Rightarrow> nat" where
  "item_count (Item kind start content_start stop indefinite children) =
     1 + sum_list (map item_count children)"

fun all_definite :: "item \<Rightarrow> bool" where
  "all_definite (Item kind start content_start stop indefinite children) \<longleftrightarrow>
     \<not> indefinite \<and> (\<forall>c \<in> set children. all_definite c)"

section \<open>How a step changes the parser\<close>

definition stays :: "parser \<Rightarrow> parser \<Rightarrow> bool" where
  "stays p p' \<longleftrightarrow> pa_data p' = pa_data p \<and> pa_limits p' = pa_limits p \<and>
     pa_reject_duplicate_keys p' = pa_reject_duplicate_keys p \<and>
     pa_pos p \<le> pa_pos p' \<and> pa_items p \<le> pa_items p' \<and>
     (pa_pos p \<le> length (pa_data p) \<longrightarrow> pa_pos p' \<le> length (pa_data p)) \<and>
     (pa_items p \<le> cl_max_items (pa_limits p) \<longrightarrow> pa_items p' \<le> cl_max_items (pa_limits p))"

lemma stays_refl [simp]: "stays p p"
  by (simp add: stays_def)

lemma stays_trans [trans]: "stays p q \<Longrightarrow> stays q r \<Longrightarrow> stays p r"
  by (auto simp: stays_def)

lemma stays_same:
  assumes "stays p p'"
  shows "pa_data p' = pa_data p" "pa_limits p' = pa_limits p"
    "pa_reject_duplicate_keys p' = pa_reject_duplicate_keys p"
  using assms by (auto simp: stays_def)

text \<open>The contract of one complete item read at nesting depth \<open>depth\<close>.\<close>

definition reads :: "nat \<Rightarrow> parser \<Rightarrow> item \<Rightarrow> parser \<Rightarrow> bool" where
  "reads depth p item p' \<longleftrightarrow> stays p p' \<and> pa_pos p < pa_pos p' \<and> pa_pos p' \<le> length (pa_data p) \<and>
     item_wf (pa_data p) item \<and> it_start item = pa_pos p \<and> it_end item = pa_pos p' \<and>
     pa_items p + item_count item \<le> pa_items p' \<and> pa_items p' \<le> cl_max_items (pa_limits p) \<and>
     depth + item_depth item \<le> cl_max_depth (pa_limits p) \<and>
     (cl_require_definite (pa_limits p) \<longrightarrow> all_definite item)"

definition child_reads :: "nat \<Rightarrow> child_parser \<Rightarrow> bool" where
  "child_reads depth child \<longleftrightarrow>
     (\<forall>p item p'. child p = Some (Inr (item, p')) \<longrightarrow> reads depth p item p')"

lemma child_readsD: "child_reads depth child \<Longrightarrow> child p = Some (Inr (item, p')) \<Longrightarrow> reads depth p item p'"
  by (simp add: child_reads_def)

section \<open>Heads\<close>

lemma byte_ok:
  assumes "byte p = Inr (b, p')"
  shows "stays p p' \<and> pa_pos p' = pa_pos p + 1 \<and> pa_pos p < length (pa_data p) \<and>
    pa_items p' = pa_items p \<and> b = pa_data p ! pa_pos p"
  using assms by (auto simp: byte_def result_simps get_at_def stays_def split: if_splits)

lemma count_item_ok:
  "count_item p = Inr p' \<longleftrightarrow>
    pa_items p + 1 < usize_limit \<and> pa_items p + 1 \<le> cl_max_items (pa_limits p) \<and>
    p' = p\<lparr>pa_items := pa_items p + 1\<rparr>"
  by (auto simp: count_item_def result_simps split: if_splits)

lemma length_slice [simp]: "a \<le> b \<Longrightarrow> b \<le> length xs \<Longrightarrow> length (slice xs a b) = b - a"
  by (simp add: slice_def)

lemma slice_cons: "a < b \<Longrightarrow> a < length xs \<Longrightarrow> slice xs a b = xs ! a # slice xs (Suc a) b"
  by (simp add: slice_def Cons_nth_drop_Suc [symmetric] take_Cons')

lemma uint_ok:
  assumes "uint additional p = Inr (argument, p')"
  shows "stays p p' \<and> pa_items p' = pa_items p \<and> 
    (argument = None \<longleftrightarrow> additional = 31) \<and>
    (argument = None \<longrightarrow> p' = p) \<and>
    (pa_pos p \<le> length (pa_data p) \<longrightarrow> (\<forall>v. argument = Some v \<longrightarrow>
      v = (if additional \<le> 23 then ucast additional
        else fold_be (slice (pa_data p) (pa_pos p) (pa_pos p')))))"
  using assms
  by (auto simp: uint_def result_simps get_slice_def stays_def uint_width_def split: if_splits option.splits)


lemma head_argument_slice:
  assumes "a < b" and "b \<le> length data"
  shows "head_argument (slice data a b) =
    (if data ! a AND 0x1f \<le> 23 then ucast (data ! a AND 0x1f) else fold_be (slice data (Suc a) b))"
  using assms by (simp add: head_argument_def slice_cons)

lemma parse_head_ok:
  assumes "parse_head depth p = Inr (h, p')"
  shows "stays p p'" "pa_pos p < pa_pos p'" "pa_pos p' \<le> length (pa_data p)"
    "pa_items p' = pa_items p + 1" "pa_items p' \<le> cl_max_items (pa_limits p)"
    "depth \<le> cl_max_depth (pa_limits p)" "hd_start h = pa_pos p"
    "hd_major h = drop_bit 5 (pa_data p ! pa_pos p)"
    "hd_argument h = None \<longrightarrow> 2 \<le> hd_major h \<and> hd_major h \<le> 5 \<and> \<not> cl_require_definite (pa_limits p)"
    "hd_argument h = Some v \<longrightarrow> v = head_argument (slice (pa_data p) (pa_pos p) (pa_pos p'))"
proof -
  obtain p1 p2 initial argument where depth: "depth \<le> cl_max_depth (pa_limits p)"
    and p1: "count_item p = Inr p1" and p2: "byte p1 = Inr (initial, p2)"
    and p3: "uint (initial AND 0x1f) p2 = Inr (argument, p')"
    and def: "argument = None \<longrightarrow> 2 \<le> drop_bit 5 initial \<and> drop_bit 5 initial \<le> 5 \<and>
      \<not> cl_require_definite (pa_limits p')"
    and h: "h = \<lparr>hd_start = pa_pos p1, hd_major = drop_bit 5 initial,
      hd_additional = initial AND 0x1f, hd_argument = argument\<rparr>"
    using assms by (auto simp: parse_head_def Let_def result_simps split: if_splits)
  note c = p1 [unfolded count_item_ok] and b = byte_ok [OF p2] and u = uint_ok [OF p3]
  have s1: "stays p p1" using c by (auto simp: stays_def)
  have s2: "stays p1 p2" and s3: "stays p2 p'" using b u by auto
  show st: "stays p p'" using s1 s2 s3 by (blast intro: stays_trans)
  have pos: "pa_pos p < length (pa_data p)" "pa_pos p2 = pa_pos p + 1" "pa_data p2 = pa_data p"
    using b c by (auto simp: stays_def)
  show lt: "pa_pos p < pa_pos p'" using pos s3 by (simp add: stays_def)
  show le: "pa_pos p' \<le> length (pa_data p)" using pos s3 by (simp add: stays_def)
  show "pa_items p' = pa_items p + 1" "pa_items p' \<le> cl_max_items (pa_limits p)"
    using c b u by auto
  show "depth \<le> cl_max_depth (pa_limits p)" by (rule depth)
  show "hd_start h = pa_pos p" "hd_major h = drop_bit 5 (pa_data p ! pa_pos p)"
    using h c b by auto
  show "hd_argument h = None \<longrightarrow> 2 \<le> hd_major h \<and> hd_major h \<le> 5 \<and> \<not> cl_require_definite (pa_limits p)"
    using def h st by (simp add: stays_def)
  have init: "pa_data p ! pa_pos p = initial" using b c by auto
  show "hd_argument h = Some v \<longrightarrow> v = head_argument (slice (pa_data p) (pa_pos p) (pa_pos p'))"
  proof
    assume "hd_argument h = Some v"
    then have "argument = Some v" using h by simp
    then have "v = (if initial AND 0x1f \<le> 23 then ucast (initial AND 0x1f)
        else fold_be (slice (pa_data p2) (pa_pos p2) (pa_pos p')))"
      using u pos(1,2) unfolding pos(3) by (metis Suc_eq_plus1 Suc_leI)
    then show "v = head_argument (slice (pa_data p) (pa_pos p) (pa_pos p'))"
      unfolding head_argument_slice [OF lt le] init pos(2,3) by simp
  qed
qed

section \<open>Loops\<close>

lemma at_break_iff: "at_break p \<longleftrightarrow> pa_pos p < length (pa_data p) \<and> pa_data p ! pa_pos p = 0xff"
  by (simp add: at_break_def get_at_def)

lemma stays_skip_break: "at_break p \<Longrightarrow> stays p (skip_break p)"
  by (auto simp: at_break_iff skip_break_def stays_def)

lemma stays_set_pos:
  "pa_pos p \<le> stop \<Longrightarrow> stop \<le> length (pa_data p) \<Longrightarrow> stays p (p\<lparr>pa_pos := stop\<rparr>)"
  by (auto simp: stays_def)

text \<open>A run of consecutive members, all read at \<open>depth\<close>.\<close>

definition reads_all :: "nat \<Rightarrow> parser \<Rightarrow> item list \<Rightarrow> parser \<Rightarrow> bool" where
  "reads_all depth p items p' \<longleftrightarrow> stays p p' \<and> consecutive (pa_pos p) items (pa_pos p') \<and>
     (\<forall>c \<in> set items. item_wf (pa_data p) c) \<and>
     pa_items p + sum_list (map item_count items) \<le> pa_items p' \<and>
     (\<forall>c \<in> set items. depth + item_depth c \<le> cl_max_depth (pa_limits p)) \<and>
     (cl_require_definite (pa_limits p) \<longrightarrow> (\<forall>c \<in> set items. all_definite c))"

lemma reads_all_Nil: "reads_all depth p [] p"
  by (simp add: reads_all_def)

lemma reads_all_Cons:
  assumes "reads depth p item p1" and "reads_all depth p1 items p2"
  shows "reads_all depth p (item # items) p2"
  using assms by (auto simp: reads_all_def reads_def stays_def)

text \<open>The loops end either exactly after the last member or one break byte later.\<close>

definition closes :: "parser \<Rightarrow> parser \<Rightarrow> bool" where
  "closes q p' \<longleftrightarrow> at_break q \<and> p' = skip_break q"

lemma parse_chunks_ok:
  assumes child: "child_reads depth child"
  shows "parse_chunks child fuel kind p = Some (Inr (items, p')) \<Longrightarrow>
    \<exists>q. reads_all depth p items q \<and> closes q p' \<and>
      (\<forall>c \<in> set items. it_kind c = kind \<and> \<not> it_indefinite c)"
proof (induction fuel arbitrary: p items p')
  case 0
  then show ?case by simp
next
  case (Suc fuel)
  show ?case
  proof (cases "at_break p")
    case True
    then show ?thesis using Suc.prems by (auto simp: closes_def reads_all_Nil intro!: exI [of _ p])
  next
    case False
    then obtain chunk p1 rest where "child p = Some (Inr (chunk, p1))"
      and k: "it_kind chunk = kind" "\<not> it_indefinite chunk"
      and rest: "parse_chunks child fuel kind p1 = Some (Inr (rest, p'))"
      and items: "items = chunk # rest"
      using Suc.prems by (auto simp: result_simps split: if_splits)
    then have "reads depth p chunk p1" using child by (simp add: child_reads_def)
    with Suc.IH [OF rest] k show ?thesis unfolding items by (force intro: reads_all_Cons)
  qed
qed

lemma parse_members_ok:
  assumes child: "child_reads depth child"
  shows "parse_members child fuel remaining p = Some (Inr (items, p')) \<Longrightarrow>
    \<exists>q. reads_all depth p items q \<and>
      (case remaining of None \<Rightarrow> closes q p' | Some n \<Rightarrow> q = p' \<and> length items = n)"
proof (induction fuel arbitrary: remaining p items p')
  case 0
  then show ?case by simp
next
  case (Suc fuel)
  show ?case
  proof (cases "remaining = Some 0 \<or> remaining = None \<and> at_break p")
    case True
    then show ?thesis using Suc.prems by (auto simp: closes_def reads_all_Nil intro!: exI [of _ p])
  next
    case False
    then obtain m p1 rest where "child p = Some (Inr (m, p1))"
      and rest: "parse_members child fuel (map_option (\<lambda>n. n - 1) remaining) p1 = Some (Inr (rest, p'))"
      and items: "items = m # rest"
      using Suc.prems by (auto simp: result_simps split: if_splits)
    then have "reads depth p m p1" using child by (simp add: child_reads_def)
    with Suc.IH [OF rest] False show ?thesis unfolding items
      by (auto split: option.splits intro: reads_all_Cons)
  qed
qed

lemma parse_entries_ok:
  assumes child: "child_reads depth child"
  shows "parse_entries cb child fuel pairs parsed keys p = Some (Inr p') \<Longrightarrow>
    \<exists>q. stays p q \<and> (if pairs = None then closes q p' else q = p')"
proof (induction fuel arbitrary: parsed keys p p')
  case 0
  then show ?case by simp
next
  case (Suc fuel)
  show ?case
  proof (cases "pairs = Some parsed \<or> pairs = None \<and> at_break p")
    case True
    then show ?thesis using Suc.prems
      by (auto simp: closes_def split: if_splits intro!: exI [of _ p])
  next
    case False
    then obtain k p1 v p2 keys' where "child p = Some (Inr (k, p1))" "child p1 = Some (Inr (v, p2))"
      and rest: "parse_entries cb child fuel pairs (parsed + 1) keys' p2 = Some (Inr p')"
      using Suc.prems by (auto simp: result_simps split: if_splits)
    then have "stays p p1" "stays p1 p2" using child by (auto simp: child_reads_def reads_def)
    with Suc.IH [OF rest] show ?thesis by (meson stays_trans)
  qed
qed

section \<open>Contents\<close>

text \<open>The contract of the \<open>match\<close>: what follows the head, read with argument \<open>a\<close>.\<close>

definition content_reads ::
  "nat \<Rightarrow> parser \<Rightarrow> u64 option \<Rightarrow> kind \<Rightarrow> item list \<Rightarrow> parser \<Rightarrow> bool"
where
  "content_reads depth p a kind children p' \<longleftrightarrow> (\<exists>q. reads_all depth p children q \<or> children = []) \<and>
     stays p p' \<and>
     (a = None \<longrightarrow> pa_pos p < pa_pos p' \<and> pa_data p ! (pa_pos p' - 1) = 0xff) \<and>
     members_wf kind (a = None) (case a of Some v \<Rightarrow> v | None \<Rightarrow> 0) (pa_pos p) children
       (if a = None then pa_pos p' - 1 else pa_pos p') \<and>
     pa_items p + sum_list (map item_count children) \<le> pa_items p'"

lemma closes_facts:
  assumes "stays p q" and "closes q p'"
  shows "stays p p'" "pa_pos p < pa_pos p'" "pa_data p ! (pa_pos p' - 1) = 0xff"
    "pa_pos q = pa_pos p' - 1" "pa_items p' = pa_items q"
  using assms stays_trans [OF assms(1) stays_skip_break]
  by (auto simp: closes_def at_break_iff skip_break_def stays_def)

lemma parse_string_ok:
  assumes child: "child_reads depth child" and kind: "kind = KBytes \<or> kind = KText"
    and res: "parse_string child kind a p = Some (Inr (k, children, p'))"
  shows "k = kind \<and> content_reads depth p a kind children p'"
proof (cases a)
  case (Some l)
  then have "k = kind" "children = []" "pa_pos p' = pa_pos p + unat l"
    "pa_items p' = pa_items p" "stays p p'"
    using res by (auto simp: parse_string_def result_simps skip_string_def length_arg_def
        split: option.splits if_splits intro!: stays_set_pos)
  then show ?thesis using Some kind by (auto simp: content_reads_def members_wf_def)
next
  case None
  then obtain fuel where k: "k = kind" and
    "parse_chunks child fuel kind p = Some (Inr (children, p'))"
    using res by (auto simp: parse_string_def result_simps)
  from parse_chunks_ok [OF child this(2)] obtain q where q: "reads_all depth p children q"
    and c: "closes q p'" and m: "\<forall>c \<in> set children. it_kind c = kind \<and> \<not> it_indefinite c" by blast
  have "stays p q" using q by (simp add: reads_all_def)
  note f = closes_facts [OF this c]
  show ?thesis using None k q m f kind
    by (auto simp: content_reads_def members_wf_def reads_all_def)
qed

lemma parse_array_ok:
  assumes child: "child_reads depth child"
    and res: "parse_array child a p = Some (Inr (k, children, p'))"
  shows "k = KArray \<and> content_reads depth p a KArray children p'"
proof -
  obtain len fuel where k: "k = KArray"
    and len: "transpose_opt (map_option (\<lambda>l. length_arg l p) a) = Inr len"
    and m: "parse_members child fuel len p = Some (Inr (children, p'))"
    using res by (auto simp: parse_array_def result_simps)
  from parse_members_ok [OF child m] obtain q where q: "reads_all depth p children q"
    and c: "case len of None \<Rightarrow> closes q p' | Some n \<Rightarrow> q = p' \<and> length children = n" by blast
  have st: "stays p q" using q by (simp add: reads_all_def)
  show ?thesis
  proof (cases a)
    case None
    then have "closes q p'" using len c by simp
    note f = closes_facts [OF st this]
    show ?thesis using None k q f by (auto simp: content_reads_def members_wf_def reads_all_def)
  next
    case (Some l)
    then have "len = Some (unat l)"
      using len by (auto simp: length_arg_def split: if_splits)
    then show ?thesis using Some k q c by (auto simp: content_reads_def members_wf_def reads_all_def)
  qed
qed

lemma parse_map_ok:
  assumes child: "child_reads depth child"
    and res: "parse_map cb child a p = Some (Inr (k, children, p'))"
  shows "k = KMap \<and> content_reads depth p a KMap children p'"
proof -
  obtain pairs fuel keys where k: "k = KMap" "children = []"
    and len: "transpose_opt (map_option (\<lambda>l. length_arg l p) a) = Inr pairs"
    and m: "parse_entries cb child fuel pairs 0 keys p = Some (Inr p')"
    using res by (auto simp: parse_map_def result_simps)
  have none: "pairs = None \<longleftrightarrow> a = None" using len by (auto simp: result_simps)
  from parse_entries_ok [OF child m] obtain q where st: "stays p q"
    and c: "if pairs = None then closes q p' else q = p'" by blast
  show ?thesis
  proof (cases a)
    case None
    then have "closes q p'" using c none by simp
    from closes_facts [OF st this] show ?thesis using None k st
      by (auto simp: content_reads_def members_wf_def stays_def)
  next
    case (Some l)
    then show ?thesis using k c none st by (auto simp: content_reads_def members_wf_def stays_def)
  qed
qed

lemma parse_tag_ok:
  assumes child: "child_reads depth child"
    and res: "parse_tag child a p = Some (Inr (k, children, p'))"
  shows "(\<exists>t. k = KTag t) \<and> content_reads depth p a k children p'"
proof -
  obtain t inner where t: "a = Some t" "k = KTag t" "children = [inner]"
    and "child p = Some (Inr (inner, p'))"
    using res by (auto simp: parse_tag_def result_simps)
  then have r: "reads depth p inner p'" using child by (simp add: child_reads_def)
  from reads_all_Cons [OF r reads_all_Nil] r show ?thesis
    by (auto simp: content_reads_def members_wf_def t reads_def)
qed

lemma u8_major_7:
  fixes w :: u8
  assumes "w \<le> 7" "w \<noteq> 0" "w \<noteq> 1" "w \<noteq> 2" "w \<noteq> 3" "w \<noteq> 4" "w \<noteq> 5" "w \<noteq> 6"
  shows "w = 7"
proof -
  have "unat w \<le> 7" "unat w \<noteq> 0" "unat w \<noteq> 1" "unat w \<noteq> 2" "unat w \<noteq> 3" "unat w \<noteq> 4"
    "unat w \<noteq> 5" "unat w \<noteq> 6"
    using assms by (simp_all add: word_le_nat_alt word_unat_eq_iff)
  then have "unat w = 7" by linarith
  then show ?thesis by (simp add: word_unat_eq_iff)
qed

lemma major_le_7: "drop_bit 5 (w :: u8) \<le> 7"
proof -
  have "unat w < 256" using unsigned_less [of w] by simp
  then have "unat (drop_bit 5 w) \<le> 7"
    by (simp only: unsigned_drop_bit_eq) (simp add: drop_bit_eq_div take_bit_nat_eq_self)
  then show ?thesis by (simp add: word_le_nat_alt)
qed

lemma simple_kind_ok:
  "simple_kind additional a p = Inr k \<Longrightarrow> (\<exists>s. k = KSimple s) \<or> k = KFloat"
  by (auto simp: simple_kind_def result_simps split: if_splits)

lemma plain_content:
  "k \<in> {KUnsigned, KNegative, KFloat} \<or> (\<exists>s. k = KSimple s) \<Longrightarrow>
    content_reads depth p (Some v) k [] p"
  by (auto simp: content_reads_def members_wf_def)

lemma parse_content_ok:
  assumes child: "child_reads depth child" and major: "hd_major h \<le> 7"
    and none: "hd_argument h = None \<longrightarrow> 2 \<le> hd_major h \<and> hd_major h \<le> 5"
    and res: "parse_content cb child h p = Some (Inr (k, children, p'))"
  shows "major_of k = hd_major h \<and> content_reads depth p (hd_argument h) k children p'"
proof -
  consider "hd_major h = 0" | "hd_major h = 1" | "hd_major h = 2" | "hd_major h = 3"
    | "hd_major h = 4" | "hd_major h = 5" | "hd_major h = 6" | "hd_major h = 7"
    using u8_major_7 [OF major] by blast
  then show ?thesis
  proof cases
    case 1
    then show ?thesis using res by (auto simp: parse_content_def result_simps intro!: plain_content)
  next
    case 2
    then show ?thesis using res by (auto simp: parse_content_def result_simps intro!: plain_content)
  next
    case 3
    then show ?thesis using res parse_string_ok [OF child, of KBytes] by (force simp: parse_content_def)
  next
    case 4
    then show ?thesis using res parse_string_ok [OF child, of KText] by (force simp: parse_content_def)
  next
    case 5
    then show ?thesis using res parse_array_ok [OF child] by (force simp: parse_content_def)
  next
    case 6
    then show ?thesis using res parse_map_ok [OF child] by (force simp: parse_content_def)
  next
    case 7
    then show ?thesis using res parse_tag_ok [OF child] by (force simp: parse_content_def)
  next
    case 8
    then obtain v where v: "hd_argument h = Some v" using none by (cases "hd_argument h") auto
    then show ?thesis using 8 res
      by (auto simp: parse_content_def result_simps dest!: simple_kind_ok intro: plain_content)
  qed
qed

section \<open>Soundness of the descent\<close>

lemma content_members:
  assumes "content_reads depth p a k children p'" and "c \<in> set children"
  shows "item_wf (pa_data p) c" "depth + item_depth c \<le> cl_max_depth (pa_limits p)"
    "cl_require_definite (pa_limits p) \<longrightarrow> all_definite c"
  using assms by (auto simp: content_reads_def reads_all_def)

lemma child_reads_parse: "child_reads depth (parse cb fuel depth)"
proof (induction fuel arbitrary: depth)
  case 0
  then show ?case by (simp add: child_reads_def)
next
  case (Suc fuel)
  show ?case unfolding child_reads_def
  proof (intro allI impI)
    fix p item p'
    assume "parse cb (Suc fuel) depth p = Some (Inr (item, p'))"
    then obtain h p1 k children where head: "parse_head depth p = Inr (h, p1)"
      and content: "parse_content cb (parse cb fuel (depth + 1)) h p1 = Some (Inr (k, children, p'))"
      and item: "item = Item k (hd_start h) (pa_pos p1) (pa_pos p') (hd_argument h = None) children"
      by (auto simp: result_simps)
    note hd = parse_head_ok [OF head]
    have none: "hd_argument h = None \<longrightarrow> 2 \<le> hd_major h \<and> hd_major h \<le> 5" using hd(9) by blast
    have major: "hd_major h \<le> 7" unfolding hd(8) by (rule major_le_7)
    have c: "major_of k = hd_major h" "content_reads (depth + 1) p1 (hd_argument h) k children p'"
      using parse_content_ok [OF Suc.IH major none content] by auto
    note m = content_members [OF c(2)]
    have st1: "stays p1 p'" using c(2) by (simp add: content_reads_def)
    have same: "pa_data p1 = pa_data p" "pa_limits p1 = pa_limits p"
      using stays_same [OF hd(1)] by auto
    have le: "pa_pos p1 \<le> pa_pos p'" "pa_pos p' \<le> length (pa_data p)" "pa_items p1 \<le> pa_items p'"
      "pa_items p' \<le> cl_max_items (pa_limits p)"
      using st1 hd(3,5) same by (auto simp: stays_def)
    have head_wf: "head_wf (pa_data p) k (pa_pos p) (pa_pos p1)"
      using hd(2,3) c(1) hd(8) by (simp add: head_wf_def)
    have arg: "(case hd_argument h of Some v \<Rightarrow> v | None \<Rightarrow> 0) =
        (if hd_argument h = None then 0 else head_argument (slice (pa_data p) (pa_pos p) (pa_pos p1)))"
      using hd(10) by (auto split: option.splits)
    have members: "members_wf k (hd_argument h = None)
        (head_argument (slice (pa_data p) (pa_pos p) (pa_pos p1))) (pa_pos p1) children
        (if hd_argument h = None then pa_pos p' - 1 else pa_pos p')"
      using c(2) arg
      by (cases "hd_argument h") (auto simp: content_reads_def members_wf_def split: kind.splits)
    have wf: "item_wf (pa_data p) item"
      unfolding item using head_wf le(1,2) members m(1) c(2) same hd(7)
      by (auto simp: content_reads_def)
    have count: "pa_items p + item_count item \<le> pa_items p'"
      unfolding item using c(2) hd(4) by (auto simp: content_reads_def)
    have "\<forall>d \<in> set (map item_depth children). depth + 1 + d \<le> cl_max_depth (pa_limits p)"
      using m(2) same(2) by auto
    then have "depth + item_depth item \<le> cl_max_depth (pa_limits p)"
      unfolding item using hd(6) Max_in [of "set (map item_depth children)"] by fastforce
    moreover have "cl_require_definite (pa_limits p) \<longrightarrow> all_definite item"
      unfolding item using m(3) same(2) hd(9) by auto
    ultimately show "reads depth p item p'"
      using stays_trans [OF hd(1) st1] hd(2,7) le wf count by (simp add: reads_def item)
  qed
qed

section \<open>Termination\<close>

definition returns :: "'a option \<Rightarrow> bool" where
  "returns m \<longleftrightarrow> m \<noteq> None"

lemma returns_Some [simp]: "returns (Some x)"
  by (simp add: returns_def)

lemma returns_thenF [simp]:
  "returns (thenF m f) \<longleftrightarrow> returns m \<and> (\<forall>x. m = Some (Inr x) \<longrightarrow> returns (f x))"
  by (auto simp: returns_def thenF_def split: option.splits sum.splits)

definition remaining_bytes :: "parser \<Rightarrow> nat" where
  "remaining_bytes p = length (pa_data p) - pa_pos p"

text \<open>\<open>child\<close> returns on every parser with fewer than \<open>n\<close> bytes left.\<close>

definition returns_below :: "nat \<Rightarrow> child_parser \<Rightarrow> bool" where
  "returns_below n child \<longleftrightarrow> (\<forall>p. remaining_bytes p < n \<longrightarrow> returns (child p))"

lemma reads_shorter: "reads depth p item p' \<Longrightarrow> remaining_bytes p' < remaining_bytes p"
  by (auto simp: reads_def stays_def remaining_bytes_def)

lemma child_shorter:
  "child_reads depth child \<Longrightarrow> child p = Some (Inr (item, p')) \<Longrightarrow>
    remaining_bytes p' < remaining_bytes p"
  by (blast intro: reads_shorter dest: child_readsD)

lemma parse_chunks_returns:
  assumes "child_reads depth child" and "returns_below n child"
  shows "remaining_bytes p < n \<Longrightarrow> remaining_bytes p < fuel \<Longrightarrow> returns (parse_chunks child fuel kind p)"
proof (induction fuel arbitrary: p)
  case 0
  then show ?case by simp
next
  case (Suc fuel)
  have "returns (child p)" using Suc.prems assms(2) by (simp add: returns_below_def)
  moreover have "returns (parse_chunks child fuel kind p1)" if "child p = Some (Inr (c, p1))" for c p1
    using child_shorter [OF assms(1) that] Suc.prems by (intro Suc.IH) auto
  ultimately show ?case by auto
qed

lemma parse_members_returns:
  assumes "child_reads depth child" and "returns_below n child"
  shows "remaining_bytes p < n \<Longrightarrow> remaining_bytes p < fuel \<Longrightarrow> returns (parse_members child fuel r p)"
proof (induction fuel arbitrary: p r)
  case 0
  then show ?case by simp
next
  case (Suc fuel)
  have "returns (child p)" using Suc.prems assms(2) by (simp add: returns_below_def)
  moreover have "returns (parse_members child fuel r' p1)" if "child p = Some (Inr (c, p1))" for c p1 r'
    using child_shorter [OF assms(1) that] Suc.prems by (intro Suc.IH) auto
  ultimately show ?case by auto
qed

lemma parse_entries_returns:
  assumes "child_reads depth child" and "returns_below n child"
  shows "remaining_bytes p < n \<Longrightarrow> remaining_bytes p < fuel \<Longrightarrow>
    returns (parse_entries cb child fuel pairs parsed keys p)"
proof (induction fuel arbitrary: p parsed keys)
  case 0
  then show ?case by simp
next
  case (Suc fuel)
  have ret: "returns (child q)" if "remaining_bytes q \<le> remaining_bytes p" for q
    using that Suc.prems assms(2) by (simp add: returns_below_def)
  have val: "returns (child p1)" if "child p = Some (Inr (k, p1))" for k p1
    using child_shorter [OF assms(1) that] by (intro ret) simp
  moreover have "returns (parse_entries cb child fuel pairs parsed' keys' p2)"
    if "child p = Some (Inr (k, p1))" and "child p1 = Some (Inr (v, p2))" for k p1 v p2 parsed' keys'
    using child_shorter [OF assms(1) that(1)] child_shorter [OF assms(1) that(2)] Suc.prems
    by (intro Suc.IH) auto
  ultimately show ?case using ret [of p] by auto
qed

lemma parse_content_returns:
  assumes child: "child_reads depth child" "returns_below n child" and "remaining_bytes p < n"
  shows "returns (parse_content cb child h p)"
proof -
  have fuel: "remaining_bytes p < loop_fuel p" by (simp add: loop_fuel_def remaining_bytes_def)
  have "returns (child p)" using assms(2,3) by (simp add: returns_below_def)
  then show ?thesis
    using parse_chunks_returns [OF child assms(3) fuel] parse_members_returns [OF child assms(3) fuel]
      parse_entries_returns [OF child assms(3) fuel]
    by (auto simp: parse_content_def parse_string_def parse_array_def parse_map_def parse_tag_def
        split: option.splits)
qed

lemma parse_enough_fuel: "remaining_bytes p < fuel \<Longrightarrow> returns (parse cb fuel depth p)"
proof (induction fuel arbitrary: depth p)
  case 0
  then show ?case by simp
next
  case (Suc fuel)
  have below: "returns_below fuel (parse cb fuel (depth + 1))"
    using Suc.IH by (simp add: returns_below_def)
  have "returns (parse_content cb (parse cb fuel (depth + 1)) h p1)"
    if "parse_head depth p = Inr (h, p1)" for h p1
  proof -
    have "remaining_bytes p1 < fuel"
      using parse_head_ok(1-3) [OF that] Suc.prems by (auto simp: remaining_bytes_def stays_def)
    then show ?thesis by (rule parse_content_returns [OF child_reads_parse below])
  qed
  then show ?case by auto
qed

section \<open>The root item\<close>

lemma parse_root_returns: "returns (parse cb (loop_fuel p) depth p)"
  by (rule parse_enough_fuel) (simp add: loop_fuel_def remaining_bytes_def)

lemma root_policy_cases:
  "root_with_duplicate_policy cb data limits reject = Inr item \<longleftrightarrow>
     (\<exists>p'. parse cb (loop_fuel (new_parser data limits reject)) 0 (new_parser data limits reject) =
       Some (Inr (item, p')) \<and> pa_pos p' = length data)"
  by (auto simp: root_with_duplicate_policy_def Let_def split: option.splits sum.splits)

lemma root_policy_sound:
  assumes "root_with_duplicate_policy cb data limits reject = Inr item"
  shows "item_wf data item" "it_start item = 0" "it_end item = length data"
    "item_depth item \<le> cl_max_depth limits" "item_count item \<le> cl_max_items limits"
    "cl_require_definite limits \<longrightarrow> all_definite item"
  using assms child_readsD [OF child_reads_parse]
  by (force simp: root_policy_cases reads_def new_parser_def)+

end
