(* ===== verification/MessageBody.thy ===== *)
theory MessageBody
  imports StrictProps
begin

text \<open>
  The entry points of the strict layer (\<open>src/src/strict.rs\<close>, \<open>src/src/tag.rs\<close>): validation of
  one item, strict byte strings, and the message shapes by CBOR tag. An index
  \<open>children[i]\<close> is \<open>!\<close>; the lemmas show it in range wherever the code indexes.
\<close>

section \<open>Tags\<close>

definition CWT_PREFIX :: bytes where "CWT_PREFIX = [0xd8, 0x3d]"
definition ENCRYPT0_PREFIX :: bytes where "ENCRYPT0_PREFIX = [0xd0]"
definition MAC0_PREFIX :: bytes where "MAC0_PREFIX = [0xd1]"
definition SIGN1_PREFIX :: bytes where "SIGN1_PREFIX = [0xd2]"
definition ENCRYPT_PREFIX :: bytes where "ENCRYPT_PREFIX = [0xd8, 0x60]"
definition MAC_PREFIX :: bytes where "MAC_PREFIX = [0xd8, 0x61]"
definition SIGN_PREFIX :: bytes where "SIGN_PREFIX = [0xd8, 0x62]"
definition CBOR_SELF_PREFIX :: bytes where "CBOR_SELF_PREFIX = [0xd9, 0xd9, 0xf7]"

definition with_tag :: "bytes \<Rightarrow> bytes \<Rightarrow> bytes" where
  "with_tag tag data = tag @ data"

definition skip_tag :: "bytes \<Rightarrow> bytes \<Rightarrow> bytes" where
  "skip_tag tag data = (if take (length tag) data = tag then drop (length tag) data else data)"

section \<open>Validation of one item\<close>

definition validate_map :: "cbor2 \<Rightarrow> bytes \<Rightarrow> error + unit" where
  "validate_map cb data =
     andThen (root cb data default_limits) (\<lambda>item.
     if it_kind item \<noteq> KMap then Inl (UnexpectedType ''expected a CBOR map'') else Inr ())"

definition validate_array :: "cbor2 \<Rightarrow> bytes \<Rightarrow> error + unit" where
  "validate_array cb data =
     andThen (root cb data default_limits) (\<lambda>item.
     if it_kind item \<noteq> KArray then Inl (UnexpectedType ''expected a CBOR array'') else Inr ())"

definition independently_validated_array_members :: "cbor2 \<Rightarrow> bytes \<Rightarrow> error + bytes list" where
  "independently_validated_array_members cb data =
     andThen (root_with_duplicate_policy cb data default_limits False) (\<lambda>item.
     if it_kind item \<noteq> KArray then Inl (UnexpectedType ''expected a CBOR array'')
     else Inr (map (\<lambda>child. slice data (it_start child) (it_end child)) (it_children item)))"

definition validate_with_limits :: "cbor2 \<Rightarrow> bytes \<Rightarrow> cbor_limits \<Rightarrow> error + unit" where
  "validate_with_limits cb data limits =
     andThen (root cb data limits) (\<lambda>_.
     andThen (map_err Cbor (lib_validate_slice cb data)) (\<lambda>_. Inr ()))"

section \<open>Strict byte strings\<close>

fun append_bytes :: "bytes \<Rightarrow> item \<Rightarrow> error + bytes" where
  "append_bytes data (Item kind start content_start stop indefinite children) =
     (if kind \<noteq> KBytes then Inl (UnexpectedType ''expected a CBOR byte string'')
      else if indefinite then map_ok concat (traverse (append_bytes data) children)
      else Inr (slice data content_start stop))"

definition decode_bytes :: "cbor2 \<Rightarrow> bytes \<Rightarrow> error + bytes" where
  "decode_bytes cb data =
     andThen (root cb data default_limits) (\<lambda>item.
     if it_kind item \<noteq> KBytes then Inl (UnexpectedType ''expected a CBOR byte string'')
     else append_bytes data item)"

definition decode_optional_bytes :: "cbor2 \<Rightarrow> bytes \<Rightarrow> error + bytes option" where
  "decode_optional_bytes cb data =
     andThen (root cb data default_limits) (\<lambda>item.
     if it_kind item = KSimple 22 then Inr None
     else map_ok Some (append_bytes data item))"

section \<open>Message shapes\<close>

definition require_kind :: "item \<Rightarrow> kind \<Rightarrow> string \<Rightarrow> error + unit" where
  "require_kind item kind name =
     require (it_kind item = kind) (UnexpectedType (name @ '' has the wrong CBOR type''))"

definition require_bytes_or_null :: "item \<Rightarrow> string \<Rightarrow> error + unit" where
  "require_bytes_or_null item name =
     require (it_kind item = KBytes \<or> it_kind item = KSimple 22)
       (UnexpectedType (name @ '' must be a byte string or null''))"

lemma size_grandchild:
  assumes "i < length (it_children item)" and "c \<in> set (it_children (it_children item ! i))"
  shows "size c < size item"
proof -
  have child: "d \<in> set (it_children it) \<Longrightarrow> size d < size it" for d it
    by (cases it) (auto dest: size_list_estimation' [where f = size and y = "size d"])
  have "size c < size (it_children item ! i)" using assms(2) by (rule child)
  also have "\<dots> < size item" using assms(1) by (intro child) simp
  finally show ?thesis .
qed

function validate_recipient_shape :: "item \<Rightarrow> error + unit" where
  "validate_recipient_shape item =
     andThen (require_kind item KArray ''COSE_recipient'') (\<lambda>_.
     if \<not> (3 \<le> length (it_children item) \<and> length (it_children item) \<le> 4)
     then Inl (UnexpectedType ''COSE_recipient must contain 3 or 4 elements'')
     else
       andThen (require_kind (it_children item ! 0) KBytes ''recipient protected header'') (\<lambda>_.
       andThen (require_kind (it_children item ! 1) KMap ''recipient unprotected header'') (\<lambda>_.
       andThen (require_bytes_or_null (it_children item ! 2) ''recipient ciphertext'') (\<lambda>_.
       if length (it_children item) = 4 then
         (let recipients = it_children item ! 3 in
          andThen (require_kind recipients KArray ''nested recipients'') (\<lambda>_.
          if it_children recipients = []
          then Inl (Custom ''nested recipients array must not be empty'')
          else for_each validate_recipient_shape (it_children recipients)))
       else Inr ()))))"
  by pat_completeness auto
termination
  by (relation "measure size") (auto intro: size_grandchild [where i = 3])

declare validate_recipient_shape.simps [simp del]

definition validate_recipients :: "item \<Rightarrow> error + unit" where
  "validate_recipients item =
     andThen (require_kind item KArray ''recipients'') (\<lambda>_.
     if it_children item = [] then Inl (Custom ''recipients array must not be empty'')
     else for_each validate_recipient_shape (it_children item))"

definition validate_signature_shape :: "item \<Rightarrow> error + unit" where
  "validate_signature_shape signature =
     andThen (require_kind signature KArray ''COSE_Signature'') (\<lambda>_.
     if length (it_children signature) \<noteq> 3
     then Inl (UnexpectedType ''COSE_Signature must contain 3 elements'')
     else
       andThen (require_kind (it_children signature ! 0) KBytes ''signature protected header'') (\<lambda>_.
       andThen (require_kind (it_children signature ! 1) KMap ''signature unprotected header'') (\<lambda>_.
       require_kind (it_children signature ! 2) KBytes ''signature value'')))"

definition expected_elements :: "u64 \<Rightarrow> nat option" where
  "expected_elements tag =
     (if tag = 16 then Some 3
      else if tag \<in> {17, 18, 96, 98} then Some 4
      else if tag = 97 then Some 5 else None)"

definition validate_message_shape :: "item \<Rightarrow> u64 \<Rightarrow> error + unit" where
  "validate_message_shape item tag =
     andThen (ok_or (expected_elements tag)
         (Custom (''unsupported COSE tag '' @ show_nat (unat tag)))) (\<lambda>expected.
     if length (it_children item) \<noteq> expected
     then Inl (UnexpectedType (''COSE message with tag '' @ show_nat (unat tag) @
            '' must contain '' @ show_nat expected @ '' elements''))
     else
       andThen (require_kind (it_children item ! 0) KBytes ''protected header'') (\<lambda>_.
       andThen (require_kind (it_children item ! 1) KMap ''unprotected header'') (\<lambda>_.
       if tag = 16 then require_bytes_or_null (it_children item ! 2) ''ciphertext''
       else if tag = 17 \<or> tag = 18 then
         andThen (require_bytes_or_null (it_children item ! 2) ''payload'') (\<lambda>_.
         require_kind (it_children item ! 3) KBytes
           (if tag = 17 then ''MAC tag'' else ''signature''))
       else if tag = 96 then
         andThen (require_bytes_or_null (it_children item ! 2) ''ciphertext'') (\<lambda>_.
         validate_recipients (it_children item ! 3))
       else if tag = 97 then
         andThen (require_bytes_or_null (it_children item ! 2) ''payload'') (\<lambda>_.
         andThen (require_kind (it_children item ! 3) KBytes ''MAC tag'') (\<lambda>_.
         validate_recipients (it_children item ! 4)))
       else
         andThen (require_bytes_or_null (it_children item ! 2) ''payload'') (\<lambda>_.
         andThen (require_kind (it_children item ! 3) KArray ''signatures'') (\<lambda>_.
         if it_children (it_children item ! 3) = []
         then Inl (Custom ''signatures array must not be empty'')
         else for_each validate_signature_shape (it_children (it_children item ! 3)))))))"

definition is_tag :: "item \<Rightarrow> bool" where
  "is_tag item \<longleftrightarrow> (case it_kind item of KTag _ \<Rightarrow> True | _ \<Rightarrow> False)"

text \<open>\<open>if current.kind == Kind::Tag(t) { current = &current.children[0] }\<close>.\<close>

definition unwrap_tag :: "u64 \<Rightarrow> item \<Rightarrow> item" where
  "unwrap_tag t current = (if it_kind current = KTag t then it_children current ! 0 else current)"

definition message_body :: "cbor2 \<Rightarrow> bytes \<Rightarrow> u64 \<Rightarrow> cbor_limits \<Rightarrow> error + bytes" where
  "message_body cb data expected_tag limits =
     andThen (root cb data limits) (\<lambda>item.
     let current = unwrap_tag 55799 item;
         cwt_wrapped = (it_kind current = KTag 61);
         current = unwrap_tag 61 current;
         cose_tagged = (it_kind current = KTag expected_tag) in
     if \<not> cose_tagged \<and> is_tag current
     then Inl (Custom (''unexpected CBOR tag for COSE message, expected '' @ show_nat (unat expected_tag)))
     else
       let current = unwrap_tag expected_tag current in
       if cwt_wrapped \<and> \<not> cose_tagged then Inl (Custom ''CWT tag must wrap a tagged COSE message'')
       else if it_kind current \<noteq> KArray
       then Inl (UnexpectedType ''COSE message must be an array'')
       else
         andThen (validate_message_shape current expected_tag) (\<lambda>_.
         Inr (slice data (it_start current) (it_end current))))"

definition tagged_body :: "cbor2 \<Rightarrow> bytes \<Rightarrow> u64 \<Rightarrow> error + bytes" where
  "tagged_body cb data expected_tag =
     andThen (root cb data default_limits) (\<lambda>item.
     let current = unwrap_tag 55799 item in
     if it_kind current \<noteq> KTag expected_tag
     then Inl (Custom (''expected CBOR tag '' @ show_nat (unat expected_tag)))
     else
       let child = it_children current ! 0 in Inr (slice data (it_start child) (it_end child)))"

definition remove_known_tags :: "cbor2 \<Rightarrow> bytes \<Rightarrow> error + bytes" where
  "remove_known_tags cb data =
     andThen (root cb data default_limits) (\<lambda>item.
     let current = unwrap_tag 61 (unwrap_tag 55799 item);
         current =
           (if it_kind current \<in> {KTag 16, KTag 17, KTag 18, KTag 96, KTag 97, KTag 98}
            then it_children current ! 0 else current) in
     Inr (slice data (it_start current) (it_end current)))"

text \<open>\<open>tag::remove_cbor_tag\<close>: malformed input is returned unchanged.\<close>

definition remove_cbor_tag :: "cbor2 \<Rightarrow> bytes \<Rightarrow> bytes" where
  "remove_cbor_tag cb data = (case remove_known_tags cb data of Inr d \<Rightarrow> d | Inl _ \<Rightarrow> data)"

definition tag_message_body :: "cbor2 \<Rightarrow> bytes \<Rightarrow> u64 \<Rightarrow> error + bytes" where
  "tag_message_body cb data expected_tag = message_body cb data expected_tag default_limits"

section \<open>Shapes, declaratively\<close>

definition bytes_or_null :: "item \<Rightarrow> bool" where
  "bytes_or_null item \<longleftrightarrow> it_kind item = KBytes \<or> it_kind item = KSimple 22"

lemma require_kind_ok [guards]: "require_kind item kind name = Inr u \<longleftrightarrow> it_kind item = kind"
  by (auto simp: require_kind_def result_simps)

lemma require_bytes_or_null_ok [guards]:
  "require_bytes_or_null item name = Inr u \<longleftrightarrow> bytes_or_null item"
  by (auto simp: require_bytes_or_null_def bytes_or_null_def result_simps)

text \<open>
  RFC 9052: a COSE_recipient is \<open>[bstr, map, bstr / nil, ? [+ COSE_recipient]]\<close>, a
  COSE_Signature is \<open>[bstr, map, bstr]\<close>.
\<close>

inductive recipient_shape :: "item \<Rightarrow> bool" where
  flat: "it_kind r = KArray \<Longrightarrow> it_children r = [p, u, c] \<Longrightarrow> it_kind p = KBytes \<Longrightarrow>
    it_kind u = KMap \<Longrightarrow> bytes_or_null c \<Longrightarrow> recipient_shape r"
| nested: "it_kind r = KArray \<Longrightarrow> it_children r = [p, u, c, rs] \<Longrightarrow> it_kind p = KBytes \<Longrightarrow>
    it_kind u = KMap \<Longrightarrow> bytes_or_null c \<Longrightarrow> it_kind rs = KArray \<Longrightarrow> it_children rs \<noteq> [] \<Longrightarrow>
    (\<And>r'. r' \<in> set (it_children rs) \<Longrightarrow> recipient_shape r') \<Longrightarrow> recipient_shape r"

definition recipients_shape :: "item \<Rightarrow> bool" where
  "recipients_shape rs \<longleftrightarrow> it_kind rs = KArray \<and> it_children rs \<noteq> [] \<and>
     (\<forall>r \<in> set (it_children rs). recipient_shape r)"

definition signature_shape :: "item \<Rightarrow> bool" where
  "signature_shape s \<longleftrightarrow> it_kind s = KArray \<and>
     (\<exists>p u v. it_children s = [p, u, v] \<and> it_kind p = KBytes \<and> it_kind u = KMap \<and> it_kind v = KBytes)"

text \<open>The members after the two header buckets, by tag.\<close>

definition tail_shape :: "u64 \<Rightarrow> item list \<Rightarrow> bool" where
  "tail_shape tag ms \<longleftrightarrow>
     (tag = 16 \<and> (\<exists>c. ms = [c] \<and> bytes_or_null c)) \<or>
     (tag \<in> {17, 18} \<and> (\<exists>c t. ms = [c, t] \<and> bytes_or_null c \<and> it_kind t = KBytes)) \<or>
     (tag = 96 \<and> (\<exists>c r. ms = [c, r] \<and> bytes_or_null c \<and> recipients_shape r)) \<or>
     (tag = 97 \<and> (\<exists>c t r. ms = [c, t, r] \<and> bytes_or_null c \<and> it_kind t = KBytes \<and> recipients_shape r)) \<or>
     (tag = 98 \<and> (\<exists>c s. ms = [c, s] \<and> bytes_or_null c \<and> it_kind s = KArray \<and> it_children s \<noteq> [] \<and>
        (\<forall>x \<in> set (it_children s). signature_shape x)))"

definition message_shape :: "u64 \<Rightarrow> item \<Rightarrow> bool" where
  "message_shape tag item \<longleftrightarrow>
     (\<exists>p u ms. it_children item = p # u # ms \<and> it_kind p = KBytes \<and> it_kind u = KMap \<and> tail_shape tag ms)"

lemma length_eq_lists:
  "length xs = Suc n \<longleftrightarrow> (\<exists>y ys. xs = y # ys \<and> length ys = n)"
  by (cases xs) auto

lemma length_eq_numerals:
  "length xs = 3 \<longleftrightarrow> (\<exists>a b c. xs = [a, b, c])"
  "length xs = 4 \<longleftrightarrow> (\<exists>a b c d. xs = [a, b, c, d])"
  "length xs = 5 \<longleftrightarrow> (\<exists>a b c d e. xs = [a, b, c, d, e])"
  by (auto simp: numeral_eq_Suc length_eq_lists)

lemma validate_signature_shape_ok [guards]:
  "validate_signature_shape s = Inr u \<longleftrightarrow> signature_shape s"
  by (auto simp: validate_signature_shape_def signature_shape_def result_simps guards length_eq_numerals)

lemma validate_recipient_shape_ok [guards]:
  "validate_recipient_shape r = Inr () \<longleftrightarrow> recipient_shape r"
proof
  show "validate_recipient_shape r = Inr () \<Longrightarrow> recipient_shape r"
  proof (induction r rule: validate_recipient_shape.induct)
    case (1 r)
    have len: "length (it_children r) = 3 \<or> length (it_children r) = 4"
      and shape: "it_kind r = KArray" "it_kind (it_children r ! 0) = KBytes"
      "it_kind (it_children r ! 1) = KMap" "bytes_or_null (it_children r ! 2)"
      using "1.prems" unfolding validate_recipient_shape.simps [of r]
      by (auto simp: result_simps guards split: if_splits)
    show ?case
    proof (cases "length (it_children r) = 4")
      case True
      have rs: "it_kind (it_children r ! 3) = KArray" "it_children (it_children r ! 3) \<noteq> []"
        "\<forall>c \<in> set (it_children (it_children r ! 3)). validate_recipient_shape c = Inr ()"
        using "1.prems" True unfolding validate_recipient_shape.simps [of r]
        by (auto simp: Let_def result_simps guards split: if_splits)
      have "recipient_shape c" if "c \<in> set (it_children (it_children r ! 3))" for c
        using rs(3) that "1.IH" [OF _ _ _ _ _ True refl _ rs(2) that] shape rs(1) len
        by (auto simp: guards)
      then show ?thesis using True shape rs
        by (auto simp: length_eq_numerals intro: recipient_shape.nested)
    next
      case False
      then show ?thesis using len shape
        by (auto simp: length_eq_numerals intro: recipient_shape.flat)
    qed
  qed
  show "recipient_shape r \<Longrightarrow> validate_recipient_shape r = Inr ()"
    by (induction r rule: recipient_shape.induct)
      (subst validate_recipient_shape.simps; auto simp: result_simps guards)+
qed

lemma validate_recipients_ok [guards]: "validate_recipients rs = Inr u \<longleftrightarrow> recipients_shape rs"
  by (auto simp: validate_recipients_def recipients_shape_def result_simps guards)

lemma validate_message_shape_ok [guards]:
  "validate_message_shape item tag = Inr u \<longleftrightarrow> message_shape tag item"
proof -
  consider "tag = 16" | "tag = 17" | "tag = 18" | "tag = 96" | "tag = 97" | "tag = 98"
    | "tag \<notin> {16, 17, 18, 96, 97, 98}" by blast
  then show ?thesis
    by cases (auto simp: validate_message_shape_def message_shape_def tail_shape_def
        expected_elements_def result_simps guards length_eq_numerals)
qed

section \<open>The body\<close>

lemma item_wf_child: "item_wf data it \<Longrightarrow> c \<in> set (it_children it) \<Longrightarrow> item_wf data c"
  by (cases it) auto

lemma item_wf_tag: "item_wf data it \<Longrightarrow> it_kind it = KTag t \<Longrightarrow> \<exists>c. it_children it = [c]"
  by (cases it) (auto simp: members_wf_def length_Suc_conv)

lemma item_wf_unwrap: "item_wf data it \<Longrightarrow> item_wf data (unwrap_tag t it)"
  using item_wf_tag [of data it t] by (auto simp: unwrap_tag_def intro!: item_wf_child [of data it])

lemma item_wf_span: "item_wf data it \<Longrightarrow> it_start it < it_end it \<and> it_end it \<le> length data"
  by (cases it) (auto simp: head_wf_def)

lemma item_wf_major: "item_wf data it \<Longrightarrow> drop_bit 5 (data ! it_start it) = major_of (it_kind it)"
  by (cases it) (auto simp: head_wf_def)

text \<open>The tags that may stand around an array of the expected tag.\<close>

definition message_wrapping :: "u64 \<Rightarrow> item \<Rightarrow> item \<Rightarrow> bool" where
  "message_wrapping tag item body \<longleftrightarrow>
     (let inner = unwrap_tag 55799 item in
      if it_kind inner = KTag 61
      then it_kind (it_children inner ! 0) = KTag tag \<and> body = it_children (it_children inner ! 0) ! 0
      else body = unwrap_tag tag inner)"

lemma message_body_cases:
  "message_body cb data tag limits = Inr out \<longleftrightarrow>
     (\<exists>item body. root cb data limits = Inr item \<and> message_wrapping tag item body \<and>
        it_kind body = KArray \<and> message_shape tag body \<and>
        out = slice data (it_start body) (it_end body))"
proof -
  have "(let cwt_wrapped = (it_kind i = KTag 61); current = unwrap_tag 61 i;
           cose_tagged = (it_kind current = KTag tag) in
         if \<not> cose_tagged \<and> is_tag current then Inl e1
         else let current = unwrap_tag tag current in
           if cwt_wrapped \<and> \<not> cose_tagged then Inl e2
           else if it_kind current \<noteq> KArray then Inl e3
           else andThen (validate_message_shape current tag) (\<lambda>_.
             Inr (slice data (it_start current) (it_end current)))) = Inr out \<longleftrightarrow>
      (\<exists>body. (if it_kind i = KTag 61
         then it_kind (it_children i ! 0) = KTag tag \<and> body = it_children (it_children i ! 0) ! 0
         else body = unwrap_tag tag i) \<and>
        it_kind body = KArray \<and> message_shape tag body \<and>
        out = slice data (it_start body) (it_end body))" for i e1 e2 e3
    by (cases "it_kind i = KTag 61"; cases "it_kind (unwrap_tag 61 i) = KTag tag")
      (auto simp: Let_def result_simps guards is_tag_def unwrap_tag_def [of 61]
        unwrap_tag_def [of tag] split: if_splits)
  then show ?thesis
    unfolding message_body_def message_wrapping_def andThen_eq_Inr Let_def [of "unwrap_tag 55799 _"]
    by blast
qed

lemma message_wrapping_wf:
  assumes "message_wrapping tag item body" and "item_wf data item"
  shows "item_wf data body"
proof -
  have inner: "item_wf data (unwrap_tag 55799 item)" by (rule item_wf_unwrap [OF assms(2)])
  show ?thesis
  proof (cases "it_kind (unwrap_tag 55799 item) = KTag 61")
    case True
    then obtain c where c: "it_children (unwrap_tag 55799 item) = [c]"
      using item_wf_tag [OF inner] by blast
    then have "item_wf data c" using item_wf_child [OF inner] by simp
    then show ?thesis using assms(1) True c item_wf_unwrap [of data c tag]
      by (auto simp: message_wrapping_def unwrap_tag_def [of tag])
  next
    case False
    then show ?thesis using assms(1) item_wf_unwrap [OF inner] by (simp add: message_wrapping_def)
  qed
qed

end
