(* ===== verification/Iana.thy ===== *)
theory Iana
  imports Prelude
begin

text \<open>
  The registry numbers of \<open>src/src/iana.rs\<close> that the modelled code names: header
  parameters, key parameters, key types, key operations, algorithms, claims and tags.
\<close>

section \<open>Header parameters\<close>

abbreviation (input) HeaderParameterAlg :: int where "HeaderParameterAlg \<equiv> 1"
abbreviation (input) HeaderParameterCrit :: int where "HeaderParameterCrit \<equiv> 2"
abbreviation (input) HeaderParameterContentType :: int where "HeaderParameterContentType \<equiv> 3"
abbreviation (input) HeaderParameterKid :: int where "HeaderParameterKid \<equiv> 4"
abbreviation (input) HeaderParameterIV :: int where "HeaderParameterIV \<equiv> 5"
abbreviation (input) HeaderParameterPartialIV :: int where "HeaderParameterPartialIV \<equiv> 6"
abbreviation (input) HeaderParameterCounterSignature :: int where "HeaderParameterCounterSignature \<equiv> 7"

abbreviation (input) HeaderAlgorithmParameterEphemeralKey :: int where "HeaderAlgorithmParameterEphemeralKey \<equiv> - 1"
abbreviation (input) HeaderAlgorithmParameterStaticKey :: int where "HeaderAlgorithmParameterStaticKey \<equiv> - 2"
abbreviation (input) HeaderAlgorithmParameterStaticKeyId :: int where "HeaderAlgorithmParameterStaticKeyId \<equiv> - 3"
abbreviation (input) HeaderAlgorithmParameterSalt :: int where "HeaderAlgorithmParameterSalt \<equiv> - 20"
abbreviation (input) HeaderAlgorithmParameterPartyUNonce :: int where "HeaderAlgorithmParameterPartyUNonce \<equiv> - 22"

section \<open>Key parameters\<close>

abbreviation (input) KeyParameterKty :: int where "KeyParameterKty \<equiv> 1"
abbreviation (input) KeyParameterKid :: int where "KeyParameterKid \<equiv> 2"
abbreviation (input) KeyParameterAlg :: int where "KeyParameterAlg \<equiv> 3"
abbreviation (input) KeyParameterKeyOps :: int where "KeyParameterKeyOps \<equiv> 4"
abbreviation (input) KeyParameterBaseIV :: int where "KeyParameterBaseIV \<equiv> 5"
abbreviation (input) KeyTypeOKP :: int where "KeyTypeOKP \<equiv> 1"
abbreviation (input) KeyTypeEC2 :: int where "KeyTypeEC2 \<equiv> 2"
abbreviation (input) KeyTypeRSA :: int where "KeyTypeRSA \<equiv> 3"
abbreviation (input) KeyTypeSymmetric :: int where "KeyTypeSymmetric \<equiv> 4"
abbreviation (input) OKPKeyParameterCrv :: int where "OKPKeyParameterCrv \<equiv> - 1"
abbreviation (input) OKPKeyParameterX :: int where "OKPKeyParameterX \<equiv> - 2"
abbreviation (input) OKPKeyParameterD :: int where "OKPKeyParameterD \<equiv> - 4"
abbreviation (input) EC2KeyParameterCrv :: int where "EC2KeyParameterCrv \<equiv> - 1"
abbreviation (input) EC2KeyParameterX :: int where "EC2KeyParameterX \<equiv> - 2"
abbreviation (input) EC2KeyParameterY :: int where "EC2KeyParameterY \<equiv> - 3"
abbreviation (input) EC2KeyParameterD :: int where "EC2KeyParameterD \<equiv> - 4"
abbreviation (input) RSAKeyParameterN :: int where "RSAKeyParameterN \<equiv> - 1"
abbreviation (input) RSAKeyParameterE :: int where "RSAKeyParameterE \<equiv> - 2"
abbreviation (input) RSAKeyParameterD :: int where "RSAKeyParameterD \<equiv> - 3"
abbreviation (input) RSAKeyParameterP :: int where "RSAKeyParameterP \<equiv> - 4"
abbreviation (input) RSAKeyParameterQ :: int where "RSAKeyParameterQ \<equiv> - 5"
abbreviation (input) RSAKeyParameterDP :: int where "RSAKeyParameterDP \<equiv> - 6"
abbreviation (input) RSAKeyParameterDQ :: int where "RSAKeyParameterDQ \<equiv> - 7"
abbreviation (input) RSAKeyParameterQInv :: int where "RSAKeyParameterQInv \<equiv> - 8"
abbreviation (input) SymmetricKeyParameterK :: int where "SymmetricKeyParameterK \<equiv> - 1"
abbreviation (input) EllipticCurveP_256 :: int where "EllipticCurveP_256 \<equiv> 1"
abbreviation (input) EllipticCurveP_384 :: int where "EllipticCurveP_384 \<equiv> 2"
abbreviation (input) EllipticCurveP_521 :: int where "EllipticCurveP_521 \<equiv> 3"
abbreviation (input) EllipticCurveX25519 :: int where "EllipticCurveX25519 \<equiv> 4"
abbreviation (input) EllipticCurveX448 :: int where "EllipticCurveX448 \<equiv> 5"
abbreviation (input) EllipticCurveEd25519 :: int where "EllipticCurveEd25519 \<equiv> 6"
abbreviation (input) KeyOperationSign :: int where "KeyOperationSign \<equiv> 1"
abbreviation (input) KeyOperationVerify :: int where "KeyOperationVerify \<equiv> 2"
abbreviation (input) KeyOperationEncrypt :: int where "KeyOperationEncrypt \<equiv> 3"
abbreviation (input) KeyOperationDecrypt :: int where "KeyOperationDecrypt \<equiv> 4"
abbreviation (input) KeyOperationMacCreate :: int where "KeyOperationMacCreate \<equiv> 9"
abbreviation (input) KeyOperationMacVerify :: int where "KeyOperationMacVerify \<equiv> 10"

section \<open>Algorithms\<close>

abbreviation (input) AlgorithmRS512 :: int where "AlgorithmRS512 \<equiv> - 259"
abbreviation (input) AlgorithmRS384 :: int where "AlgorithmRS384 \<equiv> - 258"
abbreviation (input) AlgorithmRS256 :: int where "AlgorithmRS256 \<equiv> - 257"
abbreviation (input) AlgorithmPS512 :: int where "AlgorithmPS512 \<equiv> - 39"
abbreviation (input) AlgorithmPS384 :: int where "AlgorithmPS384 \<equiv> - 38"
abbreviation (input) AlgorithmPS256 :: int where "AlgorithmPS256 \<equiv> - 37"
abbreviation (input) AlgorithmES512 :: int where "AlgorithmES512 \<equiv> - 36"
abbreviation (input) AlgorithmES384 :: int where "AlgorithmES384 \<equiv> - 35"
abbreviation (input) AlgorithmEd25519 :: int where "AlgorithmEd25519 \<equiv> - 19"
abbreviation (input) AlgorithmESP256 :: int where "AlgorithmESP256 \<equiv> - 9"
abbreviation (input) AlgorithmESP384 :: int where "AlgorithmESP384 \<equiv> - 51"
abbreviation (input) AlgorithmEdDSA :: int where "AlgorithmEdDSA \<equiv> - 8"
abbreviation (input) AlgorithmES256 :: int where "AlgorithmES256 \<equiv> - 7"
abbreviation (input) AlgorithmDirect :: int where "AlgorithmDirect \<equiv> - 6"
abbreviation (input) AlgorithmRSAES_OAEP_SHA_512 :: int where "AlgorithmRSAES_OAEP_SHA_512 \<equiv> - 42"
abbreviation (input) AlgorithmRSAES_OAEP_SHA_256 :: int where "AlgorithmRSAES_OAEP_SHA_256 \<equiv> - 41"
abbreviation (input) AlgorithmRSAES_OAEP_RFC_8017_default :: int where "AlgorithmRSAES_OAEP_RFC_8017_default \<equiv> - 40"
abbreviation (input) AlgorithmECDH_SS_A256KW :: int where "AlgorithmECDH_SS_A256KW \<equiv> - 34"
abbreviation (input) AlgorithmECDH_SS_A192KW :: int where "AlgorithmECDH_SS_A192KW \<equiv> - 33"
abbreviation (input) AlgorithmECDH_SS_A128KW :: int where "AlgorithmECDH_SS_A128KW \<equiv> - 32"
abbreviation (input) AlgorithmECDH_ES_A256KW :: int where "AlgorithmECDH_ES_A256KW \<equiv> - 31"
abbreviation (input) AlgorithmECDH_ES_A192KW :: int where "AlgorithmECDH_ES_A192KW \<equiv> - 30"
abbreviation (input) AlgorithmECDH_ES_A128KW :: int where "AlgorithmECDH_ES_A128KW \<equiv> - 29"
abbreviation (input) AlgorithmECDH_SS_HKDF_512 :: int where "AlgorithmECDH_SS_HKDF_512 \<equiv> - 28"
abbreviation (input) AlgorithmECDH_SS_HKDF_256 :: int where "AlgorithmECDH_SS_HKDF_256 \<equiv> - 27"
abbreviation (input) AlgorithmECDH_ES_HKDF_512 :: int where "AlgorithmECDH_ES_HKDF_512 \<equiv> - 26"
abbreviation (input) AlgorithmECDH_ES_HKDF_256 :: int where "AlgorithmECDH_ES_HKDF_256 \<equiv> - 25"
abbreviation (input) AlgorithmDirect_HKDF_AES_256 :: int where "AlgorithmDirect_HKDF_AES_256 \<equiv> - 13"
abbreviation (input) AlgorithmDirect_HKDF_AES_128 :: int where "AlgorithmDirect_HKDF_AES_128 \<equiv> - 12"
abbreviation (input) AlgorithmDirect_HKDF_SHA_512 :: int where "AlgorithmDirect_HKDF_SHA_512 \<equiv> - 11"
abbreviation (input) AlgorithmDirect_HKDF_SHA_256 :: int where "AlgorithmDirect_HKDF_SHA_256 \<equiv> - 10"
abbreviation (input) AlgorithmA256KW :: int where "AlgorithmA256KW \<equiv> - 5"
abbreviation (input) AlgorithmA192KW :: int where "AlgorithmA192KW \<equiv> - 4"
abbreviation (input) AlgorithmA128KW :: int where "AlgorithmA128KW \<equiv> - 3"
abbreviation (input) AlgorithmSHA_256 :: int where "AlgorithmSHA_256 \<equiv> - 16"
abbreviation (input) AlgorithmA128GCM :: int where "AlgorithmA128GCM \<equiv> 1"
abbreviation (input) AlgorithmA192GCM :: int where "AlgorithmA192GCM \<equiv> 2"
abbreviation (input) AlgorithmA256GCM :: int where "AlgorithmA256GCM \<equiv> 3"
abbreviation (input) AlgorithmChaCha20Poly1305 :: int where "AlgorithmChaCha20Poly1305 \<equiv> 24"
abbreviation (input) AlgorithmHMAC_256_64 :: int where "AlgorithmHMAC_256_64 \<equiv> 4"
abbreviation (input) AlgorithmHMAC_256_256 :: int where "AlgorithmHMAC_256_256 \<equiv> 5"
abbreviation (input) AlgorithmHMAC_384_384 :: int where "AlgorithmHMAC_384_384 \<equiv> 6"
abbreviation (input) AlgorithmHMAC_512_512 :: int where "AlgorithmHMAC_512_512 \<equiv> 7"

section \<open>Claims\<close>

abbreviation (input) CWTClaimIss :: int where "CWTClaimIss \<equiv> 1"
abbreviation (input) CWTClaimSub :: int where "CWTClaimSub \<equiv> 2"
abbreviation (input) CWTClaimAud :: int where "CWTClaimAud \<equiv> 3"
abbreviation (input) CWTClaimExp :: int where "CWTClaimExp \<equiv> 4"
abbreviation (input) CWTClaimNbf :: int where "CWTClaimNbf \<equiv> 5"
abbreviation (input) CWTClaimIat :: int where "CWTClaimIat \<equiv> 6"
abbreviation (input) CWTClaimCti :: int where "CWTClaimCti \<equiv> 7"

section \<open>Tags\<close>

abbreviation (input) CBORTagCOSEEncrypt0 :: u64 where "CBORTagCOSEEncrypt0 \<equiv> 16"
abbreviation (input) CBORTagCOSEMac0 :: u64 where "CBORTagCOSEMac0 \<equiv> 17"
abbreviation (input) CBORTagCOSESign1 :: u64 where "CBORTagCOSESign1 \<equiv> 18"
abbreviation (input) CBORTagCWT :: u64 where "CBORTagCWT \<equiv> 61"
abbreviation (input) CBORTagCOSEEncrypt :: u64 where "CBORTagCOSEEncrypt \<equiv> 96"
abbreviation (input) CBORTagCOSEMac :: u64 where "CBORTagCOSEMac \<equiv> 97"
abbreviation (input) CBORTagCOSESign :: u64 where "CBORTagCOSESign \<equiv> 98"

end
