(* ===== verification/CoseMap.thy ===== *)
theory CoseMap
  imports CborHead BTreeMap MessageBody Iana
begin

text \<open>
  \<open>src/src/map.rs\<close>: \<open>CoseMap\<close>, a \<open>BTreeMap<Label, Value>\<close> with typed accessors, its decoder
  and its canonical encoder. The map operations are those of \<open>BTreeMap\<close>; \<open>insert\<close> and
  \<open>remove\<close> return the previous value with the updated map.
\<close>

type_synonym cose_map = "(label \<times> value) list"

section \<open>The map interface\<close>

definition cm_new :: cose_map where "cm_new = []"

definition cm_len :: "cose_map \<Rightarrow> nat" where "cm_len m = length m"

definition cm_is_empty :: "cose_map \<Rightarrow> bool" where "cm_is_empty m = (m = [])"

definition contains_key :: "cose_map \<Rightarrow> label \<Rightarrow> bool" where
  "contains_key m key = bt_contains m key"

definition cm_get :: "cose_map \<Rightarrow> label \<Rightarrow> value option" where
  "cm_get m key = bt_get m key"

definition cm_insert :: "label \<Rightarrow> value \<Rightarrow> cose_map \<Rightarrow> value option \<times> cose_map" where
  "cm_insert key v m = (bt_get m key, bt_insert key v m)"

definition cm_remove :: "label \<Rightarrow> cose_map \<Rightarrow> value option \<times> cose_map" where
  "cm_remove key m = (bt_get m key, bt_remove key m)"

text \<open>\<open>FromIterator\<close>: the last value of a repeated label wins.\<close>

definition cm_from_iter :: "(label \<times> value) list \<Rightarrow> cose_map" where
  "cm_from_iter kvs = bt_from_list kvs"

section \<open>Typed accessors\<close>

definition get_i64 :: "cose_map \<Rightarrow> label \<Rightarrow> error + int option" where
  "get_i64 m key =
     (case bt_get m key of
        None \<Rightarrow> Inr None
      | Some (VInteger i) \<Rightarrow>
          map_ok Some (ok_or (try_i64 i) (UnexpectedType ''integer out of i64 range''))
      | Some _ \<Rightarrow> Inl (UnexpectedType ''expected an integer''))"

definition get_bytes :: "cose_map \<Rightarrow> label \<Rightarrow> error + bytes option" where
  "get_bytes m key =
     (case bt_get m key of
        None \<Rightarrow> Inr None
      | Some (VBytes b) \<Rightarrow> Inr (Some b)
      | Some _ \<Rightarrow> Inl (UnexpectedType ''expected a byte string''))"

definition get_text :: "cose_map \<Rightarrow> label \<Rightarrow> error + string option" where
  "get_text m key =
     (case bt_get m key of
        None \<Rightarrow> Inr None
      | Some (VText s) \<Rightarrow> Inr (Some s)
      | Some _ \<Rightarrow> Inl (UnexpectedType ''expected a text string''))"

definition get_label :: "cose_map \<Rightarrow> label \<Rightarrow> error + label option" where
  "get_label m key =
     (case bt_get m key of
        None \<Rightarrow> Inr None
      | Some (VInteger i) \<Rightarrow>
          map_ok (\<lambda>j. Some (LInt j))
            (ok_or (try_i64 i) (UnexpectedType ''integer out of i64 range''))
      | Some (VText s) \<Rightarrow> Inr (Some (LText s))
      | Some _ \<Rightarrow> Inl (UnexpectedType ''expected an integer or text string''))"

definition get_bool :: "cose_map \<Rightarrow> label \<Rightarrow> error + bool option" where
  "get_bool m key =
     (case bt_get m key of
        None \<Rightarrow> Inr None
      | Some (VBool b) \<Rightarrow> Inr (Some b)
      | Some _ \<Rightarrow> Inl (UnexpectedType ''expected a boolean''))"

definition get_array :: "cose_map \<Rightarrow> label \<Rightarrow> error + value list option" where
  "get_array m key =
     (case bt_get m key of
        None \<Rightarrow> Inr None
      | Some (VArray a) \<Rightarrow> Inr (Some a)
      | Some _ \<Rightarrow> Inl (UnexpectedType ''expected an array''))"

section \<open>Decoding and encoding\<close>

definition map_from_slice :: "cbor2 \<Rightarrow> bytes \<Rightarrow> error + cose_map" where
  "map_from_slice cb data =
     andThen (validate_map cb data) (\<lambda>_.
     andThen (map_err Cbor (lib_from_slice_map cb label_visitor data)) (\<lambda>entries.
     Inr (bt_from_list entries)))"

text \<open>\<open>f64::is_nan\<close> on the bit pattern: all exponent bits set and a non-zero significand.\<close>

definition is_nan :: "f64 \<Rightarrow> bool" where
  "is_nan x \<longleftrightarrow> take_bit 11 (drop_bit 52 (f64_bits x)) = 0x7ff \<and> take_bit 52 (f64_bits x) \<noteq> 0"

fun needs_canonicalization :: "value \<Rightarrow> nat \<Rightarrow> bool" where
  "needs_canonicalization v depth =
     (if depth = 0 then True
      else case v of
        VMap _ \<Rightarrow> True
      | VTag t inner \<Rightarrow> if t = 2 \<or> t = 3 then True else needs_canonicalization inner (depth - 1)
      | VFloat x \<Rightarrow> is_nan x
      | VArray items \<Rightarrow> list_ex (\<lambda>item. needs_canonicalization item (depth - 1)) items
      | _ \<Rightarrow> False)"

declare needs_canonicalization.simps [simp del]

text \<open>The bytes of one key in the \<open>keys\<close> buffer of \<open>to_vec\<close>.\<close>

fun encode_label :: "label \<Rightarrow> bytes" where
  "encode_label (LInt i) =
     (if 0 \<le> i then write_head 0 (word_of_int i) else write_head 1 (word_of_int (- 1 - i)))"
| "encode_label (LText s) = write_head 3 (word_of_nat (length s)) @ text_bytes s"

definition encode_map_value :: "cbor2 \<Rightarrow> value \<Rightarrow> error + bytes" where
  "encode_map_value cb v =
     (if needs_canonicalization v (lib_recursion_limit cb) then cbor_to_canonical_vec cb v
      else cbor_to_vec cb v)"

definition map_to_vec :: "cbor2 \<Rightarrow> cose_map \<Rightarrow> error + bytes" where
  "map_to_vec cb m =
     (let entries = sort_key fst (map (\<lambda>(label, v). (encode_label label, v)) m) in
      andThen (traverse (\<lambda>(key, v). map_ok (\<lambda>body. key @ body) (encode_map_value cb v)) entries)
        (\<lambda>parts. Inr (write_head 5 (word_of_nat (length m)) @ concat parts)))"

section \<open>Labels as keys\<close>

lemma text_bytes_append_inj:
  "length s = length t \<Longrightarrow> text_bytes s @ x = text_bytes t @ y \<longleftrightarrow> s = t \<and> x = y"
  by (auto simp: append_eq_append_conv text_bytes_inj)

definition label_size_ok :: "label \<Rightarrow> bool" where
  "label_size_ok l \<longleftrightarrow> (case l of LInt i \<Rightarrow> in_i64 i | LText s \<Rightarrow> length s < usize_limit)"

lemma word_of_int_inj_u64:
  assumes "in_u64 i" and "in_u64 j" and "(word_of_int i :: u64) = word_of_int j"
  shows "i = j"
  using assms by (simp add: word_of_int_eq_iff in_u64_def take_bit_int_eq_self)

lemma word_of_nat_inj_u64:
  assumes "m < usize_limit" and "n < usize_limit" and "(word_of_nat m :: u64) = word_of_nat n"
  shows "m = n"
  using assms by (simp add: word_of_nat_eq_iff usize_limit_def take_bit_nat_eq_self)

text \<open>Two encoded labels never overlap: the encoded map can be read back entry by entry.\<close>

lemma encode_label_prefix_free:
  assumes "encode_label a @ x = encode_label b @ y" and "label_size_ok a" and "label_size_ok b"
  shows "a = b \<and> x = y"
proof (cases a; cases b)
  fix i j
  assume ab: "a = LInt i" "b = LInt j"
  then have r: "in_i64 i" "in_i64 j" using assms(2,3) by (auto simp: label_size_ok_def)
  define m where "m k = (if 0 \<le> k then 0 else 1 :: u8)" for k :: int
  define n where "n k = (if 0 \<le> k then k else - 1 - k)" for k :: int
  have enc: "encode_label (LInt k) = write_head (m k) (word_of_int (n k))" for k
    by (simp add: m_def n_def)
  have "m i = m j \<and> (word_of_int (n i) :: u64) = word_of_int (n j) \<and> x = y"
    using assms(1) unfolding ab enc by (rule write_head_prefix_free) (auto simp: m_def)
  moreover have "in_u64 (n i)" "in_u64 (n j)" using r by (auto simp: n_def in_i64_def in_u64_def)
  ultimately show ?thesis
    using word_of_int_inj_u64 [of "n i" "n j"] by (auto simp: ab m_def n_def split: if_splits)
next
  fix s t
  assume ab: "a = LText s" "b = LText t"
  then have r: "length s < usize_limit" "length t < usize_limit"
    using assms(2,3) by (auto simp: label_size_ok_def)
  have "write_head 3 (word_of_nat (length s)) @ text_bytes s @ x =
      write_head 3 (word_of_nat (length t)) @ text_bytes t @ y"
    using assms(1) by (simp add: ab)
  then have "(word_of_nat (length s) :: u64) = word_of_nat (length t)"
    and "text_bytes s @ x = text_bytes t @ y"
    using write_head_prefix_free [of 3 "word_of_nat (length s)" "text_bytes s @ x" 3] by auto
  then show ?thesis using word_of_nat_inj_u64 [OF r] text_bytes_append_inj by (auto simp: ab)
next
  fix i t
  assume "a = LInt i" "b = LText t"
  then show ?thesis
    using assms(1) write_head_prefix_free [of "if 0 \<le> i then 0 else 1" _ x 3]
    by (auto split: if_splits dest: write_head_prefix_free)
next
  fix s j
  assume "a = LText s" "b = LInt j"
  then show ?thesis using assms(1) by (auto split: if_splits dest: write_head_prefix_free)
qed

lemma encode_label_inj:
  "label_size_ok a \<Longrightarrow> label_size_ok b \<Longrightarrow> encode_label a = encode_label b \<Longrightarrow> a = b"
  using encode_label_prefix_free [of a "[]" b "[]"] by simp

end
