(* ===== verification/Header.thy ===== *)
theory Header
  imports CoseMap
begin

text \<open>
  \<open>src/src/header.rs\<close>: a header bucket is a \<open>CoseMap\<close> with typed accessors for the common
  parameters. \<open>validate_common\<close> checks one bucket, \<open>validate_header_buckets\<close> the two
  buckets of a layer, \<open>validate_layer\<close> also that the protected bucket still denotes the
  authenticated bytes. The lemmas give each check as a declarative predicate.
\<close>

type_synonym header = cose_map

datatype content_type = CUint nat | CText string

section \<open>Content type text\<close>

text \<open>
  \<open>str::trim\<close> removes Unicode \<open>White_Space\<close>; the list has the UTF-8 encodings of those
  characters. \<open>value.trim() != value\<close> holds when the text begins or ends with one.
\<close>

definition white_space :: "string list" where
  "white_space =
     map (\<lambda>n. [char_of n]) [9, 10, 11, 12, 13, 32 :: nat] @
     map (map char_of) [[0xc2, 0x85], [0xc2, 0xa0 :: nat], [0xe1, 0x9a, 0x80]] @
     map (\<lambda>n. map char_of [0xe2, 0x80, n :: nat])
       [0x80, 0x81, 0x82, 0x83, 0x84, 0x85, 0x86, 0x87, 0x88, 0x89, 0x8a, 0xa8, 0xa9, 0xaf] @
     map (map char_of) [[0xe2, 0x81, 0x9f :: nat], [0xe3, 0x80, 0x80]]"

definition starts_with :: "'a list \<Rightarrow> 'a list \<Rightarrow> bool" where
  "starts_with s p = (take (length p) s = p)"

definition ends_with :: "'a list \<Rightarrow> 'a list \<Rightarrow> bool" where
  "ends_with s p = starts_with (rev s) (rev p)"

definition is_trimmed :: "string \<Rightarrow> bool" where
  "is_trimmed s = list_all (\<lambda>w. \<not> starts_with s w \<and> \<not> ends_with s w) white_space"

text \<open>\<open>str::split_once\<close> on a character.\<close>

fun split_once :: "string \<Rightarrow> char \<Rightarrow> (string \<times> string) option" where
  "split_once [] sep = None"
| "split_once (c # s) sep =
     (if c = sep then Some ([], s) else map_option (\<lambda>(a, b). (c # a, b)) (split_once s sep))"

definition is_ascii_alphanumeric :: "char \<Rightarrow> bool" where
  "is_ascii_alphanumeric c \<longleftrightarrow>
     (let n = of_char c :: nat in 48 \<le> n \<and> n \<le> 57 \<or> 65 \<le> n \<and> n \<le> 90 \<or> 97 \<le> n \<and> n \<le> 122)"

definition is_media_type_token :: "string \<Rightarrow> bool" where
  "is_media_type_token v \<longleftrightarrow> v \<noteq> [] \<and>
     list_all (\<lambda>b. is_ascii_alphanumeric b \<or> b \<in> set ''!#$&^_.+-'') v"

definition valid_content_type_text :: "string \<Rightarrow> bool" where
  "valid_content_type_text v =
     (if \<not> is_trimmed v then False
      else
        let media_type = (case split_once v (CHR '';'') of None \<Rightarrow> v | Some (m, _) \<Rightarrow> m) in
        case split_once media_type (CHR ''/'') of
          None \<Rightarrow> False
        | Some (type_name, subtype) \<Rightarrow> is_media_type_token type_name \<and> is_media_type_token subtype)"

section \<open>Accessors\<close>

definition alg :: "header \<Rightarrow> error + label option" where
  "alg h = get_label h (LInt HeaderParameterAlg)"

definition set_alg :: "label \<Rightarrow> header \<Rightarrow> header" where
  "set_alg l h = bt_insert (LInt HeaderParameterAlg) (value_of_label l) h"

definition kid :: "header \<Rightarrow> error + bytes option" where
  "kid h = get_bytes h (LInt HeaderParameterKid)"

definition set_kid :: "bytes \<Rightarrow> header \<Rightarrow> header" where
  "set_kid k h = bt_insert (LInt HeaderParameterKid) (VBytes k) h"

definition content_type :: "header \<Rightarrow> error + content_type option" where
  "content_type h =
     (case bt_get h (LInt HeaderParameterContentType) of
        None \<Rightarrow> Inr None
      | Some (VInteger i) \<Rightarrow>
          map_ok (\<lambda>n. Some (CUint n)) (ok_or (try_u16 i) (UnexpectedType
            ''content type integer must be an unsigned 16-bit CoAP Content-Format''))
      | Some (VText s) \<Rightarrow>
          if valid_content_type_text s then Inr (Some (CText s))
          else Inl (UnexpectedType
            ''content type text must contain a valid type/subtype without surrounding whitespace'')
      | Some _ \<Rightarrow> Inl (UnexpectedType
            ''content type must be an unsigned integer or text string''))"

definition set_content_type :: "content_type \<Rightarrow> header \<Rightarrow> header" where
  "set_content_type ct h =
     bt_insert (LInt HeaderParameterContentType)
       (case ct of CUint n \<Rightarrow> VInteger (int n) | CText s \<Rightarrow> VText s) h"

definition iv :: "header \<Rightarrow> error + bytes option" where
  "iv h = get_bytes h (LInt HeaderParameterIV)"

definition set_iv :: "bytes \<Rightarrow> header \<Rightarrow> header" where
  "set_iv b h = bt_insert (LInt HeaderParameterIV) (VBytes b) h"

definition partial_iv :: "header \<Rightarrow> error + bytes option" where
  "partial_iv h = get_bytes h (LInt HeaderParameterPartialIV)"

definition set_partial_iv :: "bytes \<Rightarrow> header \<Rightarrow> header" where
  "set_partial_iv b h = bt_insert (LInt HeaderParameterPartialIV) (VBytes b) h"

fun label_from_value :: "value \<Rightarrow> error + label" where
  "label_from_value (VInteger i) =
     map_ok LInt (ok_or (try_i64 i) (UnexpectedType ''integer label out of range''))"
| "label_from_value (VText s) = Inr (LText s)"
| "label_from_value _ = Inl (UnexpectedType ''expected an integer or text string label'')"

definition labels_from_value :: "value option \<Rightarrow> error + label list option" where
  "labels_from_value v =
     (case v of
        Some (VArray vs) \<Rightarrow> map_ok Some (traverse label_from_value vs)
      | None \<Rightarrow> Inr None
      | Some _ \<Rightarrow> Inl (UnexpectedType ''crit must be an array of labels''))"

definition crit :: "header \<Rightarrow> error + label list option" where
  "crit h = labels_from_value (bt_get h (LInt HeaderParameterCrit))"

definition set_crit :: "label list \<Rightarrow> header \<Rightarrow> header" where
  "set_crit ls h = bt_insert (LInt HeaderParameterCrit) (VArray (map value_of_label ls)) h"

definition is_understood_header :: "label \<Rightarrow> bool" where
  "is_understood_header l \<longleftrightarrow>
     l \<in> LInt ` {HeaderParameterAlg, HeaderParameterCrit, HeaderParameterContentType,
       HeaderParameterKid, HeaderParameterIV, HeaderParameterPartialIV,
       HeaderParameterCounterSignature}"

section \<open>Validation\<close>

text \<open>The loop over \<open>crit\<close>; \<open>unique\<close> is the set of labels already seen.\<close>

fun check_crit :: "header \<Rightarrow> label set \<Rightarrow> label list \<Rightarrow> error + unit" where
  "check_crit h unique [] = Inr ()"
| "check_crit h unique (l # ls) =
     (if l \<in> unique
      then Inl (Custom (''crit contains duplicate header label '' @ show_label l))
      else if \<not> contains_key h l
      then Inl (Custom (''crit references absent protected header label '' @ show_label l))
      else check_crit h (insert l unique) ls)"

definition validate_common :: "header \<Rightarrow> error + unit" where
  "validate_common h =
     andThen (alg h) (\<lambda>_. andThen (content_type h) (\<lambda>_. andThen (kid h) (\<lambda>_.
     andThen (iv h) (\<lambda>full_iv. andThen (partial_iv h) (\<lambda>partial.
     if full_iv \<noteq> None \<and> partial \<noteq> None
     then Inl (Custom ''IV and Partial IV must not both be present in one header bucket'')
     else andThen (crit h) (\<lambda>labels.
       case labels of
         None \<Rightarrow> Inr ()
       | Some ls \<Rightarrow>
           if ls = [] then Inl (Custom ''crit header parameter must not be empty'')
           else check_crit h {} ls))))))"

definition header_from_slice :: "cbor2 \<Rightarrow> bytes \<Rightarrow> error + header" where
  "header_from_slice cb data =
     andThen (map_from_slice cb data) (\<lambda>h. andThen (validate_common h) (\<lambda>_. Inr h))"

definition header_to_vec :: "cbor2 \<Rightarrow> header \<Rightarrow> error + bytes" where
  "header_to_vec cb h = andThen (validate_common h) (\<lambda>_. map_to_vec cb h)"

text \<open>
  \<open>deserialize_checked\<close>: a header inside a body that \<open>message_body\<close> validated; a failing
  check is an error of the decoder.
\<close>

definition deserialize_checked :: "wire_header \<Rightarrow> error + header" where
  "deserialize_checked entries =
     (let h = bt_from_list entries in
      map_err (\<lambda>e. Cbor (error_display e)) (andThen (validate_common h) (\<lambda>_. Inr h)))"

definition encode_protected :: "cbor2 \<Rightarrow> header \<Rightarrow> error + bytes" where
  "encode_protected cb h = (if h = [] then Inr [] else header_to_vec cb h)"

definition decode_protected :: "cbor2 \<Rightarrow> bytes \<Rightarrow> error + header" where
  "decode_protected cb data = (if data = [] then Inr [] else header_from_slice cb data)"

definition validate_header_buckets :: "header \<Rightarrow> header \<Rightarrow> error + unit" where
  "validate_header_buckets protected unprotected =
     andThen (validate_common protected) (\<lambda>_.
     if contains_key unprotected (LInt HeaderParameterCrit)
     then Inl (Custom ''crit header parameter must be protected'')
     else
       andThen (validate_common unprotected) (\<lambda>_.
       andThen (for_each (\<lambda>(label, _).
           require (\<not> contains_key unprotected label)
             (Custom (''header label '' @ show_label label @
               '' appears in both protected and unprotected buckets''))) protected) (\<lambda>_.
       let has_iv = contains_key protected (LInt HeaderParameterIV) \<or>
             contains_key unprotected (LInt HeaderParameterIV);
           has_partial_iv = contains_key protected (LInt HeaderParameterPartialIV) \<or>
             contains_key unprotected (LInt HeaderParameterPartialIV) in
       if has_iv \<and> has_partial_iv
       then Inl (Custom ''IV and Partial IV must not both be present in one security layer'')
       else Inr ())))"

definition validate_protected_state :: "cbor2 \<Rightarrow> header \<Rightarrow> bytes \<Rightarrow> error + unit" where
  "validate_protected_state cb protected protected_raw =
     andThen (encode_protected cb protected) (\<lambda>current.
     if current = protected_raw then Inr ()
     else
       andThen (decode_protected cb protected_raw) (\<lambda>decoded.
       andThen (encode_protected cb decoded) (\<lambda>again.
       if again \<noteq> current
       then Inl (InvalidState
         ''protected header changed after its authenticated bytes were prepared'')
       else Inr ())))"

definition validate_layer :: "cbor2 \<Rightarrow> header \<Rightarrow> header \<Rightarrow> bytes \<Rightarrow> error + unit" where
  "validate_layer cb protected unprotected protected_raw =
     andThen (validate_header_buckets protected unprotected) (\<lambda>_.
     validate_protected_state cb protected protected_raw)"

section \<open>The checks, declaratively\<close>

fun is_label_value :: "value \<Rightarrow> bool" where
  "is_label_value (VInteger i) \<longleftrightarrow> in_i64 i"
| "is_label_value (VText s) \<longleftrightarrow> True"
| "is_label_value _ \<longleftrightarrow> False"

fun is_bytes_value :: "value \<Rightarrow> bool" where
  "is_bytes_value (VBytes b) \<longleftrightarrow> True"
| "is_bytes_value _ \<longleftrightarrow> False"

fun is_content_type_value :: "value \<Rightarrow> bool" where
  "is_content_type_value (VInteger i) \<longleftrightarrow> in_u16 i"
| "is_content_type_value (VText s) \<longleftrightarrow> valid_content_type_text s"
| "is_content_type_value _ \<longleftrightarrow> False"

text \<open>A parameter is absent or its value satisfies \<open>P\<close>.\<close>

definition param_is :: "(value \<Rightarrow> bool) \<Rightarrow> header \<Rightarrow> int \<Rightarrow> bool" where
  "param_is P h label \<longleftrightarrow> (\<forall>v. bt_get h (LInt label) = Some v \<longrightarrow> P v)"

text \<open>\<open>crit\<close>: a non-empty array of distinct labels, each present in the same bucket.\<close>

definition crit_ok :: "header \<Rightarrow> bool" where
  "crit_ok h \<longleftrightarrow> (\<forall>v. bt_get h (LInt HeaderParameterCrit) = Some v \<longrightarrow>
     (\<exists>ls. v = VArray (map value_of_label ls) \<and> ls \<noteq> [] \<and> distinct ls \<and>
       (\<forall>l \<in> set ls. wf_label l \<and> contains_key h l)))"

definition common_ok :: "header \<Rightarrow> bool" where
  "common_ok h \<longleftrightarrow> param_is is_label_value h HeaderParameterAlg \<and>
     param_is is_content_type_value h HeaderParameterContentType \<and>
     param_is is_bytes_value h HeaderParameterKid \<and>
     param_is is_bytes_value h HeaderParameterIV \<and>
     param_is is_bytes_value h HeaderParameterPartialIV \<and>
     \<not> (contains_key h (LInt HeaderParameterIV) \<and> contains_key h (LInt HeaderParameterPartialIV)) \<and>
     crit_ok h"

definition buckets_ok :: "header \<Rightarrow> header \<Rightarrow> bool" where
  "buckets_ok p u \<longleftrightarrow> common_ok p \<and> common_ok u \<and>
     \<not> contains_key u (LInt HeaderParameterCrit) \<and>
     bt_keys p \<inter> bt_keys u = {} \<and>
     \<not> ({LInt HeaderParameterIV, LInt HeaderParameterPartialIV} \<subseteq> bt_keys p \<union> bt_keys u)"

lemma get_bytes_ok [result_simps]:
  "get_bytes m k = Inr r \<longleftrightarrow>
    (case r of None \<Rightarrow> bt_get m k = None | Some b \<Rightarrow> bt_get m k = Some (VBytes b))"
  by (cases r) (auto simp: get_bytes_def split: option.splits "value.splits")

lemma get_text_ok [result_simps]:
  "get_text m k = Inr r \<longleftrightarrow>
    (case r of None \<Rightarrow> bt_get m k = None | Some s \<Rightarrow> bt_get m k = Some (VText s))"
  by (cases r) (auto simp: get_text_def split: option.splits "value.splits")

lemma get_i64_ok [result_simps]:
  "get_i64 m k = Inr r \<longleftrightarrow>
    (case r of None \<Rightarrow> bt_get m k = None | Some i \<Rightarrow> bt_get m k = Some (VInteger i) \<and> in_i64 i)"
  by (cases r) (auto simp: get_i64_def result_simps split: option.splits "value.splits")

lemma get_label_ok [result_simps]:
  "get_label m k = Inr r \<longleftrightarrow>
    (case r of None \<Rightarrow> bt_get m k = None
     | Some l \<Rightarrow> bt_get m k = Some (value_of_label l) \<and> wf_label l)"
  by (cases r; (cases "the r")?)
    (auto simp: get_label_def result_simps split: option.splits "value.splits")

lemma get_bytes_is_bytes: "(\<exists>r. get_bytes m (LInt k) = Inr r) \<longleftrightarrow> param_is is_bytes_value m k"
  by (auto simp: get_bytes_def param_is_def split: option.splits "value.splits")

lemma get_label_is_label: "(\<exists>r. get_label m (LInt k) = Inr r) \<longleftrightarrow> param_is is_label_value m k"
  by (auto simp: get_label_def param_is_def result_simps split: option.splits "value.splits")

lemma content_type_is: "(\<exists>r. content_type h = Inr r) \<longleftrightarrow> param_is is_content_type_value h 3"
  by (auto simp: content_type_def param_is_def result_simps try_u16_def
      split: option.splits "value.splits" if_splits)

lemma label_from_value_ok:
  "label_from_value v = Inr l \<longleftrightarrow> v = value_of_label l \<and> wf_label l"
  by (cases v rule: label_from_value.cases; cases l) (auto simp: result_simps)

lemma labels_from_values: "traverse label_from_value vs = Inr ls \<longleftrightarrow>
    vs = map value_of_label ls \<and> (\<forall>l \<in> set ls. wf_label l)"
proof (induction vs arbitrary: ls)
  case Nil
  then show ?case by auto
next
  case (Cons v vs)
  then show ?case by (cases ls) (auto simp: result_simps label_from_value_ok)
qed

lemma check_crit_ok [guards]:
  "check_crit h unique ls = Inr () \<longleftrightarrow>
    distinct ls \<and> set ls \<inter> unique = {} \<and> (\<forall>l \<in> set ls. contains_key h l)"
  by (induction h unique ls rule: check_crit.induct) auto

lemma crit_Some: "crit h = Inr (Some ls) \<longleftrightarrow>
    bt_get h (LInt HeaderParameterCrit) = Some (VArray (map value_of_label ls)) \<and>
    (\<forall>l \<in> set ls. wf_label l)"
  by (auto simp: crit_def labels_from_value_def result_simps labels_from_values
      split: option.splits "value.splits")

lemma crit_None: "crit h = Inr None \<longleftrightarrow> bt_get h (LInt HeaderParameterCrit) = None"
  by (auto simp: crit_def labels_from_value_def result_simps split: option.splits "value.splits")

lemma crit_step: "(\<exists>labels. crit h = Inr labels \<and>
      (case labels of None \<Rightarrow> Inr () | Some c \<Rightarrow> if c = [] then Inl e else check_crit h {} c) = Inr ())
    \<longleftrightarrow> crit_ok h"
proof -
  have "(\<exists>labels. crit h = Inr labels \<and>
      (case labels of None \<Rightarrow> Inr () | Some c \<Rightarrow> if c = [] then Inl e else check_crit h {} c) = Inr ()) \<longleftrightarrow>
    crit h = Inr None \<or> (\<exists>c. crit h = Inr (Some c) \<and> c \<noteq> [] \<and> check_crit h {} c = Inr ())"
    by (auto split: option.splits if_splits intro: option.exhaust)
  then show ?thesis
    by (cases "bt_get h (LInt HeaderParameterCrit)")
      (auto simp: crit_Some crit_None crit_ok_def guards)
qed

lemma contains_key_iff: "contains_key h l \<longleftrightarrow> l \<in> bt_keys h"
  by (simp add: contains_key_def bt_contains_iff)

lemma contains_key_get: "contains_key h l \<longleftrightarrow> (\<exists>v. bt_get h l = Some v)"
  by (auto simp: contains_key_def bt_contains_def)

lemma validate_common_ok [guards]: "validate_common h = Inr () \<longleftrightarrow> common_ok h"
proof -
  have both: "(\<exists>i. get_bytes h (LInt 5) = Inr i \<and> (\<exists>p. get_bytes h (LInt 6) = Inr p \<and>
        \<not> (i \<noteq> None \<and> p \<noteq> None))) \<longleftrightarrow>
      param_is is_bytes_value h 5 \<and> param_is is_bytes_value h 6 \<and>
      \<not> (contains_key h (LInt 5) \<and> contains_key h (LInt 6))"
    by (cases "bt_get h (LInt 5)"; cases "bt_get h (LInt 6)")
      (auto simp: get_bytes_def contains_key_get param_is_def
        split: option.splits "value.splits")
  have "validate_common h = Inr () \<longleftrightarrow>
      (\<exists>a. get_label h (LInt 1) = Inr a) \<and> (\<exists>c. content_type h = Inr c) \<and>
      (\<exists>k. get_bytes h (LInt 4) = Inr k) \<and>
      (\<exists>i. get_bytes h (LInt 5) = Inr i \<and> (\<exists>p. get_bytes h (LInt 6) = Inr p \<and>
        \<not> (i \<noteq> None \<and> p \<noteq> None))) \<and> crit_ok h"
    by (simp only: validate_common_def alg_def kid_def iv_def partial_iv_def andThen_eq_Inr
        early_return_eq crit_step) blast
  then show ?thesis
    unfolding both common_ok_def get_label_is_label get_bytes_is_bytes content_type_is by blast
qed

lemma for_each_disjoint:
  "for_each (\<lambda>(l, v). require (l \<notin> bt_keys u) (e l)) p = Inr () \<longleftrightarrow> bt_keys p \<inter> bt_keys u = {}"
  by (force simp: for_each_ok result_simps bt_keys_def)

lemma validate_header_buckets_ok [guards]:
  "validate_header_buckets p u = Inr () \<longleftrightarrow> buckets_ok p u"
  by (auto simp: validate_header_buckets_def buckets_ok_def andThen_eq_Inr for_each_disjoint
      validate_common_ok Let_def contains_key_iff split: if_splits)

lemma validate_layer_ok [guards]:
  "validate_layer cb p u raw = Inr () \<longleftrightarrow>
    buckets_ok p u \<and> validate_protected_state cb p raw = Inr ()"
  by (simp add: validate_layer_def andThen_eq_Inr guards)

text \<open>The bytes that \<open>encode_protected\<close> has just produced always denote the bucket.\<close>

lemma validate_protected_state_fresh:
  "encode_protected cb p = Inr raw \<Longrightarrow> validate_protected_state cb p raw = Inr ()"
  by (simp add: validate_protected_state_def)

end
