(* ===== verification/Util.thy ===== *)
theory Util
  imports Header
begin

text \<open>
  \<open>src/src/util.rs\<close> and the provider traits of \<open>src/src/traits.rs\<close>. A provider is a record of
  its methods: its cryptography is a parameter of the model. A function that updates the
  header buckets in place returns them with its result, because the buckets keep their
  changes when a later step fails.
\<close>

section \<open>Providers\<close>

record signer =
  sg_alg :: "label option"
  sg_kid :: "bytes option"
  sg_sign :: "bytes \<Rightarrow> error + bytes"

record verifier =
  vf_alg :: "label option"
  vf_kid :: "bytes option"
  vf_understood :: "label list"
  vf_verify :: "bytes \<Rightarrow> bytes \<Rightarrow> error + unit"

record macer =
  mc_alg :: "label option"
  mc_kid :: "bytes option"
  mc_understood :: "label list"
  mc_create :: "bytes \<Rightarrow> error + bytes"
  mc_verify :: "bytes \<Rightarrow> bytes \<Rightarrow> error + unit"

record encryptor =
  en_alg :: "label option"
  en_kid :: "bytes option"
  en_understood :: "label list"
  en_nonce_size :: nat
  en_base_iv :: "bytes option"
  en_encrypt :: "bytes \<Rightarrow> bytes \<Rightarrow> bytes \<Rightarrow> error + bytes"
  en_decrypt :: "bytes \<Rightarrow> bytes \<Rightarrow> bytes \<Rightarrow> error + bytes"

section \<open>Operation state\<close>

datatype operation_state = New | Prepared | Complete

definition initialized :: "operation_state \<Rightarrow> bool" where
  "initialized s = (s \<noteq> New)"

definition complete :: "operation_state \<Rightarrow> bool" where
  "complete s = (s = Complete)"

definition require_complete :: "operation_state \<Rightarrow> string \<Rightarrow> error + unit" where
  "require_complete s message = require (complete s) (InvalidState message)"

lemma require_complete_ok [guards]: "require_complete s message = Inr u \<longleftrightarrow> s = Complete"
  by (auto simp: require_complete_def complete_def result_simps)

section \<open>Key operations\<close>

definition key_ops_allow :: "label list option \<Rightarrow> int list \<Rightarrow> bool" where
  "key_ops_allow ops allowed =
     (case ops of
        None \<Rightarrow> True
      | Some ls \<Rightarrow> list_ex (\<lambda>l. case l of LInt v \<Rightarrow> v \<in> set allowed | LText _ \<Rightarrow> False) ls)"

definition require_key_ops :: "label list option \<Rightarrow> int list \<Rightarrow> string \<Rightarrow> error + unit" where
  "require_key_ops ops allowed operation =
     require (key_ops_allow ops allowed)
       (KeyOperation (''COSE_Key key_ops does not permit '' @ operation))"

section \<open>Payloads and encoding\<close>

definition require_embedded_payload :: "bytes option \<Rightarrow> string \<Rightarrow> error + bytes" where
  "require_embedded_payload payload operation =
     ok_or payload (Custom (operation @
       '' requires an embedded payload; use the detached-payload API''))"

definition require_plaintext :: "bytes option \<Rightarrow> string \<Rightarrow> error + bytes" where
  "require_plaintext payload operation =
     ok_or payload (Custom (operation @
       '' requires a plaintext payload; use Some(Vec::new()) for empty plaintext''))"

definition encode_structure :: "cbor2 \<Rightarrow> frag list \<Rightarrow> error + bytes" where
  "encode_structure cb parts = map_err Cbor (lib_encode_frags cb parts)"

definition encode_prefixed :: "cbor2 \<Rightarrow> bytes \<Rightarrow> frag list \<Rightarrow> error + bytes" where
  "encode_prefixed cb prefix body =
     andThen (map_err Cbor (lib_serialized_size cb body)) (\<lambda>size.
     if \<not> size < usize_limit then Inl (Custom ''encoded CBOR size does not fit usize'')
     else
       andThen (ok_or (checked_add (length prefix) size) (Custom ''encoded CBOR size overflow'')) (\<lambda>_.
       andThen (map_err Cbor (lib_encode_frags cb body)) (\<lambda>out. Inr (prefix @ out))))"

definition header_raw :: "cbor2 \<Rightarrow> header \<Rightarrow> error + bytes" where
  "header_raw cb h = andThen (header_to_vec cb h) (\<lambda>b. map_err Cbor (lib_raw_value cb b))"

definition unwrap_or_empty :: "bytes option \<Rightarrow> bytes" where
  "unwrap_or_empty b = (case b of None \<Rightarrow> [] | Some x \<Rightarrow> x)"

definition optional_bytes :: "bytes option \<Rightarrow> frag" where
  "optional_bytes b = (case b of None \<Rightarrow> FNull | Some x \<Rightarrow> FBytes x)"

section \<open>Headers before and after an operation\<close>

definition alg_mismatch :: "label \<Rightarrow> label \<Rightarrow> error" where
  "alg_mismatch declared expected = AlgorithmMismatch (show_label declared) (show_label expected)"

definition ensure_protected_alg ::
  "header \<Rightarrow> header \<Rightarrow> label option \<Rightarrow> error + (header \<times> header)"
where
  "ensure_protected_alg protected unprotected a =
     (case a of
        None \<Rightarrow> Inr (protected, unprotected)
      | Some alg' \<Rightarrow>
          andThen (alg protected) (\<lambda>declared.
          case declared of
            Some existing \<Rightarrow>
              if existing \<noteq> alg' then Inl (alg_mismatch existing alg') else Inr (protected, unprotected)
          | None \<Rightarrow>
              andThen (alg unprotected) (\<lambda>other.
              case other of
                Some existing \<Rightarrow>
                  if existing \<noteq> alg' then Inl (alg_mismatch existing alg')
                  else Inr (set_alg alg' protected, bt_remove (LInt HeaderParameterAlg) unprotected)
              | None \<Rightarrow> Inr (set_alg alg' protected, unprotected))))"

definition ensure_unprotected_kid :: "header \<Rightarrow> header \<Rightarrow> bytes option \<Rightarrow> error + header" where
  "ensure_unprotected_kid protected unprotected k =
     (case k of
        None \<Rightarrow> Inr unprotected
      | Some kid' \<Rightarrow>
          andThen (kid protected) (\<lambda>present.
          if present = None \<and> \<not> contains_key unprotected (LInt HeaderParameterKid)
          then Inr (set_kid kid' unprotected) else Inr unprotected))"

definition prepare_headers ::
  "cbor2 \<Rightarrow> header \<Rightarrow> header \<Rightarrow> label option \<Rightarrow> bytes option \<Rightarrow> (error + bytes) \<times> header \<times> header"
where
  "prepare_headers cb protected unprotected a k =
     (case ensure_protected_alg protected unprotected a of
        Inl e \<Rightarrow> (Inl e, protected, unprotected)
      | Inr (p, u) \<Rightarrow>
          (case ensure_unprotected_kid p u k of
             Inl e \<Rightarrow> (Inl e, p, u)
           | Inr u' \<Rightarrow>
               (andThen (validate_header_buckets p u') (\<lambda>_. encode_protected cb p), p, u')))"

text \<open>The result is the new value of \<open>protected_raw\<close>.\<close>

definition sync_protected_raw ::
  "cbor2 \<Rightarrow> header \<Rightarrow> header \<Rightarrow> bytes \<Rightarrow> operation_state \<Rightarrow> error + bytes"
where
  "sync_protected_raw cb protected unprotected protected_raw state =
     (if initialized state
      then andThen (validate_layer cb protected unprotected protected_raw) (\<lambda>_. Inr protected_raw)
      else andThen (validate_header_buckets protected unprotected) (\<lambda>_. encode_protected cb protected))"

definition check_protected_alg :: "header \<Rightarrow> header \<Rightarrow> label option \<Rightarrow> error + unit" where
  "check_protected_alg protected unprotected a =
     (case a of
        None \<Rightarrow> Inr ()
      | Some expected \<Rightarrow>
          andThen
            (andThen (alg protected) (\<lambda>declared.
             case declared of Some e \<Rightarrow> Inr (Some e) | None \<Rightarrow> alg unprotected)) (\<lambda>existing.
          case existing of
            Some e \<Rightarrow> if e \<noteq> expected then Inl (alg_mismatch e expected) else Inr ()
          | None \<Rightarrow> Inr ()))"

definition kid_match_rank :: "bytes option \<Rightarrow> bytes option \<Rightarrow> nat option" where
  "kid_match_rank message_kid verifier_kid =
     (case (message_kid, verifier_kid) of
        (Some m, Some v) \<Rightarrow> if m = v then Some 0 else None
      | _ \<Rightarrow> Some 1)"

section \<open>Nonces\<close>

definition header_bytes :: "header \<Rightarrow> header \<Rightarrow> int \<Rightarrow> error + bytes option" where
  "header_bytes protected unprotected label =
     andThen (get_bytes protected (LInt label)) (\<lambda>found.
     case found of Some v \<Rightarrow> Inr (Some v) | None \<Rightarrow> get_bytes unprotected (LInt label))"

definition nonce_from_header_values ::
  "header \<Rightarrow> header \<Rightarrow> nat \<Rightarrow> bytes option \<Rightarrow> error + bytes"
where
  "nonce_from_header_values protected unprotected nonce_size base_iv =
     andThen (header_bytes protected unprotected HeaderParameterIV) (\<lambda>full.
     andThen (header_bytes protected unprotected HeaderParameterPartialIV) (\<lambda>partial.
     if full \<noteq> None \<and> partial \<noteq> None
     then Inl (Custom ''IV and Partial IV must not both be present'')
     else case full of
       Some iv' \<Rightarrow>
         if length iv' \<noteq> nonce_size
         then Inl (Custom (''IV size mismatch, expected '' @ show_nat nonce_size @ '', got '' @
                show_nat (length iv')))
         else Inr iv'
     | None \<Rightarrow>
         andThen (ok_or partial (Custom ''missing IV or Partial IV in unprotected header'')) (\<lambda>piv.
         andThen (ok_or base_iv (Custom ''Partial IV requires a Base IV'')) (\<lambda>base.
         if length base \<noteq> nonce_size
         then Inl (Custom (''Base IV size mismatch, expected '' @ show_nat nonce_size @ '', got '' @
                show_nat (length base)))
         else if nonce_size < length piv
         then Inl (Custom (''Partial IV size mismatch, expected at most '' @ show_nat nonce_size @
                '', got '' @ show_nat (length piv)))
         else Inr (map2 (XOR) (replicate (nonce_size - length piv) 0 @ piv) base)))))"

end
