(* ===== verification/UtilProps.thy ===== *)
theory UtilProps
  imports Util
begin

text \<open>
  What the shared helpers of \<open>src/src/util.rs\<close> guarantee: the header buckets after a
  successful preparation, the algorithm check of the receiving side, and the nonce that
  \<open>IV\<close>, \<open>Partial IV\<close> and the Base IV denote.
\<close>

section \<open>The algorithm and key identifier\<close>

lemma get_label_absent: "get_label m k = Inr None \<longleftrightarrow> bt_get m k = None"
  by (auto simp: get_label_ok)

lemma get_label_present:
  "get_label m k = Inr (Some l) \<longleftrightarrow> bt_get m k = Some (value_of_label l) \<and> wf_label l"
  by (simp add: get_label_ok)

lemma alg_set_alg: "wf_label l \<Longrightarrow> alg (set_alg l h) = Inr (Some l)"
  by (simp add: alg_def set_alg_def get_label_present bt_get_insert)

text \<open>The three ways in which \<open>ensure_protected_alg\<close> succeeds.\<close>

lemma ensure_protected_alg_cases:
  assumes "ensure_protected_alg p u a = Inr (p', u')"
  obtains (no_alg) "a = None" "p' = p" "u' = u"
  | (declared) l where "a = Some l" "alg p = Inr (Some l)" "p' = p" "u' = u"
  | (moved) l where "a = Some l" "bt_get p (LInt 1) = None" "p' = set_alg l p"
      "alg u = Inr (Some l)" "u' = bt_remove (LInt 1) u"
  | (written) l where "a = Some l" "bt_get p (LInt 1) = None" "p' = set_alg l p"
      "bt_get u (LInt 1) = None" "u' = u"
proof (cases a)
  case None
  then show thesis using assms no_alg by (simp add: ensure_protected_alg_def)
next
  case (Some l)
  then obtain d where d: "alg p = Inr d"
    using assms by (auto simp: ensure_protected_alg_def andThen_eq_Inr)
  show thesis
  proof (cases d)
    case (Some e)
    then have "e = l \<and> p' = p \<and> u' = u"
      using assms d \<open>a = Some l\<close> by (simp add: ensure_protected_alg_def split: if_splits)
    then show thesis using declared d Some \<open>a = Some l\<close> by blast
  next
    case None
    then have p: "bt_get p (LInt 1) = None" using d by (simp add: alg_def get_label_absent)
    obtain o' where other: "alg u = Inr o'"
      using assms d None \<open>a = Some l\<close> by (auto simp: ensure_protected_alg_def andThen_eq_Inr)
    show thesis
    proof (cases o')
      case (Some e)
      then have "e = l \<and> p' = set_alg l p \<and> u' = bt_remove (LInt 1) u"
        using assms d \<open>d = None\<close> \<open>a = Some l\<close> other
        by (simp add: ensure_protected_alg_def split: if_splits)
      then show thesis using moved p other Some \<open>a = Some l\<close> by blast
    next
      case None
      then have "p' = set_alg l p \<and> u' = u" using assms d \<open>d = None\<close> \<open>a = Some l\<close> other
        by (simp add: ensure_protected_alg_def)
      moreover have "bt_get u (LInt 1) = None" using other None by (simp add: alg_def get_label_absent)
      ultimately show thesis using written p \<open>a = Some l\<close> by blast
    qed
  qed
qed

lemma ensure_protected_alg_wf:
  "ensure_protected_alg p u a = Inr (p', u') \<Longrightarrow> wf_bt p \<Longrightarrow> wf_bt u \<Longrightarrow> wf_bt p' \<and> wf_bt u'"
  by (erule ensure_protected_alg_cases) (auto simp: set_alg_def wf_bt_insert wf_bt_remove)

lemma ensure_protected_alg_other:
  assumes "ensure_protected_alg p u a = Inr (p', u')" and "wf_bt u" and "l \<noteq> LInt 1"
  shows "bt_get p' l = bt_get p l \<and> bt_get u' l = bt_get u l"
  using assms(1)
  by (rule ensure_protected_alg_cases)
    (use assms(2,3) in \<open>auto simp: set_alg_def bt_get_insert bt_get_remove\<close>)

lemma ensure_protected_alg_declares:
  assumes "ensure_protected_alg p u (Some l) = Inr (p', u')" and "wf_bt u"
  shows "bt_get p' (LInt 1) = Some (value_of_label l)"
  using assms(1)
  by (rule ensure_protected_alg_cases)
    (auto simp: set_alg_def bt_get_insert alg_def get_label_present)

lemma ensure_unprotected_kid_cases:
  assumes "ensure_unprotected_kid p u k = Inr u'"
  obtains (kept) "u' = u" "k = None \<or> contains_key p (LInt 4) \<or> contains_key u (LInt 4)"
  | (written) b where "k = Some b" "u' = set_kid b u"
  using assms
  by (auto simp: ensure_unprotected_kid_def result_simps kid_def contains_key_get
      split: option.splits if_splits)

text \<open>After a successful preparation.\<close>

definition prepared_headers ::
  "cbor2 \<Rightarrow> header \<Rightarrow> header \<Rightarrow> label option \<Rightarrow> bytes option \<Rightarrow> bytes \<Rightarrow> header \<Rightarrow> header \<Rightarrow> bool"
where
  "prepared_headers cb p u a k raw p' u' \<longleftrightarrow> buckets_ok p' u' \<and> encode_protected cb p' = Inr raw \<and>
     wf_bt p' \<and> wf_bt u' \<and>
     (\<forall>l. a = Some l \<longrightarrow> bt_get p' (LInt 1) = Some (value_of_label l)) \<and>
     (k \<noteq> None \<longrightarrow> contains_key p' (LInt 4) \<or> contains_key u' (LInt 4)) \<and>
     (\<forall>l. l \<noteq> LInt 1 \<longrightarrow> bt_get p' l = bt_get p l) \<and>
     (\<forall>l. l \<notin> {LInt 1, LInt 4} \<longrightarrow> bt_get u' l = bt_get u l)"

lemma prepare_headers_ok:
  assumes res: "prepare_headers cb p u a k = (Inr raw, p', u')" and wf: "wf_bt p" "wf_bt u"
  shows "prepared_headers cb p u a k raw p' u'"
proof -
  obtain u1 where alg: "ensure_protected_alg p u a = Inr (p', u1)"
    and kid: "ensure_unprotected_kid p' u1 k = Inr u'"
    and ok: "buckets_ok p' u'" "encode_protected cb p' = Inr raw"
    using res by (auto simp: prepare_headers_def result_simps guards split: sum.splits)
  note wf1 = ensure_protected_alg_wf [OF alg wf]
  have kid_facts: "wf_bt u' \<and> (\<forall>l. l \<noteq> LInt 4 \<longrightarrow> bt_get u' l = bt_get u1 l) \<and>
      (k \<noteq> None \<longrightarrow> contains_key p' (LInt 4) \<or> contains_key u' (LInt 4))"
    using kid
    by (rule ensure_unprotected_kid_cases)
      (use wf1 in \<open>auto simp: set_kid_def wf_bt_insert bt_get_insert contains_key_get\<close>)
  then show ?thesis
    using ensure_protected_alg_other [OF alg wf(2)] ensure_protected_alg_declares [of p u _ p' u1]
      alg wf wf1 ok
    by (auto simp: prepared_headers_def)
qed

text \<open>The receiver accepts a message prepared with the algorithm that it expects.\<close>

lemma check_protected_alg_declared:
  "bt_get p (LInt 1) = Some (value_of_label l) \<Longrightarrow> wf_label l \<Longrightarrow>
    check_protected_alg p u (Some l) = Inr ()"
  using get_label_present [of p "LInt 1" l] by (simp add: check_protected_alg_def alg_def)

lemma check_protected_alg_ok:
  "check_protected_alg p u (Some l) = Inr () \<longleftrightarrow>
    (\<exists>d. alg p = Inr (Some d) \<and> d = l) \<or>
    (alg p = Inr None \<and> (alg u = Inr (Some l) \<or> alg u = Inr None))"
  by (cases "alg p"; cases "the (projr (alg p))")
    (auto simp: check_protected_alg_def result_simps split: option.splits if_splits)

section \<open>Nonces\<close>

text \<open>RFC 9052, section 3.1: the Partial IV is left-padded with zeros and XORed with the
  Context IV.\<close>

definition padded_xor :: "nat \<Rightarrow> bytes \<Rightarrow> bytes \<Rightarrow> bytes" where
  "padded_xor n partial base = map2 (XOR) (replicate (n - length partial) 0 @ partial) base"

lemma nonce_ok:
  "nonce_from_header_values p u n base_iv = Inr nonce \<longleftrightarrow>
    (header_bytes p u 5 = Inr (Some nonce) \<and> header_bytes p u 6 = Inr None \<and> length nonce = n) \<or>
    (\<exists>partial base. header_bytes p u 5 = Inr None \<and> header_bytes p u 6 = Inr (Some partial) \<and>
       base_iv = Some base \<and> length base = n \<and> length partial \<le> n \<and> nonce = padded_xor n partial base)"
  by (auto simp: nonce_from_header_values_def result_simps padded_xor_def split: option.splits)

lemma padded_xor_length: "length partial \<le> n \<Longrightarrow> length base = n \<Longrightarrow> length (padded_xor n partial base) = n"
  by (simp add: padded_xor_def)

lemma nonce_length: "nonce_from_header_values p u n base_iv = Inr nonce \<Longrightarrow> length nonce = n"
  by (auto simp: nonce_ok padded_xor_length)

lemma map2_xor_inj:
  fixes xs ys zs :: bytes
  assumes "length xs = length zs" and "length ys = length zs" and "map2 (XOR) xs zs = map2 (XOR) ys zs"
  shows "xs = ys"
proof (rule nth_equalityI)
  show "length xs = length ys" using assms(1,2) by simp
  fix i
  assume i: "i < length xs"
  then have "map2 (XOR) xs zs ! i = map2 (XOR) ys zs ! i" using assms(3) by simp
  then have "xs ! i XOR zs ! i = ys ! i XOR zs ! i" using i assms(1,2) by simp
  then have "(xs ! i XOR zs ! i) XOR zs ! i = (ys ! i XOR zs ! i) XOR zs ! i" by simp
  then show "xs ! i = ys ! i" by (simp add: xor.assoc)
qed

text \<open>Partial IVs of one length never collide under one Base IV.\<close>

lemma padded_xor_inj:
  assumes "length a = length b" and "length a \<le> n" and "length base = n"
    and "padded_xor n a base = padded_xor n b base"
  shows "a = b"
proof -
  have "replicate (n - length a) 0 @ a = replicate (n - length b) 0 @ b"
    by (rule map2_xor_inj [where zs = base]) (use assms in \<open>auto simp: padded_xor_def\<close>)
  then show ?thesis using assms(1) by simp
qed

end
