(* ===== verification/ReferenceCbor.thy ===== *)
theory ReferenceCbor
  imports UtilProps "HOL-Library.Code_Target_Nat"
begin

text \<open>
  A concrete codec of the shape that RFC 8949 documents, used to instantiate the
  parameter \<open>cbor2\<close>: the deterministic encoding of values and of fragment arrays, built
  from \<open>write_head\<close>. It models no code of the repository; it shows that the hypotheses on
  the codec can hold and lets the properties be evaluated on concrete messages.
\<close>

definition ref_head :: "u8 \<Rightarrow> nat \<Rightarrow> bytes" where
  "ref_head m n = write_head m (word_of_nat n)"

fun ref_value :: "value \<Rightarrow> bytes" where
  "ref_value (VInteger i) = (if 0 \<le> i then ref_head 0 (nat i) else ref_head 1 (nat (- 1 - i)))"
| "ref_value (VFloat x) = 0xfb # to_be_bytes (f64_bits x)"
| "ref_value (VBytes b) = ref_head 2 (length b) @ b"
| "ref_value (VText s) = ref_head 3 (length s) @ text_bytes s"
| "ref_value (VBool b) = [if b then 0xf5 else 0xf4]"
| "ref_value VNull = [0xf6]"
| "ref_value (VSimple s) = (if s < 24 then [0xe0 OR s] else [0xf8, s])"
| "ref_value (VTag t v) = write_head 6 t @ ref_value v"
| "ref_value (VArray vs) = ref_head 4 (length vs) @ concat (map ref_value vs)"
| "ref_value (VMap kvs) =
     ref_head 5 (length kvs) @ concat (map (\<lambda>(k, v). k @ v)
       (sort_key fst (map (\<lambda>(k, v). (ref_value k, ref_value v)) kvs)))"

fun ref_frag :: "frag \<Rightarrow> bytes" where
  "ref_frag (FText s) = ref_head 3 (length s) @ text_bytes s"
| "ref_frag (FBytes b) = ref_head 2 (length b) @ b"
| "ref_frag FNull = [0xf6]"
| "ref_frag (FRaw b) = b"
| "ref_frag (FArray fs) = ref_head 4 (length fs) @ concat (map ref_frag fs)"

definition ref_frags :: "frag list \<Rightarrow> bytes" where
  "ref_frags fs = ref_head 4 (length fs) @ concat (map ref_frag fs)"

definition ref_cbor :: cbor2 where
  "ref_cbor = \<lparr>lib_from_slice = (\<lambda>_. Inl []), lib_from_slice_map = (\<lambda>_ _. Inl []),
     lib_from_slice_wire4 = (\<lambda>_ _. Inl []), lib_from_slice_wire3 = (\<lambda>_ _. Inl []),
     lib_from_slice_sign = (\<lambda>_ _. Inl []), lib_from_slice_mac = (\<lambda>_ _. Inl []),
     lib_from_slice_encrypt = (\<lambda>_ _. Inl []), lib_from_slice_recipient = (\<lambda>_. Inl []),
     lib_from_slice_array = (\<lambda>_. Inl []),
     lib_to_vec = (\<lambda>v. Inr (ref_value v)), lib_to_canonical_vec = (\<lambda>v. Inr (ref_value v)),
     lib_encode_frags = (\<lambda>fs. Inr (ref_frags fs)),
     lib_serialized_size = (\<lambda>fs. Inr (length (ref_frags fs))),
     lib_raw_value = Inr, lib_validate_slice = (\<lambda>_. Inr ()), lib_recursion_limit = 128,
     lib_display_value = (\<lambda>_. ''value'')\<rparr>"

text \<open>Sorting commutes with a map that carries the keys.\<close>

lemma insort_key_map: "insort_key f (g x) (map g xs) = map g (insort_key (\<lambda>y. f (g y)) x xs)"
  by (induction xs) auto

lemma sort_key_map: "sort_key f (map g xs) = map g (sort_key (\<lambda>y. f (g y)) xs)"
  by (induction xs) (auto simp: insort_key_map)

section \<open>Structures of text and byte strings are encoded without ambiguity\<close>

text \<open>The parts of the authenticated \<open>*_structure\<close> arrays, within the lengths of memory.\<close>

fun plain_frag :: "frag \<Rightarrow> bool" where
  "plain_frag (FText s) \<longleftrightarrow> length s < usize_limit"
| "plain_frag (FBytes b) \<longleftrightarrow> length b < usize_limit"
| "plain_frag _ \<longleftrightarrow> False"

lemma ref_head_inj:
  assumes "ref_head m a @ x = ref_head m' b @ y" and "m < 8" and "m' < 8"
    and "a < usize_limit" and "b < usize_limit"
  shows "m = m' \<and> a = b \<and> x = y"
  using write_head_prefix_free [OF assms(1) [unfolded ref_head_def] assms(2,3)]
    word_of_nat_inj_u64 [OF assms(4,5)] by auto

lemma ref_frag_prefix_free:
  assumes "ref_frag f @ x = ref_frag g @ y" and "plain_frag f" and "plain_frag g"
  shows "f = g \<and> x = y"
proof -
  have shape: "\<exists>m c. m < 8 \<and> length c < usize_limit \<and> ref_frag h = ref_head m (length c) @ c \<and>
      (m = 3 \<and> (\<exists>s. h = FText s \<and> c = text_bytes s) \<or> m = 2 \<and> h = FBytes c)"
    if "plain_frag h" for h
    using that by (cases h) auto
  obtain m c where f: "m < 8" "length c < usize_limit" "ref_frag f = ref_head m (length c) @ c"
    "m = 3 \<and> (\<exists>s. f = FText s \<and> c = text_bytes s) \<or> m = 2 \<and> f = FBytes c"
    using shape [OF assms(2)] by blast
  obtain m' c' where g: "m' < 8" "length c' < usize_limit" "ref_frag g = ref_head m' (length c') @ c'"
    "m' = 3 \<and> (\<exists>s. g = FText s \<and> c' = text_bytes s) \<or> m' = 2 \<and> g = FBytes c'"
    using shape [OF assms(3)] by blast
  have "m = m' \<and> length c = length c' \<and> c @ x = c' @ y"
    using ref_head_inj [of m "length c" "c @ x" m' "length c'" "c' @ y"] assms(1) f g by simp
  then show ?thesis using f(4) g(4) by (auto simp: text_bytes_inj)
qed

lemma ref_frags_prefix_free:
  "concat (map ref_frag fs) = concat (map ref_frag gs) \<Longrightarrow> length fs = length gs \<Longrightarrow>
    list_all plain_frag fs \<Longrightarrow> list_all plain_frag gs \<Longrightarrow> fs = gs"
proof (induction fs arbitrary: gs)
  case Nil
  then show ?case by simp
next
  case (Cons f fs)
  then obtain g gs' where gs: "gs = g # gs'" by (cases gs) auto
  have "f = g \<and> concat (map ref_frag fs) = concat (map ref_frag gs')"
    using Cons.prems by (intro ref_frag_prefix_free) (auto simp: gs)
  then show ?case using Cons by (simp add: gs)
qed

text \<open>
  The documented behaviour that the separation of the authenticated structures relies on:
  on arrays of text and byte strings the encoder is injective.
\<close>

definition injective_encoder :: "cbor2 \<Rightarrow> bool" where
  "injective_encoder cb \<longleftrightarrow> (\<forall>fs gs b. list_all plain_frag fs \<longrightarrow> list_all plain_frag gs \<longrightarrow>
     length fs < usize_limit \<longrightarrow> length gs < usize_limit \<longrightarrow>
     lib_encode_frags cb fs = Inr b \<longrightarrow> lib_encode_frags cb gs = Inr b \<longrightarrow> fs = gs)"

lemma ref_cbor_injective: "injective_encoder ref_cbor"
  unfolding injective_encoder_def
proof (intro allI impI)
  fix fs gs b
  assume p: "list_all plain_frag fs" "list_all plain_frag gs"
    "length fs < usize_limit" "length gs < usize_limit"
    and "lib_encode_frags ref_cbor fs = Inr b" "lib_encode_frags ref_cbor gs = Inr b"
  then have "ref_frags fs = ref_frags gs" by (simp add: ref_cbor_def)
  then have "length fs = length gs \<and> concat (map ref_frag fs) = concat (map ref_frag gs)"
    using ref_head_inj [of 4 "length fs" _ 4 "length gs"] p(3,4) by (simp add: ref_frags_def)
  then show "fs = gs" using ref_frags_prefix_free p(1,2) by blast
qed

lemma injective_encoderD:
  assumes "injective_encoder cb" and "encode_structure cb fs = Inr b" and "encode_structure cb gs = Inr b"
    and "list_all plain_frag fs" and "list_all plain_frag gs"
    and "length fs < usize_limit" and "length gs < usize_limit"
  shows "fs = gs"
  using assms unfolding injective_encoder_def encode_structure_def map_err_eq by blast

section \<open>Concrete providers\<close>

text \<open>
  A toy signature, tag or ciphertext carries its own input; enough to apply the properties
  of the message types to concrete messages.
\<close>

definition demo_seal :: "bytes \<Rightarrow> bytes" where
  "demo_seal data = 0x5a # rev data"

definition demo_check :: "bytes \<Rightarrow> bytes \<Rightarrow> error + unit" where
  "demo_check data s = (if s = demo_seal data then Inr () else Inl (Verify ''demo''))"

definition demo_signer :: signer where
  "demo_signer = \<lparr>sg_alg = Some (LInt AlgorithmES256), sg_kid = Some [0x31],
     sg_sign = (\<lambda>d. Inr (demo_seal d))\<rparr>"

definition demo_verifier :: verifier where
  "demo_verifier = \<lparr>vf_alg = Some (LInt AlgorithmES256), vf_kid = Some [0x31], vf_understood = [],
     vf_verify = demo_check\<rparr>"

text \<open>The codec with a decoder for one header map, \<open>{1: -7}\<close>.\<close>

definition demo_map_decoder :: "(value \<Rightarrow> string + label) \<Rightarrow> bytes \<Rightarrow> string + wire_header" where
  "demo_map_decoder visitor d =
     (if d = [0xa1, 0x01, 0x26]
      then map_ok (\<lambda>l. [(l, VInteger (- 7))]) (visitor (VInteger 1)) else Inl ''demo'')"

definition demo_cbor :: cbor2 where
  "demo_cbor = ref_cbor\<lparr>lib_from_slice_map := demo_map_decoder,
     lib_from_slice_wire4 := (\<lambda>visitor d.
       if d = [0x84, 0x43, 0xa1, 0x01, 0x26, 0xa0, 0x41, 0x07, 0x42, 0x09, 0x09]
       then Inr ([0xa1, 0x01, 0x26], [], Some [0x07], [0x09, 0x09]) else Inl ''demo'')\<rparr>"

end
