(* ===== verification/StrictLaws.thy ===== *)
theory StrictLaws
  imports ReferenceCbor
begin

text \<open>
  The strict layer and \<open>CoseMap\<close> on top of it: the parser is total, it reads back the heads
  that the encoder writes, and the message body is an item of the shape that its tag
  prescribes.
\<close>

section \<open>Totality\<close>

text \<open>\<open>m \<lesssim> m'\<close> in the order of partial results: \<open>m'\<close> is \<open>m\<close> unless \<open>m\<close> ran out of fuel.\<close>

definition res_le :: "'a option \<Rightarrow> 'a option \<Rightarrow> bool" where
  "res_le m m' \<longleftrightarrow> m = None \<or> m' = m"

lemma res_le_refl [simp]: "res_le m m"
  by (simp add: res_le_def)

lemma res_le_None [simp]: "res_le None m"
  by (simp add: res_le_def)

lemma thenF_le: "res_le m m' \<Longrightarrow> (\<And>x. res_le (f x) (f' x)) \<Longrightarrow> res_le (thenF m f) (thenF m' f')"
  by (auto simp: res_le_def thenF_def split: option.splits sum.splits)

lemma if_le: "(c \<Longrightarrow> res_le a a') \<Longrightarrow> (\<not> c \<Longrightarrow> res_le b b') \<Longrightarrow>
    res_le (if c then a else b) (if c then a' else b')"
  by simp

lemma prod_le: "(\<And>a b. res_le (f a b) (f' a b)) \<Longrightarrow> res_le (case x of (a, b) \<Rightarrow> f a b) (case x of (a, b) \<Rightarrow> f' a b)"
  by (cases x) simp

lemmas le_intros = thenF_le if_le prod_le res_le_refl

lemma parse_chunks_le:
  assumes child: "\<And>p. res_le (child p) (child' p)"
  shows "res_le (parse_chunks child fuel kind p) (parse_chunks child' fuel kind p)"
  by (induction fuel arbitrary: p) (auto intro!: le_intros child)

lemma parse_members_le:
  assumes child: "\<And>p. res_le (child p) (child' p)"
  shows "res_le (parse_members child fuel n p) (parse_members child' fuel n p)"
  by (induction fuel arbitrary: n p) (simp, simp only: parse_members.simps, intro le_intros child)

lemma parse_entries_le:
  assumes child: "\<And>p. res_le (child p) (child' p)"
  shows "res_le (parse_entries cb child fuel pairs parsed keys p)
    (parse_entries cb child' fuel pairs parsed keys p)"
  by (induction fuel arbitrary: parsed keys p)
    (simp, simp only: parse_entries.simps, intro le_intros child)

lemma parse_content_le:
  assumes child: "\<And>p. res_le (child p) (child' p)"
  shows "res_le (parse_content cb child h p) (parse_content cb child' h p)"
  unfolding parse_content_def parse_string_def parse_array_def parse_map_def parse_tag_def
  by (cases "hd_argument h")
    (auto intro!: le_intros child parse_chunks_le parse_members_le parse_entries_le)

lemma parse_fuel_mono: "res_le (parse cb fuel depth p) (parse cb (fuel + k) depth p)"
proof (induction fuel arbitrary: depth p)
  case (Suc fuel)
  show ?case
    by (simp only: parse.simps add_Suc Let_def)
      (intro le_intros parse_content_le Suc.IH)
qed simp

text \<open>
  C27. The parser returns on every input, whatever its length fields claim: the
  fuel that \<open>root\<close> gives suffices from every position and depth, and more fuel never changes
  the result, so the fuelled descent is the code's unbounded one.
\<close>

theorem strict_parser_total:
  "\<exists>r. \<forall>k. parse cb (loop_fuel p + k) depth p = Some r"
  using parse_root_returns [of cb p depth] parse_fuel_mono [of cb "loop_fuel p" depth p]
  by (auto simp: returns_def res_le_def)

section \<open>Heads\<close>

lemma get_slice_append: "get_slice (xs @ ys @ zs) (length xs) (length xs + length ys) = Some ys"
  by (simp add: get_slice_def slice_def)

lemma uint_reads_tail:
  assumes "a \<le> 27" and "length t = tail_width a" and "pa_data p = pre @ t @ rest"
    and "pa_pos p = length pre" and "length pre + length t < usize_limit"
  shows "uint a p = Inr (Some (if a \<le> 23 then ucast a else fold_be t),
    p\<lparr>pa_pos := length pre + length t\<rparr>)"
proof (cases "a \<le> 23")
  case True
  then have "p\<lparr>pa_pos := length pre + length t\<rparr> = p" using assms(2,4) by (simp add: tail_width_def)
  then show ?thesis using True by (simp add: uint_def)
next
  case False
  have "\<not> (31 :: u8) \<le> 27" by simp
  then have a31: "a \<noteq> 31" using assms(1) by metis
  have "a = 24 \<or> a = 25 \<or> a = 26 \<or> a = 27"
  proof -
    have "unat a \<le> 27" "\<not> unat a \<le> 23" using assms(1) False by (simp_all add: word_le_nat_alt)
    then have "unat a = 24 \<or> unat a = 25 \<or> unat a = 26 \<or> unat a = 27" by arith
    then show ?thesis by (simp add: word_unat_eq_iff)
  qed
  then have w: "uint_width a = Some (length t)"
    using assms(2) by (auto simp: uint_width_def tail_width_def)
  have "get_slice (pa_data p) (pa_pos p) (length pre + length t) = Some t"
    using assms(3,4) get_slice_append [of pre t rest] by simp
  then show ?thesis using False a31 w assms(4,5) by (simp add: uint_def checked_add_def)
qed

text \<open>
  Wherever the encoder's \<open>write_head\<close> put a head for an integer, a string,
  an array, a map or a tag, the strict parser reads back the same major type and the same
  64-bit argument and stops right after the head.
\<close>

theorem strict_reads_written_head:
  assumes "pa_data p = pre @ write_head m n @ rest" and "pa_pos p = length pre" and "m < 7"
    and "depth \<le> cl_max_depth (pa_limits p)" and "pa_items p < cl_max_items (pa_limits p)"
    and "length (pa_data p) < usize_limit" and "cl_max_items (pa_limits p) < usize_limit"
  shows "\<exists>h p'. parse_head depth p = Inr (h, p') \<and> hd_start h = length pre \<and> hd_major h = m \<and>
    hd_argument h = Some n \<and> pa_pos p' = length (pre @ write_head m n) \<and> stays p p'"
proof -
  obtain a t where w: "write_head m n = (push_bit 5 m OR a) # t" and a: "a \<le> 27"
    and t: "length t = tail_width a" and n: "n = (if a \<le> 23 then ucast a else fold_be t)"
    by (rule write_head_form)
  have m8: "m < 8" using assms(3) by (rule order_less_trans) simp
  have a32: "a < 32" using a by (rule order_le_less_trans) simp
  note f = initial_byte_fields [OF m8 a32]
  define b where "b = push_bit 5 m OR a"
  have bff: "b \<noteq> 0xff"
  proof
    assume "b = 0xff"
    then have "m = drop_bit 5 0xff" using f(1) by (simp add: b_def)
    then have "m = 7" by simp
    then show False using assms(3) by simp
  qed
  define p1 where "p1 = p\<lparr>pa_items := pa_items p + 1\<rparr>"
  define p2 where "p2 = p1\<lparr>pa_pos := length pre + 1\<rparr>"
  have c: "count_item p = Inr p1"
    using assms(5,7) by (simp add: count_item_def checked_add_def p1_def)
  have first: "byte p1 = Inr (b, p2)"
    using assms(1,2) by (simp add: byte_def get_at_def w b_def p1_def p2_def)
  have u: "uint a p2 = Inr (Some n, p2\<lparr>pa_pos := length (pre @ [b]) + length t\<rparr>)"
    unfolding n using assms(1,6)
    by (intro uint_reads_tail [OF a t, where rest = rest]) (simp_all add: p2_def p1_def w b_def)
  have fb: "drop_bit 5 b = m" "b AND 0x1f = a" using f by (simp_all add: b_def)
  have head: "parse_head depth p = Inr (\<lparr>hd_start = length pre, hd_major = m, hd_additional = a,
      hd_argument = Some n\<rparr>, p2\<lparr>pa_pos := length (pre @ [b]) + length t\<rparr>)"
    using assms(2,4) c first u bff
    by (simp add: parse_head_def fb Let_def p1_def)
  then show ?thesis using parse_head_ok(1) [OF head] by (auto simp: w)
qed

definition demo_head_parser :: parser where
  "demo_head_parser = new_parser (write_head 2 300 @ [7]) default_limits True"

theorem strict_reads_written_head_witness:
  "\<exists>h p'. parse_head 0 demo_head_parser = Inr (h, p') \<and> hd_major h = 2 \<and> hd_argument h = Some 300"
proof -
  have "length (write_head 2 300 @ [7]) < usize_limit"
    by (simp add: write_head_def usize_limit_def)
  then show ?thesis
    using strict_reads_written_head [of demo_head_parser "[]" 2 300 "[7]" 0]
    by (auto simp: demo_head_parser_def new_parser_def default_limits_def usize_limit_def)
qed

section \<open>Message bodies\<close>

text \<open>
  The body handed to a message decoder is the exact encoding of an array in
  the input that has the shape of the expected tag (RFC 9052), under at most a self-described
  CBOR tag, a CWT tag that wraps a tagged message, and the message's own tag; nothing is
  sliced out of range and an index into the members is always valid.
\<close>

theorem message_body_sound:
  assumes "message_body cb data tag limits = Inr out"
  shows "\<exists>item body. root cb data limits = Inr item \<and> message_wrapping tag item body \<and>
    item_wf data body \<and> it_kind body = KArray \<and> message_shape tag body \<and>
    it_end body \<le> length data \<and> out = slice data (it_start body) (it_end body) \<and>
    length out = it_end body - it_start body \<and> out \<noteq> [] \<and> drop_bit 5 (hd out) = 4"
proof -
  obtain item body where r: "root cb data limits = Inr item"
    and w: "message_wrapping tag item body" and k: "it_kind body = KArray"
    and s: "message_shape tag body" and out: "out = slice data (it_start body) (it_end body)"
    using assms by (auto simp: message_body_cases)
  have "item_wf data item" using r root_policy_sound(1) by (auto simp: root_def)
  then have wf: "item_wf data body" by (rule message_wrapping_wf [OF w])
  note span = item_wf_span [OF wf]
  have "out = data ! it_start body # slice data (Suc (it_start body)) (it_end body)"
    unfolding out using span by (intro slice_cons) auto
  then show ?thesis using r w k s out wf span item_wf_major [OF wf]
    by (intro exI [of _ item] exI [of _ body]) auto
qed

lemma demo_message_body:
  "message_body ref_cbor [0xd8, 0x3d, 0xd2, 0x84, 0x40, 0xa0, 0xf6, 0x41, 0x07] 18 default_limits =
    Inr [0x84, 0x40, 0xa0, 0xf6, 0x41, 0x07]"
  by code_simp

theorem message_body_sound_witness:
  "\<exists>body. item_wf [0xd8, 0x3d, 0xd2, 0x84, 0x40, 0xa0, 0xf6, 0x41, 0x07] body \<and>
    message_shape 18 body \<and> it_end body - it_start body = 6"
  using message_body_sound [OF demo_message_body] by auto

end
