(* ===== verification/Lifecycle.thy ===== *)
theory Lifecycle
  imports UtilProps
begin

text \<open>
  The life of a layer that carries a cryptographic result: it starts without one, calls
  prepare it, complete it or fail half-way, and its public fields may be assigned between
  calls. The locale states what the message types share: a completed layer holds a
  result that a provider produced over the bytes it stores.
\<close>

locale sealed_layer =
  fixes status :: "'s \<Rightarrow> operation_state"
    and sealed :: "'s \<Rightarrow> 'o"
    and fresh :: "'s \<Rightarrow> bool"
    and step :: "'s \<Rightarrow> 's \<Rightarrow> bool"
    and genuine :: "'o \<Rightarrow> bool"
  assumes fresh_open: "fresh s \<Longrightarrow> status s \<noteq> Complete"
    and step_seals: "step s s' \<Longrightarrow> status s' = Complete \<Longrightarrow>
      (status s = Complete \<and> sealed s' = sealed s) \<or> genuine (sealed s')"
begin

definition layer_inv :: "'s \<Rightarrow> bool" where
  "layer_inv s \<longleftrightarrow> (status s = Complete \<longrightarrow> genuine (sealed s))"

lemma inv_fresh: "fresh s \<Longrightarrow> layer_inv s"
  by (simp add: layer_inv_def fresh_open)

lemma inv_step: "step s s' \<Longrightarrow> layer_inv s \<Longrightarrow> layer_inv s'"
  using step_seals [of s s'] by (auto simp: layer_inv_def)

lemma inv_run: "step\<^sup>*\<^sup>* s s' \<Longrightarrow> layer_inv s \<Longrightarrow> layer_inv s'"
  by (induction rule: rtranclp_induct) (auto intro: inv_step)

lemma complete_is_genuine:
  "fresh s \<Longrightarrow> step\<^sup>*\<^sup>* s s' \<Longrightarrow> status s' = Complete \<Longrightarrow> genuine (sealed s')"
  using inv_run [of s s'] inv_fresh [of s] by (simp add: layer_inv_def)

end

end
