(* ===== verification/Countersign.thy ===== *)
theory Countersign
  imports Lifecycle
begin

text \<open>
  \<open>src/src/countersign.rs\<close> (legacy full countersignatures) and the parts of
  \<open>src/src/header.rs\<close> that depend on it: \<open>counter_signatures\<close>, \<open>set_counter_signatures\<close> and
  the critical-header check \<open>ensure_crit_understood\<close>.
\<close>

record countersignature =
  cs_protected :: header
  cs_unprotected :: header
  cs_signature :: bytes
  cs_protected_raw :: bytes
  cs_state :: operation_state

definition cs_new :: countersignature where
  "cs_new = \<lparr>cs_protected = [], cs_unprotected = [], cs_signature = [], cs_protected_raw = [],
     cs_state = New\<rparr>"

definition cs_to_be_signed :: "cbor2 \<Rightarrow> bytes \<Rightarrow> bytes \<Rightarrow> bytes \<Rightarrow> bytes \<Rightarrow> error + bytes" where
  "cs_to_be_signed cb body_protected sign_protected external_aad payload =
     encode_structure cb [FText ''CounterSignature'', FBytes body_protected, FBytes sign_protected,
       FBytes external_aad, FBytes payload]"

definition cs_prepare_signature ::
  "cbor2 \<Rightarrow> countersignature \<Rightarrow> label option \<Rightarrow> bytes option \<Rightarrow> bytes \<Rightarrow> bytes \<Rightarrow> bytes option \<Rightarrow>
    (error + bytes) \<times> countersignature"
where
  "cs_prepare_signature cb self a k body_protected payload external_aad =
     (case prepare_headers cb (cs_protected self) (cs_unprotected self) a k of
        (Inl e, p, u) \<Rightarrow> (Inl e, self\<lparr>cs_protected := p, cs_unprotected := u\<rparr>)
      | (Inr raw, p, u) \<Rightarrow>
          let self' = self\<lparr>cs_protected := p, cs_unprotected := u, cs_protected_raw := raw,
                cs_signature := [], cs_state := Prepared\<rparr> in
          (cs_to_be_signed cb body_protected raw (unwrap_or_empty external_aad) payload, self'))"

definition cs_set_signature ::
  "cbor2 \<Rightarrow> countersignature \<Rightarrow> bytes \<Rightarrow> (error + unit) \<times> countersignature"
where
  "cs_set_signature cb self signature =
     (case sync_protected_raw cb (cs_protected self) (cs_unprotected self) (cs_protected_raw self)
         (cs_state self) of
        Inl e \<Rightarrow> (Inl e, self)
      | Inr raw \<Rightarrow> (Inr (), self\<lparr>cs_protected_raw := raw, cs_signature := signature,
          cs_state := Complete\<rparr>))"

definition cs_sign ::
  "cbor2 \<Rightarrow> countersignature \<Rightarrow> signer \<Rightarrow> bytes \<Rightarrow> bytes \<Rightarrow> bytes option \<Rightarrow>
    (error + unit) \<times> countersignature"
where
  "cs_sign cb self sg body_protected payload external_aad =
     (case cs_prepare_signature cb self (sg_alg sg) (sg_kid sg) body_protected payload external_aad of
        (Inl e, self') \<Rightarrow> (Inl e, self')
      | (Inr tbs, self') \<Rightarrow>
          (case sg_sign sg tbs of
             Inl e \<Rightarrow> (Inl e, self')
           | Inr s \<Rightarrow> (Inr (), self'\<lparr>cs_signature := s, cs_state := Complete\<rparr>)))"

text \<open>\<open>CounterSignature::from_value\<close> and \<open>to_value\<close>.\<close>

definition cs_from_value :: "cbor2 \<Rightarrow> value \<Rightarrow> error + countersignature" where
  "cs_from_value cb v =
     (case v of
        VArray items \<Rightarrow>
          if length items \<noteq> 3
          then Inl (UnexpectedType ''COSE_Countersignature must contain 3 elements'')
          else (case items ! 0 of
            VBytes protected_raw \<Rightarrow>
              if \<not> (case items ! 1 of VMap _ \<Rightarrow> True | _ \<Rightarrow> False)
              then Inl (UnexpectedType ''countersignature unprotected header must be a map'')
              else (case items ! 2 of
                VBytes signature \<Rightarrow>
                  andThen (decode_protected cb protected_raw) (\<lambda>protected.
                  andThen (cbor_to_canonical_vec cb (items ! 1)) (\<lambda>enc.
                  andThen (header_from_slice cb enc) (\<lambda>unprotected.
                  andThen (validate_header_buckets protected unprotected) (\<lambda>_.
                  Inr \<lparr>cs_protected = protected, cs_unprotected = unprotected,
                       cs_signature = signature, cs_protected_raw = protected_raw,
                       cs_state = Complete\<rparr>))))
              | _ \<Rightarrow> Inl (UnexpectedType ''countersignature value must be a byte string''))
          | _ \<Rightarrow> Inl (UnexpectedType ''countersignature protected header must be a byte string''))
      | _ \<Rightarrow> Inl (UnexpectedType ''COSE_Countersignature must be an array''))"

definition cs_to_value :: "cbor2 \<Rightarrow> countersignature \<Rightarrow> error + value" where
  "cs_to_value cb self =
     andThen (require_complete (cs_state self) ''CounterSignature must be signed before encoding'') (\<lambda>_.
     andThen (validate_layer cb (cs_protected self) (cs_unprotected self) (cs_protected_raw self)) (\<lambda>_.
     Inr (VArray [VBytes (cs_protected_raw self),
       VMap (map (\<lambda>(l, v). (value_of_label l, v)) (cs_unprotected self)),
       VBytes (cs_signature self)])))"

definition counter_signatures_from_value :: "cbor2 \<Rightarrow> value \<Rightarrow> error + countersignature list" where
  "counter_signatures_from_value cb v =
     (case v of
        VArray items \<Rightarrow>
          (case items of
             [] \<Rightarrow> Inl (UnexpectedType ''counter signature array must not be empty'')
           | VBytes _ # _ \<Rightarrow> map_ok (\<lambda>s. [s]) (cs_from_value cb v)
           | _ \<Rightarrow> traverse (cs_from_value cb) items)
      | _ \<Rightarrow> Inl (UnexpectedType
          ''counter signature header must contain a COSE_Countersignature or non-empty array of them''))"

definition counter_signatures :: "cbor2 \<Rightarrow> header \<Rightarrow> error + countersignature list option" where
  "counter_signatures cb h =
     transpose_opt (map_option (counter_signatures_from_value cb)
       (bt_get h (LInt HeaderParameterCounterSignature)))"

definition set_counter_signatures ::
  "cbor2 \<Rightarrow> header \<Rightarrow> countersignature list \<Rightarrow> error + header"
where
  "set_counter_signatures cb h signatures =
     (if signatures = [] then Inr (bt_remove (LInt HeaderParameterCounterSignature) h)
      else
        andThen (traverse (cs_to_value cb) signatures) (\<lambda>values.
        let v = (case values of [single] \<Rightarrow> single | _ \<Rightarrow> VArray values) in
        Inr (bt_insert (LInt HeaderParameterCounterSignature) v h)))"

section \<open>Critical headers\<close>

definition crit_label_understood :: "cbor2 \<Rightarrow> header \<Rightarrow> label list \<Rightarrow> label \<Rightarrow> error + unit" where
  "crit_label_understood cb h understood l =
     (if l = LInt HeaderParameterCounterSignature
      then andThen (counter_signatures cb h) (\<lambda>_. Inr ())
      else if is_understood_header l \<or> l \<in> set understood then Inr ()
      else Inl (Custom (''unsupported critical header parameter '' @ show_label l)))"

definition ensure_crit_understood :: "cbor2 \<Rightarrow> header \<Rightarrow> label list \<Rightarrow> error + unit" where
  "ensure_crit_understood cb h understood =
     andThen (validate_common h) (\<lambda>_.
     andThen (crit h) (\<lambda>labels.
     case labels of
       None \<Rightarrow> Inr ()
     | Some ls \<Rightarrow> for_each (crit_label_understood cb h understood) ls))"

text \<open>\<open>CounterSignature::verify\<close>.\<close>

definition cs_verify ::
  "cbor2 \<Rightarrow> countersignature \<Rightarrow> verifier \<Rightarrow> bytes \<Rightarrow> bytes \<Rightarrow> bytes option \<Rightarrow> error + unit"
where
  "cs_verify cb self vf body_protected payload external_aad =
     andThen (require_complete (cs_state self)
       ''CounterSignature must be signed or decoded before verifying'') (\<lambda>_.
     andThen (validate_layer cb (cs_protected self) (cs_unprotected self) (cs_protected_raw self)) (\<lambda>_.
     andThen (ensure_crit_understood cb (cs_protected self) (vf_understood vf)) (\<lambda>_.
     andThen (check_protected_alg (cs_protected self) (cs_unprotected self) (vf_alg vf)) (\<lambda>_.
     andThen (cs_to_be_signed cb body_protected (cs_protected_raw self)
         (unwrap_or_empty external_aad) payload) (\<lambda>tbs.
     vf_verify vf tbs (cs_signature self))))))"

section \<open>What the critical-header check guarantees\<close>

lemma crit_label_understood_ok [guards]:
  "crit_label_understood cb h understood l = Inr u \<longleftrightarrow>
    (if l = LInt HeaderParameterCounterSignature then is_ok (counter_signatures cb h)
     else is_understood_header l \<or> l \<in> set understood)"
  by (auto simp: crit_label_understood_def result_simps is_ok_iff)

definition crit_understood :: "cbor2 \<Rightarrow> header \<Rightarrow> label list \<Rightarrow> bool" where
  "crit_understood cb h understood \<longleftrightarrow>
     (\<forall>ls. crit h = Inr (Some ls) \<longrightarrow> (\<forall>l \<in> set ls.
       if l = LInt HeaderParameterCounterSignature then is_ok (counter_signatures cb h)
       else is_understood_header l \<or> l \<in> set understood))"

lemma common_ok_crit: "common_ok h \<Longrightarrow> \<exists>labels. crit h = Inr labels"
  using crit_step [of h "Custom []"] by (auto simp: common_ok_def)

lemma ensure_crit_understood_ok [guards]:
  "ensure_crit_understood cb h understood = Inr () \<longleftrightarrow> common_ok h \<and> crit_understood cb h understood"
proof (cases "crit h")
  case (Inl e)
  then show ?thesis using common_ok_crit [of h]
    by (auto simp: ensure_crit_understood_def andThen_eq_Inr validate_common_ok)
next
  case (Inr labels)
  then show ?thesis
    by (cases labels)
      (auto simp: ensure_crit_understood_def andThen_eq_Inr validate_common_ok crit_understood_def
        for_each_ok crit_label_understood_ok)
qed

end
