(* ===== verification/HeaderLaws.thy ===== *)
theory HeaderLaws
  imports Countersign ReferenceCbor "HOL-Library.Multiset"
begin

text \<open>
  The properties of maps and headers: map updates, the deterministic map encoding, the rules
  for the two header buckets, critical headers, preparation for an operation, and nonces.
\<close>

section \<open>Maps\<close>

text \<open>
  A \<open>CoseMap\<close> behaves as a finite map from labels: \<open>insert\<close> and \<open>remove\<close>
  change one label, return its previous value and keep the key order; the order in which
  distinct labels are inserted does not matter.
\<close>

theorem cose_map_updates:
  assumes "wf_bt m"
  shows "cm_get (snd (cm_insert k v m)) j = (if j = k then Some v else cm_get m j) \<and>
    cm_get (snd (cm_remove k m)) j = (if j = k then None else cm_get m j) \<and>
    fst (cm_insert k v m) = cm_get m k \<and> fst (cm_remove k m) = cm_get m k \<and>
    wf_bt (snd (cm_insert k v m)) \<and> wf_bt (snd (cm_remove k m)) \<and>
    (j \<noteq> k \<longrightarrow> snd (cm_insert j w (snd (cm_insert k v m))) = snd (cm_insert k v (snd (cm_insert j w m)))) \<and>
    (cm_get m k = None \<longrightarrow> snd (cm_remove k (snd (cm_insert k v m))) = m)"
  using assms bt.ins_commute [of m j k w v] bt.del_ins_same [of m k v]
  by (simp add: cm_get_def cm_insert_def cm_remove_def bt.look_ins bt.look_del bt.inv_ins bt.inv_del)

theorem cose_map_updates_witness:
  "cm_get (snd (cm_remove (LInt 4) [(LInt 1, VNull), (LInt 4, VBool True)])) (LInt 1) = Some VNull"
  using cose_map_updates [of "[(LInt 1, VNull), (LInt 4, VBool True)]" "LInt 4" VNull "LInt 1"]
  by (simp add: cm_get_def)

text \<open>The value bytes that follow the keys of \<open>order\<close>.\<close>

lemma traverse_entries:
  "traverse (\<lambda>(key, v). map_ok (\<lambda>body. key @ body) (enc v)) (map (\<lambda>(l, v). (f l, v)) order) = Inr parts \<longleftrightarrow>
    (\<exists>bodies. list_all2 (\<lambda>(l, v) b. enc v = Inr b) order bodies \<and>
       parts = map2 (\<lambda>(l, v) b. f l @ b) order bodies)"
proof (induction order arbitrary: parts)
  case Nil
  then show ?case by auto
next
  case (Cons e order)
  obtain l v where e: "e = (l, v)" by (cases e)
  let ?g = "\<lambda>(key, v). map_ok (\<lambda>body. key @ body) (enc v)"
  have "traverse ?g (map (\<lambda>(l, v). (f l, v)) (e # order)) = Inr parts \<longleftrightarrow>
      (\<exists>b ps. enc v = Inr b \<and> traverse ?g (map (\<lambda>(l, v). (f l, v)) order) = Inr ps \<and>
        parts = (f l @ b) # ps)"
    by (auto simp: e andThen_eq_Inr map_ok_eq)
  also have "\<dots> \<longleftrightarrow> (\<exists>b bodies. enc v = Inr b \<and> list_all2 (\<lambda>(l, v) b. enc v = Inr b) order bodies \<and>
      parts = (f l @ b) # map2 (\<lambda>(l, v) b. f l @ b) order bodies)"
    unfolding Cons.IH by blast
  also have "\<dots> \<longleftrightarrow> (\<exists>bodies. list_all2 (\<lambda>(l, v) b. enc v = Inr b) (e # order) bodies \<and>
      parts = map2 (\<lambda>(l, v) b. f l @ b) (e # order) bodies)"
    (is "?l = ?r")
  proof
    assume ?l
    then obtain b bodies where "enc v = Inr b" "list_all2 (\<lambda>(l, v) b. enc v = Inr b) order bodies"
      "parts = (f l @ b) # map2 (\<lambda>(l, v) b. f l @ b) order bodies" by blast
    then show ?r by (intro exI [of _ "b # bodies"]) (simp add: e)
  next
    assume ?r
    then show ?l by (auto simp: e list_all2_Cons1)
  qed
  finally show ?case .
qed

text \<open>
  \<open>CoseMap::to_vec\<close> writes the core deterministic encoding (RFC 8949, section
  4.2.1): a head with the number of entries, then every entry once, in strictly increasing
  byte order of the encoded keys, so that equal maps have equal bytes and no key repeats.
\<close>

theorem map_encoding_deterministic:
  assumes "map_to_vec cb m = Inr out" and "wf_bt m" and "\<forall>l \<in> bt_keys m. label_size_ok l"
  shows "\<exists>order bodies. mset order = mset m \<and>
    sorted_wrt (\<lambda>a b. encode_label (fst a) < encode_label (fst b)) order \<and>
    list_all2 (\<lambda>(l, v) b. encode_map_value cb v = Inr b) order bodies \<and>
    out = write_head 5 (word_of_nat (length m)) @
      concat (map2 (\<lambda>(l, v) b. encode_label l @ b) order bodies)"
proof -
  define order where "order = sort_key (\<lambda>e. encode_label (fst e)) m"
  have entries: "sort_key fst (map (\<lambda>(l, v). (encode_label l, v)) m) =
      map (\<lambda>(l, v). (encode_label l, v)) order"
    unfolding order_def by (simp add: sort_key_map case_prod_unfold)
  obtain bodies where b: "list_all2 (\<lambda>(l, v) b. encode_map_value cb v = Inr b) order bodies"
    and out: "out = write_head 5 (word_of_nat (length m)) @
      concat (map2 (\<lambda>(l, v) b. encode_label l @ b) order bodies)"
    using assms(1) unfolding map_to_vec_def Let_def entries andThen_eq_Inr
    by (auto simp: traverse_entries)
  have inj: "inj_on (\<lambda>e. encode_label (fst e)) (set m)"
  proof (rule inj_onI)
    fix a b
    assume ab: "a \<in> set m" "b \<in> set m" and "encode_label (fst a) = encode_label (fst b)"
    then have "fst a = fst b" using assms(3) by (intro encode_label_inj) (auto simp: bt_keys_def)
    then show "a = b" using ab wf_bt_distinct [OF assms(2)]
      by (metis (mono_tags) bt_get_Some_iff [OF assms(2)] option.inject prod.collapse)
  qed
  have "distinct (map (\<lambda>e. encode_label (fst e)) order)"
    using inj wf_bt_distinct [OF assms(2)] by (simp add: distinct_map order_def inj_on_def)
  moreover have "sorted (map (\<lambda>e. encode_label (fst e)) order)" by (simp add: order_def)
  ultimately have "sorted_wrt (<) (map (\<lambda>e. encode_label (fst e)) order)"
    by (simp add: strict_sorted_iff)
  then have "sorted_wrt (\<lambda>a b. encode_label (fst a) < encode_label (fst b)) order"
    by (simp add: sorted_wrt_map)
  then show ?thesis using b out by (intro exI [of _ order] exI [of _ bodies]) (simp add: order_def)
qed

lemma demo_map_encoding:
  "map_to_vec ref_cbor [(LInt (- 1), VNull), (LInt 1, VBool True), (LText [], VBytes [])] =
    Inr [0xa3, 0x01, 0xf5, 0x20, 0xf6, 0x60, 0x40]"
  by code_simp

theorem map_encoding_deterministic_witness:
  "\<exists>order. mset order = mset [(LInt (- 1), VNull), (LInt 1, VBool True), (LText [], VBytes [])] \<and>
    sorted_wrt (\<lambda>a b. encode_label (fst a) < encode_label (fst b)) order"
  using map_encoding_deterministic [OF demo_map_encoding]
  by (auto simp: label_size_ok_def in_i64_def usize_limit_def)

section \<open>Header buckets\<close>

text \<open>
  C28. \<open>validate_header_buckets\<close> accepts exactly the pairs of RFC 9052: common
  parameters of the right types in each bucket, \<open>crit\<close> protected only and naming distinct
  present labels, no label in both buckets, and not both \<open>IV\<close> and \<open>Partial IV\<close> in the layer.
\<close>

theorem header_buckets_iff:
  "validate_header_buckets p u = Inr () \<longleftrightarrow>
    common_ok p \<and> common_ok u \<and> \<not> contains_key u (LInt HeaderParameterCrit) \<and>
    (\<forall>l. \<not> (contains_key p l \<and> contains_key u l)) \<and>
    \<not> ((contains_key p (LInt HeaderParameterIV) \<or> contains_key u (LInt HeaderParameterIV)) \<and>
       (contains_key p (LInt HeaderParameterPartialIV) \<or> contains_key u (LInt HeaderParameterPartialIV)))"
  by (auto simp: validate_header_buckets_ok buckets_ok_def contains_key_iff)

text \<open>
  \<open>ensure_crit_understood\<close> succeeds exactly when the bucket is valid and every label
  that \<open>crit\<close> lists is a parameter the crate processes, one the caller understands, or the
  countersignature parameter with a value that decodes.
\<close>

theorem crit_processing_iff:
  "ensure_crit_understood cb h understood = Inr () \<longleftrightarrow> common_ok h \<and>
    (\<forall>ls. bt_get h (LInt HeaderParameterCrit) = Some (VArray (map value_of_label ls)) \<longrightarrow>
       (\<forall>l \<in> set ls. if l = LInt HeaderParameterCounterSignature then is_ok (counter_signatures cb h)
          else is_understood_header l \<or> l \<in> set understood))"
proof -
  have wf: "\<forall>l \<in> set ls. wf_label l"
    if ok: "common_ok h" and v: "bt_get h (LInt 2) = Some (VArray (map value_of_label ls))" for ls
  proof -
    obtain ls' where "map value_of_label ls = map value_of_label ls'" "\<forall>l \<in> set ls'. wf_label l"
      using ok v by (auto simp: common_ok_def crit_ok_def)
    moreover have "inj value_of_label" by (auto intro: injI)
    ultimately show ?thesis by (metis inj_map_eq_map)
  qed
  show ?thesis
    using wf by (auto simp: ensure_crit_understood_ok crit_understood_def crit_Some split: if_splits)
qed

definition demo_crit_header :: header where
  "demo_crit_header = [(LInt 2, VArray [VText ''x'']), (LText ''x'', VNull)]"

lemma demo_crit_common: "common_ok demo_crit_header"
proof -
  have "validate_common demo_crit_header = Inr ()" by code_simp
  then show ?thesis by (simp add: validate_common_ok)
qed

theorem crit_processing_iff_witness:
  "ensure_crit_understood ref_cbor demo_crit_header [LText ''x''] = Inr () \<and>
    ensure_crit_understood ref_cbor demo_crit_header [] \<noteq> Inr ()"
proof -
  have "map value_of_label ls = [VText ''x''] \<longleftrightarrow> ls = [LText ''x'']" for ls
  proof -
    have "inj value_of_label" by (auto intro: injI)
    then have "map value_of_label ls = map value_of_label [LText ''x''] \<longleftrightarrow> ls = [LText ''x'']"
      by (rule inj_map_eq_map)
    then show ?thesis by simp
  qed
  then have ls: "bt_get demo_crit_header (LInt 2) = Some (VArray (map value_of_label ls)) \<longleftrightarrow>
      ls = [LText ''x'']" for ls
    by (auto simp: demo_crit_header_def eq_commute [of "[VText ''x'']"])
  show ?thesis
    unfolding crit_processing_iff ls using demo_crit_common by (simp add: is_understood_header_def)
qed

section \<open>Preparation\<close>

text \<open>
  After a successful preparation the buckets are valid together, the returned
  bytes are the encoding of the protected bucket, the requested algorithm is declared in
  the protected bucket and is accepted by a receiver that expects it, a requested key
  identifier is present, and no other parameter of either bucket has changed.
\<close>

theorem prepare_headers_establishes:
  assumes "prepare_headers cb p u a k = (Inr raw, p', u')" and "wf_bt p" and "wf_bt u"
  shows "validate_layer cb p' u' raw = Inr () \<and> wf_bt p' \<and> wf_bt u' \<and>
    encode_protected cb p' = Inr raw \<and>
    (\<forall>l. a = Some l \<and> wf_label l \<longrightarrow> alg p' = Inr (Some l) \<and> check_protected_alg p' u' (Some l) = Inr ()) \<and>
    (k \<noteq> None \<longrightarrow> contains_key p' (LInt 4) \<or> contains_key u' (LInt 4)) \<and>
    (\<forall>l. l \<noteq> LInt 1 \<longrightarrow> bt_get p' l = bt_get p l) \<and>
    (\<forall>l. l \<notin> {LInt 1, LInt 4} \<longrightarrow> bt_get u' l = bt_get u l)"
  using prepare_headers_ok [OF assms] check_protected_alg_declared [of p' _ u']
  by (auto simp: prepared_headers_def validate_layer_ok validate_protected_state_fresh alg_def
      get_label_present)

lemma demo_prepare:
  "prepare_headers ref_cbor [] [(LInt 1, VInteger (- 7))] (Some (LInt (- 7))) (Some [0x31]) =
    (Inr [0xa1, 0x01, 0x26], [(LInt 1, VInteger (- 7))], [(LInt 4, VBytes [0x31])])"
  by code_simp

theorem prepare_headers_establishes_witness:
  "alg [(LInt 1, VInteger (- 7))] = Inr (Some (LInt (- 7)))"
  using prepare_headers_establishes [OF demo_prepare] by (simp add: in_i64_def)

section \<open>Nonces\<close>

text \<open>
  C29. The nonce of a layer is either its \<open>IV\<close> of the provider's size, or the Base IV
  XORed with the \<open>Partial IV\<close> left-padded with zeros to that size (RFC 9052, section 3.1),
  the protected bucket taking precedence; every other combination is an error.
\<close>

theorem nonce_iff:
  "nonce_from_header_values p u n base_iv = Inr nonce \<longleftrightarrow>
    (header_bytes p u HeaderParameterIV = Inr (Some nonce) \<and>
     header_bytes p u HeaderParameterPartialIV = Inr None \<and> length nonce = n) \<or>
    (\<exists>partial base. header_bytes p u HeaderParameterIV = Inr None \<and>
       header_bytes p u HeaderParameterPartialIV = Inr (Some partial) \<and>
       base_iv = Some base \<and> length base = n \<and> length partial \<le> n \<and> length nonce = n \<and>
       (\<forall>i < n. nonce ! i =
          base ! i XOR (if i < n - length partial then 0 else partial ! (i - (n - length partial)))))"
proof -
  have "nonce = padded_xor n partial base \<longleftrightarrow> length nonce = n \<and> (\<forall>i < n. nonce ! i =
      base ! i XOR (if i < n - length partial then 0 else partial ! (i - (n - length partial))))"
    if "length base = n" "length partial \<le> n" for partial base
    using that by (auto simp: padded_xor_def list_eq_iff_nth_eq nth_append xor.commute)
  then show ?thesis
    by (simp add: nonce_ok padded_xor_length cong: conj_cong)
qed

theorem nonce_iff_witness:
  "nonce_from_header_values [] [(LInt 6, VBytes [1])] 2 (Some [0x10, 0x20]) = Inr [0x10, 0x21]"
  unfolding nonce_iff by (simp add: header_bytes_def get_bytes_def numeral_2_eq_2 less_Suc_eq all_conj_distrib)

text \<open>
  Under one Base IV, messages whose \<open>Partial IV\<close>s have the same length but
  differ never share a nonce.
\<close>

theorem partial_iv_nonces_distinct:
  assumes "nonce_from_header_values p u n base_iv = Inr nonce"
    and "nonce_from_header_values p' u' n base_iv = Inr nonce'"
    and "header_bytes p u HeaderParameterPartialIV = Inr (Some a)"
    and "header_bytes p' u' HeaderParameterPartialIV = Inr (Some b)"
    and "length a = length b" and "a \<noteq> b"
  shows "nonce \<noteq> nonce'"
  using assms padded_xor_inj [OF assms(5)] by (auto simp: nonce_ok)

theorem partial_iv_nonces_distinct_witness:
  "([0x10, 0x21] :: bytes) \<noteq> [0x10, 0x22]"
proof (rule partial_iv_nonces_distinct [where a = "[1]" and b = "[2]"])
  show "nonce_from_header_values [] [(LInt 6, VBytes [1])] 2 (Some [0x10, 0x20]) = Inr [0x10, 0x21]"
    by code_simp
  show "nonce_from_header_values [] [(LInt 6, VBytes [2])] 2 (Some [0x10, 0x20]) = Inr [0x10, 0x22]"
    by code_simp
qed (simp_all add: header_bytes_def get_bytes_def)

end
