(* ===== verification/Sign1.thy ===== *)
theory Sign1
  imports Countersign
begin

text \<open>
  \<open>src/src/sign1.rs\<close>: \<open>COSE_Sign1\<close>. The message record has the fields of \<open>Sign1Message\<close>;
  \<open>&mut self\<close> methods return the message they leave behind next to their result.
\<close>

record sign1 =
  s1_protected :: header
  s1_unprotected :: header
  s1_payload :: "bytes option"
  s1_signature :: bytes
  s1_protected_raw :: bytes
  s1_state :: operation_state

definition s1_new :: "bytes option \<Rightarrow> sign1" where
  "s1_new payload = \<lparr>s1_protected = [], s1_unprotected = [], s1_payload = payload,
     s1_signature = [], s1_protected_raw = [], s1_state = New\<rparr>"

definition s1_to_be_signed :: "cbor2 \<Rightarrow> bytes \<Rightarrow> bytes \<Rightarrow> bytes \<Rightarrow> error + bytes" where
  "s1_to_be_signed cb protected_raw external_aad payload =
     encode_structure cb [FText ''Signature1'', FBytes protected_raw, FBytes external_aad, FBytes payload]"

section \<open>Signing\<close>

definition s1_prepare_headers ::
  "cbor2 \<Rightarrow> sign1 \<Rightarrow> label option \<Rightarrow> bytes option \<Rightarrow> (error + unit) \<times> sign1"
where
  "s1_prepare_headers cb self a k =
     (case prepare_headers cb (s1_protected self) (s1_unprotected self) a k of
        (Inl e, p, u) \<Rightarrow> (Inl e, self\<lparr>s1_protected := p, s1_unprotected := u\<rparr>)
      | (Inr raw, p, u) \<Rightarrow>
          (Inr (), self\<lparr>s1_protected := p, s1_unprotected := u, s1_protected_raw := raw,
             s1_state := Prepared, s1_signature := []\<rparr>))"

definition s1_prepare_signature ::
  "cbor2 \<Rightarrow> sign1 \<Rightarrow> label option \<Rightarrow> bytes option \<Rightarrow> bytes option \<Rightarrow> (error + bytes) \<times> sign1"
where
  "s1_prepare_signature cb self a k external_aad =
     (case s1_prepare_headers cb self a k of
        (Inl e, self') \<Rightarrow> (Inl e, self')
      | (Inr _, self') \<Rightarrow>
          (andThen (require_embedded_payload (s1_payload self') ''Sign1Message::prepare_signature'')
             (\<lambda>payload. s1_to_be_signed cb (s1_protected_raw self') (unwrap_or_empty external_aad) payload),
           self'))"

definition s1_prepare_detached_signature ::
  "cbor2 \<Rightarrow> sign1 \<Rightarrow> label option \<Rightarrow> bytes option \<Rightarrow> bytes \<Rightarrow> bytes option \<Rightarrow> (error + bytes) \<times> sign1"
where
  "s1_prepare_detached_signature cb self a k detached external_aad =
     (case s1_prepare_headers cb self a k of
        (Inl e, self') \<Rightarrow> (Inl e, self')
      | (Inr _, self') \<Rightarrow>
          (case s1_to_be_signed cb (s1_protected_raw self') (unwrap_or_empty external_aad) detached of
             Inl e \<Rightarrow> (Inl e, self')
           | Inr tbs \<Rightarrow> (Inr tbs, self'\<lparr>s1_payload := None\<rparr>)))"

definition s1_set_signature :: "cbor2 \<Rightarrow> sign1 \<Rightarrow> bytes \<Rightarrow> (error + unit) \<times> sign1" where
  "s1_set_signature cb self signature =
     (case sync_protected_raw cb (s1_protected self) (s1_unprotected self) (s1_protected_raw self)
         (s1_state self) of
        Inl e \<Rightarrow> (Inl e, self)
      | Inr raw \<Rightarrow>
          (Inr (), self\<lparr>s1_protected_raw := raw, s1_signature := signature, s1_state := Complete\<rparr>))"

definition s1_sign :: "cbor2 \<Rightarrow> sign1 \<Rightarrow> signer \<Rightarrow> bytes option \<Rightarrow> (error + unit) \<times> sign1" where
  "s1_sign cb self sg external_aad =
     (case s1_prepare_headers cb self (sg_alg sg) (sg_kid sg) of
        (Inl e, self') \<Rightarrow> (Inl e, self')
      | (Inr _, self') \<Rightarrow>
          (case andThen (require_embedded_payload (s1_payload self') ''Sign1Message::sign'') (\<lambda>payload.
                andThen (s1_to_be_signed cb (s1_protected_raw self') (unwrap_or_empty external_aad) payload)
                  (\<lambda>tbs. sg_sign sg tbs)) of
             Inl e \<Rightarrow> (Inl e, self')
           | Inr s \<Rightarrow> (Inr (), self'\<lparr>s1_signature := s, s1_state := Complete\<rparr>)))"

definition s1_sign_detached ::
  "cbor2 \<Rightarrow> sign1 \<Rightarrow> signer \<Rightarrow> bytes \<Rightarrow> bytes option \<Rightarrow> (error + unit) \<times> sign1"
where
  "s1_sign_detached cb self sg detached external_aad =
     (case s1_prepare_headers cb self (sg_alg sg) (sg_kid sg) of
        (Inl e, self') \<Rightarrow> (Inl e, self')
      | (Inr _, self') \<Rightarrow>
          (case andThen (s1_to_be_signed cb (s1_protected_raw self') (unwrap_or_empty external_aad) detached)
                  (\<lambda>tbs. sg_sign sg tbs) of
             Inl e \<Rightarrow> (Inl e, self')
           | Inr s \<Rightarrow>
               (Inr (), self'\<lparr>s1_signature := s, s1_state := Complete, s1_payload := None\<rparr>)))"

section \<open>Encoding and decoding\<close>

definition s1_validate_headers :: "cbor2 \<Rightarrow> sign1 \<Rightarrow> error + unit" where
  "s1_validate_headers cb self =
     validate_layer cb (s1_protected self) (s1_unprotected self) (s1_protected_raw self)"

definition s1_encode :: "cbor2 \<Rightarrow> sign1 \<Rightarrow> bytes \<Rightarrow> error + bytes" where
  "s1_encode cb self prefix =
     andThen (require_complete (s1_state self) ''Sign1Message must be signed before encoding'') (\<lambda>_.
     andThen (s1_validate_headers cb self) (\<lambda>_.
     andThen (header_raw cb (s1_unprotected self)) (\<lambda>unprotected.
     encode_prefixed cb prefix
       [FBytes (s1_protected_raw self), FRaw unprotected, optional_bytes (s1_payload self),
        FBytes (s1_signature self)])))"

definition s1_to_vec :: "cbor2 \<Rightarrow> sign1 \<Rightarrow> error + bytes" where
  "s1_to_vec cb self = s1_encode cb self SIGN1_PREFIX"

definition s1_to_cwt_vec :: "cbor2 \<Rightarrow> sign1 \<Rightarrow> error + bytes" where
  "s1_to_cwt_vec cb self = s1_encode cb self (CWT_PREFIX @ SIGN1_PREFIX)"

definition s1_to_untagged_vec :: "cbor2 \<Rightarrow> sign1 \<Rightarrow> error + bytes" where
  "s1_to_untagged_vec cb self = s1_encode cb self []"

definition s1_sign_and_encode ::
  "cbor2 \<Rightarrow> sign1 \<Rightarrow> signer \<Rightarrow> bytes option \<Rightarrow> (error + bytes) \<times> sign1"
where
  "s1_sign_and_encode cb self sg external_aad =
     (case s1_sign cb self sg external_aad of
        (Inl e, self') \<Rightarrow> (Inl e, self')
      | (Inr _, self') \<Rightarrow> (s1_to_vec cb self', self'))"

definition s1_sign_detached_and_encode ::
  "cbor2 \<Rightarrow> sign1 \<Rightarrow> signer \<Rightarrow> bytes \<Rightarrow> bytes option \<Rightarrow> (error + bytes) \<times> sign1"
where
  "s1_sign_detached_and_encode cb self sg detached external_aad =
     (case s1_sign_detached cb self sg detached external_aad of
        (Inl e, self') \<Rightarrow> (Inl e, self')
      | (Inr _, self') \<Rightarrow> (s1_to_vec cb self', self'))"

definition s1_from_slice_with_limits :: "cbor2 \<Rightarrow> bytes \<Rightarrow> cbor_limits \<Rightarrow> error + sign1" where
  "s1_from_slice_with_limits cb data limits =
     andThen (message_body cb data CBORTagCOSESign1 limits) (\<lambda>body.
     andThen (map_err Cbor (lib_from_slice_wire4 cb label_visitor body))
       (\<lambda>(protected_raw, entries, payload, signature).
     andThen (deserialize_checked entries) (\<lambda>unprotected.
     andThen (decode_protected cb protected_raw) (\<lambda>protected.
     andThen (validate_header_buckets protected unprotected) (\<lambda>_.
     Inr \<lparr>s1_protected = protected, s1_unprotected = unprotected, s1_payload = payload,
          s1_signature = signature, s1_protected_raw = protected_raw, s1_state = Complete\<rparr>)))))"

definition s1_from_slice :: "cbor2 \<Rightarrow> bytes \<Rightarrow> error + sign1" where
  "s1_from_slice cb data = s1_from_slice_with_limits cb data default_limits"

section \<open>Verification\<close>

definition s1_verify_payload ::
  "cbor2 \<Rightarrow> sign1 \<Rightarrow> verifier \<Rightarrow> bytes \<Rightarrow> bytes \<Rightarrow> error + unit"
where
  "s1_verify_payload cb self vf payload external_aad =
     andThen (s1_validate_headers cb self) (\<lambda>_.
     andThen (ensure_crit_understood cb (s1_protected self) (vf_understood vf)) (\<lambda>_.
     andThen (check_protected_alg (s1_protected self) (s1_unprotected self) (vf_alg vf)) (\<lambda>_.
     andThen (s1_to_be_signed cb (s1_protected_raw self) external_aad payload) (\<lambda>tbs.
     vf_verify vf tbs (s1_signature self)))))"

definition s1_verify :: "cbor2 \<Rightarrow> sign1 \<Rightarrow> verifier \<Rightarrow> bytes option \<Rightarrow> error + unit" where
  "s1_verify cb self vf external_aad =
     andThen (require_complete (s1_state self) ''Sign1Message must be decoded before verifying'') (\<lambda>_.
     andThen (require_embedded_payload (s1_payload self) ''Sign1Message::verify'') (\<lambda>payload.
     s1_verify_payload cb self vf payload (unwrap_or_empty external_aad)))"

definition s1_verify_detached ::
  "cbor2 \<Rightarrow> sign1 \<Rightarrow> verifier \<Rightarrow> bytes \<Rightarrow> bytes option \<Rightarrow> error + unit"
where
  "s1_verify_detached cb self vf detached external_aad =
     andThen (require_complete (s1_state self) ''Sign1Message must be decoded before verifying'') (\<lambda>_.
     if s1_payload self \<noteq> None
     then Inl (Custom ''Sign1Message carries an embedded payload; use verify'')
     else s1_verify_payload cb self vf detached (unwrap_or_empty external_aad))"

definition s1_verify_and_decode ::
  "cbor2 \<Rightarrow> verifier \<Rightarrow> bytes \<Rightarrow> bytes option \<Rightarrow> error + sign1"
where
  "s1_verify_and_decode cb vf data external_aad =
     andThen (s1_from_slice cb data) (\<lambda>msg.
     andThen (s1_verify cb msg vf external_aad) (\<lambda>_. Inr msg))"

definition s1_verify_detached_and_decode ::
  "cbor2 \<Rightarrow> verifier \<Rightarrow> bytes \<Rightarrow> bytes \<Rightarrow> bytes option \<Rightarrow> error + sign1"
where
  "s1_verify_detached_and_decode cb vf data detached external_aad =
     andThen (s1_from_slice cb data) (\<lambda>msg.
     andThen (s1_verify_detached cb msg vf detached external_aad) (\<lambda>_. Inr msg))"

end
