(* ===== verification/Sign1Props.thy ===== *)
theory Sign1Props
  imports Sign1 ReferenceCbor
begin

text \<open>
  \<open>COSE_Sign1\<close>: what signing establishes, that verification accepts exactly the signed
  bytes, that a changed protected bucket is noticed, and that no message that was never
  signed can be encoded.
\<close>

section \<open>Preparation\<close>

lemma s1_prepare_headers_cases:
  assumes "s1_prepare_headers cb m a k = (r, m')"
  obtains (failed) e where "r = Inl e" "s1_state m' = s1_state m"
      "s1_protected_raw m' = s1_protected_raw m" "s1_signature m' = s1_signature m"
      "s1_payload m' = s1_payload m"
  | (ready) raw p u where "r = Inr ()"
      "prepare_headers cb (s1_protected m) (s1_unprotected m) a k = (Inr raw, p, u)"
      "m' = m\<lparr>s1_protected := p, s1_unprotected := u, s1_protected_raw := raw,
         s1_state := Prepared, s1_signature := []\<rparr>"
  using assms by (auto simp: s1_prepare_headers_def split: prod.splits sum.splits)

text \<open>The result of a successful \<open>sign\<close>.\<close>

lemma s1_sign_ok:
  assumes "s1_sign cb m sg aad = (Inr (), m')"
  obtains raw p u payload tbs s where
    "prepare_headers cb (s1_protected m) (s1_unprotected m) (sg_alg sg) (sg_kid sg) = (Inr raw, p, u)"
    "s1_payload m = Some payload"
    "s1_to_be_signed cb raw (unwrap_or_empty aad) payload = Inr tbs" "sg_sign sg tbs = Inr s"
    "m' = m\<lparr>s1_protected := p, s1_unprotected := u, s1_protected_raw := raw,
       s1_signature := s, s1_state := Complete\<rparr>"
  using assms
  by (auto simp: s1_sign_def s1_prepare_headers_def require_embedded_payload_def result_simps
      split: prod.splits sum.splits)

lemma s1_sign_detached_ok:
  assumes "s1_sign_detached cb m sg detached aad = (Inr (), m')"
  obtains raw p u tbs s where
    "prepare_headers cb (s1_protected m) (s1_unprotected m) (sg_alg sg) (sg_kid sg) = (Inr raw, p, u)"
    "s1_to_be_signed cb raw (unwrap_or_empty aad) detached = Inr tbs" "sg_sign sg tbs = Inr s"
    "m' = m\<lparr>s1_protected := p, s1_unprotected := u, s1_protected_raw := raw,
       s1_signature := s, s1_state := Complete, s1_payload := None\<rparr>"
  using assms
  by (auto simp: s1_sign_detached_def s1_prepare_headers_def result_simps
      split: prod.splits sum.splits)

section \<open>Verification\<close>

lemma s1_verify_payload_ok [guards]:
  "s1_verify_payload cb m vf payload aad = Inr () \<longleftrightarrow>
    validate_layer cb (s1_protected m) (s1_unprotected m) (s1_protected_raw m) = Inr () \<and>
    crit_understood cb (s1_protected m) (vf_understood vf) \<and>
    check_protected_alg (s1_protected m) (s1_unprotected m) (vf_alg vf) = Inr () \<and>
    (\<exists>tbs. s1_to_be_signed cb (s1_protected_raw m) aad payload = Inr tbs \<and>
       vf_verify vf tbs (s1_signature m) = Inr ())"
  by (auto simp: s1_verify_payload_def s1_validate_headers_def andThen_eq_Inr validate_layer_ok
      ensure_crit_understood_ok buckets_ok_def)

lemma s1_verify_ok [guards]:
  "s1_verify cb m vf aad = Inr () \<longleftrightarrow> s1_state m = Complete \<and>
    (\<exists>payload. s1_payload m = Some payload \<and>
       s1_verify_payload cb m vf payload (unwrap_or_empty aad) = Inr ())"
  by (auto simp: s1_verify_def andThen_eq_Inr require_complete_ok require_embedded_payload_def ok_or_eq)

lemma s1_verify_detached_ok [guards]:
  "s1_verify_detached cb m vf detached aad = Inr () \<longleftrightarrow> s1_state m = Complete \<and>
    s1_payload m = None \<and> s1_verify_payload cb m vf detached (unwrap_or_empty aad) = Inr ()"
  by (auto simp: s1_verify_detached_def andThen_eq_Inr require_complete_ok)

text \<open>A verifier that belongs to a signer.\<close>

definition verifies_for :: "signer \<Rightarrow> verifier \<Rightarrow> bool" where
  "verifies_for sg vf \<longleftrightarrow>
     (\<forall>data s. sg_sign sg data = Inr s \<longrightarrow> vf_verify vf data s = Inr ()) \<and>
     (vf_alg vf = None \<or> vf_alg vf = sg_alg sg) \<and>
     (\<forall>l. sg_alg sg = Some l \<longrightarrow> wf_label l)"

lemma prepared_alg_ok:
  assumes "prepared_headers cb p u a k raw p' u'" and "va = None \<or> va = a"
    and "\<forall>l. a = Some l \<longrightarrow> wf_label l"
  shows "check_protected_alg p' u' va = Inr ()"
  using assms check_protected_alg_declared [of p' _ u']
  by (cases va) (auto simp: prepared_headers_def check_protected_alg_def [of _ _ None])

lemma prepared_layer_ok:
  "prepared_headers cb p u a k raw p' u' \<Longrightarrow> validate_layer cb p' u' raw = Inr ()"
  by (simp add: prepared_headers_def validate_layer_ok validate_protected_state_fresh)

section \<open>The life of a message\<close>

text \<open>
  One step of a caller that signs with one of the signers of \<open>S\<close>, or installs one of the
  signatures \<open>E\<close> that were made elsewhere: any method that changes the message, with any
  outcome, or an assignment to the public fields. (\<open>sign_and_encode\<close> leaves what \<open>sign\<close> leaves.)
\<close>

inductive s1_step :: "cbor2 \<Rightarrow> signer set \<Rightarrow> bytes set \<Rightarrow> sign1 \<Rightarrow> sign1 \<Rightarrow> bool" for cb S E where
  prepare: "s1_prepare_signature cb m a k aad = (r, m') \<Longrightarrow> s1_step cb S E m m'"
| prepare_detached: "s1_prepare_detached_signature cb m a k d aad = (r, m') \<Longrightarrow> s1_step cb S E m m'"
| sign: "sg \<in> S \<Longrightarrow> s1_sign cb m sg aad = (r', m') \<Longrightarrow> s1_step cb S E m m'"
| sign_detached: "sg \<in> S \<Longrightarrow> s1_sign_detached cb m sg d aad = (r', m') \<Longrightarrow> s1_step cb S E m m'"
| set_signature: "s \<in> E \<Longrightarrow> s1_set_signature cb m s = (r', m') \<Longrightarrow> s1_step cb S E m m'"
| assign: "s1_step cb S E m (m\<lparr>s1_protected := p, s1_unprotected := u, s1_payload := pl\<rparr>)"

definition s1_sealed :: "sign1 \<Rightarrow> bytes \<times> bytes" where
  "s1_sealed m = (s1_protected_raw m, s1_signature m)"

text \<open>
  A signature of \<open>S\<close> over a \<open>Sig_structure\<close> with these protected bytes, or one that the
  caller installed.
\<close>

definition s1_genuine :: "cbor2 \<Rightarrow> signer set \<Rightarrow> bytes set \<Rightarrow> bytes \<times> bytes \<Rightarrow> bool" where
  "s1_genuine cb S E = (\<lambda>(raw, s). s \<in> E \<or> (\<exists>sg \<in> S. \<exists>aad payload tbs.
     s1_to_be_signed cb raw aad payload = Inr tbs \<and> sg_sign sg tbs = Inr s))"

lemma s1_prepare_signature_open:
  "s1_prepare_signature cb m a k aad = (r, m') \<Longrightarrow>
    s1_state m' \<noteq> Complete \<or> s1_state m = Complete \<and> s1_sealed m' = s1_sealed m"
  by (auto simp: s1_prepare_signature_def s1_sealed_def split: prod.splits sum.splits
      elim!: s1_prepare_headers_cases)

lemma s1_prepare_detached_open:
  "s1_prepare_detached_signature cb m a k d aad = (r, m') \<Longrightarrow>
    s1_state m' \<noteq> Complete \<or> s1_state m = Complete \<and> s1_sealed m' = s1_sealed m"
  by (auto simp: s1_prepare_detached_signature_def s1_sealed_def split: prod.splits sum.splits
      elim!: s1_prepare_headers_cases)

lemma s1_sign_seals:
  assumes "s1_sign cb m sg aad = (r, m')" and "sg \<in> S"
  shows "s1_state m' \<noteq> Complete \<or> s1_state m = Complete \<and> s1_sealed m' = s1_sealed m \<or>
    s1_genuine cb S E (s1_sealed m')"
proof (cases r)
  case (Inl e)
  then show ?thesis using assms(1)
    by (auto simp: s1_sign_def s1_sealed_def split: prod.splits sum.splits
        elim!: s1_prepare_headers_cases)
next
  case (Inr x)
  then have "s1_sign cb m sg aad = (Inr (), m')" using assms(1) by simp
  then show ?thesis using assms(2)
    by (elim s1_sign_ok) (auto simp: s1_genuine_def s1_sealed_def)
qed

lemma s1_sign_detached_seals:
  assumes "s1_sign_detached cb m sg d aad = (r, m')" and "sg \<in> S"
  shows "s1_state m' \<noteq> Complete \<or> s1_state m = Complete \<and> s1_sealed m' = s1_sealed m \<or>
    s1_genuine cb S E (s1_sealed m')"
proof (cases r)
  case (Inl e)
  then show ?thesis using assms(1)
    by (auto simp: s1_sign_detached_def s1_sealed_def split: prod.splits sum.splits
        elim!: s1_prepare_headers_cases)
next
  case (Inr x)
  then have "s1_sign_detached cb m sg d aad = (Inr (), m')" using assms(1) by simp
  then show ?thesis using assms(2)
    by (elim s1_sign_detached_ok) (auto simp: s1_genuine_def s1_sealed_def)
qed

lemma s1_set_signature_seals:
  "s1_set_signature cb m s = (r, m') \<Longrightarrow> s \<in> E \<Longrightarrow>
    s1_state m' \<noteq> Complete \<or> s1_state m = Complete \<and> s1_sealed m' = s1_sealed m \<or>
    s1_genuine cb S E (s1_sealed m')"
  by (auto simp: s1_set_signature_def s1_sealed_def s1_genuine_def split: sum.splits)

interpretation s1: sealed_layer s1_state s1_sealed "\<lambda>m. \<exists>p. m = s1_new p" "s1_step cb S E"
    "s1_genuine cb S E" for cb S E
proof
  show "\<exists>p. m = s1_new p \<Longrightarrow> s1_state m \<noteq> Complete" for m
    by (auto simp: s1_new_def)
  show "s1_step cb S E m m' \<Longrightarrow> s1_state m' = Complete \<Longrightarrow>
    s1_state m = Complete \<and> s1_sealed m' = s1_sealed m \<or> s1_genuine cb S E (s1_sealed m')" for m m'
  proof (induction rule: s1_step.induct)
    case (prepare m a k aad r m')
    then show ?case using s1_prepare_signature_open by blast
  next
    case (prepare_detached m a k d aad r m')
    then show ?case using s1_prepare_detached_open by blast
  next
    case (sign sg m aad r' m')
    then show ?case using s1_sign_seals by blast
  next
    case (sign_detached sg m d aad r' m')
    then show ?case using s1_sign_detached_seals by blast
  next
    case (set_signature s m r' m')
    then show ?case using s1_set_signature_seals by blast
  next
    case (assign m p u pl)
    then show ?case by (simp add: s1_sealed_def)
  qed
qed

lemma s1_encode_ok:
  "s1_encode cb m prefix = Inr out \<longleftrightarrow> s1_state m = Complete \<and>
    validate_layer cb (s1_protected m) (s1_unprotected m) (s1_protected_raw m) = Inr () \<and>
    (\<exists>raw_u. header_raw cb (s1_unprotected m) = Inr raw_u \<and>
       encode_prefixed cb prefix [FBytes (s1_protected_raw m), FRaw raw_u,
         optional_bytes (s1_payload m), FBytes (s1_signature m)] = Inr out)"
  by (simp add: s1_encode_def s1_validate_headers_def andThen_eq_Inr require_complete_ok)

lemma encode_prefixed_ok:
  "encode_prefixed cb prefix body = Inr out \<Longrightarrow>
    \<exists>enc. lib_encode_frags cb body = Inr enc \<and> out = prefix @ enc"
  by (auto simp: encode_prefixed_def result_simps split: if_splits)

lemma s1_signed_verifies:
  assumes "s1_sign cb m sg aad = (Inr (), m')"
    and "wf_bt (s1_protected m)" and "wf_bt (s1_unprotected m)"
    and "verifies_for sg vf"
    and "crit_understood cb (s1_protected m') (vf_understood vf)"
  shows "s1_verify cb m' vf aad = Inr ()"
  using assms(1)
proof (rule s1_sign_ok)
  fix raw p u payload tbs s
  assume prep: "prepare_headers cb (s1_protected m) (s1_unprotected m) (sg_alg sg) (sg_kid sg) = (Inr raw, p, u)"
    and sig: "s1_payload m = Some payload" "s1_to_be_signed cb raw (unwrap_or_empty aad) payload = Inr tbs"
      "sg_sign sg tbs = Inr s"
    and m': "m' = m\<lparr>s1_protected := p, s1_unprotected := u, s1_protected_raw := raw,
      s1_signature := s, s1_state := Complete\<rparr>"
  note ready = prepare_headers_ok [OF prep assms(2,3)]
  have "check_protected_alg p u (vf_alg vf) = Inr ()"
    using assms(4) by (intro prepared_alg_ok [OF ready]) (auto simp: verifies_for_def)
  then show ?thesis
    using prepared_layer_ok [OF ready] assms(4,5) sig
    by (auto simp: s1_verify_ok s1_verify_payload_ok m' verifies_for_def)
qed

section \<open>Properties\<close>

text \<open>
  A message that \<open>Sign1Message::sign\<close> signed is accepted by
  \<open>Sign1Message::verify\<close> with the verifier of that signer and the same external data, whenever
  that verifier understands the message's critical headers.
\<close>

theorem sign1_sign_then_verify:
  assumes "s1_sign cb m sg aad = (Inr (), m')"
    and "wf_bt (s1_protected m)" and "wf_bt (s1_unprotected m)"
    and "verifies_for sg vf"
    and "crit_understood cb (s1_protected m') (vf_understood vf)"
  shows "s1_verify cb m' vf aad = Inr ()"
  using assms by (rule s1_signed_verifies)

lemma crit_understood_no_crit: "crit h = Inr None \<Longrightarrow> crit_understood cb h ls"
  by (simp add: crit_understood_def)

lemma demo_verifies: "verifies_for demo_signer demo_verifier"
  by (auto simp: verifies_for_def demo_signer_def demo_verifier_def demo_check_def in_i64_def)

definition demo_sign1 :: sign1 where
  "demo_sign1 = \<lparr>s1_protected = [(LInt 1, VInteger (- 7))],
     s1_unprotected = [(LInt 4, VBytes [49])], s1_payload = Some [7],
     s1_signature =
       [90, 7, 65, 64, 38, 1, 161, 67, 49, 101, 114, 117, 116, 97, 110, 103, 105, 83, 106, 132],
     s1_protected_raw = [161, 1, 38], s1_state = Complete\<rparr>"

lemma demo_sign1_signed:
  "s1_sign ref_cbor (s1_new (Some [0x07])) demo_signer None = (Inr (), demo_sign1)"
  by code_simp

lemma demo_sign1_crit: "crit (s1_protected demo_sign1) = Inr None"
  by (simp add: demo_sign1_def crit_None)

theorem sign1_sign_then_verify_witness:
  "s1_verify ref_cbor demo_sign1 demo_verifier None = Inr ()"
  by (rule sign1_sign_then_verify [OF demo_sign1_signed _ _ demo_verifies])
    (simp_all add: s1_new_def crit_understood_no_crit demo_sign1_crit)

text \<open>
  C14. Verification accepts exactly the completed messages with an embedded
  payload whose header buckets are valid together, whose protected bucket still denotes the
  stored protected bytes, whose critical headers are understood, whose declared algorithm
  is the verifier's, and whose signature the verifier accepts over the \<open>Sig_structure\<close> of
  those protected bytes, the external data and the payload.
\<close>

theorem sign1_verify_iff:
  "s1_verify cb m vf aad = Inr () \<longleftrightarrow>
    s1_state m = Complete \<and> buckets_ok (s1_protected m) (s1_unprotected m) \<and>
    validate_protected_state cb (s1_protected m) (s1_protected_raw m) = Inr () \<and>
    crit_understood cb (s1_protected m) (vf_understood vf) \<and>
    check_protected_alg (s1_protected m) (s1_unprotected m) (vf_alg vf) = Inr () \<and>
    (\<exists>payload tbs. s1_payload m = Some payload \<and>
       encode_structure cb [FText ''Signature1'', FBytes (s1_protected_raw m),
         FBytes (unwrap_or_empty aad), FBytes payload] = Inr tbs \<and>
       vf_verify vf tbs (s1_signature m) = Inr ())"
  by (auto simp: s1_verify_ok s1_verify_payload_ok validate_layer_ok s1_to_be_signed_def)

text \<open>
  C9. Whatever sequence of calls a caller makes on a new message, with any
  outcomes and with assignments to its public fields in between, bytes come out of the
  encoder only for a signature that the caller installed itself or that a signer in use
  produced over a \<open>Sig_structure\<close> with the protected bytes that are written, and only while
  the protected bucket denotes them.
\<close>

theorem sign1_encodes_only_signed:
  assumes "(s1_step cb S E)\<^sup>*\<^sup>* (s1_new payload) m" and "s1_encode cb m prefix = Inr out"
  shows "validate_layer cb (s1_protected m) (s1_unprotected m) (s1_protected_raw m) = Inr () \<and>
    (\<exists>raw_u enc. lib_encode_frags cb [FBytes (s1_protected_raw m), FRaw raw_u,
        optional_bytes (s1_payload m), FBytes (s1_signature m)] = Inr enc \<and> out = prefix @ enc) \<and>
    (s1_signature m \<in> E \<or> (\<exists>sg \<in> S. \<exists>aad content tbs.
        s1_to_be_signed cb (s1_protected_raw m) aad content = Inr tbs \<and>
        sg_sign sg tbs = Inr (s1_signature m)))"
proof (intro conjI)
  note e = assms(2) [unfolded s1_encode_ok]
  show "validate_layer cb (s1_protected m) (s1_unprotected m) (s1_protected_raw m) = Inr ()"
    using e by blast
  show "\<exists>raw_u enc. lib_encode_frags cb [FBytes (s1_protected_raw m), FRaw raw_u,
        optional_bytes (s1_payload m), FBytes (s1_signature m)] = Inr enc \<and> out = prefix @ enc"
    using e by (auto dest!: encode_prefixed_ok)
  have "s1_genuine cb S E (s1_sealed m)"
    using e by (intro s1.complete_is_genuine [OF _ assms(1)]) auto
  then show "s1_signature m \<in> E \<or> (\<exists>sg \<in> S. \<exists>aad content tbs.
      s1_to_be_signed cb (s1_protected_raw m) aad content = Inr tbs \<and>
      sg_sign sg tbs = Inr (s1_signature m))"
    by (auto simp: s1_genuine_def s1_sealed_def)
qed

lemma demo_sign1_encodes: "\<exists>out. s1_encode ref_cbor demo_sign1 [] = Inr out"
proof -
  have "is_ok (s1_encode ref_cbor demo_sign1 [])" by code_simp
  then show ?thesis by (simp add: is_ok_iff)
qed

theorem sign1_encodes_only_signed_witness:
  "\<exists>sg \<in> {demo_signer}. \<exists>aad content tbs.
    s1_to_be_signed ref_cbor (s1_protected_raw demo_sign1) aad content = Inr tbs \<and>
    sg_sign sg tbs = Inr (s1_signature demo_sign1)"
proof -
  have "(s1_step ref_cbor {demo_signer} {})\<^sup>*\<^sup>* (s1_new (Some [0x07])) demo_sign1"
    by (rule r_into_rtranclp, rule s1_step.sign [OF _ demo_sign1_signed]) simp
  moreover obtain out where "s1_encode ref_cbor demo_sign1 [] = Inr out"
    using demo_sign1_encodes by blast
  ultimately show ?thesis using sign1_encodes_only_signed [where E = "{}"] by blast
qed

text \<open>
  C10. No history wedges a message: from whatever state it is in, whether earlier calls on it
  failed or not, every message that a signer can make out of some headers and a payload is
  still reached, by assigning the public fields and signing once; and it then verifies. So a
  later attempt does not depend on what an earlier one left in the private fields.
\<close>

theorem sign1_always_completable:
  assumes "s1_sign cb ((s1_new (Some content))\<lparr>s1_protected := p, s1_unprotected := u\<rparr>) sg aad = (Inr (), f)"
    and "sg \<in> S" and "wf_bt p" and "wf_bt u" and "verifies_for sg vf"
    and "crit_understood cb (s1_protected f) (vf_understood vf)"
  shows "(s1_step cb S E)\<^sup>*\<^sup>* m f \<and> s1_state f = Complete \<and> s1_verify cb f vf aad = Inr ()"
proof (intro conjI)
  let ?m = "m\<lparr>s1_protected := p, s1_unprotected := u, s1_payload := Some content\<rparr>"
  have "s1_sign cb ?m sg aad = (Inr (), f)"
    using assms(1)
    by (auto simp: s1_sign_def s1_prepare_headers_def s1_new_def split: prod.splits sum.splits)
  then have "s1_step cb S E ?m f" using assms(2) by (rule s1_step.sign [rotated])
  moreover have "s1_step cb S E m ?m" by (rule s1_step.assign)
  ultimately show "(s1_step cb S E)\<^sup>*\<^sup>* m f"
    by (meson converse_rtranclp_into_rtranclp r_into_rtranclp)
  show "s1_verify cb f vf aad = Inr ()"
    using assms(3-6) by (intro s1_signed_verifies [OF assms(1)]) simp_all
  show "s1_state f = Complete" using assms(1) by (auto elim: s1_sign_ok)
qed

text \<open>A message whose first preparation failed for want of a payload is completed later.\<close>

theorem sign1_always_completable_witness:
  "\<exists>m. (\<exists>e. s1_sign ref_cbor (s1_new None) demo_signer None = (Inl e, m)) \<and>
    (s1_step ref_cbor {demo_signer} {})\<^sup>*\<^sup>* m demo_sign1 \<and>
    s1_verify ref_cbor demo_sign1 demo_verifier None = Inr ()"
proof -
  have "\<not> is_ok (fst (s1_sign ref_cbor (s1_new None) demo_signer None))" by code_simp
  then obtain e m where m: "s1_sign ref_cbor (s1_new None) demo_signer None = (Inl e, m)"
    by (cases "s1_sign ref_cbor (s1_new None) demo_signer None"; cases "fst (s1_sign ref_cbor (s1_new None) demo_signer None)")
      (auto simp: is_ok_iff)
  have "s1_sign ref_cbor ((s1_new (Some [0x07]))\<lparr>s1_protected := [], s1_unprotected := []\<rparr>)
      demo_signer None = (Inr (), demo_sign1)"
    using demo_sign1_signed by (simp add: s1_new_def)
  then have "(s1_step ref_cbor {demo_signer} {})\<^sup>*\<^sup>* m demo_sign1 \<and> s1_state demo_sign1 = Complete \<and>
      s1_verify ref_cbor demo_sign1 demo_verifier None = Inr ()"
    by (rule sign1_always_completable [OF _ _ _ _ demo_verifies])
      (simp_all add: crit_understood_no_crit demo_sign1_crit)
  then show ?thesis using m by blast
qed

text \<open>
  C15. When the public protected bucket of a completed message is replaced by
  one that denotes different canonical bytes, verification, detached verification and
  encoding all fail with \<open>InvalidState\<close>: no signature is checked under headers that it
  does not cover.
\<close>

theorem sign1_changed_header_detected:
  assumes "s1_state m = Complete"
    and "buckets_ok p (s1_unprotected m)"
    and "decode_protected cb (s1_protected_raw m) = Inr d" and "encode_protected cb d = Inr canonical"
    and "encode_protected cb p = Inr other" and "other \<noteq> canonical"
    and "other \<noteq> s1_protected_raw m"
  defines "m' \<equiv> m\<lparr>s1_protected := p\<rparr>"
    and "e \<equiv> InvalidState ''protected header changed after its authenticated bytes were prepared''"
  shows "(s1_payload m = Some content \<longrightarrow> s1_verify cb m' vf aad = Inl e) \<and>
    (s1_payload m = None \<longrightarrow> s1_verify_detached cb m' vf detached aad = Inl e) \<and>
    s1_encode cb m' prefix = Inl e"
proof -
  have "validate_header_buckets p (s1_unprotected m) = Inr ()"
    using assms(2) by (simp add: validate_header_buckets_ok)
  then have layer: "s1_validate_headers cb m' = Inl e"
    using assms(3-7)
    by (simp add: m'_def e_def s1_validate_headers_def validate_layer_def validate_protected_state_def)
  then show ?thesis
    using assms(1)
    by (auto simp: s1_verify_def s1_verify_detached_def s1_verify_payload_def s1_encode_def
        require_complete_def complete_def m'_def require_embedded_payload_def)
qed

theorem sign1_changed_header_detected_witness:
  "s1_verify demo_cbor (demo_sign1\<lparr>s1_protected := [(LInt 1, VInteger (- 35))]\<rparr>) demo_verifier None =
    Inl (InvalidState ''protected header changed after its authenticated bytes were prepared'')"
proof -
  have "validate_header_buckets [(LInt 1, VInteger (- 35))] (s1_unprotected demo_sign1) = Inr ()"
    by code_simp
  then have ok: "buckets_ok [(LInt 1, VInteger (- 35))] (s1_unprotected demo_sign1)"
    by (simp add: validate_header_buckets_ok)
  have raw: "decode_protected demo_cbor (s1_protected_raw demo_sign1) = Inr [(LInt 1, VInteger (- 7))]"
    by code_simp
  have enc: "encode_protected demo_cbor [(LInt 1, VInteger (- 7))] = Inr [0xa1, 0x01, 0x26]"
    "encode_protected demo_cbor [(LInt 1, VInteger (- 35))] = Inr [0xa1, 0x01, 0x38, 0x22]"
    by code_simp+
  show ?thesis
    using sign1_changed_header_detected [OF _ ok raw enc, where content = "[7]"]
    by (simp add: demo_sign1_def)
qed

text \<open>
  A decoded message is completed, its buckets are valid together, its
  protected bytes are the ones on the wire, decoded into its protected bucket; and even
  when those bytes are not in preferred form the message passes its own header check.
\<close>

theorem sign1_decode_sound:
  assumes "s1_from_slice_with_limits cb data limits = Inr m"
  shows "s1_state m = Complete \<and> buckets_ok (s1_protected m) (s1_unprotected m) \<and>
    decode_protected cb (s1_protected_raw m) = Inr (s1_protected m) \<and>
    (is_ok (encode_protected cb (s1_protected m)) \<longrightarrow> s1_validate_headers cb m = Inr ()) \<and>
    (\<exists>body entries. message_body cb data 18 limits = Inr body \<and>
      lib_from_slice_wire4 cb label_visitor body =
        Inr (s1_protected_raw m, entries, s1_payload m, s1_signature m) \<and>
      s1_unprotected m = bt_from_list entries)"
proof -
  obtain body raw entries payload sig p where
    body: "message_body cb data 18 limits = Inr body"
    and wire: "lib_from_slice_wire4 cb label_visitor body = Inr (raw, entries, payload, sig)"
    and p: "decode_protected cb raw = Inr p" and ok: "buckets_ok p (bt_from_list entries)"
    and m: "m = \<lparr>s1_protected = p, s1_unprotected = bt_from_list entries, s1_payload = payload,
      s1_signature = sig, s1_protected_raw = raw, s1_state = Complete\<rparr>"
    using assms
    by (auto simp: s1_from_slice_with_limits_def andThen_eq_Inr map_err_eq deserialize_checked_def
        Let_def validate_header_buckets_ok)
  show ?thesis
    using p ok body wire
    by (auto simp: m s1_validate_headers_def validate_layer_ok validate_protected_state_def
        andThen_eq_Inr is_ok_iff)
qed

theorem sign1_decode_sound_witness:
  "\<exists>m. s1_from_slice demo_cbor
      [0xd2, 0x84, 0x43, 0xa1, 0x01, 0x26, 0xa0, 0x41, 0x07, 0x42, 0x09, 0x09] = Inr m \<and>
    s1_state m = Complete \<and> decode_protected demo_cbor (s1_protected_raw m) = Inr (s1_protected m)"
proof -
  have "is_ok (s1_from_slice demo_cbor
      [0xd2, 0x84, 0x43, 0xa1, 0x01, 0x26, 0xa0, 0x41, 0x07, 0x42, 0x09, 0x09])"
    by code_simp
  then obtain m where m: "s1_from_slice demo_cbor
      [0xd2, 0x84, 0x43, 0xa1, 0x01, 0x26, 0xa0, 0x41, 0x07, 0x42, 0x09, 0x09] = Inr m"
    by (auto simp: is_ok_iff)
  show ?thesis using sign1_decode_sound [OF m [unfolded s1_from_slice_def]] m by blast
qed

end
