(* ===== verification/Sign.thy ===== *)
theory Sign
  imports Countersign
begin

text \<open>
  \<open>src/src/sign.rs\<close>: \<open>COSE_Sign\<close>, a payload signed by several signers. \<open>signature\<close> is the
  struct \<open>Signature\<close>, \<open>sign_message\<close> the struct \<open>SignMessage\<close>.
\<close>

record signature =
  sn_protected :: header
  sn_unprotected :: header
  sn_signature :: bytes
  sn_protected_raw :: bytes
  sn_state :: operation_state

record sign_message =
  sm_protected :: header
  sm_unprotected :: header
  sm_payload :: "bytes option"
  sm_signatures :: "signature list"
  sm_protected_raw :: bytes
  sm_state :: operation_state

section \<open>Signatures\<close>

definition sn_new :: signature where
  "sn_new = \<lparr>sn_protected = [], sn_unprotected = [], sn_signature = [], sn_protected_raw = [],
     sn_state = New\<rparr>"

definition sn_with_alg_kid :: "label option \<Rightarrow> bytes option \<Rightarrow> signature" where
  "sn_with_alg_kid a k =
     sn_new\<lparr>sn_protected := (case a of None \<Rightarrow> [] | Some l \<Rightarrow> set_alg l []),
       sn_unprotected := (case k of None \<Rightarrow> [] | Some b \<Rightarrow> set_kid b [])\<rparr>"

definition sn_kid :: "signature \<Rightarrow> error + bytes option" where
  "sn_kid self =
     andThen (kid (sn_protected self)) (\<lambda>k.
     case k of Some b \<Rightarrow> Inr (Some b) | None \<Rightarrow> kid (sn_unprotected self))"

definition sn_set_signature :: "cbor2 \<Rightarrow> signature \<Rightarrow> bytes \<Rightarrow> (error + unit) \<times> signature" where
  "sn_set_signature cb self s =
     (case sync_protected_raw cb (sn_protected self) (sn_unprotected self) (sn_protected_raw self)
         (sn_state self) of
        Inl e \<Rightarrow> (Inl e, self)
      | Inr raw \<Rightarrow>
          (Inr (), self\<lparr>sn_protected_raw := raw, sn_signature := s, sn_state := Complete\<rparr>))"

section \<open>Preparing and signing\<close>

definition sm_new :: "bytes option \<Rightarrow> sign_message" where
  "sm_new payload = \<lparr>sm_protected = [], sm_unprotected = [], sm_payload = payload,
     sm_signatures = [], sm_protected_raw = [], sm_state = New\<rparr>"

definition sm_to_be_signed :: "cbor2 \<Rightarrow> bytes \<Rightarrow> bytes \<Rightarrow> bytes \<Rightarrow> bytes \<Rightarrow> error + bytes" where
  "sm_to_be_signed cb body_protected sign_protected external_aad payload =
     encode_structure cb [FText ''Signature'', FBytes body_protected, FBytes sign_protected,
       FBytes external_aad, FBytes payload]"

text \<open>The loop body of \<open>prepare_signature_headers\<close>.\<close>

definition sn_prepare :: "cbor2 \<Rightarrow> signature \<Rightarrow> error + signature" where
  "sn_prepare cb s =
     andThen (validate_header_buckets (sn_protected s) (sn_unprotected s)) (\<lambda>_.
     andThen (encode_protected cb (sn_protected s)) (\<lambda>raw.
     Inr (s\<lparr>sn_protected_raw := raw, sn_state := Prepared, sn_signature := []\<rparr>)))"

text \<open>Nothing is stored in the message before every bucket has been encoded.\<close>

definition sm_prepare_headers :: "cbor2 \<Rightarrow> sign_message \<Rightarrow> signature list \<Rightarrow> error + sign_message" where
  "sm_prepare_headers cb self signatures =
     (if signatures = [] then Inl (Custom ''SignMessage requires at least one signature'')
      else
        andThen (validate_header_buckets (sm_protected self) (sm_unprotected self)) (\<lambda>_.
        andThen (encode_protected cb (sm_protected self)) (\<lambda>raw.
        andThen (traverse (sn_prepare cb) signatures) (\<lambda>ready.
        Inr (self\<lparr>sm_protected_raw := raw, sm_state := Prepared, sm_signatures := ready\<rparr>)))))"

definition sm_signature_inputs :: "cbor2 \<Rightarrow> sign_message \<Rightarrow> bytes \<Rightarrow> bytes \<Rightarrow> error + bytes list" where
  "sm_signature_inputs cb self payload external_aad =
     traverse (\<lambda>s. sm_to_be_signed cb (sm_protected_raw self) (sn_protected_raw s) external_aad payload)
       (sm_signatures self)"

definition sm_prepare_signatures ::
  "cbor2 \<Rightarrow> sign_message \<Rightarrow> signature list \<Rightarrow> bytes option \<Rightarrow> (error + bytes list) \<times> sign_message"
where
  "sm_prepare_signatures cb self signatures external_aad =
     (case sm_prepare_headers cb self signatures of
        Inl e \<Rightarrow> (Inl e, self)
      | Inr self' \<Rightarrow>
          (andThen (require_embedded_payload (sm_payload self') ''SignMessage::prepare_signatures'')
             (\<lambda>payload. sm_signature_inputs cb self' payload (unwrap_or_empty external_aad)),
           self'))"

definition sm_prepare_detached_signatures ::
  "cbor2 \<Rightarrow> sign_message \<Rightarrow> signature list \<Rightarrow> bytes \<Rightarrow> bytes option \<Rightarrow>
    (error + bytes list) \<times> sign_message"
where
  "sm_prepare_detached_signatures cb self signatures detached external_aad =
     (case sm_prepare_headers cb self signatures of
        Inl e \<Rightarrow> (Inl e, self)
      | Inr self' \<Rightarrow>
          (case sm_signature_inputs cb self' detached (unwrap_or_empty external_aad) of
             Inl e \<Rightarrow> (Inl e, self')
           | Inr tbs \<Rightarrow> (Inr tbs, self'\<lparr>sm_payload := None\<rparr>)))"

text \<open>The loop of \<open>set_signatures\<close>: a failing slot stops it, earlier slots stay updated.\<close>

fun set_slots ::
  "cbor2 \<Rightarrow> signature list \<Rightarrow> bytes list \<Rightarrow> (error + unit) \<times> signature list"
where
  "set_slots cb (slot # slots) (s # ss) =
     (case sn_set_signature cb slot s of
        (Inl e, slot') \<Rightarrow> (Inl e, slot' # slots)
      | (Inr _, slot') \<Rightarrow> (let (r, slots') = set_slots cb slots ss in (r, slot' # slots')))"
| "set_slots cb slots [] = (Inr (), slots)"
| "set_slots cb [] ss = (Inr (), [])"

definition sm_set_signatures ::
  "cbor2 \<Rightarrow> sign_message \<Rightarrow> bytes list \<Rightarrow> (error + unit) \<times> sign_message"
where
  "sm_set_signatures cb self signatures =
     (if signatures = []
      then (Inl (Custom ''SignMessage requires at least one signature''), self)
      else if length signatures \<noteq> length (sm_signatures self)
      then (Inl (Custom (''signature count mismatch, message has '' @
              show_nat (length (sm_signatures self)) @ '', got '' @ show_nat (length signatures))), self)
      else
        (case sync_protected_raw cb (sm_protected self) (sm_unprotected self)
            (sm_protected_raw self) (sm_state self) of
           Inl e \<Rightarrow> (Inl e, self)
         | Inr raw \<Rightarrow>
             (case set_slots cb (sm_signatures self) signatures of
                (Inl e, slots) \<Rightarrow> (Inl e, self\<lparr>sm_protected_raw := raw, sm_signatures := slots\<rparr>)
              | (Inr _, slots) \<Rightarrow>
                  (Inr (), self\<lparr>sm_protected_raw := raw, sm_signatures := slots,
                     sm_state := Complete\<rparr>))))"

definition sm_sign_with_payload ::
  "cbor2 \<Rightarrow> sign_message \<Rightarrow> signer list \<Rightarrow> bytes option \<Rightarrow> bytes \<Rightarrow> (error + unit) \<times> sign_message"
where
  "sm_sign_with_payload cb self signers detached external_aad =
     (if signers = [] then (Inl (Custom ''SignMessage requires at least one signer''), self)
      else
        (case sm_prepare_headers cb self (map (\<lambda>sg. sn_with_alg_kid (sg_alg sg) (sg_kid sg)) signers) of
           Inl e \<Rightarrow> (Inl e, self)
         | Inr self' \<Rightarrow>
             (case andThen (case detached of
                     Some payload \<Rightarrow> Inr payload
                   | None \<Rightarrow> require_embedded_payload (sm_payload self') ''SignMessage::sign'') (\<lambda>payload.
                   traverse (\<lambda>(sg, s).
                     andThen (sm_to_be_signed cb (sm_protected_raw self') (sn_protected_raw s)
                       external_aad payload) (\<lambda>tbs. sg_sign sg tbs))
                     (zip signers (sm_signatures self'))) of
                Inl e \<Rightarrow> (Inl e, self')
              | Inr signatures \<Rightarrow>
                  (Inr (), self'\<lparr>sm_signatures :=
                       map2 (\<lambda>slot s. slot\<lparr>sn_signature := s, sn_state := Complete\<rparr>)
                         (sm_signatures self') signatures,
                     sm_state := Complete\<rparr>))))"

definition sm_sign ::
  "cbor2 \<Rightarrow> sign_message \<Rightarrow> signer list \<Rightarrow> bytes option \<Rightarrow> (error + unit) \<times> sign_message"
where
  "sm_sign cb self signers external_aad =
     sm_sign_with_payload cb self signers None (unwrap_or_empty external_aad)"

definition sm_sign_detached ::
  "cbor2 \<Rightarrow> sign_message \<Rightarrow> signer list \<Rightarrow> bytes \<Rightarrow> bytes option \<Rightarrow> (error + unit) \<times> sign_message"
where
  "sm_sign_detached cb self signers detached external_aad =
     (case sm_sign_with_payload cb self signers (Some detached) (unwrap_or_empty external_aad) of
        (Inl e, self') \<Rightarrow> (Inl e, self')
      | (Inr _, self') \<Rightarrow> (Inr (), self'\<lparr>sm_payload := None\<rparr>))"

section \<open>Encoding and decoding\<close>

text \<open>
  \<open>canonical_raw(&SignaturesRef(..))\<close>: each \<open>Header\<close> checks itself while it is serialized.
\<close>

definition sn_value :: "signature \<Rightarrow> value" where
  "sn_value s = VArray [VBytes (sn_protected_raw s),
     VMap (map (\<lambda>(l, v). (value_of_label l, v)) (sn_unprotected s)), VBytes (sn_signature s)]"

definition canonical_signatures :: "cbor2 \<Rightarrow> signature list \<Rightarrow> error + bytes" where
  "canonical_signatures cb signatures =
     andThen (map_err (\<lambda>e. Cbor (error_display e))
         (for_each (\<lambda>s. validate_common (sn_unprotected s)) signatures)) (\<lambda>_.
     andThen (cbor_to_canonical_vec cb (VArray (map sn_value signatures))) (\<lambda>b.
     map_err Cbor (lib_raw_value cb b)))"

definition sm_encode :: "cbor2 \<Rightarrow> sign_message \<Rightarrow> bytes \<Rightarrow> error + bytes" where
  "sm_encode cb self prefix =
     andThen (require_complete (sm_state self) ''SignMessage must be signed before encoding'') (\<lambda>_.
     if sm_signatures self = [] then Inl (Custom ''SignMessage has no signatures'')
     else
       andThen (validate_layer cb (sm_protected self) (sm_unprotected self) (sm_protected_raw self)) (\<lambda>_.
       andThen (for_each (\<lambda>s. validate_layer cb (sn_protected s) (sn_unprotected s) (sn_protected_raw s))
         (sm_signatures self)) (\<lambda>_.
       andThen (header_raw cb (sm_unprotected self)) (\<lambda>unprotected.
       andThen (canonical_signatures cb (sm_signatures self)) (\<lambda>signatures.
       encode_prefixed cb prefix [FBytes (sm_protected_raw self), FRaw unprotected,
         optional_bytes (sm_payload self), FRaw signatures])))))"

definition sm_to_vec :: "cbor2 \<Rightarrow> sign_message \<Rightarrow> error + bytes" where
  "sm_to_vec cb self = sm_encode cb self SIGN_PREFIX"

definition sm_to_cwt_vec :: "cbor2 \<Rightarrow> sign_message \<Rightarrow> error + bytes" where
  "sm_to_cwt_vec cb self = sm_encode cb self (CWT_PREFIX @ SIGN_PREFIX)"

definition sm_to_untagged_vec :: "cbor2 \<Rightarrow> sign_message \<Rightarrow> error + bytes" where
  "sm_to_untagged_vec cb self = sm_encode cb self []"

definition sm_sign_and_encode ::
  "cbor2 \<Rightarrow> sign_message \<Rightarrow> signer list \<Rightarrow> bytes option \<Rightarrow> (error + bytes) \<times> sign_message"
where
  "sm_sign_and_encode cb self signers external_aad =
     (case sm_sign cb self signers external_aad of
        (Inl e, self') \<Rightarrow> (Inl e, self')
      | (Inr _, self') \<Rightarrow> (sm_to_vec cb self', self'))"

definition sm_sign_detached_and_encode ::
  "cbor2 \<Rightarrow> sign_message \<Rightarrow> signer list \<Rightarrow> bytes \<Rightarrow> bytes option \<Rightarrow> (error + bytes) \<times> sign_message"
where
  "sm_sign_detached_and_encode cb self signers detached external_aad =
     (case sm_sign_detached cb self signers detached external_aad of
        (Inl e, self') \<Rightarrow> (Inl e, self')
      | (Inr _, self') \<Rightarrow> (sm_to_vec cb self', self'))"

text \<open>The wire decoder yields the raw signatures; \<open>deserialize_checked\<close> runs inside it.\<close>

definition sn_from_wire :: "cbor2 \<Rightarrow> bytes \<times> header \<times> bytes \<Rightarrow> error + signature" where
  "sn_from_wire cb = (\<lambda>(raw, unprotected, s).
     andThen (decode_protected cb raw) (\<lambda>protected.
     andThen (validate_header_buckets protected unprotected) (\<lambda>_.
     Inr \<lparr>sn_protected = protected, sn_unprotected = unprotected, sn_signature = s,
          sn_protected_raw = raw, sn_state = Complete\<rparr>)))"

definition sm_from_slice :: "cbor2 \<Rightarrow> bytes \<Rightarrow> error + sign_message" where
  "sm_from_slice cb data =
     andThen (tag_message_body cb data CBORTagCOSESign) (\<lambda>body.
     andThen (map_err Cbor (lib_from_slice_sign cb label_visitor body))
       (\<lambda>(protected_raw, entries, payload, wire_signatures).
     andThen (deserialize_checked entries) (\<lambda>unprotected.
     andThen (traverse (\<lambda>(raw, es, s). map_ok (\<lambda>u. (raw, u, s)) (deserialize_checked es)) wire_signatures)
       (\<lambda>wire.
     if wire = [] then Inl (Custom ''SignMessage has no signatures'')
     else
       andThen (decode_protected cb protected_raw) (\<lambda>protected.
       andThen (validate_header_buckets protected unprotected) (\<lambda>_.
       andThen (traverse (sn_from_wire cb) wire) (\<lambda>signatures.
       Inr \<lparr>sm_protected = protected, sm_unprotected = unprotected, sm_payload = payload,
            sm_signatures = signatures, sm_protected_raw = protected_raw,
            sm_state = Complete\<rparr>)))))))"

section \<open>Verification\<close>

text \<open>
  The candidates for one signature, in the order of the loop over the two ranks: verifiers
  with the signature's key identifier, then those for which either side has none.
\<close>

definition candidates :: "bytes option \<Rightarrow> verifier list \<Rightarrow> verifier list" where
  "candidates k verifiers =
     concat (map (\<lambda>rank. filter (\<lambda>vf. kid_match_rank k (vf_kid vf) = Some rank) verifiers) [0, 1])"

definition sm_check_candidate ::
  "cbor2 \<Rightarrow> sign_message \<Rightarrow> signature \<Rightarrow> bytes \<Rightarrow> verifier \<Rightarrow> error + unit"
where
  "sm_check_candidate cb self s tbs vf =
     andThen (andThen (ensure_crit_understood cb (sm_protected self) (vf_understood vf)) (\<lambda>_.
       ensure_crit_understood cb (sn_protected s) (vf_understood vf))) (\<lambda>_.
     andThen (check_protected_alg (sn_protected s) (sn_unprotected s) (vf_alg vf)) (\<lambda>_.
     vf_verify vf tbs (sn_signature s)))"

text \<open>The candidate loop: the last error and whether some candidate verified the signature.\<close>

fun try_candidates ::
  "(verifier \<Rightarrow> error + unit) \<Rightarrow> verifier list \<Rightarrow> error option \<Rightarrow> error option \<times> bool"
where
  "try_candidates check [] last_error = (last_error, False)"
| "try_candidates check (vf # vfs) last_error =
     (case check vf of
        Inr _ \<Rightarrow> (last_error, True)
      | Inl e \<Rightarrow> try_candidates check vfs (Some e))"

definition sm_verify_signature ::
  "cbor2 \<Rightarrow> sign_message \<Rightarrow> verifier list \<Rightarrow> bytes \<Rightarrow> bytes \<Rightarrow> signature \<Rightarrow> error + unit"
where
  "sm_verify_signature cb self verifiers payload external_aad s =
     andThen (validate_layer cb (sn_protected s) (sn_unprotected s) (sn_protected_raw s)) (\<lambda>_.
     andThen (sn_kid s) (\<lambda>k.
     andThen (sm_to_be_signed cb (sm_protected_raw self) (sn_protected_raw s) external_aad payload) (\<lambda>tbs.
     let cs = candidates k verifiers;
         (last_error, verified) = try_candidates (sm_check_candidate cb self s tbs) cs None in
     if cs = [] then Inl (Verify ''no verifier for signature kid'')
     else if \<not> verified
     then Inl (case last_error of Some e \<Rightarrow> e | None \<Rightarrow> Verify ''signature mismatch'')
     else Inr ())))"

definition sm_verify_payload ::
  "cbor2 \<Rightarrow> sign_message \<Rightarrow> verifier list \<Rightarrow> bytes \<Rightarrow> bytes \<Rightarrow> error + unit"
where
  "sm_verify_payload cb self verifiers payload external_aad =
     andThen (require_complete (sm_state self) ''SignMessage must be decoded before verifying'') (\<lambda>_.
     if verifiers = [] then Inl (Custom ''SignMessage requires at least one verifier'')
     else if sm_signatures self = [] then Inl (Custom ''SignMessage has no signatures'')
     else
       andThen (validate_layer cb (sm_protected self) (sm_unprotected self) (sm_protected_raw self)) (\<lambda>_.
       for_each (sm_verify_signature cb self verifiers payload external_aad) (sm_signatures self)))"

definition sm_verify ::
  "cbor2 \<Rightarrow> sign_message \<Rightarrow> verifier list \<Rightarrow> bytes option \<Rightarrow> error + unit"
where
  "sm_verify cb self verifiers external_aad =
     andThen (require_embedded_payload (sm_payload self) ''SignMessage::verify'') (\<lambda>payload.
     sm_verify_payload cb self verifiers payload (unwrap_or_empty external_aad))"

definition sm_verify_detached ::
  "cbor2 \<Rightarrow> sign_message \<Rightarrow> verifier list \<Rightarrow> bytes \<Rightarrow> bytes option \<Rightarrow> error + unit"
where
  "sm_verify_detached cb self verifiers detached external_aad =
     (if sm_payload self \<noteq> None
      then Inl (Custom ''SignMessage carries an embedded payload; use verify'')
      else sm_verify_payload cb self verifiers detached (unwrap_or_empty external_aad))"

definition sm_verify_and_decode ::
  "cbor2 \<Rightarrow> verifier list \<Rightarrow> bytes \<Rightarrow> bytes option \<Rightarrow> error + sign_message"
where
  "sm_verify_and_decode cb verifiers data external_aad =
     andThen (sm_from_slice cb data) (\<lambda>msg.
     andThen (sm_verify cb msg verifiers external_aad) (\<lambda>_. Inr msg))"

definition sm_verify_detached_and_decode ::
  "cbor2 \<Rightarrow> verifier list \<Rightarrow> bytes \<Rightarrow> bytes \<Rightarrow> bytes option \<Rightarrow> error + sign_message"
where
  "sm_verify_detached_and_decode cb verifiers data detached external_aad =
     andThen (sm_from_slice cb data) (\<lambda>msg.
     andThen (sm_verify_detached cb msg verifiers detached external_aad) (\<lambda>_. Inr msg))"

end
