(* ===== verification/SignProps.thy ===== *)
theory SignProps
  imports Sign Sign1Props
begin

text \<open>
  \<open>COSE_Sign\<close>: which messages verification accepts, that a message signed by several signers
  verifies, and what the candidate loop does.
\<close>

section \<open>Candidates\<close>

text \<open>A verifier may check a signature unless both name a key and the names differ.\<close>

definition kid_compatible :: "bytes option \<Rightarrow> bytes option \<Rightarrow> bool" where
  "kid_compatible k v \<longleftrightarrow> k = None \<or> v = None \<or> k = v"

lemma kid_match_rank_Some:
  "(\<exists>rank \<in> {0, 1}. kid_match_rank k v = Some rank) \<longleftrightarrow> kid_compatible k v"
  by (auto simp: kid_match_rank_def kid_compatible_def split: option.splits)

lemma candidates_set: "vf \<in> set (candidates k vfs) \<longleftrightarrow> vf \<in> set vfs \<and> kid_compatible k (vf_kid vf)"
  using kid_match_rank_Some [of k "vf_kid vf"] by (auto simp: candidates_def)

lemma try_candidates_verified:
  "snd (try_candidates check vfs err) \<longleftrightarrow> (\<exists>vf \<in> set vfs. check vf = Inr ())"
  by (induction vfs arbitrary: err) (auto split: sum.splits)

lemma try_candidates_error:
  "\<not> snd (try_candidates check vfs err) \<Longrightarrow>
    fst (try_candidates check vfs err) =
      (if vfs = [] then err else Some (projl (check (last vfs))))"
  by (induction vfs arbitrary: err) (auto split: sum.splits)

lemma sm_check_candidate_ok [guards]:
  "sm_check_candidate cb m s tbs vf = Inr () \<longleftrightarrow>
    common_ok (sm_protected m) \<and> crit_understood cb (sm_protected m) (vf_understood vf) \<and>
    common_ok (sn_protected s) \<and> crit_understood cb (sn_protected s) (vf_understood vf) \<and>
    check_protected_alg (sn_protected s) (sn_unprotected s) (vf_alg vf) = Inr () \<and>
    vf_verify vf tbs (sn_signature s) = Inr ()"
  by (auto simp: sm_check_candidate_def andThen_eq_Inr ensure_crit_understood_ok)

lemma sm_verify_signature_ok [guards]:
  "sm_verify_signature cb m vfs payload aad s = Inr () \<longleftrightarrow>
    validate_layer cb (sn_protected s) (sn_unprotected s) (sn_protected_raw s) = Inr () \<and>
    (\<exists>k tbs. sn_kid s = Inr k \<and>
       sm_to_be_signed cb (sm_protected_raw m) (sn_protected_raw s) aad payload = Inr tbs \<and>
       (\<exists>vf \<in> set vfs. kid_compatible k (vf_kid vf) \<and> sm_check_candidate cb m s tbs vf = Inr ()))"
proof -
  have loop: "(let cs = candidates k vfs; (last_error, verified) = try_candidates check cs None in
       if cs = [] then Inl (Verify ''no verifier for signature kid'')
       else if \<not> verified
       then Inl (case last_error of Some e \<Rightarrow> e | None \<Rightarrow> Verify ''signature mismatch'')
       else Inr ()) = Inr () \<longleftrightarrow>
     (\<exists>vf \<in> set vfs. kid_compatible k (vf_kid vf) \<and> check vf = Inr ())" for k check
  proof (cases "candidates k vfs = []")
    case True
    then have "\<not> (\<exists>vf \<in> set vfs. kid_compatible k (vf_kid vf))"
      using candidates_set [of _ k vfs] by auto
    then show ?thesis using True by auto
  next
    case False
    then show ?thesis
      using try_candidates_verified [of check "candidates k vfs" None] candidates_set [of _ k vfs]
      by (auto simp: Let_def split: prod.splits)
  qed
  show ?thesis
    unfolding sm_verify_signature_def andThen_eq_Inr loop by auto
qed

lemma sm_verify_payload_ok [guards]:
  "sm_verify_payload cb m vfs payload aad = Inr () \<longleftrightarrow>
    sm_state m = Complete \<and> vfs \<noteq> [] \<and> sm_signatures m \<noteq> [] \<and>
    validate_layer cb (sm_protected m) (sm_unprotected m) (sm_protected_raw m) = Inr () \<and>
    (\<forall>s \<in> set (sm_signatures m). sm_verify_signature cb m vfs payload aad s = Inr ())"
  by (auto simp: sm_verify_payload_def andThen_eq_Inr require_complete_ok for_each_ok)

lemma sm_verify_ok [guards]:
  "sm_verify cb m vfs aad = Inr () \<longleftrightarrow>
    (\<exists>payload. sm_payload m = Some payload \<and>
       sm_verify_payload cb m vfs payload (unwrap_or_empty aad) = Inr ())"
  by (auto simp: sm_verify_def andThen_eq_Inr require_embedded_payload_def ok_or_eq)

section \<open>Signing\<close>

lemma list_all2_in_right: "list_all2 P xs ys \<Longrightarrow> y \<in> set ys \<Longrightarrow> \<exists>x \<in> set xs. P x y"
  by (induction rule: list_all2_induct) auto

lemma sm_prepare_headers_ok:
  assumes "sm_prepare_headers cb m ss = Inr m'"
  shows "\<exists>raw ready. buckets_ok (sm_protected m) (sm_unprotected m) \<and>
    encode_protected cb (sm_protected m) = Inr raw \<and> ss \<noteq> [] \<and>
    list_all2 (\<lambda>s r. sn_prepare cb s = Inr r) ss ready \<and>
    m' = m\<lparr>sm_protected_raw := raw, sm_state := Prepared, sm_signatures := ready\<rparr>"
  using assms
  by (auto simp: sm_prepare_headers_def andThen_eq_Inr validate_header_buckets_ok traverse_eq_Inr
      split: if_splits)

lemma sn_prepare_ok:
  "sn_prepare cb s = Inr r \<longleftrightarrow> buckets_ok (sn_protected s) (sn_unprotected s) \<and>
    (\<exists>raw. encode_protected cb (sn_protected s) = Inr raw \<and>
       r = s\<lparr>sn_protected_raw := raw, sn_state := Prepared, sn_signature := []\<rparr>)"
  by (auto simp: sn_prepare_def andThen_eq_Inr validate_header_buckets_ok)

text \<open>One slot of a signed message: its headers come from its signer, its bytes too.\<close>

definition signed_slot ::
  "cbor2 \<Rightarrow> bytes \<Rightarrow> bytes \<Rightarrow> bytes \<Rightarrow> signer \<Rightarrow> signature \<Rightarrow> bool"
where
  "signed_slot cb body_raw aad payload sg s \<longleftrightarrow>
     sn_protected s = sn_protected (sn_with_alg_kid (sg_alg sg) (sg_kid sg)) \<and>
     sn_unprotected s = sn_unprotected (sn_with_alg_kid (sg_alg sg) (sg_kid sg)) \<and>
     buckets_ok (sn_protected s) (sn_unprotected s) \<and>
     encode_protected cb (sn_protected s) = Inr (sn_protected_raw s) \<and> sn_state s = Complete \<and>
     (\<exists>tbs. sm_to_be_signed cb body_raw (sn_protected_raw s) aad payload = Inr tbs \<and>
        sg_sign sg tbs = Inr (sn_signature s))"

lemma traverse_zip_ok:
  assumes "traverse f (zip xs ys) = Inr zs" and "length xs = length ys"
  shows "length zs = length ys \<and> (\<forall>i < length ys. f (xs ! i, ys ! i) = Inr (zs ! i))"
  using assms by (auto simp: traverse_eq_Inr list_all2_conv_all_nth)

lemma sm_sign_with_payload_ok:
  assumes "sm_sign_with_payload cb m signers detached aad = (Inr (), m')"
  shows "\<exists>raw payload. (case detached of Some d \<Rightarrow> payload = d | None \<Rightarrow> sm_payload m = Some payload) \<and>
    signers \<noteq> [] \<and> buckets_ok (sm_protected m) (sm_unprotected m) \<and>
    encode_protected cb (sm_protected m) = Inr raw \<and>
    sm_protected m' = sm_protected m \<and> sm_unprotected m' = sm_unprotected m \<and>
    sm_payload m' = sm_payload m \<and> sm_protected_raw m' = raw \<and> sm_state m' = Complete \<and>
    list_all2 (signed_slot cb raw aad payload) signers (sm_signatures m')"
proof -
  define hs where "hs = map (\<lambda>sg. sn_with_alg_kid (sg_alg sg) (sg_kid sg)) signers"
  obtain m1 payload sigs where prep: "sm_prepare_headers cb m hs = Inr m1"
    and ne: "signers \<noteq> []"
    and payload: "(case detached of Some d \<Rightarrow> Inr d
      | None \<Rightarrow> require_embedded_payload (sm_payload m1) ''SignMessage::sign'') = Inr payload"
    and sigs: "traverse (\<lambda>(sg, s). andThen (sm_to_be_signed cb (sm_protected_raw m1) (sn_protected_raw s)
        aad payload) (\<lambda>tbs. sg_sign sg tbs)) (zip signers (sm_signatures m1)) = Inr sigs"
    and m': "m' = m1\<lparr>sm_signatures := map2 (\<lambda>slot s. slot\<lparr>sn_signature := s, sn_state := Complete\<rparr>)
        (sm_signatures m1) sigs, sm_state := Complete\<rparr>"
    using assms unfolding sm_sign_with_payload_def hs_def
    by (auto simp: andThen_eq_Inr split: if_splits sum.splits)
  obtain raw ready where body: "buckets_ok (sm_protected m) (sm_unprotected m)"
      "encode_protected cb (sm_protected m) = Inr raw"
    and ready: "list_all2 (\<lambda>s r. sn_prepare cb s = Inr r) hs ready"
    and m1: "m1 = m\<lparr>sm_protected_raw := raw, sm_state := Prepared, sm_signatures := ready\<rparr>"
    using sm_prepare_headers_ok [OF prep] by blast
  have len: "length signers = length ready" using list_all2_lengthD [OF ready] by (simp add: hs_def)
  note z = traverse_zip_ok [OF sigs [unfolded m1, simplified] len]
  have "list_all2 (signed_slot cb raw aad payload) signers (sm_signatures m')"
    unfolding list_all2_conv_all_nth
  proof (intro conjI allI impI)
    show "length signers = length (sm_signatures m')" using len z by (simp add: m' m1)
    fix i assume i: "i < length signers"
    have r: "sn_prepare cb (sn_with_alg_kid (sg_alg (signers ! i)) (sg_kid (signers ! i))) = Inr (ready ! i)"
      using list_all2_nthD [OF ready, of i] i by (simp add: hs_def)
    have s: "sm_signatures m' ! i = (ready ! i)\<lparr>sn_signature := sigs ! i, sn_state := Complete\<rparr>"
      using i len z by (simp add: m' m1)
    show "signed_slot cb raw aad payload (signers ! i) (sm_signatures m' ! i)"
      using r i len z unfolding s signed_slot_def by (auto simp: sn_prepare_ok andThen_eq_Inr)
  qed
  then show ?thesis using payload body ne
    by (intro exI [of _ raw] exI [of _ payload])
      (auto simp: m' m1 require_embedded_payload_def ok_or_eq split: option.splits)
qed

lemma fresh_headers_kid:
  "sn_protected s = sn_protected (sn_with_alg_kid a k) \<Longrightarrow>
    sn_unprotected s = sn_unprotected (sn_with_alg_kid a k) \<Longrightarrow> sn_kid s = Inr k"
  by (cases a; cases k)
    (auto simp: sn_kid_def sn_with_alg_kid_def sn_new_def kid_def get_bytes_def set_alg_def set_kid_def)

lemma fresh_headers_alg:
  assumes "sn_protected s = sn_protected (sn_with_alg_kid a k)"
    and "va = None \<or> va = a" and "\<forall>l. a = Some l \<longrightarrow> wf_label l"
  shows "check_protected_alg (sn_protected s) u va = Inr ()"
  using assms check_protected_alg_declared [of "sn_protected s" _ u]
  by (cases va; cases a)
    (auto simp: check_protected_alg_def [of _ _ None] sn_with_alg_kid_def set_alg_def)

lemma fresh_headers_crit:
  "sn_protected s = sn_protected (sn_with_alg_kid a k) \<Longrightarrow> crit_understood cb (sn_protected s) ls"
  by (cases a) (auto intro!: crit_understood_no_crit simp: crit_None sn_with_alg_kid_def set_alg_def sn_new_def)

section \<open>Properties\<close>

text \<open>
  C30. \<open>SignMessage::verify\<close> accepts a message exactly when it is completed
  and valid and every one of its signatures, at least one, is accepted by some verifier whose
  key identifier does not contradict the signature's, which understands the critical headers
  of the body and of the signature, expects its algorithm, and verifies it over the
  \<open>Sig_structure\<close> of the body's and the signature's protected bytes.
\<close>

theorem sign_verify_iff:
  "sm_verify cb m vfs aad = Inr () \<longleftrightarrow>
    sm_state m = Complete \<and> vfs \<noteq> [] \<and> sm_signatures m \<noteq> [] \<and>
    validate_layer cb (sm_protected m) (sm_unprotected m) (sm_protected_raw m) = Inr () \<and>
    (\<exists>payload. sm_payload m = Some payload \<and>
      (\<forall>s \<in> set (sm_signatures m).
        validate_layer cb (sn_protected s) (sn_unprotected s) (sn_protected_raw s) = Inr () \<and>
        (\<exists>k tbs. sn_kid s = Inr k \<and>
          sm_to_be_signed cb (sm_protected_raw m) (sn_protected_raw s) (unwrap_or_empty aad) payload = Inr tbs \<and>
          (\<exists>vf \<in> set vfs. (k = None \<or> vf_kid vf = None \<or> k = vf_kid vf) \<and>
             crit_understood cb (sm_protected m) (vf_understood vf) \<and>
             crit_understood cb (sn_protected s) (vf_understood vf) \<and>
             check_protected_alg (sn_protected s) (sn_unprotected s) (vf_alg vf) = Inr () \<and>
             vf_verify vf tbs (sn_signature s) = Inr ()))))"
proof -
  let ?layer = "validate_layer cb (sm_protected m) (sm_unprotected m) (sm_protected_raw m) = Inr ()"
  let ?sub = "\<lambda>s. validate_layer cb (sn_protected s) (sn_unprotected s) (sn_protected_raw s) = Inr ()"
  let ?accepts = "\<lambda>s k tbs vf. (k = None \<or> vf_kid vf = None \<or> k = vf_kid vf) \<and>
    crit_understood cb (sm_protected m) (vf_understood vf) \<and>
    crit_understood cb (sn_protected s) (vf_understood vf) \<and>
    check_protected_alg (sn_protected s) (sn_unprotected s) (vf_alg vf) = Inr () \<and>
    vf_verify vf tbs (sn_signature s) = Inr ()"
  have candidate: "kid_compatible k (vf_kid vf) \<and> sm_check_candidate cb m s tbs vf = Inr () \<longleftrightarrow>
      ?accepts s k tbs vf" if "?layer" "?sub s" for s k tbs vf
    using that by (auto simp: sm_check_candidate_ok kid_compatible_def validate_layer_ok buckets_ok_def)
  have signature: "sm_verify_signature cb m vfs payload a s = Inr () \<longleftrightarrow> ?sub s \<and>
      (\<exists>k tbs. sn_kid s = Inr k \<and>
        sm_to_be_signed cb (sm_protected_raw m) (sn_protected_raw s) a payload = Inr tbs \<and>
        (\<exists>vf \<in> set vfs. ?accepts s k tbs vf))" if "?layer" for s payload a
    unfolding sm_verify_signature_ok using candidate [OF that] by meson
  show ?thesis
    unfolding sm_verify_ok sm_verify_payload_ok using signature by (auto cong: conj_cong)
qed

definition demo_sign_message :: sign_message where
  "demo_sign_message = snd (sm_sign ref_cbor (sm_new (Some [7])) [demo_signer] None)"

lemma demo_sign_message_signed:
  "sm_sign ref_cbor (sm_new (Some [7])) [demo_signer] None = (Inr (), demo_sign_message)"
proof -
  have "is_ok (fst (sm_sign ref_cbor (sm_new (Some [7])) [demo_signer] None))" by code_simp
  then show ?thesis by (auto simp: is_ok_iff demo_sign_message_def prod_eq_iff)
qed

text \<open>A signature that one of the signers made is accepted by the verifier of that signer.\<close>

lemma signed_slot_verifies:
  assumes m: "sm_protected m' = h" "sm_protected_raw m' = raw" and body: "common_ok h"
    and sl: "signed_slot cb raw aad payload sg s"
    and vf: "vf \<in> set vfs" "verifies_for sg vf" "vf_kid vf = sg_kid sg" "crit_understood cb h (vf_understood vf)"
  shows "sm_verify_signature cb m' vfs payload aad s = Inr ()"
proof -
  note hd = sl [unfolded signed_slot_def]
  have kid: "sn_kid s = Inr (sg_kid sg)" using hd by (intro fresh_headers_kid) auto
  obtain tbs where tbs: "sg_sign sg tbs = Inr (sn_signature s)"
    "sm_to_be_signed cb raw (sn_protected_raw s) aad payload = Inr tbs"
    using hd by blast
  have "check_protected_alg (sn_protected s) (sn_unprotected s) (vf_alg vf) = Inr ()"
    using hd vf(2) by (intro fresh_headers_alg) (auto simp: verifies_for_def)
  moreover have "crit_understood cb (sn_protected s) (vf_understood vf)"
    using hd by (intro fresh_headers_crit) auto
  moreover have "common_ok (sn_protected s)"
    using hd by (auto simp: buckets_ok_def)
  moreover have "vf_verify vf tbs (sn_signature s) = Inr ()"
    using vf(2) tbs(1) by (simp add: verifies_for_def)
  ultimately have "sm_check_candidate cb m' s tbs vf = Inr ()"
    using vf(4) body by (simp add: sm_check_candidate_ok m)
  moreover have "kid_compatible (sg_kid sg) (vf_kid vf)" by (simp add: kid_compatible_def vf(3))
  moreover have "validate_layer cb (sn_protected s) (sn_unprotected s) (sn_protected_raw s) = Inr ()"
    using hd by (metis validate_layer_ok validate_protected_state_fresh)
  ultimately show ?thesis
    unfolding sm_verify_signature_ok m using kid tbs(2) vf(1) by blast
qed

text \<open>
  C31. A message signed by a list of signers verifies under any list of
  verifiers that has, for every signer, a matching verifier with its key identifier that
  understands the critical headers of the body.
\<close>

theorem sign_sign_then_verify:
  assumes "sm_sign cb m signers aad = (Inr (), m')"
    and "\<forall>sg \<in> set signers. \<exists>vf \<in> set vfs. verifies_for sg vf \<and> vf_kid vf = sg_kid sg \<and>
      crit_understood cb (sm_protected m) (vf_understood vf)"
  shows "sm_verify cb m' vfs aad = Inr ()"
proof -
  obtain raw payload where payload: "sm_payload m = Some payload" and ne: "signers \<noteq> []"
    and body: "buckets_ok (sm_protected m) (sm_unprotected m)" "encode_protected cb (sm_protected m) = Inr raw"
    and m': "sm_protected m' = sm_protected m" "sm_unprotected m' = sm_unprotected m"
      "sm_payload m' = sm_payload m" "sm_protected_raw m' = raw" "sm_state m' = Complete"
    and slots: "list_all2 (signed_slot cb raw (unwrap_or_empty aad) payload) signers (sm_signatures m')"
    using sm_sign_with_payload_ok [OF assms(1) [unfolded sm_sign_def]] by auto
  have slot: "sm_verify_signature cb m' vfs payload (unwrap_or_empty aad) s = Inr ()"
    if s_in: "s \<in> set (sm_signatures m')" for s
  proof -
    obtain sg where "sg \<in> set signers" and sl: "signed_slot cb raw (unwrap_or_empty aad) payload sg s"
      using list_all2_in_right [OF slots s_in] by blast
    then obtain vf where "vf \<in> set vfs" "verifies_for sg vf" "vf_kid vf = sg_kid sg"
      "crit_understood cb (sm_protected m) (vf_understood vf)" using assms(2) by blast
    moreover have "common_ok (sm_protected m)" using body by (simp add: buckets_ok_def)
    ultimately show ?thesis using m' sl by (intro signed_slot_verifies) simp_all
  qed
  have "sm_signatures m' \<noteq> []" "vfs \<noteq> []"
    using slots ne assms(2) by (cases signers; force)+
  then show ?thesis
    using payload m' body slot
    by (simp add: sm_verify_ok sm_verify_payload_ok validate_layer_ok validate_protected_state_fresh)
qed

theorem sign_sign_then_verify_witness:
  "sm_verify ref_cbor demo_sign_message [demo_verifier] None = Inr ()"
proof (rule sign_sign_then_verify [OF demo_sign_message_signed])
  have "vf_kid demo_verifier = sg_kid demo_signer" by (simp add: demo_verifier_def demo_signer_def)
  then show "\<forall>sg \<in> set [demo_signer]. \<exists>vf \<in> set [demo_verifier]. verifies_for sg vf \<and> vf_kid vf = sg_kid sg \<and>
      crit_understood ref_cbor (sm_protected (sm_new (Some [7]))) (vf_understood vf)"
    using demo_verifies by (auto simp: sm_new_def intro!: crit_understood_no_crit simp: crit_None)
qed

theorem sign_verify_iff_witness:
  "\<exists>s \<in> set (sm_signatures demo_sign_message). \<exists>tbs.
    vf_verify demo_verifier tbs (sn_signature s) = Inr ()"
proof -
  have "sm_verify ref_cbor demo_sign_message [demo_verifier] None = Inr ()" by code_simp
  from this [unfolded sign_verify_iff] obtain s where
    "s \<in> set (sm_signatures demo_sign_message)" "\<exists>tbs. vf_verify demo_verifier tbs (sn_signature s) = Inr ()"
    by (cases "sm_signatures demo_sign_message") auto
  then show ?thesis by blast
qed

text \<open>
  The encoder asks whether the message is complete, not whether each of its public
  signatures is: one that is added to a signed message is written without ever being signed.
\<close>

lemma sign_encodes_unsigned_signature:
  "sn_state sn_new = New \<and> is_ok (sm_to_vec ref_cbor
    (demo_sign_message\<lparr>sm_signatures := sm_signatures demo_sign_message @ [sn_new]\<rparr>))"
  by code_simp

end
