(* ===== verification/Mac0.thy ===== *)
theory Mac0
  imports Countersign
begin

text \<open>
  \<open>src/src/mac0.rs\<close>: \<open>COSE_Mac0\<close>. The message record has the fields of \<open>Mac0Message\<close>;
  \<open>&mut self\<close> methods return the message they leave behind next to their result.
\<close>

record mac0 =
  m0_protected :: header
  m0_unprotected :: header
  m0_payload :: "bytes option"
  m0_tag :: bytes
  m0_protected_raw :: bytes
  m0_state :: operation_state

definition m0_new :: "bytes option \<Rightarrow> mac0" where
  "m0_new payload = \<lparr>m0_protected = [], m0_unprotected = [], m0_payload = payload,
     m0_tag = [], m0_protected_raw = [], m0_state = New\<rparr>"

definition m0_to_be_maced :: "cbor2 \<Rightarrow> bytes \<Rightarrow> bytes \<Rightarrow> bytes \<Rightarrow> error + bytes" where
  "m0_to_be_maced cb protected_raw external_aad payload =
     encode_structure cb [FText ''MAC0'', FBytes protected_raw, FBytes external_aad, FBytes payload]"

section \<open>Computing the tag\<close>

definition m0_prepare_headers ::
  "cbor2 \<Rightarrow> mac0 \<Rightarrow> label option \<Rightarrow> bytes option \<Rightarrow> (error + unit) \<times> mac0"
where
  "m0_prepare_headers cb self a k =
     (case prepare_headers cb (m0_protected self) (m0_unprotected self) a k of
        (Inl e, p, u) \<Rightarrow> (Inl e, self\<lparr>m0_protected := p, m0_unprotected := u\<rparr>)
      | (Inr raw, p, u) \<Rightarrow>
          (Inr (), self\<lparr>m0_protected := p, m0_unprotected := u, m0_protected_raw := raw,
             m0_state := Prepared, m0_tag := []\<rparr>))"

definition m0_prepare_tag ::
  "cbor2 \<Rightarrow> mac0 \<Rightarrow> label option \<Rightarrow> bytes option \<Rightarrow> bytes option \<Rightarrow> (error + bytes) \<times> mac0"
where
  "m0_prepare_tag cb self a k external_aad =
     (case m0_prepare_headers cb self a k of
        (Inl e, self') \<Rightarrow> (Inl e, self')
      | (Inr _, self') \<Rightarrow>
          (andThen (require_embedded_payload (m0_payload self') ''Mac0Message::prepare_tag'')
             (\<lambda>payload. m0_to_be_maced cb (m0_protected_raw self') (unwrap_or_empty external_aad) payload),
           self'))"

definition m0_prepare_detached_tag ::
  "cbor2 \<Rightarrow> mac0 \<Rightarrow> label option \<Rightarrow> bytes option \<Rightarrow> bytes \<Rightarrow> bytes option \<Rightarrow> (error + bytes) \<times> mac0"
where
  "m0_prepare_detached_tag cb self a k detached external_aad =
     (case m0_prepare_headers cb self a k of
        (Inl e, self') \<Rightarrow> (Inl e, self')
      | (Inr _, self') \<Rightarrow>
          (case m0_to_be_maced cb (m0_protected_raw self') (unwrap_or_empty external_aad) detached of
             Inl e \<Rightarrow> (Inl e, self')
           | Inr tbm \<Rightarrow> (Inr tbm, self'\<lparr>m0_payload := None\<rparr>)))"

definition m0_set_tag :: "cbor2 \<Rightarrow> mac0 \<Rightarrow> bytes \<Rightarrow> (error + unit) \<times> mac0" where
  "m0_set_tag cb self tag =
     (case sync_protected_raw cb (m0_protected self) (m0_unprotected self) (m0_protected_raw self)
         (m0_state self) of
        Inl e \<Rightarrow> (Inl e, self)
      | Inr raw \<Rightarrow>
          (Inr (), self\<lparr>m0_protected_raw := raw, m0_tag := tag, m0_state := Complete\<rparr>))"

definition m0_compute :: "cbor2 \<Rightarrow> mac0 \<Rightarrow> macer \<Rightarrow> bytes option \<Rightarrow> (error + unit) \<times> mac0" where
  "m0_compute cb self mc external_aad =
     (case m0_prepare_headers cb self (mc_alg mc) (mc_kid mc) of
        (Inl e, self') \<Rightarrow> (Inl e, self')
      | (Inr _, self') \<Rightarrow>
          (case andThen (require_embedded_payload (m0_payload self') ''Mac0Message::compute'') (\<lambda>payload.
                andThen (m0_to_be_maced cb (m0_protected_raw self') (unwrap_or_empty external_aad) payload)
                  (\<lambda>tbm. mc_create mc tbm)) of
             Inl e \<Rightarrow> (Inl e, self')
           | Inr s \<Rightarrow> (Inr (), self'\<lparr>m0_tag := s, m0_state := Complete\<rparr>)))"

definition m0_compute_detached ::
  "cbor2 \<Rightarrow> mac0 \<Rightarrow> macer \<Rightarrow> bytes \<Rightarrow> bytes option \<Rightarrow> (error + unit) \<times> mac0"
where
  "m0_compute_detached cb self mc detached external_aad =
     (case m0_prepare_headers cb self (mc_alg mc) (mc_kid mc) of
        (Inl e, self') \<Rightarrow> (Inl e, self')
      | (Inr _, self') \<Rightarrow>
          (case andThen (m0_to_be_maced cb (m0_protected_raw self') (unwrap_or_empty external_aad) detached)
                  (\<lambda>tbm. mc_create mc tbm) of
             Inl e \<Rightarrow> (Inl e, self')
           | Inr s \<Rightarrow>
               (Inr (), self'\<lparr>m0_tag := s, m0_state := Complete, m0_payload := None\<rparr>)))"

section \<open>Encoding and decoding\<close>

definition m0_encode :: "cbor2 \<Rightarrow> mac0 \<Rightarrow> bytes \<Rightarrow> error + bytes" where
  "m0_encode cb self prefix =
     andThen (require_complete (m0_state self) ''Mac0Message must be computed before encoding'') (\<lambda>_.
     andThen (validate_layer cb (m0_protected self) (m0_unprotected self) (m0_protected_raw self)) (\<lambda>_.
     andThen (header_raw cb (m0_unprotected self)) (\<lambda>unprotected.
     encode_prefixed cb prefix
       [FBytes (m0_protected_raw self), FRaw unprotected, optional_bytes (m0_payload self),
        FBytes (m0_tag self)])))"

definition m0_to_vec :: "cbor2 \<Rightarrow> mac0 \<Rightarrow> error + bytes" where
  "m0_to_vec cb self = m0_encode cb self MAC0_PREFIX"

definition m0_to_cwt_vec :: "cbor2 \<Rightarrow> mac0 \<Rightarrow> error + bytes" where
  "m0_to_cwt_vec cb self = m0_encode cb self (CWT_PREFIX @ MAC0_PREFIX)"

definition m0_to_untagged_vec :: "cbor2 \<Rightarrow> mac0 \<Rightarrow> error + bytes" where
  "m0_to_untagged_vec cb self = m0_encode cb self []"

definition m0_compute_and_encode ::
  "cbor2 \<Rightarrow> mac0 \<Rightarrow> macer \<Rightarrow> bytes option \<Rightarrow> (error + bytes) \<times> mac0"
where
  "m0_compute_and_encode cb self mc external_aad =
     (case m0_compute cb self mc external_aad of
        (Inl e, self') \<Rightarrow> (Inl e, self')
      | (Inr _, self') \<Rightarrow> (m0_to_vec cb self', self'))"

definition m0_compute_detached_and_encode ::
  "cbor2 \<Rightarrow> mac0 \<Rightarrow> macer \<Rightarrow> bytes \<Rightarrow> bytes option \<Rightarrow> (error + bytes) \<times> mac0"
where
  "m0_compute_detached_and_encode cb self mc detached external_aad =
     (case m0_compute_detached cb self mc detached external_aad of
        (Inl e, self') \<Rightarrow> (Inl e, self')
      | (Inr _, self') \<Rightarrow> (m0_to_vec cb self', self'))"

definition m0_from_slice :: "cbor2 \<Rightarrow> bytes \<Rightarrow> error + mac0" where
  "m0_from_slice cb data =
     andThen (tag_message_body cb data CBORTagCOSEMac0) (\<lambda>body.
     andThen (map_err Cbor (lib_from_slice_wire4 cb label_visitor body))
       (\<lambda>(protected_raw, entries, payload, tag).
     andThen (deserialize_checked entries) (\<lambda>unprotected.
     andThen (decode_protected cb protected_raw) (\<lambda>protected.
     andThen (validate_header_buckets protected unprotected) (\<lambda>_.
     Inr \<lparr>m0_protected = protected, m0_unprotected = unprotected, m0_payload = payload,
          m0_tag = tag, m0_protected_raw = protected_raw, m0_state = Complete\<rparr>)))))"

section \<open>Verification\<close>

definition m0_verify_payload ::
  "cbor2 \<Rightarrow> mac0 \<Rightarrow> macer \<Rightarrow> bytes \<Rightarrow> bytes \<Rightarrow> error + unit"
where
  "m0_verify_payload cb self mc payload external_aad =
     andThen (validate_layer cb (m0_protected self) (m0_unprotected self) (m0_protected_raw self)) (\<lambda>_.
     andThen (ensure_crit_understood cb (m0_protected self) (mc_understood mc)) (\<lambda>_.
     andThen (check_protected_alg (m0_protected self) (m0_unprotected self) (mc_alg mc)) (\<lambda>_.
     andThen (m0_to_be_maced cb (m0_protected_raw self) external_aad payload) (\<lambda>tbm.
     mc_verify mc tbm (m0_tag self)))))"

definition m0_verify :: "cbor2 \<Rightarrow> mac0 \<Rightarrow> macer \<Rightarrow> bytes option \<Rightarrow> error + unit" where
  "m0_verify cb self mc external_aad =
     andThen (require_complete (m0_state self) ''Mac0Message must be decoded before verifying'') (\<lambda>_.
     andThen (require_embedded_payload (m0_payload self) ''Mac0Message::verify'') (\<lambda>payload.
     m0_verify_payload cb self mc payload (unwrap_or_empty external_aad)))"

definition m0_verify_detached ::
  "cbor2 \<Rightarrow> mac0 \<Rightarrow> macer \<Rightarrow> bytes \<Rightarrow> bytes option \<Rightarrow> error + unit"
where
  "m0_verify_detached cb self mc detached external_aad =
     andThen (require_complete (m0_state self) ''Mac0Message must be decoded before verifying'') (\<lambda>_.
     if m0_payload self \<noteq> None
     then Inl (Custom ''Mac0Message carries an embedded payload; use verify'')
     else m0_verify_payload cb self mc detached (unwrap_or_empty external_aad))"

definition m0_verify_and_decode ::
  "cbor2 \<Rightarrow> macer \<Rightarrow> bytes \<Rightarrow> bytes option \<Rightarrow> error + mac0"
where
  "m0_verify_and_decode cb mc data external_aad =
     andThen (m0_from_slice cb data) (\<lambda>msg.
     andThen (m0_verify cb msg mc external_aad) (\<lambda>_. Inr msg))"

definition m0_verify_detached_and_decode ::
  "cbor2 \<Rightarrow> macer \<Rightarrow> bytes \<Rightarrow> bytes \<Rightarrow> bytes option \<Rightarrow> error + mac0"
where
  "m0_verify_detached_and_decode cb mc data detached external_aad =
     andThen (m0_from_slice cb data) (\<lambda>msg.
     andThen (m0_verify_detached cb msg mc detached external_aad) (\<lambda>_. Inr msg))"

end
