(* ===== verification/Mac0Props.thy ===== *)
theory Mac0Props
  imports Mac0 Sign1Props
begin

text \<open>
  \<open>COSE_Mac0\<close>: a computed tag verifies, an encoded message carries a tag that a MACer
  produced, and under a MAC without collisions a verified message is the one that was
  authenticated, field by field.
\<close>

lemma m0_prepare_headers_cases:
  assumes "m0_prepare_headers cb m a k = (r, m')"
  obtains (failed) e where "r = Inl e" "m0_state m' = m0_state m"
      "m0_protected_raw m' = m0_protected_raw m" "m0_tag m' = m0_tag m" "m0_payload m' = m0_payload m"
  | (ready) raw p u where "r = Inr ()"
      "prepare_headers cb (m0_protected m) (m0_unprotected m) a k = (Inr raw, p, u)"
      "m' = m\<lparr>m0_protected := p, m0_unprotected := u, m0_protected_raw := raw,
         m0_state := Prepared, m0_tag := []\<rparr>"
  using assms by (auto simp: m0_prepare_headers_def split: prod.splits sum.splits)

text \<open>
  What \<open>compute\<close> (with \<open>detached = None\<close>) or \<open>compute_detached\<close> leaves behind; \<open>content\<close> is
  the authenticated payload.
\<close>

definition m0_sealed_with :: "cbor2 \<Rightarrow> mac0 \<Rightarrow> macer \<Rightarrow> bytes \<Rightarrow> bytes \<Rightarrow> mac0 \<Rightarrow> bool" where
  "m0_sealed_with cb m mc aad content m' \<longleftrightarrow> (\<exists>raw p u tbm.
     prepare_headers cb (m0_protected m) (m0_unprotected m) (mc_alg mc) (mc_kid mc) = (Inr raw, p, u) \<and>
     m0_to_be_maced cb raw aad content = Inr tbm \<and> mc_create mc tbm = Inr (m0_tag m') \<and>
     m0_protected m' = p \<and> m0_unprotected m' = u \<and> m0_protected_raw m' = raw \<and> m0_state m' = Complete)"

lemma m0_compute_ok:
  assumes "m0_compute cb m mc aad = (Inr (), m')"
  obtains content where "m0_payload m = Some content" "m0_payload m' = Some content"
    "m0_sealed_with cb m mc (unwrap_or_empty aad) content m'"
  using assms
  by (auto simp: m0_compute_def m0_prepare_headers_def require_embedded_payload_def result_simps
      m0_sealed_with_def split: prod.splits sum.splits)

lemma m0_compute_detached_ok:
  assumes "m0_compute_detached cb m mc content aad = (Inr (), m')"
  shows "m0_payload m' = None \<and> m0_sealed_with cb m mc (unwrap_or_empty aad) content m'"
  using assms
  by (auto simp: m0_compute_detached_def m0_prepare_headers_def result_simps m0_sealed_with_def
      split: prod.splits sum.splits)

lemma m0_verify_payload_ok [guards]:
  "m0_verify_payload cb m mc payload aad = Inr () \<longleftrightarrow>
    validate_layer cb (m0_protected m) (m0_unprotected m) (m0_protected_raw m) = Inr () \<and>
    crit_understood cb (m0_protected m) (mc_understood mc) \<and>
    check_protected_alg (m0_protected m) (m0_unprotected m) (mc_alg mc) = Inr () \<and>
    (\<exists>tbm. m0_to_be_maced cb (m0_protected_raw m) aad payload = Inr tbm \<and>
       mc_verify mc tbm (m0_tag m) = Inr ())"
  by (auto simp: m0_verify_payload_def andThen_eq_Inr validate_layer_ok ensure_crit_understood_ok
      buckets_ok_def)

lemma m0_verify_ok [guards]:
  "m0_verify cb m mc aad = Inr () \<longleftrightarrow> m0_state m = Complete \<and>
    (\<exists>payload. m0_payload m = Some payload \<and>
       m0_verify_payload cb m mc payload (unwrap_or_empty aad) = Inr ())"
  by (auto simp: m0_verify_def andThen_eq_Inr require_complete_ok require_embedded_payload_def ok_or_eq)

lemma m0_verify_detached_ok [guards]:
  "m0_verify_detached cb m mc detached aad = Inr () \<longleftrightarrow> m0_state m = Complete \<and>
    m0_payload m = None \<and> m0_verify_payload cb m mc detached (unwrap_or_empty aad) = Inr ()"
  by (auto simp: m0_verify_detached_def andThen_eq_Inr require_complete_ok)

text \<open>The contract of a MAC provider: it accepts the tags that it creates.\<close>

definition sound_macer :: "macer \<Rightarrow> bool" where
  "sound_macer mc \<longleftrightarrow> (\<forall>data t. mc_create mc data = Inr t \<longrightarrow> mc_verify mc data t = Inr ()) \<and>
     (\<forall>l. mc_alg mc = Some l \<longrightarrow> wf_label l)"

lemma m0_sealed_verifies:
  assumes "m0_sealed_with cb m mc aad content m'" and "wf_bt (m0_protected m)" and "wf_bt (m0_unprotected m)"
    and "sound_macer mc" and "crit_understood cb (m0_protected m') (mc_understood mc)"
  shows "m0_verify_payload cb m' mc content aad = Inr ()"
proof -
  obtain tbm where prep: "prepare_headers cb (m0_protected m) (m0_unprotected m) (mc_alg mc) (mc_kid mc) =
      (Inr (m0_protected_raw m'), m0_protected m', m0_unprotected m')"
    and tbm: "m0_to_be_maced cb (m0_protected_raw m') aad content = Inr tbm"
    "mc_create mc tbm = Inr (m0_tag m')"
    using assms(1) by (auto simp: m0_sealed_with_def)
  note ready = prepare_headers_ok [OF prep assms(2,3)]
  have "check_protected_alg (m0_protected m') (m0_unprotected m') (mc_alg mc) = Inr ()"
    using assms(4) by (intro prepared_alg_ok [OF ready]) (auto simp: sound_macer_def)
  then show ?thesis
    using prepared_layer_ok [OF ready] assms(4,5) tbm
    by (auto simp: m0_verify_payload_ok sound_macer_def)
qed

section \<open>The life of a message\<close>

text \<open>
  The calls that prepare a tag or use a provider, with any outcome, and assignments to the
  public fields. A caller of \<open>set_tag\<close> answers for the tag it installs.
\<close>

inductive m0_step :: "cbor2 \<Rightarrow> macer set \<Rightarrow> mac0 \<Rightarrow> mac0 \<Rightarrow> bool" for cb S where
  prepare: "m0_prepare_tag cb m a k aad = (r, m') \<Longrightarrow> m0_step cb S m m'"
| prepare_detached: "m0_prepare_detached_tag cb m a k d aad = (r, m') \<Longrightarrow> m0_step cb S m m'"
| compute: "mc \<in> S \<Longrightarrow> m0_compute cb m mc aad = (r', m') \<Longrightarrow> m0_step cb S m m'"
| compute_detached: "mc \<in> S \<Longrightarrow> m0_compute_detached cb m mc d aad = (r', m') \<Longrightarrow> m0_step cb S m m'"
| assign: "m0_step cb S m (m\<lparr>m0_protected := p, m0_unprotected := u, m0_payload := pl\<rparr>)"

definition m0_sealed :: "mac0 \<Rightarrow> bytes \<times> bytes" where
  "m0_sealed m = (m0_protected_raw m, m0_tag m)"

definition m0_genuine :: "cbor2 \<Rightarrow> macer set \<Rightarrow> bytes \<times> bytes \<Rightarrow> bool" where
  "m0_genuine cb S = (\<lambda>(raw, t). \<exists>mc \<in> S. \<exists>aad content tbm.
     m0_to_be_maced cb raw aad content = Inr tbm \<and> mc_create mc tbm = Inr t)"

text \<open>What a step may leave: an open message, an untouched seal, or a new genuine one.\<close>

definition m0_progress :: "cbor2 \<Rightarrow> macer set \<Rightarrow> mac0 \<Rightarrow> mac0 \<Rightarrow> bool" where
  "m0_progress cb S m m' \<longleftrightarrow> m0_state m' \<noteq> Complete \<or>
     m0_state m = Complete \<and> m0_sealed m' = m0_sealed m \<or> m0_genuine cb S (m0_sealed m')"

lemma m0_prepare_progress:
  "m0_prepare_tag cb m a k aad = (r, m') \<Longrightarrow> m0_progress cb S m m'"
  "m0_prepare_detached_tag cb m a k d aad = (r, m') \<Longrightarrow> m0_progress cb S m m'"
  by (auto simp: m0_prepare_tag_def m0_prepare_detached_tag_def m0_progress_def m0_sealed_def
      split: prod.splits sum.splits elim!: m0_prepare_headers_cases)

lemma m0_failed_progress:
  "m0_compute cb m mc aad = (Inl e, m') \<Longrightarrow> m0_progress cb S m m'"
  "m0_compute_detached cb m mc d aad = (Inl e, m') \<Longrightarrow> m0_progress cb S m m'"
  by (auto simp: m0_compute_def m0_compute_detached_def m0_progress_def m0_sealed_def
      split: prod.splits sum.splits elim!: m0_prepare_headers_cases)

lemma m0_sealed_progress:
  "m0_sealed_with cb m mc aad content m' \<Longrightarrow> mc \<in> S \<Longrightarrow> m0_progress cb S m m'"
  by (auto simp: m0_sealed_with_def m0_progress_def m0_genuine_def m0_sealed_def)

lemma m0_step_progress: "m0_step cb S m m' \<Longrightarrow> m0_progress cb S m m'"
proof (induction rule: m0_step.induct)
  case (compute mc m aad r' m')
  show ?case
  proof (cases r')
    case Inl
    then show ?thesis using compute(2) m0_failed_progress(1) by simp
  next
    case Inr
    then show ?thesis using compute by (auto elim!: m0_compute_ok intro: m0_sealed_progress)
  qed
next
  case (compute_detached mc m d aad r' m')
  show ?case
  proof (cases r')
    case Inl
    then show ?thesis using compute_detached(2) m0_failed_progress(2) by simp
  next
    case Inr
    then show ?thesis using compute_detached
      by (auto dest!: m0_compute_detached_ok intro: m0_sealed_progress)
  qed
qed (auto simp: m0_progress_def m0_sealed_def dest: m0_prepare_progress)

interpretation m0: sealed_layer m0_state m0_sealed "\<lambda>m. \<exists>p. m = m0_new p" "m0_step cb S"
    "m0_genuine cb S" for cb S
  by unfold_locales (auto simp: m0_new_def m0_progress_def dest: m0_step_progress)

section \<open>Properties\<close>

text \<open>
  A tag that \<open>compute\<close> stored is accepted by \<open>verify\<close>, and one that
  \<open>compute_detached\<close> stored by \<open>verify_detached\<close> over the same payload, with the same provider
  and external data, when the provider understands the message's critical headers.
\<close>

theorem mac0_compute_then_verify:
  assumes "wf_bt (m0_protected m)" and "wf_bt (m0_unprotected m)" and "sound_macer mc"
    and "crit_understood cb (m0_protected m') (mc_understood mc)"
  shows "(m0_compute cb m mc aad = (Inr (), m') \<longrightarrow> m0_verify cb m' mc aad = Inr ()) \<and>
    (m0_compute_detached cb m mc d aad = (Inr (), m') \<longrightarrow> m0_verify_detached cb m' mc d aad = Inr ())"
proof (intro conjI impI)
  assume "m0_compute cb m mc aad = (Inr (), m')"
  then show "m0_verify cb m' mc aad = Inr ()"
    using m0_sealed_verifies [OF _ assms]
    by (elim m0_compute_ok) (auto simp: m0_verify_ok m0_sealed_with_def)
next
  assume "m0_compute_detached cb m mc d aad = (Inr (), m')"
  then have "m0_payload m' = None" and sealed: "m0_sealed_with cb m mc (unwrap_or_empty aad) d m'"
    using m0_compute_detached_ok by blast+
  moreover have "m0_state m' = Complete" using sealed by (auto simp: m0_sealed_with_def)
  ultimately show "m0_verify_detached cb m' mc d aad = Inr ()"
    using m0_sealed_verifies [OF sealed assms] by (simp add: m0_verify_detached_ok)
qed

definition demo_macer :: macer where
  "demo_macer = \<lparr>mc_alg = Some (LInt AlgorithmHMAC_256_256), mc_kid = None, mc_understood = [],
     mc_create = (\<lambda>d. Inr (demo_seal d)), mc_verify = demo_check\<rparr>"

lemma demo_macer_sound: "sound_macer demo_macer"
  by (auto simp: sound_macer_def demo_macer_def demo_check_def in_i64_def)

definition demo_mac0 :: mac0 where
  "demo_mac0 = \<lparr>m0_protected = [(LInt 1, VInteger 5)], m0_unprotected = [], m0_payload = Some [7],
     m0_tag = [90, 7, 65, 64, 5, 1, 161, 67, 48, 67, 65, 77, 100, 132],
     m0_protected_raw = [161, 1, 5], m0_state = Complete\<rparr>"

lemma demo_mac0_computed: "m0_compute ref_cbor (m0_new (Some [7])) demo_macer None = (Inr (), demo_mac0)"
  by code_simp

lemma demo_mac0_crit: "crit_understood ref_cbor (m0_protected demo_mac0) []"
  by (intro crit_understood_no_crit) (simp add: demo_mac0_def crit_None)

theorem mac0_compute_then_verify_witness:
  "m0_verify ref_cbor demo_mac0 demo_macer None = Inr ()"
  using mac0_compute_then_verify [of "m0_new (Some [7])" demo_macer ref_cbor demo_mac0]
    demo_mac0_computed demo_mac0_crit demo_macer_sound
  by (simp add: m0_new_def demo_macer_def)

text \<open>
  The data that the MAC was asked for when the messages of \<open>Q\<close>, each with its external data,
  were computed, and the sizes that fit the machine.
\<close>

definition mac0_queries :: "cbor2 \<Rightarrow> (mac0 \<times> bytes option) set \<Rightarrow> bytes set" where
  "mac0_queries cb Q = {tbm. \<exists>(m, aad) \<in> Q. \<exists>content. m0_payload m = Some content \<and>
     m0_to_be_maced cb (m0_protected_raw m) (unwrap_or_empty aad) content = Inr tbm}"

definition mac0_fits :: "mac0 \<times> bytes option \<Rightarrow> bool" where
  "mac0_fits = (\<lambda>(m, aad). list_all (\<lambda>b. length b < usize_limit)
     [m0_protected_raw m, unwrap_or_empty aad, unwrap_or_empty (m0_payload m)])"

lemma to_be_maced_inj:
  assumes "injective_encoder cb" and "m0_to_be_maced cb r a c = Inr t" and "m0_to_be_maced cb r' a' c' = Inr t"
    and "list_all (\<lambda>b. length b < usize_limit) [r, a, c, r', a', c']"
  shows "r' = r \<and> a' = a \<and> c' = c"
proof -
  have "[FText ''MAC0'', FBytes r, FBytes a, FBytes c] = [FText ''MAC0'', FBytes r', FBytes a', FBytes c']"
    using assms(2-4) unfolding m0_to_be_maced_def
    by (intro injective_encoderD [OF assms(1)]) (auto simp: usize_limit_def)
  then show ?thesis by simp
qed

text \<open>
  C32. The integrity of COSE_Mac0, as a reduction to the unforgeability of the MAC under chosen
  messages. Let \<open>Q\<close> be the messages that the holder of the key has computed, each with the
  external data it was computed with. The tag of each of them was created by the MAC over one
  of the queries of \<open>Q\<close>. And whatever message verifies, with whatever external data, either has
  exactly the protected bytes, the payload and the external data of a message of \<open>Q\<close>, or its tag
  is a forgery: the MAC accepts it for the \<open>MAC_structure\<close> of that message, for which no tag was
  ever created. The unprotected header is not part of the \<open>MAC_structure\<close> and is not covered.
\<close>

theorem mac0_integrity:
  assumes "\<forall>(m, aad) \<in> Q. \<exists>m0. m0_compute cb m0 mc aad = (Inr (), m)"
    and "m0_verify cb m2 mc aad2 = Inr ()" and "injective_encoder cb"
    and "\<forall>q \<in> insert (m2, aad2) Q. mac0_fits q"
  shows "(\<forall>(m, aad) \<in> Q. \<exists>tbm \<in> mac0_queries cb Q. mc_create mc tbm = Inr (m0_tag m)) \<and>
    ((\<exists>(m, aad) \<in> Q. m0_protected_raw m2 = m0_protected_raw m \<and> m0_payload m2 = m0_payload m \<and>
        unwrap_or_empty aad2 = unwrap_or_empty aad) \<or>
     (\<exists>content tbm. m0_payload m2 = Some content \<and>
        m0_to_be_maced cb (m0_protected_raw m2) (unwrap_or_empty aad2) content = Inr tbm \<and>
        mc_verify mc tbm (m0_tag m2) = Inr () \<and> tbm \<notin> mac0_queries cb Q))"
proof (intro conjI)
  show "\<forall>(m, aad) \<in> Q. \<exists>tbm \<in> mac0_queries cb Q. mc_create mc tbm = Inr (m0_tag m)"
  proof clarify
    fix m aad assume q: "(m, aad) \<in> Q"
    then obtain m0 where "m0_compute cb m0 mc aad = (Inr (), m)" using assms(1) by blast
    then obtain c where "m0_payload m = Some c" "m0_sealed_with cb m0 mc (unwrap_or_empty aad) c m"
      by (rule m0_compute_ok)
    then show "\<exists>tbm \<in> mac0_queries cb Q. mc_create mc tbm = Inr (m0_tag m)"
      using q by (fastforce simp: m0_sealed_with_def mac0_queries_def)
  qed
  obtain c t where c: "m0_payload m2 = Some c"
    and t: "m0_to_be_maced cb (m0_protected_raw m2) (unwrap_or_empty aad2) c = Inr t"
    "mc_verify mc t (m0_tag m2) = Inr ()"
    using assms(2) by (auto simp: m0_verify_ok m0_verify_payload_ok)
  show "(\<exists>(m, aad) \<in> Q. m0_protected_raw m2 = m0_protected_raw m \<and> m0_payload m2 = m0_payload m \<and>
        unwrap_or_empty aad2 = unwrap_or_empty aad) \<or>
     (\<exists>content tbm. m0_payload m2 = Some content \<and>
        m0_to_be_maced cb (m0_protected_raw m2) (unwrap_or_empty aad2) content = Inr tbm \<and>
        mc_verify mc tbm (m0_tag m2) = Inr () \<and> tbm \<notin> mac0_queries cb Q)"
  proof (cases "t \<in> mac0_queries cb Q")
    case False
    then show ?thesis using c t by blast
  next
    case True
    then obtain m aad c1 where q: "(m, aad) \<in> Q" "m0_payload m = Some c1"
      "m0_to_be_maced cb (m0_protected_raw m) (unwrap_or_empty aad) c1 = Inr t"
      by (auto simp: mac0_queries_def)
    have "mac0_fits (m, aad)" "mac0_fits (m2, aad2)" using assms(4) q(1) by blast+
    then have "m0_protected_raw m2 = m0_protected_raw m \<and> unwrap_or_empty aad2 = unwrap_or_empty aad \<and> c = c1"
      using c q(2) by (intro to_be_maced_inj [OF assms(3) q(3) t(1)])
        (simp_all add: mac0_fits_def unwrap_or_empty_def)
    then show ?thesis using c q(1,2) by (intro disjI1 bexI [of _ "(m, aad)"]) simp_all
  qed
qed

text \<open>The message with another unprotected header verifies; its authenticated parts are those computed.\<close>

definition demo_mac0_rekeyed :: mac0 where
  "demo_mac0_rekeyed = demo_mac0\<lparr>m0_unprotected := [(LInt 4, VBytes [1])]\<rparr>"

lemma demo_mac0_rekeyed_verifies: "m0_verify ref_cbor demo_mac0_rekeyed demo_macer None = Inr ()"
  by code_simp

theorem mac0_integrity_witness:
  "(\<exists>tbm. tbm \<in> mac0_queries ref_cbor {(demo_mac0, None)} \<and> mc_create demo_macer tbm = Inr (m0_tag demo_mac0)) \<and>
   m0_protected_raw demo_mac0_rekeyed = m0_protected_raw demo_mac0 \<and>
   m0_payload demo_mac0_rekeyed = m0_payload demo_mac0"
proof -
  let ?Q = "{(demo_mac0, None)} :: (mac0 \<times> bytes option) set"
  have "\<forall>(m, aad) \<in> ?Q. \<exists>m0. m0_compute ref_cbor m0 demo_macer aad = (Inr (), m)"
    using demo_mac0_computed by blast
  moreover have "\<forall>q \<in> insert (demo_mac0_rekeyed, None) ?Q. mac0_fits q"
    by (simp add: mac0_fits_def demo_mac0_rekeyed_def demo_mac0_def unwrap_or_empty_def usize_limit_def)
  moreover have "tbm \<in> mac0_queries ref_cbor ?Q"
    if "m0_payload demo_mac0_rekeyed = Some c"
      "m0_to_be_maced ref_cbor (m0_protected_raw demo_mac0_rekeyed) (unwrap_or_empty None) c = Inr tbm" for c tbm
    using that by (simp add: mac0_queries_def demo_mac0_rekeyed_def)
  ultimately show ?thesis
    using mac0_integrity [OF _ demo_mac0_rekeyed_verifies ref_cbor_injective, of ?Q] by fast
qed

text \<open>
  Whatever calls are made on a new message, with any outcomes, its tag can
  be encoded only after a provider in use created it over a \<open>MAC_structure\<close> with the
  protected bytes that are written and the protected bucket still denotes.
\<close>

theorem mac0_encodes_only_maced:
  assumes "(m0_step cb S)\<^sup>*\<^sup>* (m0_new payload) m" and "m0_encode cb m prefix = Inr out"
  shows "validate_layer cb (m0_protected m) (m0_unprotected m) (m0_protected_raw m) = Inr () \<and>
    (\<exists>mc \<in> S. \<exists>aad content tbm. m0_to_be_maced cb (m0_protected_raw m) aad content = Inr tbm \<and>
      mc_create mc tbm = Inr (m0_tag m))"
proof -
  have c: "m0_state m = Complete \<and>
      validate_layer cb (m0_protected m) (m0_unprotected m) (m0_protected_raw m) = Inr ()"
    using assms(2) by (auto simp: m0_encode_def andThen_eq_Inr require_complete_ok)
  then have "m0_genuine cb S (m0_sealed m)" by (intro m0.complete_is_genuine [OF _ assms(1)]) auto
  then show ?thesis using c by (auto simp: m0_genuine_def m0_sealed_def)
qed

theorem mac0_encodes_only_maced_witness:
  "\<exists>mc \<in> {demo_macer}. \<exists>aad content tbm.
    m0_to_be_maced ref_cbor (m0_protected_raw demo_mac0) aad content = Inr tbm \<and>
    mc_create mc tbm = Inr (m0_tag demo_mac0)"
proof -
  have "is_ok (m0_encode ref_cbor demo_mac0 [])" by code_simp
  then obtain out where "m0_encode ref_cbor demo_mac0 [] = Inr out" by (auto simp: is_ok_iff)
  moreover have "(m0_step ref_cbor {demo_macer})\<^sup>*\<^sup>* (m0_new (Some [7])) demo_mac0"
    by (rule r_into_rtranclp, rule m0_step.compute [OF _ demo_mac0_computed]) simp
  ultimately show ?thesis using mac0_encodes_only_maced by blast
qed

end
