(* ===== verification/Encrypt0.thy ===== *)
theory Encrypt0
  imports Countersign
begin

text \<open>
  \<open>src/src/encrypt0.rs\<close>: \<open>COSE_Encrypt0\<close>. The AEAD is a provider; \<open>encryption_context\<close> is the
  struct of the same name in \<open>src/src/traits.rs\<close>.
\<close>

record encryption_context =
  ec_nonce :: bytes
  ec_aad :: bytes

record encrypt0 =
  e0_protected :: header
  e0_unprotected :: header
  e0_payload :: "bytes option"
  e0_ciphertext :: bytes
  e0_detached :: bool
  e0_protected_raw :: bytes
  e0_state :: operation_state

definition e0_new :: "bytes option \<Rightarrow> encrypt0" where
  "e0_new payload = \<lparr>e0_protected = [], e0_unprotected = [], e0_payload = payload,
     e0_ciphertext = [], e0_detached = False, e0_protected_raw = [], e0_state = New\<rparr>"

definition e0_to_be_encrypted :: "cbor2 \<Rightarrow> bytes \<Rightarrow> bytes \<Rightarrow> error + bytes" where
  "e0_to_be_encrypted cb protected_raw external_aad =
     encode_structure cb [FText ''Encrypt0'', FBytes protected_raw, FBytes external_aad]"

section \<open>Encryption\<close>

definition e0_prepare_encryption ::
  "cbor2 \<Rightarrow> encrypt0 \<Rightarrow> label option \<Rightarrow> bytes option \<Rightarrow> nat \<Rightarrow> bytes option \<Rightarrow> bytes option \<Rightarrow>
    (error + encryption_context) \<times> encrypt0"
where
  "e0_prepare_encryption cb self a k nonce_size base_iv external_aad =
     (case prepare_headers cb (e0_protected self) (e0_unprotected self) a k of
        (Inl e, p, u) \<Rightarrow> (Inl e, self\<lparr>e0_protected := p, e0_unprotected := u\<rparr>)
      | (Inr raw, p, u) \<Rightarrow>
          let self' = self\<lparr>e0_protected := p, e0_unprotected := u\<rparr> in
          (case andThen (require_plaintext (e0_payload self') ''Encrypt0Message::prepare_encryption'') (\<lambda>_.
                andThen (nonce_from_header_values p u nonce_size base_iv) (\<lambda>nonce.
                andThen (e0_to_be_encrypted cb raw (unwrap_or_empty external_aad)) (\<lambda>aad.
                Inr \<lparr>ec_nonce = nonce, ec_aad = aad\<rparr>))) of
             Inl e \<Rightarrow> (Inl e, self')
           | Inr context \<Rightarrow>
               (Inr context, self'\<lparr>e0_protected_raw := raw, e0_state := Prepared,
                  e0_ciphertext := [], e0_detached := False\<rparr>)))"

definition e0_set_ciphertext :: "cbor2 \<Rightarrow> encrypt0 \<Rightarrow> bytes \<Rightarrow> bool \<Rightarrow> (error + unit) \<times> encrypt0" where
  "e0_set_ciphertext cb self ciphertext detached =
     (case sync_protected_raw cb (e0_protected self) (e0_unprotected self) (e0_protected_raw self)
         (e0_state self) of
        Inl e \<Rightarrow> (Inl e, self)
      | Inr raw \<Rightarrow>
          (Inr (), self\<lparr>e0_protected_raw := raw, e0_ciphertext := ciphertext,
             e0_detached := detached, e0_state := Complete\<rparr>))"

definition e0_encrypt ::
  "cbor2 \<Rightarrow> encrypt0 \<Rightarrow> encryptor \<Rightarrow> bytes option \<Rightarrow> (error + unit) \<times> encrypt0"
where
  "e0_encrypt cb self en external_aad =
     (case e0_prepare_encryption cb self (en_alg en) (en_kid en) (en_nonce_size en) (en_base_iv en)
         external_aad of
        (Inl e, self') \<Rightarrow> (Inl e, self')
      | (Inr context, self') \<Rightarrow>
          (case andThen (require_plaintext (e0_payload self') ''Encrypt0Message::encrypt'') (\<lambda>plaintext.
                en_encrypt en (ec_nonce context) plaintext (ec_aad context)) of
             Inl e \<Rightarrow> (Inl e, self')
           | Inr c \<Rightarrow> (Inr (), self'\<lparr>e0_ciphertext := c, e0_state := Complete\<rparr>)))"

definition e0_encrypt_detached ::
  "cbor2 \<Rightarrow> encrypt0 \<Rightarrow> encryptor \<Rightarrow> bytes option \<Rightarrow> (error + bytes) \<times> encrypt0"
where
  "e0_encrypt_detached cb self en external_aad =
     (case e0_encrypt cb self en external_aad of
        (Inl e, self') \<Rightarrow> (Inl e, self')
      | (Inr _, self') \<Rightarrow> (Inr (e0_ciphertext self'), self'\<lparr>e0_detached := True\<rparr>))"

section \<open>Encoding and decoding\<close>

definition e0_encode :: "cbor2 \<Rightarrow> encrypt0 \<Rightarrow> bytes \<Rightarrow> error + bytes" where
  "e0_encode cb self prefix =
     andThen (require_complete (e0_state self) ''Encrypt0Message must be encrypted before encoding'') (\<lambda>_.
     andThen (validate_layer cb (e0_protected self) (e0_unprotected self) (e0_protected_raw self)) (\<lambda>_.
     let ciphertext = (if e0_detached self then FNull else FBytes (e0_ciphertext self)) in
     andThen (header_raw cb (e0_unprotected self)) (\<lambda>unprotected.
     encode_prefixed cb prefix [FBytes (e0_protected_raw self), FRaw unprotected, ciphertext])))"

definition e0_to_vec :: "cbor2 \<Rightarrow> encrypt0 \<Rightarrow> error + bytes" where
  "e0_to_vec cb self = e0_encode cb self ENCRYPT0_PREFIX"

definition e0_to_cwt_vec :: "cbor2 \<Rightarrow> encrypt0 \<Rightarrow> error + bytes" where
  "e0_to_cwt_vec cb self = e0_encode cb self (CWT_PREFIX @ ENCRYPT0_PREFIX)"

definition e0_to_untagged_vec :: "cbor2 \<Rightarrow> encrypt0 \<Rightarrow> error + bytes" where
  "e0_to_untagged_vec cb self = e0_encode cb self []"

definition e0_encrypt_and_encode ::
  "cbor2 \<Rightarrow> encrypt0 \<Rightarrow> encryptor \<Rightarrow> bytes option \<Rightarrow> (error + bytes) \<times> encrypt0"
where
  "e0_encrypt_and_encode cb self en external_aad =
     (case e0_encrypt cb self en external_aad of
        (Inl e, self') \<Rightarrow> (Inl e, self')
      | (Inr _, self') \<Rightarrow> (e0_to_vec cb self', self'))"

text \<open>The ciphertext is moved out of the message (\<open>std::mem::take\<close>).\<close>

definition e0_encrypt_detached_and_encode ::
  "cbor2 \<Rightarrow> encrypt0 \<Rightarrow> encryptor \<Rightarrow> bytes option \<Rightarrow> (error + (bytes \<times> bytes)) \<times> encrypt0"
where
  "e0_encrypt_detached_and_encode cb self en external_aad =
     (case e0_encrypt_detached cb self en external_aad of
        (Inl e, self') \<Rightarrow> (Inl e, self')
      | (Inr _, self') \<Rightarrow>
          (case e0_to_vec cb self' of
             Inl e \<Rightarrow> (Inl e, self')
           | Inr encoded \<Rightarrow> (Inr (encoded, e0_ciphertext self'), self'\<lparr>e0_ciphertext := []\<rparr>)))"

definition e0_from_slice :: "cbor2 \<Rightarrow> bytes \<Rightarrow> error + encrypt0" where
  "e0_from_slice cb data =
     andThen (tag_message_body cb data CBORTagCOSEEncrypt0) (\<lambda>body.
     andThen (map_err Cbor (lib_from_slice_wire3 cb label_visitor body))
       (\<lambda>(protected_raw, entries, wire_ciphertext).
     andThen (deserialize_checked entries) (\<lambda>unprotected.
     andThen (decode_protected cb protected_raw) (\<lambda>protected.
     andThen (validate_header_buckets protected unprotected) (\<lambda>_.
     let (ciphertext, detached) =
           (case wire_ciphertext of Some c \<Rightarrow> (c, False) | None \<Rightarrow> ([], True)) in
     Inr \<lparr>e0_protected = protected, e0_unprotected = unprotected, e0_payload = None,
          e0_ciphertext = ciphertext, e0_detached = detached, e0_protected_raw = protected_raw,
          e0_state = Complete\<rparr>)))))"

section \<open>Decryption\<close>

definition e0_prepare_decryption_with_crit ::
  "cbor2 \<Rightarrow> encrypt0 \<Rightarrow> label option \<Rightarrow> nat \<Rightarrow> bytes option \<Rightarrow> bytes option \<Rightarrow> label list \<Rightarrow>
    error + encryption_context"
where
  "e0_prepare_decryption_with_crit cb self a nonce_size base_iv external_aad understood =
     andThen (require_complete (e0_state self) ''Encrypt0Message must be decoded before decrypting'') (\<lambda>_.
     andThen (validate_layer cb (e0_protected self) (e0_unprotected self) (e0_protected_raw self)) (\<lambda>_.
     andThen (ensure_crit_understood cb (e0_protected self) understood) (\<lambda>_.
     andThen (check_protected_alg (e0_protected self) (e0_unprotected self) a) (\<lambda>_.
     andThen (nonce_from_header_values (e0_protected self) (e0_unprotected self) nonce_size base_iv) (\<lambda>nonce.
     andThen (e0_to_be_encrypted cb (e0_protected_raw self) (unwrap_or_empty external_aad)) (\<lambda>aad.
     Inr \<lparr>ec_nonce = nonce, ec_aad = aad\<rparr>))))))"

definition e0_prepare_decryption ::
  "cbor2 \<Rightarrow> encrypt0 \<Rightarrow> label option \<Rightarrow> nat \<Rightarrow> bytes option \<Rightarrow> bytes option \<Rightarrow> error + encryption_context"
where
  "e0_prepare_decryption cb self a nonce_size base_iv external_aad =
     e0_prepare_decryption_with_crit cb self a nonce_size base_iv external_aad []"

text \<open>\<open>open\<close> is the shared tail of the two decryption methods.\<close>

definition e0_open ::
  "cbor2 \<Rightarrow> encrypt0 \<Rightarrow> encryptor \<Rightarrow> bytes \<Rightarrow> bytes option \<Rightarrow> error + bytes"
where
  "e0_open cb self en ciphertext external_aad =
     andThen (e0_prepare_decryption_with_crit cb self (en_alg en) (en_nonce_size en) (en_base_iv en)
         external_aad (en_understood en)) (\<lambda>context.
     en_decrypt en (ec_nonce context) ciphertext (ec_aad context))"

definition e0_decrypt ::
  "cbor2 \<Rightarrow> encrypt0 \<Rightarrow> encryptor \<Rightarrow> bytes option \<Rightarrow> (error + bytes) \<times> encrypt0"
where
  "e0_decrypt cb self en external_aad =
     (case andThen (require_complete (e0_state self) ''Encrypt0Message must be decoded before decrypting'') (\<lambda>_.
           if e0_detached self
           then Inl (Custom ''Encrypt0Message has detached ciphertext; use decrypt_detached'')
           else e0_open cb self en (e0_ciphertext self) external_aad) of
        Inl e \<Rightarrow> (Inl e, self)
      | Inr plaintext \<Rightarrow> (Inr plaintext, self\<lparr>e0_payload := Some plaintext\<rparr>))"

definition e0_decrypt_detached ::
  "cbor2 \<Rightarrow> encrypt0 \<Rightarrow> encryptor \<Rightarrow> bytes \<Rightarrow> bytes option \<Rightarrow> (error + bytes) \<times> encrypt0"
where
  "e0_decrypt_detached cb self en detached_ciphertext external_aad =
     (case andThen (require_complete (e0_state self) ''Encrypt0Message must be decoded before decrypting'') (\<lambda>_.
           if \<not> e0_detached self
           then Inl (Custom ''Encrypt0Message carries embedded ciphertext; use decrypt'')
           else e0_open cb self en detached_ciphertext external_aad) of
        Inl e \<Rightarrow> (Inl e, self)
      | Inr plaintext \<Rightarrow>
          (Inr plaintext, self\<lparr>e0_ciphertext := detached_ciphertext, e0_payload := Some plaintext\<rparr>))"

definition e0_decrypt_and_decode ::
  "cbor2 \<Rightarrow> encryptor \<Rightarrow> bytes \<Rightarrow> bytes option \<Rightarrow> error + encrypt0"
where
  "e0_decrypt_and_decode cb en data external_aad =
     andThen (e0_from_slice cb data) (\<lambda>msg.
     case e0_decrypt cb msg en external_aad of
       (Inl e, _) \<Rightarrow> Inl e
     | (Inr _, msg') \<Rightarrow> Inr msg')"

definition e0_decrypt_detached_and_decode ::
  "cbor2 \<Rightarrow> encryptor \<Rightarrow> bytes \<Rightarrow> bytes \<Rightarrow> bytes option \<Rightarrow> error + encrypt0"
where
  "e0_decrypt_detached_and_decode cb en data detached_ciphertext external_aad =
     andThen (e0_from_slice cb data) (\<lambda>msg.
     case e0_decrypt_detached cb msg en detached_ciphertext external_aad of
       (Inl e, _) \<Rightarrow> Inl e
     | (Inr _, msg') \<Rightarrow> Inr msg')"

end
