(* ===== verification/Encrypt0Props.thy ===== *)
theory Encrypt0Props
  imports Encrypt0 Sign1Props
begin

text \<open>
  \<open>COSE_Encrypt0\<close>: encryption and decryption use the same nonce and authenticated data, so
  decryption returns the plaintext; a message is encoded only with a ciphertext that a
  provider produced; and a failing decryption leaves the message as it was.
\<close>

lemma e0_prepare_encryption_ok:
  assumes "e0_prepare_encryption cb m a k n base aad = (Inr ctx, m')"
  obtains raw p u nonce tbe plaintext where "ctx = \<lparr>ec_nonce = nonce, ec_aad = tbe\<rparr>"
      "prepare_headers cb (e0_protected m) (e0_unprotected m) a k = (Inr raw, p, u)"
      "nonce_from_header_values p u n base = Inr nonce"
      "e0_to_be_encrypted cb raw (unwrap_or_empty aad) = Inr tbe" "e0_payload m = Some plaintext"
      "m' = m\<lparr>e0_protected := p, e0_unprotected := u, e0_protected_raw := raw, e0_state := Prepared,
         e0_ciphertext := [], e0_detached := False\<rparr>"
proof -
  obtain raw p u where prep: "prepare_headers cb (e0_protected m) (e0_unprotected m) a k = (Inr raw, p, u)"
    using assms by (auto simp: e0_prepare_encryption_def split: prod.splits sum.splits)
  then show thesis using assms
    by (auto simp: e0_prepare_encryption_def Let_def require_plaintext_def result_simps
        intro!: that)
qed

lemma e0_encrypt_ok:
  assumes "e0_encrypt cb m en aad = (Inr (), m')"
  obtains raw p u nonce tbe plaintext c where
    "prepare_headers cb (e0_protected m) (e0_unprotected m) (en_alg en) (en_kid en) = (Inr raw, p, u)"
    "nonce_from_header_values p u (en_nonce_size en) (en_base_iv en) = Inr nonce"
    "e0_to_be_encrypted cb raw (unwrap_or_empty aad) = Inr tbe"
    "e0_payload m = Some plaintext" "en_encrypt en nonce plaintext tbe = Inr c"
    "m' = m\<lparr>e0_protected := p, e0_unprotected := u, e0_protected_raw := raw, e0_state := Complete,
       e0_ciphertext := c, e0_detached := False\<rparr>"
proof -
  obtain ctx m1 where prep: "e0_prepare_encryption cb m (en_alg en) (en_kid en) (en_nonce_size en)
      (en_base_iv en) aad = (Inr ctx, m1)"
    using assms by (auto simp: e0_encrypt_def split: prod.splits sum.splits)
  then show thesis
  proof (rule e0_prepare_encryption_ok)
    fix raw p u nonce tbe plaintext
    assume ctx: "ctx = \<lparr>ec_nonce = nonce, ec_aad = tbe\<rparr>"
      and ready: "prepare_headers cb (e0_protected m) (e0_unprotected m) (en_alg en) (en_kid en) = (Inr raw, p, u)"
        "nonce_from_header_values p u (en_nonce_size en) (en_base_iv en) = Inr nonce"
        "e0_to_be_encrypted cb raw (unwrap_or_empty aad) = Inr tbe" "e0_payload m = Some plaintext"
      and m1: "m1 = m\<lparr>e0_protected := p, e0_unprotected := u, e0_protected_raw := raw,
        e0_state := Prepared, e0_ciphertext := [], e0_detached := False\<rparr>"
    obtain c where "en_encrypt en nonce plaintext tbe = Inr c"
        "m' = m1\<lparr>e0_ciphertext := c, e0_state := Complete\<rparr>"
      using assms prep ready(4) unfolding m1 ctx
      by (auto simp: e0_encrypt_def require_plaintext_def andThen_eq_Inr ok_or_eq split: sum.splits)
    then show thesis using ready by (intro that) (auto simp: m1)
  qed
qed

text \<open>The contract of an AEAD provider.\<close>

definition sound_encryptor :: "encryptor \<Rightarrow> bool" where
  "sound_encryptor en \<longleftrightarrow>
     (\<forall>n pt a c. length n = en_nonce_size en \<longrightarrow> en_encrypt en n pt a = Inr c \<longrightarrow> en_decrypt en n c a = Inr pt) \<and>
     (\<forall>l. en_alg en = Some l \<longrightarrow> wf_label l)"

lemma e0_open_ok:
  "e0_open cb m en c aad = Inr pt \<longleftrightarrow> e0_state m = Complete \<and>
    validate_layer cb (e0_protected m) (e0_unprotected m) (e0_protected_raw m) = Inr () \<and>
    crit_understood cb (e0_protected m) (en_understood en) \<and>
    check_protected_alg (e0_protected m) (e0_unprotected m) (en_alg en) = Inr () \<and>
    (\<exists>nonce tbe. nonce_from_header_values (e0_protected m) (e0_unprotected m) (en_nonce_size en)
         (en_base_iv en) = Inr nonce \<and>
       e0_to_be_encrypted cb (e0_protected_raw m) (unwrap_or_empty aad) = Inr tbe \<and>
       en_decrypt en nonce c tbe = Inr pt)"
  by (auto simp: e0_open_def e0_prepare_decryption_with_crit_def andThen_eq_Inr require_complete_ok
      validate_layer_ok ensure_crit_understood_ok buckets_ok_def)

lemma e0_encrypted_decrypts:
  assumes "e0_encrypt cb m en aad = (Inr (), m')"
    and "wf_bt (e0_protected m)" and "wf_bt (e0_unprotected m)" and "sound_encryptor en"
    and "crit_understood cb (e0_protected m') (en_understood en)"
  shows "\<exists>plaintext. e0_payload m = Some plaintext \<and>
    e0_decrypt cb (m'\<lparr>e0_payload := None\<rparr>) en aad = (Inr plaintext, m') \<and>
    fst (e0_decrypt_detached cb (m'\<lparr>e0_detached := True\<rparr>) en (e0_ciphertext m') aad) = Inr plaintext"
  using assms(1)
proof (rule e0_encrypt_ok)
  fix raw p u nonce tbe plaintext c
  assume prep: "prepare_headers cb (e0_protected m) (e0_unprotected m) (en_alg en) (en_kid en) = (Inr raw, p, u)"
    and nonce: "nonce_from_header_values p u (en_nonce_size en) (en_base_iv en) = Inr nonce"
    and tbe: "e0_to_be_encrypted cb raw (unwrap_or_empty aad) = Inr tbe"
    and enc: "e0_payload m = Some plaintext" "en_encrypt en nonce plaintext tbe = Inr c"
    and m': "m' = m\<lparr>e0_protected := p, e0_unprotected := u, e0_protected_raw := raw,
      e0_state := Complete, e0_ciphertext := c, e0_detached := False\<rparr>"
  note ready = prepare_headers_ok [OF prep assms(2,3)]
  have alg: "check_protected_alg p u (en_alg en) = Inr ()"
    using assms(4) by (intro prepared_alg_ok [OF ready]) (auto simp: sound_encryptor_def)
  have dec: "en_decrypt en nonce c tbe = Inr plaintext"
    using assms(4) enc(2) nonce_length [OF nonce] by (auto simp: sound_encryptor_def)
  have "e0_open cb (m'\<lparr>e0_payload := None\<rparr>) en c aad = Inr plaintext"
    and "e0_open cb (m'\<lparr>e0_detached := True\<rparr>) en c aad = Inr plaintext"
    using prepared_layer_ok [OF ready] alg nonce tbe dec assms(5) by (auto simp: e0_open_ok m')
  then show ?thesis using enc(1)
    by (auto simp: e0_decrypt_def e0_decrypt_detached_def require_complete_def complete_def m')
qed

section \<open>Properties\<close>

text \<open>
  C33. Decrypting what \<open>encrypt\<close> produced returns the plaintext, under the
  same provider and external data: both sides derive the same nonce from the headers and
  authenticate the same \<open>Enc_structure\<close>. The nonce has the provider's size.
\<close>

theorem encrypt0_encrypt_then_decrypt:
  assumes "e0_encrypt cb m en aad = (Inr (), m')"
    and "wf_bt (e0_protected m)" and "wf_bt (e0_unprotected m)" and "sound_encryptor en"
    and "crit_understood cb (e0_protected m') (en_understood en)"
  shows "\<exists>plaintext. e0_payload m = Some plaintext \<and>
    e0_decrypt cb (m'\<lparr>e0_payload := None\<rparr>) en aad = (Inr plaintext, m') \<and>
    fst (e0_decrypt_detached cb (m'\<lparr>e0_detached := True\<rparr>) en (e0_ciphertext m') aad) = Inr plaintext"
  using assms by (rule e0_encrypted_decrypts)

definition demo_encryptor :: encryptor where
  "demo_encryptor = \<lparr>en_alg = Some (LInt AlgorithmA128GCM), en_kid = None, en_understood = [],
     en_nonce_size = 2, en_base_iv = None,
     en_encrypt = (\<lambda>n pt a. Inr (n @ pt)), en_decrypt = (\<lambda>n c a. Inr (drop 2 c))\<rparr>"

definition demo_plain0 :: encrypt0 where
  "demo_plain0 = (e0_new (Some [7, 8]))\<lparr>e0_unprotected := [(LInt 5, VBytes [1, 2])]\<rparr>"

definition demo_encrypt0 :: encrypt0 where
  "demo_encrypt0 = \<lparr>e0_protected = [(LInt 1, VInteger 1)], e0_unprotected = [(LInt 5, VBytes [1, 2])],
     e0_payload = Some [7, 8], e0_ciphertext = [1, 2, 7, 8], e0_detached = False,
     e0_protected_raw = [161, 1, 1], e0_state = Complete\<rparr>"

lemma demo_encrypt0_encrypted: "e0_encrypt ref_cbor demo_plain0 demo_encryptor None = (Inr (), demo_encrypt0)"
  by code_simp

theorem encrypt0_encrypt_then_decrypt_witness:
  "e0_decrypt ref_cbor (demo_encrypt0\<lparr>e0_payload := None\<rparr>) demo_encryptor None = (Inr [7, 8], demo_encrypt0)"
proof -
  have "sound_encryptor demo_encryptor"
    by (auto simp: sound_encryptor_def demo_encryptor_def in_i64_def)
  moreover have "crit_understood ref_cbor (e0_protected demo_encrypt0) (en_understood demo_encryptor)"
    by (intro crit_understood_no_crit) (simp add: demo_encrypt0_def crit_None)
  ultimately show ?thesis
    using encrypt0_encrypt_then_decrypt [OF demo_encrypt0_encrypted]
    by (simp add: demo_plain0_def e0_new_def)
qed

text \<open>
  C34. \<open>decrypt\<close> yields a plaintext exactly when the message is completed
  and attached, its layer is valid, its critical headers are understood, its algorithm is the
  provider's, its headers determine a nonce, and the provider opens the ciphertext under that
  nonce and the \<open>Enc_structure\<close>; then the payload is set and nothing else changes. In every
  other case \<open>decrypt\<close> fails, and the message that it leaves behind is the one it was given.
\<close>

theorem encrypt0_decrypt_iff:
  "(e0_decrypt cb m en aad = (Inr pt, m') \<longleftrightarrow> m' = m\<lparr>e0_payload := Some pt\<rparr> \<and>
    e0_state m = Complete \<and> \<not> e0_detached m \<and>
    buckets_ok (e0_protected m) (e0_unprotected m) \<and>
    validate_protected_state cb (e0_protected m) (e0_protected_raw m) = Inr () \<and>
    crit_understood cb (e0_protected m) (en_understood en) \<and>
    check_protected_alg (e0_protected m) (e0_unprotected m) (en_alg en) = Inr () \<and>
    (\<exists>nonce tbe. nonce_from_header_values (e0_protected m) (e0_unprotected m) (en_nonce_size en)
         (en_base_iv en) = Inr nonce \<and>
       e0_to_be_encrypted cb (e0_protected_raw m) (unwrap_or_empty aad) = Inr tbe \<and>
       en_decrypt en nonce (e0_ciphertext m) tbe = Inr pt)) \<and>
   ((\<exists>e. e0_decrypt cb m en aad = (Inl e, m'')) \<longleftrightarrow>
     m'' = m \<and> (\<forall>plain. fst (e0_decrypt cb m en aad) \<noteq> Inr plain))"
proof (intro conjI)
  show "(\<exists>e. e0_decrypt cb m en aad = (Inl e, m'')) \<longleftrightarrow>
      m'' = m \<and> (\<forall>plain. fst (e0_decrypt cb m en aad) \<noteq> Inr plain)"
    by (auto simp: e0_decrypt_def split: sum.splits)
qed (auto simp: e0_decrypt_def commit_eq_Inr andThen_eq_Inr require_complete_ok e0_open_ok
      validate_layer_ok)

end
