(* ===== verification/Key.thy ===== *)
theory Key
  imports Header
begin

text \<open>
  \<open>src/src/key.rs\<close>: a \<open>COSE_Key\<close> is a \<open>CoseMap\<close> with typed accessors, a \<open>COSE_KeySet\<close> a list of
  keys. The setters return the updated map. \<open>key_try_from\<close> reads a key out of a header value.
\<close>

type_synonym cose_key = cose_map

type_synonym key_set = "cose_key list"

section \<open>Accessors\<close>

definition kty :: "cose_key \<Rightarrow> error + label option" where
  "kty k = get_label k (LInt KeyParameterKty)"

definition set_kty :: "label \<Rightarrow> cose_key \<Rightarrow> cose_key" where
  "set_kty l k = bt_insert (LInt KeyParameterKty) (value_of_label l) k"

definition key_kid :: "cose_key \<Rightarrow> error + bytes option" where
  "key_kid k = get_bytes k (LInt KeyParameterKid)"

definition set_key_kid :: "bytes \<Rightarrow> cose_key \<Rightarrow> cose_key" where
  "set_key_kid b k = bt_insert (LInt KeyParameterKid) (VBytes b) k"

definition key_alg :: "cose_key \<Rightarrow> error + label option" where
  "key_alg k = get_label k (LInt KeyParameterAlg)"

definition set_key_alg :: "label \<Rightarrow> cose_key \<Rightarrow> cose_key" where
  "set_key_alg l k = bt_insert (LInt KeyParameterAlg) (value_of_label l) k"

fun op_from_value :: "value \<Rightarrow> error + label" where
  "op_from_value (VInteger i) =
     map_ok LInt (ok_or (try_i64 i) (UnexpectedType ''key_ops integer out of range''))"
| "op_from_value (VText s) = Inr (LText s)"
| "op_from_value _ = Inl (UnexpectedType ''key_ops must be an array of integer or text labels'')"

definition ops :: "cose_key \<Rightarrow> error + label list option" where
  "ops k =
     andThen (get_array k (LInt KeyParameterKeyOps)) (\<lambda>values.
     case values of
       None \<Rightarrow> Inr None
     | Some vs \<Rightarrow> map_ok Some (traverse op_from_value vs))"

definition set_ops :: "label list \<Rightarrow> cose_key \<Rightarrow> cose_key" where
  "set_ops ls k = bt_insert (LInt KeyParameterKeyOps) (VArray (map value_of_label ls)) k"

definition key_base_iv :: "cose_key \<Rightarrow> error + bytes option" where
  "key_base_iv k = get_bytes k (LInt KeyParameterBaseIV)"

section \<open>Requirements\<close>

definition allows_any_operation :: "cose_key \<Rightarrow> int list \<Rightarrow> error + bool" where
  "allows_any_operation k operations =
     (if operations = [] then Inr False
      else
        andThen (ops k) (\<lambda>configured.
        case configured of
          None \<Rightarrow> Inr True
        | Some ls \<Rightarrow>
            Inr (list_ex (\<lambda>l. case l of LInt v \<Rightarrow> v \<in> set operations | LText _ \<Rightarrow> False) ls)))"

definition require_any_operation :: "cose_key \<Rightarrow> int list \<Rightarrow> string \<Rightarrow> error + unit" where
  "require_any_operation k operations operation_name =
     andThen (allows_any_operation k operations) (\<lambda>allowed.
     if allowed then Inr ()
     else Inl (KeyOperation (''COSE_Key key_ops does not permit '' @ operation_name)))"

definition required_integer_alg :: "cose_key \<Rightarrow> string \<Rightarrow> error + int" where
  "required_integer_alg k provider =
     andThen (key_alg k) (\<lambda>a.
     case a of
       Some (LInt i) \<Rightarrow> Inr i
     | Some (LText _) \<Rightarrow> Inl (Custom (''the built-in '' @ provider @
         '' does not support text-string algorithms''))
     | None \<Rightarrow> Inl (Custom ''COSE_Key is missing alg''))"

definition require_integer_kty :: "cose_key \<Rightarrow> int \<Rightarrow> error + unit" where
  "require_integer_kty k expected =
     andThen (kty k) (\<lambda>t.
     case t of
       Some l \<Rightarrow>
         if l = LInt expected then Inr ()
         else Inl (Custom (''COSE_Key kty mismatch, expected '' @ show_label (LInt expected) @
                '', got '' @ show_label l))
     | None \<Rightarrow> Inl (Custom ''COSE_Key is missing kty''))"

definition require_integer_parameter :: "cose_key \<Rightarrow> int \<Rightarrow> int \<Rightarrow> string \<Rightarrow> error + unit" where
  "require_integer_parameter k label expected name =
     andThen (get_label k (LInt label)) (\<lambda>t.
     case t of
       Some l \<Rightarrow>
         if l = LInt expected then Inr ()
         else Inl (Custom (''COSE_Key '' @ name @ '' mismatch, expected '' @
                show_label (LInt expected) @ '', got '' @ show_label l))
     | None \<Rightarrow> Inl (Custom (''COSE_Key is missing '' @ name)))"

definition required_bytes :: "cose_key \<Rightarrow> int \<Rightarrow> string \<Rightarrow> error + bytes" where
  "required_bytes k label name =
     andThen (get_bytes k (LInt label)) (\<lambda>b. ok_or b (Custom (''COSE_Key is missing '' @ name)))"

section \<open>Construction\<close>

definition with_kty_alg :: "int \<Rightarrow> int \<Rightarrow> bytes option \<Rightarrow> cose_key" where
  "with_kty_alg t a k =
     (let key = set_key_alg (LInt a) (set_kty (LInt t) cm_new) in
      case k of None \<Rightarrow> key | Some b \<Rightarrow> set_key_kid b key)"

definition symmetric_key ::
  "int \<Rightarrow> bytes \<Rightarrow> bytes option \<Rightarrow> bytes option \<Rightarrow> label list option \<Rightarrow> cose_key"
where
  "symmetric_key a k key_id iv' key_ops =
     (let key = bt_insert (LInt SymmetricKeyParameterK) (VBytes k) (with_kty_alg KeyTypeSymmetric a key_id);
          key = (case iv' of None \<Rightarrow> key | Some b \<Rightarrow> bt_insert (LInt KeyParameterBaseIV) (VBytes b) key) in
      case key_ops of None \<Rightarrow> key | Some ls \<Rightarrow> set_ops ls key)"

definition ed25519_public :: "int \<Rightarrow> bytes \<Rightarrow> bytes option \<Rightarrow> cose_key" where
  "ed25519_public a x key_id =
     set_ops [LInt KeyOperationVerify]
       (bt_insert (LInt OKPKeyParameterX) (VBytes x)
         (bt_insert (LInt OKPKeyParameterCrv) (VInteger EllipticCurveEd25519)
           (with_kty_alg KeyTypeOKP a key_id)))"

section \<open>Validation, decoding and encoding\<close>

definition key_validate :: "cose_key \<Rightarrow> error + unit" where
  "key_validate k =
     andThen (kty k) (\<lambda>t.
     if t = None then Inl (Custom ''COSE_Key is missing required kty'')
     else andThen (key_alg k) (\<lambda>_. andThen (ops k) (\<lambda>_. andThen (key_kid k) (\<lambda>_.
       andThen (key_base_iv k) (\<lambda>_. Inr ())))))"

definition key_from_slice :: "cbor2 \<Rightarrow> bytes \<Rightarrow> error + cose_key" where
  "key_from_slice cb data =
     andThen (map_from_slice cb data) (\<lambda>k. andThen (key_validate k) (\<lambda>_. Inr k))"

definition key_to_vec :: "cbor2 \<Rightarrow> cose_key \<Rightarrow> error + bytes" where
  "key_to_vec cb k = andThen (key_validate k) (\<lambda>_. map_to_vec cb k)"

definition key_try_from :: "cbor2 \<Rightarrow> value \<Rightarrow> error + cose_key" where
  "key_try_from cb v =
     andThen (cbor_to_canonical_vec cb v) (\<lambda>b.
     andThen (map_from_slice cb b) (\<lambda>k. andThen (key_validate k) (\<lambda>_. Inr k)))"

text \<open>
  \<open>CoseMap::deserialize\<close> and \<open>Key::deserialize\<close> on one encoded item: the crate's own errors
  become messages of the decoder.
\<close>

definition map_deserialize :: "cbor2 \<Rightarrow> bytes \<Rightarrow> string + cose_map" where
  "map_deserialize cb raw =
     andThen (map_err error_display (validate_map cb raw)) (\<lambda>_.
     andThen (lib_from_slice_map cb label_visitor raw) (\<lambda>entries. Inr (bt_from_list entries)))"

definition key_deserialize :: "cbor2 \<Rightarrow> bytes \<Rightarrow> string + cose_key" where
  "key_deserialize cb raw =
     andThen (map_deserialize cb raw) (\<lambda>k.
     andThen (map_err error_display (key_validate k)) (\<lambda>_. Inr k))"

section \<open>Key sets\<close>

definition ks_validate :: "key_set \<Rightarrow> error + unit" where
  "ks_validate ks =
     (if ks = [] then Inl (Custom ''COSE_KeySet must contain at least one key'')
      else for_each key_validate ks)"

text \<open>\<open>filter_map(|member| Key::from_slice(member).ok())\<close>.\<close>

fun keep_ok :: "('e + 'a) list \<Rightarrow> 'a list" where
  "keep_ok [] = []"
| "keep_ok (Inl e # rs) = keep_ok rs"
| "keep_ok (Inr x # rs) = x # keep_ok rs"

definition ks_from_slice :: "cbor2 \<Rightarrow> bytes \<Rightarrow> error + key_set" where
  "ks_from_slice cb data =
     andThen (independently_validated_array_members cb data) (\<lambda>members.
     let ks = keep_ok (map (key_from_slice cb) members) in
     andThen (ks_validate ks) (\<lambda>_. Inr ks))"

definition ks_from_slice_strict :: "cbor2 \<Rightarrow> bytes \<Rightarrow> error + key_set" where
  "ks_from_slice_strict cb data =
     andThen (validate_array cb data) (\<lambda>_.
     andThen (map_err Cbor (andThen (lib_from_slice_array cb data) (traverse (key_deserialize cb)))) (\<lambda>ks.
     andThen (ks_validate ks) (\<lambda>_. Inr ks)))"

text \<open>Every key serializes as a map, after validating itself again.\<close>

definition map_value :: "cose_map \<Rightarrow> value" where
  "map_value m = VMap (map (\<lambda>(l, v). (value_of_label l, v)) m)"

definition ks_to_vec :: "cbor2 \<Rightarrow> key_set \<Rightarrow> error + bytes" where
  "ks_to_vec cb ks =
     andThen (ks_validate ks) (\<lambda>_.
     andThen (map_err (\<lambda>e. Cbor (error_display e)) (ks_validate ks)) (\<lambda>_.
     andThen (map_err (\<lambda>e. Cbor (error_display e)) (for_each key_validate ks)) (\<lambda>_.
     cbor_to_canonical_vec cb (VArray (map map_value ks)))))"

definition ks_lookup :: "key_set \<Rightarrow> bytes \<Rightarrow> key_set" where
  "ks_lookup ks key_id =
     filter (\<lambda>k. case key_kid k of Inr (Some b) \<Rightarrow> b = key_id | _ \<Rightarrow> False) ks"

section \<open>Validity, declaratively\<close>

fun is_op_array :: "value \<Rightarrow> bool" where
  "is_op_array (VArray vs) \<longleftrightarrow> list_all is_label_value vs"
| "is_op_array _ \<longleftrightarrow> False"

definition key_ok :: "cose_key \<Rightarrow> bool" where
  "key_ok k \<longleftrightarrow> contains_key k (LInt KeyParameterKty) \<and>
     param_is is_label_value k KeyParameterKty \<and> param_is is_label_value k KeyParameterAlg \<and>
     param_is is_op_array k KeyParameterKeyOps \<and> param_is is_bytes_value k KeyParameterKid \<and>
     param_is is_bytes_value k KeyParameterBaseIV"

lemma op_from_value_ok: "op_from_value v = Inr l \<longleftrightarrow> v = value_of_label l \<and> wf_label l"
  by (cases v rule: op_from_value.cases; cases l) (auto simp: result_simps)

lemma is_label_value_iff: "is_label_value v \<longleftrightarrow> (\<exists>l. v = value_of_label l \<and> wf_label l)"
proof
  assume "is_label_value v"
  then show "\<exists>l. v = value_of_label l \<and> wf_label l"
    by (cases v rule: is_label_value.cases) (auto intro: exI [of _ "LInt _"] exI [of _ "LText _"])
next
  assume "\<exists>l. v = value_of_label l \<and> wf_label l"
  then obtain l where "v = value_of_label l" "wf_label l" by blast
  then show "is_label_value v" by (cases l) auto
qed

lemma ops_values: "traverse op_from_value vs = Inr ls \<longleftrightarrow>
    vs = map value_of_label ls \<and> (\<forall>l \<in> set ls. wf_label l)"
proof (induction vs arbitrary: ls)
  case (Cons v vs)
  then show ?case by (cases ls) (auto simp: result_simps op_from_value_ok)
qed auto

lemma ops_values_ok: "(\<exists>ls. traverse op_from_value vs = Inr ls) \<longleftrightarrow> list_all is_label_value vs"
  by (induction vs) (auto simp: result_simps op_from_value_ok is_label_value_iff)

lemma ops_Some: "ops k = Inr (Some ls) \<longleftrightarrow>
    bt_get k (LInt KeyParameterKeyOps) = Some (VArray (map value_of_label ls)) \<and>
    (\<forall>l \<in> set ls. wf_label l)"
  by (auto simp: ops_def get_array_def result_simps ops_values split: option.splits "value.splits")

lemma ops_None: "ops k = Inr None \<longleftrightarrow> bt_get k (LInt KeyParameterKeyOps) = None"
  by (auto simp: ops_def get_array_def result_simps split: option.splits "value.splits")

lemma ops_ok: "(\<exists>r. ops k = Inr r) \<longleftrightarrow> param_is is_op_array k KeyParameterKeyOps"
proof -
  have "(\<exists>r. ops k = Inr r) \<longleftrightarrow> ops k = Inr None \<or> (\<exists>ls. ops k = Inr (Some ls))"
    by (metis option.exhaust)
  then show ?thesis
    by (cases "bt_get k (LInt 4)"; cases "the (bt_get k (LInt 4))")
      (auto simp: ops_Some ops_None param_is_def ops_values_ok [symmetric] ops_values)
qed

lemma key_validate_ok [guards]: "key_validate k = Inr u \<longleftrightarrow> key_ok k"
proof -
  have kty: "(\<exists>t. kty k = Inr t \<and> t \<noteq> None) \<longleftrightarrow>
      contains_key k (LInt 1) \<and> param_is is_label_value k 1"
    by (auto simp: kty_def get_label_def contains_key_get param_is_def result_simps
        split: option.splits "value.splits")
  have "key_validate k = Inr u \<longleftrightarrow> (\<exists>t. kty k = Inr t \<and> t \<noteq> None) \<and>
      (\<exists>a. get_label k (LInt 3) = Inr a) \<and> (\<exists>r. ops k = Inr r) \<and>
      (\<exists>b. get_bytes k (LInt 2) = Inr b) \<and> (\<exists>b. get_bytes k (LInt 5) = Inr b)"
    by (simp only: key_validate_def key_alg_def key_kid_def key_base_iv_def andThen_eq_Inr
        early_return_eq) auto
  then show ?thesis
    unfolding kty key_ok_def get_label_is_label get_bytes_is_bytes ops_ok by blast
qed

lemma key_from_slice_ok: "key_from_slice cb d = Inr k \<longleftrightarrow> map_from_slice cb d = Inr k \<and> key_ok k"
  by (auto simp: key_from_slice_def andThen_eq_Inr key_validate_ok)

lemma keep_ok_set: "x \<in> set (keep_ok rs) \<longleftrightarrow> Inr x \<in> set rs"
  by (induction rs rule: keep_ok.induct) auto

lemma keep_ok_append: "keep_ok (rs @ qs) = keep_ok rs @ keep_ok qs"
  by (induction rs rule: keep_ok.induct) auto

lemma ks_validate_ok [guards]: "ks_validate ks = Inr u \<longleftrightarrow> ks \<noteq> [] \<and> (\<forall>k \<in> set ks. key_ok k)"
  by (simp add: ks_validate_def for_each_ok key_validate_ok)

lemma key_kid_ok: "key_kid k = Inr (Some b) \<longleftrightarrow> bt_get k (LInt KeyParameterKid) = Some (VBytes b)"
  by (simp add: key_kid_def get_bytes_ok)

end
