(* ===== verification/Recipient.thy ===== *)
theory Recipient
  imports Key Util
begin

text \<open>
  \<open>src/src/recipient.rs\<close>: \<open>COSE_recipient\<close>, a tree of recipient layers. The nested \<open>struct\<close> is
  a datatype with its fields as selectors; the \<open>serde\<close> visitor works on the items of the
  wire form that the library hands to it.
\<close>

datatype recipient_algorithm_class =
    Direct
  | DirectKeyDerivation
  | KeyWrap
  | KeyTransport
  | DirectKeyAgreement
  | KeyAgreementWithKeyWrap

datatype recipient =
  Recipient (rc_protected: header) (rc_unprotected: header) (rc_ciphertext: "bytes option")
    (rc_recipients: "recipient list") (rc_protected_raw: "bytes option")

definition rc_new :: recipient where
  "rc_new = Recipient [] [] None [] None"

definition MAX_RECIPIENT_DEPTH :: nat where
  "MAX_RECIPIENT_DEPTH = 128"

section \<open>Algorithm classes\<close>

definition classify_recipient_algorithm :: "label \<Rightarrow> recipient_algorithm_class option" where
  "classify_recipient_algorithm l =
     (case l of
        LText _ \<Rightarrow> None
      | LInt a \<Rightarrow>
          if a = AlgorithmDirect then Some Direct
          else if a \<in> {AlgorithmDirect_HKDF_SHA_256, AlgorithmDirect_HKDF_SHA_512,
              AlgorithmDirect_HKDF_AES_128, AlgorithmDirect_HKDF_AES_256}
          then Some DirectKeyDerivation
          else if a \<in> {AlgorithmA128KW, AlgorithmA192KW, AlgorithmA256KW} then Some KeyWrap
          else if a \<in> {AlgorithmRSAES_OAEP_RFC_8017_default, AlgorithmRSAES_OAEP_SHA_256,
              AlgorithmRSAES_OAEP_SHA_512}
          then Some KeyTransport
          else if a \<in> {AlgorithmECDH_ES_HKDF_256, AlgorithmECDH_ES_HKDF_512,
              AlgorithmECDH_SS_HKDF_256, AlgorithmECDH_SS_HKDF_512}
          then Some DirectKeyAgreement
          else if a \<in> {AlgorithmECDH_ES_A128KW, AlgorithmECDH_ES_A192KW, AlgorithmECDH_ES_A256KW,
              AlgorithmECDH_SS_A128KW, AlgorithmECDH_SS_A192KW, AlgorithmECDH_SS_A256KW}
          then Some KeyAgreementWithKeyWrap
          else None)"

definition rc_alg :: "recipient \<Rightarrow> error + label option" where
  "rc_alg self =
     andThen (alg (rc_protected self)) (\<lambda>a.
     case a of Some l \<Rightarrow> Inr (Some l) | None \<Rightarrow> alg (rc_unprotected self))"

definition algorithm_class :: "recipient \<Rightarrow> error + recipient_algorithm_class option" where
  "algorithm_class self =
     andThen (rc_alg self) (\<lambda>a. Inr (Option.bind a classify_recipient_algorithm))"

definition header_value :: "recipient \<Rightarrow> int \<Rightarrow> value option" where
  "header_value self label =
     (case bt_get (rc_protected self) (LInt label) of
        Some v \<Rightarrow> Some v
      | None \<Rightarrow> bt_get (rc_unprotected self) (LInt label))"

definition has_zero_length_protected_field :: "recipient \<Rightarrow> bool" where
  "has_zero_length_protected_field self \<longleftrightarrow> rc_protected self = []"

section \<open>Key agreement parameters\<close>

definition require_salt_or_party_u_nonce :: "recipient \<Rightarrow> string \<Rightarrow> error + unit" where
  "require_salt_or_party_u_nonce self algorithm =
     (let salt = header_value self HeaderAlgorithmParameterSalt;
          nonce = header_value self HeaderAlgorithmParameterPartyUNonce in
      if (case salt of None \<Rightarrow> False | Some (VBytes _) \<Rightarrow> False | Some _ \<Rightarrow> True)
      then Inl (UnexpectedType ''recipient salt must be a byte string'')
      else if (case nonce of None \<Rightarrow> False | Some (VBytes _) \<Rightarrow> False | Some (VInteger _) \<Rightarrow> False
          | Some _ \<Rightarrow> True)
      then Inl (UnexpectedType ''recipient PartyU nonce must be a byte string or integer'')
      else
        let has_unique_input =
              (case salt of Some (VBytes b) \<Rightarrow> b \<noteq> [] | _ \<Rightarrow> False) \<or>
              (case nonce of Some (VBytes b) \<Rightarrow> b \<noteq> [] | Some (VInteger _) \<Rightarrow> True | _ \<Rightarrow> False) in
        if has_unique_input then Inr ()
        else Inl (Custom (algorithm @ '' requires a non-empty salt or PartyU nonce'')))"

definition ecdh_curve :: "cose_key \<Rightarrow> int \<Rightarrow> error + int" where
  "ecdh_curve key label =
     andThen (get_label key (LInt label)) (\<lambda>l.
     case l of
       Some (LInt curve) \<Rightarrow> Inr curve
     | Some (LText _) \<Rightarrow> Inl (UnexpectedType ''ECDH sender key curve must be a registered integer'')
     | None \<Rightarrow> Inl (Custom ''ECDH sender key is missing curve''))"

definition ecdh_key_type :: "cose_key \<Rightarrow> error + int" where
  "ecdh_key_type key =
     andThen (kty key) (\<lambda>t.
     case t of
       Some (LInt key_type) \<Rightarrow> Inr key_type
     | Some other \<Rightarrow> Inl (Custom (''ECDH sender key must use EC2 or OKP, got '' @ show_label other))
     | None \<Rightarrow> Inl (Custom ''ECDH sender key is missing kty''))"

definition ecdh_parameters :: "cose_key \<Rightarrow> int \<Rightarrow> error + (int \<times> int \<times> int)" where
  "ecdh_parameters key key_type =
     (if key_type = KeyTypeEC2
      then map_ok (\<lambda>c. (c, EC2KeyParameterX, EC2KeyParameterD)) (ecdh_curve key EC2KeyParameterCrv)
      else if key_type = KeyTypeOKP
      then map_ok (\<lambda>c. (c, OKPKeyParameterX, OKPKeyParameterD)) (ecdh_curve key OKPKeyParameterCrv)
      else Inl (Custom (''ECDH sender key must use EC2 or OKP, got '' @ show_label (LInt key_type))))"

definition ecdh_expected_length :: "int \<Rightarrow> int \<Rightarrow> error + nat" where
  "ecdh_expected_length key_type curve =
     (if key_type = KeyTypeEC2 \<and> curve = EllipticCurveP_256 then Inr 32
      else if key_type = KeyTypeEC2 \<and> curve = EllipticCurveP_384 then Inr 48
      else if key_type = KeyTypeEC2 \<and> curve = EllipticCurveP_521 then Inr 66
      else if key_type = KeyTypeOKP \<and> curve = EllipticCurveX25519 then Inr 32
      else if key_type = KeyTypeOKP \<and> curve = EllipticCurveX448 then Inr 56
      else Inl (Custom ''ECDH sender key has a curve incompatible with its key type''))"

definition ecdh_y_check :: "cose_key \<Rightarrow> nat \<Rightarrow> error + unit" where
  "ecdh_y_check key expected_length =
     (case bt_get key (LInt EC2KeyParameterY) of
        Some v \<Rightarrow>
          if (case v of VBytes y \<Rightarrow> length y = expected_length | VBool _ \<Rightarrow> True | _ \<Rightarrow> False)
          then Inr ()
          else Inl (UnexpectedType (''ECDH EC2 public key y must be '' @ show_nat expected_length @
                 '' bytes or a sign bit''))
      | None \<Rightarrow> Inl (Custom ''ECDH EC2 sender public key is missing y''))"

definition validate_ecdh_public_key :: "cose_key \<Rightarrow> int \<Rightarrow> error + unit" where
  "validate_ecdh_public_key key algorithm =
     andThen (andThen (key_alg key) (\<lambda>a.
       case a of
         Some l \<Rightarrow> if l \<noteq> LInt algorithm then Inl (alg_mismatch l (LInt algorithm)) else Inr ()
       | None \<Rightarrow> Inr ())) (\<lambda>_.
     andThen (ops key) (\<lambda>operations.
     if (case operations of None \<Rightarrow> False | Some ls \<Rightarrow> ls \<noteq> [])
     then Inl (KeyOperation ''an ECDH sender public key must have absent or empty key_ops'')
     else
       andThen (ecdh_key_type key) (\<lambda>key_type.
       andThen (ecdh_parameters key key_type) (\<lambda>(curve, x_label, private_label).
       if contains_key key (LInt private_label)
       then Inl (Custom ''ECDH sender key header parameter must not contain private key material'')
       else
         andThen (ecdh_expected_length key_type curve) (\<lambda>expected_length.
         andThen (andThen (get_bytes key (LInt x_label)) (\<lambda>x.
           ok_or x (Custom ''ECDH sender public key is missing x''))) (\<lambda>x.
         if length x \<noteq> expected_length
         then Inl (Custom (''ECDH sender public key x must be '' @ show_nat expected_length @ '' bytes''))
         else if key_type = KeyTypeEC2 then ecdh_y_check key expected_length
         else Inr ()))))))"

definition require_sender_key :: "cbor2 \<Rightarrow> recipient \<Rightarrow> bool \<Rightarrow> int \<Rightarrow> error + unit" where
  "require_sender_key cb self ephemeral algorithm =
     (if ephemeral
      then
        andThen (ok_or (header_value self HeaderAlgorithmParameterEphemeralKey)
          (Custom ''ECDH-ES recipient is missing ephemeral key'')) (\<lambda>v.
        andThen (key_try_from cb v) (\<lambda>key. validate_ecdh_public_key key algorithm))
      else
        let static_key = header_value self HeaderAlgorithmParameterStaticKey;
            static_id = header_value self HeaderAlgorithmParameterStaticKeyId in
        if static_key = None \<and> static_id = None
        then Inl (Custom ''ECDH-SS recipient is missing static key or static key id'')
        else
          andThen (case static_key of
              None \<Rightarrow> Inr ()
            | Some v \<Rightarrow> andThen (key_try_from cb v) (\<lambda>key. validate_ecdh_public_key key algorithm)) (\<lambda>_.
          if (case static_id of None \<Rightarrow> False | Some (VBytes _) \<Rightarrow> False | Some _ \<Rightarrow> True)
          then Inl (UnexpectedType ''recipient static key id must be a byte string'')
          else require_salt_or_party_u_nonce self ''ECDH-SS recipient''))"

section \<open>Validation\<close>

text \<open>\<open>unreachable!()\<close>: the panic message, unreachable because only integers have a class (\<open>classify_integer\<close>).\<close>

definition unreachable :: error where
  "unreachable = Custom ''internal error: entered unreachable code''"

definition lacks_ciphertext :: "recipient \<Rightarrow> bool" where
  "lacks_ciphertext self \<longleftrightarrow> (case rc_ciphertext self of None \<Rightarrow> True | Some c \<Rightarrow> c = [])"

text \<open>The \<open>match\<close> of \<open>validate_local\<close>.\<close>

definition class_rules :: "cbor2 \<Rightarrow> recipient \<Rightarrow> label \<Rightarrow> error + unit" where
  "class_rules cb self a =
     (case classify_recipient_algorithm a of
        Some Direct \<Rightarrow>
          if \<not> has_zero_length_protected_field self
          then Inl (Custom ''direct COSE_recipient requires a zero-length protected field'')
          else if rc_ciphertext self \<noteq> Some []
          then Inl (Custom ''direct COSE_recipient requires zero-length ciphertext'')
          else if rc_recipients self \<noteq> []
          then Inl (Custom ''direct COSE_recipient must not contain nested recipients'')
          else Inr ()
      | Some DirectKeyDerivation \<Rightarrow>
          if rc_ciphertext self \<noteq> Some []
          then Inl (Custom ''direct KDF COSE_recipient requires zero-length ciphertext'')
          else if rc_recipients self \<noteq> []
          then Inl (Custom ''direct KDF COSE_recipient must not contain nested recipients'')
          else require_salt_or_party_u_nonce self ''direct KDF recipient''
      | Some KeyWrap \<Rightarrow>
          if \<not> has_zero_length_protected_field self
          then Inl (Custom ''key-wrap COSE_recipient requires empty protected headers'')
          else andThen (alg (rc_unprotected self)) (\<lambda>u.
            if u = None
            then Inl (Custom ''key-wrap COSE_recipient requires alg in unprotected headers'')
            else if lacks_ciphertext self
            then Inl (Custom ''key-wrap COSE_recipient requires encrypted key ciphertext'')
            else Inr ())
      | Some KeyTransport \<Rightarrow>
          if \<not> has_zero_length_protected_field self
          then Inl (Custom ''key-transport COSE_recipient requires empty protected headers'')
          else andThen (alg (rc_unprotected self)) (\<lambda>u.
            if u = None
            then Inl (Custom ''key-transport COSE_recipient requires alg in unprotected headers'')
            else if lacks_ciphertext self
            then Inl (Custom ''key-transport COSE_recipient requires encrypted key ciphertext'')
            else if rc_recipients self \<noteq> []
            then Inl (Custom ''key-transport COSE_recipient must not contain nested recipients'')
            else Inr ())
      | Some DirectKeyAgreement \<Rightarrow>
          if rc_ciphertext self \<noteq> Some []
          then Inl (Custom ''direct key-agreement COSE_recipient requires zero-length ciphertext'')
          else if rc_recipients self \<noteq> []
          then Inl (Custom ''direct key-agreement COSE_recipient must not contain nested recipients'')
          else (case a of
              LText _ \<Rightarrow> Inl unreachable
            | LInt i \<Rightarrow> require_sender_key cb self
                (i \<in> {AlgorithmECDH_ES_HKDF_256, AlgorithmECDH_ES_HKDF_512}) i)
      | Some KeyAgreementWithKeyWrap \<Rightarrow>
          if lacks_ciphertext self
          then Inl (Custom
            ''key-agreement-with-key-wrap COSE_recipient requires encrypted key ciphertext'')
          else (case a of
              LText _ \<Rightarrow> Inl unreachable
            | LInt i \<Rightarrow> require_sender_key cb self
                (i \<in> {AlgorithmECDH_ES_A128KW, AlgorithmECDH_ES_A192KW, AlgorithmECDH_ES_A256KW}) i)
      | None \<Rightarrow> Inr ())"

definition sole_class_error :: "recipient_algorithm_class \<Rightarrow> error option" where
  "sole_class_error c =
     (case c of
        Direct \<Rightarrow> Some (Custom ''direct COSE_recipient must be the only recipient in its layer'')
      | DirectKeyDerivation \<Rightarrow>
          Some (Custom ''direct KDF COSE_recipient must be the only recipient in its layer'')
      | DirectKeyAgreement \<Rightarrow>
          Some (Custom ''direct key-agreement COSE_recipient must be the only recipient in its layer'')
      | _ \<Rightarrow> None)"

definition validate_recipient_layer_rules :: "recipient list \<Rightarrow> error + unit" where
  "validate_recipient_layer_rules recipients =
     (if length recipients \<le> 1 then Inr ()
      else for_each (\<lambda>r.
        andThen (algorithm_class r) (\<lambda>c.
        case Option.bind c sole_class_error of Some e \<Rightarrow> Inl e | None \<Rightarrow> Inr ())) recipients)"

definition validate_local :: "cbor2 \<Rightarrow> recipient \<Rightarrow> error + unit" where
  "validate_local cb self =
     andThen (validate_header_buckets (rc_protected self) (rc_unprotected self)) (\<lambda>_.
     andThen (case rc_protected_raw self of
         Some raw \<Rightarrow> validate_protected_state cb (rc_protected self) raw
       | None \<Rightarrow> Inr ()) (\<lambda>_.
     andThen (andThen (rc_alg self) (\<lambda>a. ok_or a (Custom ''COSE_recipient is missing alg''))) (\<lambda>a.
     andThen (class_rules cb self a) (\<lambda>_.
     validate_recipient_layer_rules (rc_recipients self)))))"

fun validate_at_depth :: "cbor2 \<Rightarrow> recipient \<Rightarrow> nat \<Rightarrow> error + unit" where
  "validate_at_depth cb (Recipient p u c rs raw) depth =
     (if MAX_RECIPIENT_DEPTH < depth
      then Inl (LimitExceeded ''COSE recipient nesting'' MAX_RECIPIENT_DEPTH)
      else
        andThen (validate_local cb (Recipient p u c rs raw)) (\<lambda>_.
        for_each (\<lambda>r. validate_at_depth cb r (depth + 1)) rs))"

definition rc_validate :: "cbor2 \<Rightarrow> recipient \<Rightarrow> error + unit" where
  "rc_validate cb self = validate_at_depth cb self 0"

definition require_recipients :: "recipient list \<Rightarrow> string \<Rightarrow> error + unit" where
  "require_recipients recipients message =
     (if recipients = [] then Inl (Custom (message @ '' has no recipients'')) else Inr ())"

definition validate_message_recipients :: "cbor2 \<Rightarrow> recipient list \<Rightarrow> string \<Rightarrow> error + unit" where
  "validate_message_recipients cb recipients message =
     andThen (require_recipients recipients message) (\<lambda>_.
     andThen (for_each (\<lambda>r. validate_at_depth cb r 0) recipients) (\<lambda>_.
     validate_recipient_layer_rules recipients))"

definition validate_decoded_recipients :: "recipient list \<Rightarrow> string \<Rightarrow> error + unit" where
  "validate_decoded_recipients recipients message =
     andThen (require_recipients recipients message) (\<lambda>_.
     validate_recipient_layer_rules recipients)"

section \<open>Serialization\<close>

text \<open>\<open>Serialize for Header\<close>: the bucket checks itself first.\<close>

definition header_value_of :: "header \<Rightarrow> error + value" where
  "header_value_of h = andThen (validate_common h) (\<lambda>_. Inr (map_value h))"

definition optional_bytes_value :: "bytes option \<Rightarrow> value" where
  "optional_bytes_value b = (case b of None \<Rightarrow> VNull | Some c \<Rightarrow> VBytes c)"

fun serialize_recipient :: "cbor2 \<Rightarrow> recipient \<Rightarrow> error + value" where
  "serialize_recipient cb (Recipient p u c rs raw) =
     andThen (validate_local cb (Recipient p u c rs raw)) (\<lambda>_.
     andThen (case raw of
         Some b \<Rightarrow> andThen (validate_protected_state cb p b) (\<lambda>_. Inr b)
       | None \<Rightarrow> encode_protected cb p) (\<lambda>protected_raw.
     andThen (header_value_of u) (\<lambda>unprotected.
     andThen (traverse (serialize_recipient cb) rs) (\<lambda>nested.
     Inr (VArray ([VBytes protected_raw, unprotected, optional_bytes_value c] @
       (if rs = [] then [] else [VArray nested])))))))"

definition rc_to_vec :: "cbor2 \<Rightarrow> recipient \<Rightarrow> error + bytes" where
  "rc_to_vec cb self =
     andThen (rc_validate cb self) (\<lambda>_.
     andThen (map_err (\<lambda>e. Cbor (error_display e)) (serialize_recipient cb self)) (\<lambda>v.
     cbor_to_canonical_vec cb v))"

text \<open>\<open>canonical_raw(&self.recipients)\<close>.\<close>

definition canonical_recipients :: "cbor2 \<Rightarrow> recipient list \<Rightarrow> error + bytes" where
  "canonical_recipients cb recipients =
     andThen (map_err (\<lambda>e. Cbor (error_display e)) (traverse (serialize_recipient cb) recipients)) (\<lambda>vs.
     andThen (cbor_to_canonical_vec cb (VArray vs)) (\<lambda>b.
     map_err Cbor (lib_raw_value cb b)))"

section \<open>Deserialization\<close>

definition header_deserialize :: "cbor2 \<Rightarrow> bytes \<Rightarrow> string + header" where
  "header_deserialize cb raw =
     andThen (map_deserialize cb raw) (\<lambda>h.
     andThen (map_err error_display (validate_common h)) (\<lambda>_. Inr h))"

fun recipient_visitor :: "cbor2 \<Rightarrow> wire_recipient \<Rightarrow> string + recipient" where
  "recipient_visitor cb (WireRecipient p u c rs) =
     andThen (map_err error_display (decode_bytes cb p)) (\<lambda>protected_raw.
     andThen (header_deserialize cb u) (\<lambda>unprotected.
     andThen (map_err error_display (decode_optional_bytes cb c)) (\<lambda>ciphertext.
     andThen (case rs of
         None \<Rightarrow> Inr []
       | Some ws \<Rightarrow> andThen (traverse (recipient_visitor cb) ws) (\<lambda>nested.
           if nested = [] then Inl ''nested recipients array must not be empty when present''
           else Inr nested)) (\<lambda>nested.
     andThen (map_err error_display (decode_protected cb protected_raw)) (\<lambda>protected.
     andThen (map_err error_display (validate_header_buckets protected unprotected)) (\<lambda>_.
     let self = Recipient protected unprotected ciphertext nested (Some protected_raw) in
     andThen (map_err error_display (validate_local cb self)) (\<lambda>_. Inr self)))))))"

definition rc_from_slice :: "cbor2 \<Rightarrow> bytes \<Rightarrow> error + recipient" where
  "rc_from_slice cb data =
     andThen (validate_array cb data) (\<lambda>_.
     andThen (map_err Cbor (andThen (lib_from_slice_recipient cb data) (recipient_visitor cb))) (\<lambda>r.
     andThen (rc_validate cb r) (\<lambda>_. Inr r)))"

end
