(* ===== verification/RecipientProps.thy ===== *)
theory RecipientProps
  imports Recipient ReferenceCbor
begin

text \<open>
  \<open>COSE_recipient\<close>: the acceptance of a recipient tree as a predicate, and what the decoder
  guarantees, so that the message types need not validate decoded recipients again.
\<close>

section \<open>The rules, declaratively\<close>

text \<open>Key type, curve and coordinate length of the public keys that ECDH may use.\<close>

definition ecdh_curves :: "(int \<times> int \<times> nat) set" where
  "ecdh_curves = {(KeyTypeEC2, EllipticCurveP_256, 32), (KeyTypeEC2, EllipticCurveP_384, 48),
     (KeyTypeEC2, EllipticCurveP_521, 66), (KeyTypeOKP, EllipticCurveX25519, 32),
     (KeyTypeOKP, EllipticCurveX448, 56)}"

definition ec2_y_ok :: "nat \<Rightarrow> value option \<Rightarrow> bool" where
  "ec2_y_ok n y \<longleftrightarrow> (\<exists>b. y = Some (VBool b)) \<or> (\<exists>b. y = Some (VBytes b) \<and> length b = n)"

definition ecdh_public_key_ok :: "cose_key \<Rightarrow> int \<Rightarrow> bool" where
  "ecdh_public_key_ok key algorithm \<longleftrightarrow>
     key_alg key \<in> {Inr None, Inr (Some (LInt algorithm))} \<and>
     ops key \<in> {Inr None, Inr (Some [])} \<and>
     (\<exists>(key_type, curve, n) \<in> ecdh_curves.
        bt_get key (LInt KeyParameterKty) = Some (VInteger key_type) \<and>
        bt_get key (LInt (- 1)) = Some (VInteger curve) \<and>
        (\<exists>x. bt_get key (LInt (- 2)) = Some (VBytes x) \<and> length x = n) \<and>
        (key_type = KeyTypeEC2 \<longrightarrow> ec2_y_ok n (bt_get key (LInt EC2KeyParameterY))) \<and>
        \<not> contains_key key (LInt (- 4)))"

definition unique_input_ok :: "recipient \<Rightarrow> bool" where
  "unique_input_ok r \<longleftrightarrow>
     (let salt = header_value r HeaderAlgorithmParameterSalt;
          nonce = header_value r HeaderAlgorithmParameterPartyUNonce in
      (salt = None \<or> (\<exists>s. salt = Some (VBytes s))) \<and>
      (nonce = None \<or> (\<exists>n. nonce = Some (VBytes n)) \<or> (\<exists>i. nonce = Some (VInteger i))) \<and>
      ((\<exists>s. salt = Some (VBytes s) \<and> s \<noteq> []) \<or> (\<exists>n. nonce = Some (VBytes n) \<and> n \<noteq> []) \<or>
       (\<exists>i. nonce = Some (VInteger i))))"

definition sender_key_value_ok :: "cbor2 \<Rightarrow> int \<Rightarrow> value \<Rightarrow> bool" where
  "sender_key_value_ok cb algorithm v \<longleftrightarrow>
     (\<exists>key. key_try_from cb v = Inr key \<and> ecdh_public_key_ok key algorithm)"

definition sender_key_ok :: "cbor2 \<Rightarrow> recipient \<Rightarrow> bool \<Rightarrow> int \<Rightarrow> bool" where
  "sender_key_ok cb r ephemeral algorithm \<longleftrightarrow>
     (if ephemeral
      then (\<exists>v. header_value r HeaderAlgorithmParameterEphemeralKey = Some v \<and>
        sender_key_value_ok cb algorithm v)
      else
        (let static_key = header_value r HeaderAlgorithmParameterStaticKey;
             static_id = header_value r HeaderAlgorithmParameterStaticKeyId in
         (static_key \<noteq> None \<or> static_id \<noteq> None) \<and>
         (\<forall>v. static_key = Some v \<longrightarrow> sender_key_value_ok cb algorithm v) \<and>
         (static_id = None \<or> (\<exists>b. static_id = Some (VBytes b))) \<and> unique_input_ok r))"

lemma ecdh_key_type_ok:
  "ecdh_key_type key = Inr t \<longleftrightarrow> bt_get key (LInt 1) = Some (VInteger t) \<and> in_i64 t"
proof -
  have "ecdh_key_type key = Inr t \<longleftrightarrow> kty key = Inr (Some (LInt t))"
    by (cases "kty key") (auto simp: ecdh_key_type_def split: option.splits label.splits)
  then show ?thesis by (simp add: kty_def get_label_ok)
qed

lemma ecdh_curve_ok:
  "ecdh_curve key l = Inr c \<longleftrightarrow> bt_get key (LInt l) = Some (VInteger c) \<and> in_i64 c"
proof -
  have "ecdh_curve key l = Inr c \<longleftrightarrow> get_label key (LInt l) = Inr (Some (LInt c))"
    by (cases "get_label key (LInt l)") (auto simp: ecdh_curve_def split: option.splits label.splits)
  then show ?thesis by (simp add: get_label_ok)
qed

lemma ecdh_y_check_ok: "ecdh_y_check key n = Inr u \<longleftrightarrow> ec2_y_ok n (bt_get key (LInt (- 3)))"
  by (auto simp: ecdh_y_check_def ec2_y_ok_def split: option.splits "value.splits")

lemma ecdh_parameters_ok:
  "ecdh_parameters key t = Inr (c, x_label, d_label) \<longleftrightarrow> t \<in> {1, 2} \<and>
    bt_get key (LInt (- 1)) = Some (VInteger c) \<and> in_i64 c \<and> x_label = - 2 \<and> d_label = - 4"
  by (auto simp: ecdh_parameters_def result_simps ecdh_curve_ok)

lemma ecdh_expected_length_ok:
  "ecdh_expected_length t c = Inr n \<longleftrightarrow> (t, c, n) \<in> ecdh_curves"
  by (auto simp: ecdh_expected_length_def ecdh_curves_def)

lemma ecdh_curves_types: "(t, c, n) \<in> ecdh_curves \<Longrightarrow> t \<in> {1, 2} \<and> in_i64 t \<and> in_i64 c"
  by (auto simp: ecdh_curves_def in_i64_def)

lemma declared_alg_ok:
  "andThen (key_alg key) (\<lambda>a. case a of
      Some l \<Rightarrow> if l \<noteq> LInt algorithm then Inl (alg_mismatch l (LInt algorithm)) else Inr ()
    | None \<Rightarrow> Inr ()) = Inr () \<longleftrightarrow> key_alg key \<in> {Inr None, Inr (Some (LInt algorithm))}"
  by (cases "key_alg key") (auto split: option.splits)

lemma validate_ecdh_public_key_ok [guards]:
  "validate_ecdh_public_key key algorithm = Inr () \<longleftrightarrow> ecdh_public_key_ok key algorithm"
proof -
  have ops: "(\<exists>r. ops key = Inr r \<and> \<not> (case r of None \<Rightarrow> False | Some ls \<Rightarrow> ls \<noteq> [])) \<longleftrightarrow>
      ops key \<in> {Inr None, Inr (Some [])}"
    by (auto split: option.splits)
  have x: "andThen (get_bytes key (LInt l)) (\<lambda>x. ok_or x e) = Inr b \<longleftrightarrow>
      bt_get key (LInt l) = Some (VBytes b)" for l e b
    by (auto simp: andThen_eq_Inr ok_or_eq get_bytes_ok)
  have unless: "(if t = 2 then m else Inr ()) = Inr () \<longleftrightarrow> (t = 2 \<longrightarrow> m = Inr ())" for t :: int and m :: "error + unit"
    by simp
  have "validate_ecdh_public_key key algorithm = Inr () \<longleftrightarrow>
      key_alg key \<in> {Inr None, Inr (Some (LInt algorithm))} \<and> ops key \<in> {Inr None, Inr (Some [])} \<and>
      (\<exists>t. ecdh_key_type key = Inr t \<and> (\<exists>c xl dl. ecdh_parameters key t = Inr (c, xl, dl) \<and>
        \<not> contains_key key (LInt dl) \<and> (\<exists>n. ecdh_expected_length t c = Inr n \<and>
          (\<exists>x. bt_get key (LInt xl) = Some (VBytes x) \<and> length x = n \<and>
            (t = 2 \<longrightarrow> ecdh_y_check key n = Inr ())))))"
    unfolding validate_ecdh_public_key_def andThen_eq_Inr [of "andThen (key_alg key) _"]
      declared_alg_ok andThen_eq_Inr [of "ops key"] early_return_eq ops [symmetric]
    by (simp add: andThen_eq_Inr [of "ecdh_key_type key"] andThen_eq_Inr [of "ecdh_parameters key _"]
        andThen_eq_Inr [of "ecdh_expected_length _ _"]
        andThen_eq_Inr [of "andThen (get_bytes _ _) _"] x unless declared_alg_ok) blast
  also have "\<dots> \<longleftrightarrow> ecdh_public_key_ok key algorithm"
    unfolding ecdh_public_key_ok_def ecdh_key_type_ok ecdh_parameters_ok ecdh_expected_length_ok
      ecdh_y_check_ok
    by (blast dest: ecdh_curves_types)
  finally show ?thesis .
qed

lemma unique_input_iff [guards]:
  "require_salt_or_party_u_nonce r name = Inr () \<longleftrightarrow> unique_input_ok r"
  by (auto simp: require_salt_or_party_u_nonce_def unique_input_ok_def Let_def
      split: option.splits "value.splits")

lemma require_sender_key_ok [guards]:
  "require_sender_key cb r ephemeral algorithm = Inr () \<longleftrightarrow> sender_key_ok cb r ephemeral algorithm"
proof -
  have key: "andThen (key_try_from cb v) (\<lambda>key. validate_ecdh_public_key key algorithm) = Inr () \<longleftrightarrow>
      sender_key_value_ok cb algorithm v" for v
    by (simp add: andThen_eq_Inr sender_key_value_ok_def validate_ecdh_public_key_ok)
  have static: "(case sk of None \<Rightarrow> Inr ()
        | Some v \<Rightarrow> andThen (key_try_from cb v) (\<lambda>key. validate_ecdh_public_key key algorithm)) = Inr () \<longleftrightarrow>
      (\<forall>v. sk = Some v \<longrightarrow> sender_key_value_ok cb algorithm v)" for sk
    by (cases sk) (auto simp: key)
  have static_id: "(case si of None \<Rightarrow> False | Some (VBytes _) \<Rightarrow> False | Some _ \<Rightarrow> True) \<longleftrightarrow>
      \<not> (si = None \<or> (\<exists>b. si = Some (VBytes b)))" for si
    by (auto split: option.splits "value.splits")
  show ?thesis
    by (auto simp: require_sender_key_def sender_key_ok_def Let_def andThen_eq_Inr ok_or_eq
        key [simplified andThen_eq_Inr] static [simplified andThen_eq_Inr] static_id unique_input_iff)
qed

section \<open>A recipient and its layers\<close>

definition wraps_key :: "recipient \<Rightarrow> bool" where
  "wraps_key r \<longleftrightarrow> (\<exists>c. rc_ciphertext r = Some c \<and> c \<noteq> [])"

text \<open>What the class of the algorithm asks of a recipient.\<close>

definition class_ok :: "cbor2 \<Rightarrow> recipient \<Rightarrow> label \<Rightarrow> bool" where
  "class_ok cb r a \<longleftrightarrow>
     (case classify_recipient_algorithm a of
        Some Direct \<Rightarrow> rc_protected r = [] \<and> rc_ciphertext r = Some [] \<and> rc_recipients r = []
      | Some DirectKeyDerivation \<Rightarrow>
          rc_ciphertext r = Some [] \<and> rc_recipients r = [] \<and> unique_input_ok r
      | Some KeyWrap \<Rightarrow> rc_protected r = [] \<and> wraps_key r
      | Some KeyTransport \<Rightarrow> rc_protected r = [] \<and> wraps_key r \<and> rc_recipients r = []
      | Some DirectKeyAgreement \<Rightarrow> rc_ciphertext r = Some [] \<and> rc_recipients r = [] \<and>
          (\<exists>i. a = LInt i \<and> sender_key_ok cb r (i \<in> {- 25, - 26}) i)
      | Some KeyAgreementWithKeyWrap \<Rightarrow> wraps_key r \<and>
          (\<exists>i. a = LInt i \<and> sender_key_ok cb r (i \<in> {- 29, - 30, - 31}) i)
      | None \<Rightarrow> True)"

definition sole_classes :: "recipient_algorithm_class set" where
  "sole_classes = {Direct, DirectKeyDerivation, DirectKeyAgreement}"

text \<open>In a layer of several recipients every algorithm is well typed and none is direct.\<close>

definition layer_ok :: "recipient list \<Rightarrow> bool" where
  "layer_ok rs \<longleftrightarrow> length rs \<le> 1 \<or>
     (\<forall>r \<in> set rs. \<exists>c. algorithm_class r = Inr c \<and> (\<forall>k \<in> sole_classes. c \<noteq> Some k))"

definition local_ok :: "cbor2 \<Rightarrow> recipient \<Rightarrow> bool" where
  "local_ok cb r \<longleftrightarrow> buckets_ok (rc_protected r) (rc_unprotected r) \<and>
     (\<forall>raw. rc_protected_raw r = Some raw \<longrightarrow>
       validate_protected_state cb (rc_protected r) raw = Inr ()) \<and>
     (\<exists>a. rc_alg r = Inr (Some a) \<and> class_ok cb r a) \<and> layer_ok (rc_recipients r)"

text \<open>The branches of \<open>unreachable!()\<close> are not taken: text algorithms have no class.\<close>

lemma classify_integer: "classify_recipient_algorithm a = Some c \<Longrightarrow> \<exists>i. a = LInt i"
  by (cases a) (auto simp: classify_recipient_algorithm_def)

lemma rc_alg_unprotected: "rc_protected r = [] \<Longrightarrow> rc_alg r = alg (rc_unprotected r)"
  by (simp add: rc_alg_def alg_def [of "[]"] get_label_def)

lemma lacks_ciphertext_iff: "lacks_ciphertext r \<longleftrightarrow> \<not> wraps_key r"
  by (auto simp: lacks_ciphertext_def wraps_key_def split: option.splits)

lemma class_rules_ok [guards]:
  assumes "rc_alg r = Inr (Some a)"
  shows "class_rules cb r a = Inr () \<longleftrightarrow> class_ok cb r a"
proof (cases "classify_recipient_algorithm a")
  case None
  then show ?thesis by (simp add: class_rules_def class_ok_def)
next
  case (Some c)
  then obtain i where a: "a = LInt i" using classify_integer by blast
  have wrapped: "rc_protected r = [] \<Longrightarrow> alg (rc_unprotected r) = Inr (Some a)"
    using assms rc_alg_unprotected by simp
  show ?thesis
    using Some wrapped
    by (cases c)
      (auto simp: class_rules_def class_ok_def has_zero_length_protected_field_def
        lacks_ciphertext_iff unique_input_iff require_sender_key_ok a insert_commute andThen_eq_Inr)
qed

lemma sole_class_error_Some: "sole_class_error k = None \<longleftrightarrow> k \<notin> sole_classes"
  by (cases k) (auto simp: sole_class_error_def sole_classes_def)

lemma sole_class_error_in: "sole_class_error k = Some e \<Longrightarrow> k \<in> sole_classes"
  using sole_class_error_Some [of k] by auto

lemma layer_rules_ok [guards]:
  "validate_recipient_layer_rules rs = Inr () \<longleftrightarrow> layer_ok rs"
proof -
  have "andThen (algorithm_class r) (\<lambda>c. case Option.bind c sole_class_error of
      Some e \<Rightarrow> Inl e | None \<Rightarrow> Inr ()) = Inr () \<longleftrightarrow>
    (\<exists>c. algorithm_class r = Inr c \<and> (\<forall>k \<in> sole_classes. c \<noteq> Some k))" for r
    by (cases "algorithm_class r"; cases "projr (algorithm_class r)")
      (auto simp: sole_class_error_Some split: option.splits dest: sole_class_error_in)
  then show ?thesis
    by (simp add: validate_recipient_layer_rules_def layer_ok_def for_each_ok)
qed

lemma validate_local_ok [guards]: "validate_local cb r = Inr () \<longleftrightarrow> local_ok cb r"
proof -
  have raw: "(case rc_protected_raw r of Some raw \<Rightarrow> validate_protected_state cb (rc_protected r) raw
      | None \<Rightarrow> Inr ()) = Inr () \<longleftrightarrow>
    (\<forall>raw. rc_protected_raw r = Some raw \<longrightarrow> validate_protected_state cb (rc_protected r) raw = Inr ())"
    by (auto split: option.splits)
  have "validate_local cb r = Inr () \<longleftrightarrow> buckets_ok (rc_protected r) (rc_unprotected r) \<and>
     (\<forall>raw. rc_protected_raw r = Some raw \<longrightarrow>
       validate_protected_state cb (rc_protected r) raw = Inr ()) \<and>
     (\<exists>a. rc_alg r = Inr (Some a) \<and> class_rules cb r a = Inr ()) \<and> layer_ok (rc_recipients r)"
    unfolding validate_local_def raw [symmetric]
    by (simp add: andThen_eq_Inr ok_or_eq validate_header_buckets_ok layer_rules_ok) blast
  then show ?thesis unfolding local_ok_def using class_rules_ok by blast
qed

text \<open>All layers of a recipient, within the nesting limit.\<close>

fun all_layers :: "(recipient \<Rightarrow> bool) \<Rightarrow> recipient \<Rightarrow> bool" where
  "all_layers P (Recipient p u c rs raw) \<longleftrightarrow>
     P (Recipient p u c rs raw) \<and> (\<forall>r \<in> set rs. all_layers P r)"

fun nesting :: "recipient \<Rightarrow> nat" where
  "nesting (Recipient p u c rs raw) = (if rs = [] then 0 else Suc (Max (set (map nesting rs))))"

lemma nesting_le: "nesting (Recipient p u c rs raw) \<le> n \<longleftrightarrow> (\<forall>r \<in> set rs. Suc (nesting r) \<le> n)"
proof (cases "rs = []")
  case False
  then have "Suc (Max (set (map nesting rs))) \<le> n \<longleftrightarrow> (\<forall>r \<in> set rs. Suc (nesting r) \<le> n)"
    by (cases n) (auto simp: Max_le_iff)
  then show ?thesis using False by simp
qed simp

lemma validate_at_depth_ok [guards]:
  "validate_at_depth cb r d = Inr () \<longleftrightarrow>
    d + nesting r \<le> MAX_RECIPIENT_DEPTH \<and> all_layers (local_ok cb) r"
proof (induction cb r d rule: validate_at_depth.induct)
  case (1 cb p u c rs raw depth)
  have depth: "depth + nesting (Recipient p u c rs raw) \<le> MAX_RECIPIENT_DEPTH \<longleftrightarrow>
      depth \<le> MAX_RECIPIENT_DEPTH \<and> (\<forall>r \<in> set rs. depth + 1 + nesting r \<le> MAX_RECIPIENT_DEPTH)"
    using nesting_le [of p u c rs raw "MAX_RECIPIENT_DEPTH - depth"] by (cases "rs = []") auto
  show ?case
    unfolding validate_at_depth.simps early_return_eq andThen_eq_Inr for_each_ok depth
    using 1 by (auto simp: not_less validate_local_ok)
qed

declare nesting.simps [simp del]

lemma message_recipients_ok [guards]:
  "validate_message_recipients cb rs name = Inr () \<longleftrightarrow> rs \<noteq> [] \<and> layer_ok rs \<and>
    (\<forall>r \<in> set rs. nesting r \<le> MAX_RECIPIENT_DEPTH \<and> all_layers (local_ok cb) r)"
  by (auto simp: validate_message_recipients_def require_recipients_def andThen_eq_Inr for_each_ok
      validate_at_depth_ok layer_rules_ok)

lemma decoded_recipients_ok [guards]:
  "validate_decoded_recipients rs name = Inr () \<longleftrightarrow> rs \<noteq> [] \<and> layer_ok rs"
  by (auto simp: validate_decoded_recipients_def require_recipients_def andThen_eq_Inr layer_rules_ok)

section \<open>Decoding\<close>

lemma recipient_visitor_sound: "recipient_visitor cb w = Inr r \<Longrightarrow> all_layers (local_ok cb) r"
proof (induction cb w arbitrary: r rule: recipient_visitor.induct)
  case (1 cb p u c ws)
  from "1.prems" obtain protected_raw unprotected ciphertext nested protected where
    dec: "decode_bytes cb p = Inr protected_raw" "header_deserialize cb u = Inr unprotected"
      "decode_optional_bytes cb c = Inr ciphertext"
    and nested: "(case ws of None \<Rightarrow> Inr []
      | Some ws \<Rightarrow> andThen (traverse (recipient_visitor cb) ws) (\<lambda>nested.
          if nested = [] then Inl ''nested recipients array must not be empty when present''
          else Inr nested)) = Inr nested"
    and r: "r = Recipient protected unprotected ciphertext nested (Some protected_raw)"
      "validate_local cb r = Inr ()"
    by (auto simp: andThen_eq_Inr map_err_eq Let_def)
  have "\<forall>x \<in> set nested. all_layers (local_ok cb) x"
  proof (cases ws)
    case None
    then show ?thesis using nested by simp
  next
    case (Some vs)
    then have tr: "traverse (recipient_visitor cb) vs = Inr nested"
      using nested by (auto simp: andThen_eq_Inr split: if_splits)
    have "\<exists>w \<in> set vs. recipient_visitor cb w = Inr x" if "x \<in> set nested" for x
      using traverse_mem [OF tr that] .
    moreover have "all_layers (local_ok cb) x" if "w \<in> set vs" "recipient_visitor cb w = Inr x" for w x
      by (rule "1.IH" [OF _ _ _ Some that]) (auto simp: map_err_eq dec)
    ultimately show ?thesis by blast
  qed
  then show ?case using r by (simp add: validate_local_ok)
qed

section \<open>Properties\<close>

text \<open>
  C35. \<open>validate_message_recipients\<close> accepts exactly the non-empty lists of
  recipients in which every layer, at most 128 deep, has valid header buckets, protected bytes
  that still denote their bucket, an algorithm whose class rules hold (ciphertext, nesting,
  sender key, salt), and where recipients of a direct class have no siblings.
\<close>

theorem recipients_accepted_iff:
  "validate_message_recipients cb rs name = Inr () \<longleftrightarrow> rs \<noteq> [] \<and>
    (length rs \<le> 1 \<or> (\<forall>r \<in> set rs. \<exists>c. algorithm_class r = Inr c \<and> (\<forall>k \<in> sole_classes. c \<noteq> Some k))) \<and>
    (\<forall>r \<in> set rs. nesting r \<le> MAX_RECIPIENT_DEPTH \<and> all_layers (local_ok cb) r)"
  by (simp add: message_recipients_ok layer_ok_def)

definition demo_direct :: recipient where
  "demo_direct = Recipient [] [(LInt 1, VInteger (- 6))] (Some []) [] None"

lemma demo_direct_valid: "validate_message_recipients ref_cbor [demo_direct] ''demo'' = Inr ()"
  by code_simp

theorem recipients_accepted_iff_witness: "all_layers (local_ok ref_cbor) demo_direct"
  using recipients_accepted_iff [of ref_cbor "[demo_direct]" "''demo''"] demo_direct_valid by simp

text \<open>
  In an accepted list a recipient that uses the content key directly, derives
  it, or agrees on it directly is the only recipient of the message, carries an empty
  ciphertext and has no nested recipients.
\<close>

theorem direct_recipient_alone:
  assumes "validate_message_recipients cb rs name = Inr ()" and "r \<in> set rs"
    and "algorithm_class r = Inr (Some k)" and "k \<in> {Direct, DirectKeyDerivation, DirectKeyAgreement}"
  shows "rs = [r] \<and> rc_ciphertext r = Some [] \<and> rc_recipients r = []"
proof -
  have k: "k \<in> sole_classes" using assms(4) by (simp add: sole_classes_def)
  have all: "layer_ok rs" "all_layers (local_ok cb) r" using assms(1,2) by (auto simp: message_recipients_ok)
  have "length rs \<le> 1" using all(1) assms(2,3) k by (force simp: layer_ok_def)
  then have rs: "rs = [r]" using assms(2) by (cases rs) auto
  have "local_ok cb r" using all(2) by (cases r) simp
  then obtain a where "rc_alg r = Inr (Some a)" "class_ok cb r a" by (auto simp: local_ok_def)
  then have "classify_recipient_algorithm a = Some k" "class_ok cb r a"
    using assms(3) by (auto simp: algorithm_class_def)
  then show ?thesis using assms(4) by (auto simp: class_ok_def rs)
qed

theorem direct_recipient_alone_witness:
  "rc_ciphertext demo_direct = Some [] \<and> rc_recipients demo_direct = []"
proof -
  have "algorithm_class demo_direct = Inr (Some Direct)" by code_simp
  then show ?thesis using direct_recipient_alone [OF demo_direct_valid] by simp
qed

text \<open>
  Of a recipient whose layers are all in order, the full validation checks the nesting only.
\<close>

lemma layers_validated:
  "all_layers (local_ok cb) r \<Longrightarrow> validate_at_depth cb r d =
    (if d + nesting r \<le> MAX_RECIPIENT_DEPTH then Inr ()
     else Inl (LimitExceeded ''COSE recipient nesting'' MAX_RECIPIENT_DEPTH))"
proof (induction cb r d rule: validate_at_depth.induct)
  case (1 cb p u c rs raw depth)
  let ?limit = "Inl (LimitExceeded ''COSE recipient nesting'' MAX_RECIPIENT_DEPTH) :: error + unit"
  show ?case
  proof (cases "MAX_RECIPIENT_DEPTH < depth")
    case True
    then show ?thesis by simp
  next
    case False
    have "validate_local cb (Recipient p u c rs raw) = Inr ()"
      using "1.prems" by (simp add: validate_local_ok)
    then have step: "validate_at_depth cb (Recipient p u c rs raw) depth =
        for_each (\<lambda>r. validate_at_depth cb r (depth + 1)) rs" using False by simp
    have each: "validate_at_depth cb r (depth + 1) =
        (if depth + 1 + nesting r \<le> MAX_RECIPIENT_DEPTH then Inr () else ?limit)" if "r \<in> set rs" for r
      using "1.prems" that \<open>validate_local cb _ = Inr ()\<close> False by (intro "1.IH") auto
    have "for_each (\<lambda>r. validate_at_depth cb r (depth + 1)) xs =
        (if \<forall>r \<in> set xs. depth + 1 + nesting r \<le> MAX_RECIPIENT_DEPTH then Inr () else ?limit)"
      if "set xs \<subseteq> set rs" for xs
      using that by (induction xs) (simp_all add: each [simplified])
    moreover have "depth + nesting (Recipient p u c rs raw) \<le> MAX_RECIPIENT_DEPTH \<longleftrightarrow>
        (\<forall>r \<in> set rs. depth + 1 + nesting r \<le> MAX_RECIPIENT_DEPTH)"
      using nesting_le [of p u c rs raw "MAX_RECIPIENT_DEPTH - depth"] False by (cases "rs = []") auto
    ultimately show ?thesis unfolding step by simp
  qed
qed

text \<open>
  For decoded recipients the full validation is the short check and the limit on nesting, and
  nothing else.
\<close>

lemma decoded_validation:
  assumes "traverse (recipient_visitor cb) ws = Inr rs"
  shows "validate_message_recipients cb rs name =
    (if rs \<noteq> [] \<and> (\<exists>r \<in> set rs. MAX_RECIPIENT_DEPTH < nesting r)
     then Inl (LimitExceeded ''COSE recipient nesting'' MAX_RECIPIENT_DEPTH)
     else validate_decoded_recipients rs name)"
proof -
  have layers: "all_layers (local_ok cb) r" if "r \<in> set rs" for r
    using traverse_mem [OF assms that] recipient_visitor_sound by blast
  have "for_each (\<lambda>r. validate_at_depth cb r 0) xs =
      (if \<exists>r \<in> set xs. MAX_RECIPIENT_DEPTH < nesting r
       then Inl (LimitExceeded ''COSE recipient nesting'' MAX_RECIPIENT_DEPTH) else Inr ())"
    if "set xs \<subseteq> set rs" for xs
    using that by (induction xs) (simp_all add: layers_validated layers)
  then show ?thesis
    by (simp add: validate_message_recipients_def validate_decoded_recipients_def require_recipients_def)
qed

text \<open>
  A sender's public key is accepted for an ECDH algorithm exactly when it names
  no other algorithm and no operation, its type, curve and \<open>x\<close> length agree, an EC2 key has a
  \<open>y\<close> of that length or a sign bit, and no private key is present.
\<close>

theorem ecdh_sender_key_iff:
  "validate_ecdh_public_key key algorithm = Inr () \<longleftrightarrow>
    key_alg key \<in> {Inr None, Inr (Some (LInt algorithm))} \<and>
    ops key \<in> {Inr None, Inr (Some [])} \<and>
    (\<exists>(key_type, curve, n) \<in> ecdh_curves.
       bt_get key (LInt KeyParameterKty) = Some (VInteger key_type) \<and>
       bt_get key (LInt (- 1)) = Some (VInteger curve) \<and>
       (\<exists>x. bt_get key (LInt (- 2)) = Some (VBytes x) \<and> length x = n) \<and>
       (key_type = KeyTypeEC2 \<longrightarrow> ec2_y_ok n (bt_get key (LInt EC2KeyParameterY))) \<and>
       \<not> contains_key key (LInt (- 4)))"
  by (simp only: validate_ecdh_public_key_ok ecdh_public_key_ok_def)

definition demo_x25519_key :: cose_key where
  "demo_x25519_key = [(LInt (- 2), VBytes (replicate 32 7)), (LInt (- 1), VInteger 4), (LInt 1, VInteger 1)]"

lemma demo_x25519_valid: "validate_ecdh_public_key demo_x25519_key AlgorithmECDH_ES_HKDF_256 = Inr ()"
  by code_simp

theorem ecdh_sender_key_iff_witness:
  "ops demo_x25519_key \<in> {Inr None, Inr (Some [])}"
  using ecdh_sender_key_iff [of demo_x25519_key "AlgorithmECDH_ES_HKDF_256"] demo_x25519_valid
  by blast

end
