(* ===== verification/KeyLaws.thy ===== *)
theory KeyLaws
  imports Key ReferenceCbor
begin

text \<open>
  \<open>COSE_Key\<close> and \<open>COSE_KeySet\<close>: which maps are keys, what the key constructors build, and that
  the members of a key set are decoded independently.
\<close>

section \<open>Properties\<close>

text \<open>
  C38. A map is accepted as a key exactly when it has a \<open>kty\<close> and its registered
  parameters have their types: \<open>kty\<close> and \<open>alg\<close> are labels, \<open>key_ops\<close> is an array of labels,
  \<open>kid\<close> and the Base IV are byte strings.
\<close>

theorem key_validate_iff:
  "key_validate k = Inr () \<longleftrightarrow> contains_key k (LInt KeyParameterKty) \<and>
    param_is is_label_value k KeyParameterKty \<and> param_is is_label_value k KeyParameterAlg \<and>
    param_is is_op_array k KeyParameterKeyOps \<and> param_is is_bytes_value k KeyParameterKid \<and>
    param_is is_bytes_value k KeyParameterBaseIV"
  by (simp only: key_validate_ok key_ok_def)

text \<open>
  A key that the symmetric constructor builds is valid, is an ordered map,
  and its accessors return what it was built from, for every combination of the optional
  parameters.
\<close>

theorem symmetric_key_fields:
  assumes "in_i64 a" and "\<forall>ls. key_ops = Some ls \<longrightarrow> (\<forall>l \<in> set ls. wf_label l)"
  shows "(let key = symmetric_key a k key_id base_iv key_ops in
    wf_bt key \<and> key_validate key = Inr () \<and>
    require_integer_kty key KeyTypeSymmetric = Inr () \<and> required_integer_alg key provider = Inr a \<and>
    required_bytes key SymmetricKeyParameterK name = Inr k \<and> key_kid key = Inr key_id \<and>
    key_base_iv key = Inr base_iv \<and> ops key = Inr key_ops)"
proof -
  let ?key = "symmetric_key a k key_id base_iv key_ops"
  have get: "bt_get ?key l = (if l = LInt 1 then Some (VInteger 4) else if l = LInt 3 then Some (VInteger a)
      else if l = LInt (- 1) then Some (VBytes k) else if l = LInt 2 then map_option VBytes key_id
      else if l = LInt 5 then map_option VBytes base_iv
      else if l = LInt 4 then map_option (\<lambda>ls. VArray (map value_of_label ls)) key_ops else None)" for l
    by (cases key_id; cases base_iv; cases key_ops)
      (simp_all add: symmetric_key_def with_kty_alg_def set_key_alg_def set_kty_def set_key_kid_def
        set_ops_def cm_new_def bt_get_insert Let_def)
  have wf: "wf_bt ?key"
    by (cases key_id; cases base_iv; cases key_ops)
      (simp_all add: symmetric_key_def with_kty_alg_def set_key_alg_def set_kty_def set_key_kid_def
        set_ops_def cm_new_def wf_bt_insert Let_def)
  have ops: "ops ?key = Inr key_ops"
    using assms(2) get [of "LInt 4"] by (cases key_ops) (auto simp: ops_Some ops_None)
  have op_array: "list_all is_label_value (map value_of_label ls)" if "key_ops = Some ls" for ls
    using assms(2) that by (auto simp: list_all_iff is_label_value_iff)
  have "key_ok ?key"
    using assms(1) op_array
    by (auto simp: key_ok_def contains_key_get param_is_def get in_i64_def [of 4])
  moreover have "kty ?key = Inr (Some (LInt 4))" "key_alg ?key = Inr (Some (LInt a))"
    using assms(1) by (simp_all add: kty_def key_alg_def get_label_def get try_i64_def in_i64_def [of 4])
  moreover have "get_bytes ?key (LInt (- 1)) = Inr (Some k)" by (simp add: get_bytes_def get)
  moreover have "key_kid ?key = Inr key_id" "key_base_iv ?key = Inr base_iv"
    using get [of "LInt 2"] get [of "LInt 5"]
    by (cases key_id; cases base_iv; simp add: key_kid_def key_base_iv_def get_bytes_def)+
  ultimately show ?thesis
    using wf ops
    by (simp add: Let_def key_validate_ok require_integer_kty_def required_integer_alg_def required_bytes_def)
qed

theorem symmetric_key_fields_witness:
  "ops (symmetric_key 5 [1, 2] (Some [9]) None (Some [LInt 9, LText ''x''])) = Inr (Some [LInt 9, LText ''x''])"
  using symmetric_key_fields [of 5 "Some [LInt 9, LText ''x'']" "[1, 2]" "Some [9]" None]
  by (simp add: in_i64_def Let_def)

text \<open>
  C37. The members of a key set stand for themselves: when the array itself is well
  formed, decoding keeps, in order, every member that is a valid key on its own, whatever the
  other members are, and fails exactly when there is none; a lookup then finds exactly the
  decoded keys with that identifier.
\<close>

theorem keyset_members_independent:
  assumes "independently_validated_array_members cb data = Inr members"
  shows "ks_from_slice cb data =
      (if \<exists>m \<in> set members. is_ok (key_from_slice cb m)
       then Inr (map (\<lambda>m. projr (key_from_slice cb m)) (filter (\<lambda>m. is_ok (key_from_slice cb m)) members))
       else Inl (Custom ''COSE_KeySet must contain at least one key'')) \<and>
    (\<forall>ks. ks_from_slice cb data = Inr ks \<longrightarrow> (\<forall>k. k \<in> set (ks_lookup ks key_id) \<longleftrightarrow>
      bt_get k (LInt KeyParameterKid) = Some (VBytes key_id) \<and>
      (\<exists>m \<in> set members. key_from_slice cb m = Inr k)))"
proof -
  let ?ks = "keep_ok (map (key_from_slice cb) members)"
  have keep: "keep_ok (map f ms) = map (\<lambda>m. projr (f m)) (filter (\<lambda>m. is_ok (f m)) ms)" for ms :: "bytes list" and f :: "bytes \<Rightarrow> error + cose_key"
  proof (induction ms)
    case (Cons m ms)
    then show ?case by (cases "f m") auto
  qed simp
  have valid: "\<forall>k \<in> set ?ks. key_ok k"
    by (auto simp: keep_ok_set) (metis key_from_slice_ok)
  have empty: "?ks = [] \<longleftrightarrow> \<not> (\<exists>m \<in> set members. is_ok (key_from_slice cb m))"
    by (simp add: keep filter_empty_conv)
  have result: "ks_from_slice cb data = (if ?ks = []
      then Inl (Custom ''COSE_KeySet must contain at least one key'') else Inr ?ks)"
  proof -
    have "for_each key_validate ?ks = Inr ()" using valid by (simp add: for_each_ok key_validate_ok)
    then show ?thesis by (simp add: ks_from_slice_def assms Let_def ks_validate_def)
  qed
  have lookup: "k \<in> set (ks_lookup ks key_id) \<longleftrightarrow>
      k \<in> set ks \<and> bt_get k (LInt 2) = Some (VBytes key_id)" for k ks
    using key_kid_ok [of k key_id] by (auto simp: ks_lookup_def split: sum.splits option.splits)
  have mem: "k \<in> set ?ks \<longleftrightarrow> (\<exists>m \<in> set members. key_from_slice cb m = Inr k)" for k
    by (auto simp: keep_ok_set) (metis image_eqI)
  show ?thesis
    unfolding result empty lookup by (auto simp: keep [symmetric] mem split: if_splits)
qed

definition demo_key_cbor :: cbor2 where
  "demo_key_cbor = ref_cbor\<lparr>lib_from_slice_map := (\<lambda>visitor d.
     if d = [0xa1, 0x01, 0x04] then map_ok (\<lambda>l. [(l, VInteger 4)]) (visitor (VInteger 1))
     else Inl ''demo'')\<rparr>"

lemma demo_key_members:
  "independently_validated_array_members demo_key_cbor [0x82, 0x00, 0xa1, 0x01, 0x04] =
    Inr [[0x00], [0xa1, 0x01, 0x04]]"
  by code_simp

theorem keyset_members_independent_witness:
  "ks_from_slice demo_key_cbor [0x82, 0x00, 0xa1, 0x01, 0x04] = Inr [[(LInt 1, VInteger 4)]]"
proof -
  have "key_from_slice demo_key_cbor [0xa1, 0x01, 0x04] = Inr [(LInt 1, VInteger 4)]" by code_simp
  moreover have "\<not> is_ok (key_from_slice demo_key_cbor [0x00])" by code_simp
  ultimately show ?thesis
    using keyset_members_independent [OF demo_key_members, THEN conjunct1] by simp
qed

end
