(* ===== verification/Mac.thy ===== *)
theory Mac
  imports Countersign Recipient
begin

text \<open>
  \<open>src/src/mac.rs\<close>: \<open>COSE_Mac\<close>, a payload authenticated under a key that one or more recipients
  can recover. Every operation that prepares, completes or encodes the message validates its
  recipients first.
\<close>

record mac_message =
  mm_protected :: header
  mm_unprotected :: header
  mm_payload :: "bytes option"
  mm_recipients :: "recipient list"
  mm_tag :: bytes
  mm_protected_raw :: bytes
  mm_state :: operation_state

definition mm_new :: "bytes option \<Rightarrow> mac_message" where
  "mm_new payload = \<lparr>mm_protected = [], mm_unprotected = [], mm_payload = payload,
     mm_recipients = [], mm_tag = [], mm_protected_raw = [], mm_state = New\<rparr>"

definition mm_to_be_maced :: "cbor2 \<Rightarrow> bytes \<Rightarrow> bytes \<Rightarrow> bytes \<Rightarrow> error + bytes" where
  "mm_to_be_maced cb protected_raw external_aad payload =
     encode_structure cb [FText ''MAC'', FBytes protected_raw, FBytes external_aad, FBytes payload]"

section \<open>Computing the tag\<close>

definition mm_prepare_headers ::
  "cbor2 \<Rightarrow> mac_message \<Rightarrow> label option \<Rightarrow> bytes option \<Rightarrow> (error + unit) \<times> mac_message"
where
  "mm_prepare_headers cb self a k =
     (case validate_message_recipients cb (mm_recipients self) ''MacMessage'' of
        Inl e \<Rightarrow> (Inl e, self)
      | Inr _ \<Rightarrow>
          (case prepare_headers cb (mm_protected self) (mm_unprotected self) a k of
             (Inl e, p, u) \<Rightarrow> (Inl e, self\<lparr>mm_protected := p, mm_unprotected := u\<rparr>)
           | (Inr raw, p, u) \<Rightarrow>
               (Inr (), self\<lparr>mm_protected := p, mm_unprotected := u, mm_protected_raw := raw,
                  mm_state := Prepared, mm_tag := []\<rparr>)))"

definition mm_prepare_tag ::
  "cbor2 \<Rightarrow> mac_message \<Rightarrow> label option \<Rightarrow> bytes option \<Rightarrow> bytes option \<Rightarrow> (error + bytes) \<times> mac_message"
where
  "mm_prepare_tag cb self a k external_aad =
     (case mm_prepare_headers cb self a k of
        (Inl e, self') \<Rightarrow> (Inl e, self')
      | (Inr _, self') \<Rightarrow>
          (andThen (require_embedded_payload (mm_payload self') ''MacMessage::prepare_tag'')
             (\<lambda>payload. mm_to_be_maced cb (mm_protected_raw self') (unwrap_or_empty external_aad) payload),
           self'))"

definition mm_prepare_detached_tag ::
  "cbor2 \<Rightarrow> mac_message \<Rightarrow> label option \<Rightarrow> bytes option \<Rightarrow> bytes \<Rightarrow> bytes option \<Rightarrow> (error + bytes) \<times> mac_message"
where
  "mm_prepare_detached_tag cb self a k detached external_aad =
     (case mm_prepare_headers cb self a k of
        (Inl e, self') \<Rightarrow> (Inl e, self')
      | (Inr _, self') \<Rightarrow>
          (case mm_to_be_maced cb (mm_protected_raw self') (unwrap_or_empty external_aad) detached of
             Inl e \<Rightarrow> (Inl e, self')
           | Inr tbm \<Rightarrow> (Inr tbm, self'\<lparr>mm_payload := None\<rparr>)))"

definition mm_set_tag :: "cbor2 \<Rightarrow> mac_message \<Rightarrow> bytes \<Rightarrow> (error + unit) \<times> mac_message" where
  "mm_set_tag cb self tag =
     (case andThen (validate_message_recipients cb (mm_recipients self) ''MacMessage'') (\<lambda>_.
           sync_protected_raw cb (mm_protected self) (mm_unprotected self) (mm_protected_raw self)
             (mm_state self)) of
        Inl e \<Rightarrow> (Inl e, self)
      | Inr raw \<Rightarrow>
          (Inr (), self\<lparr>mm_protected_raw := raw, mm_tag := tag, mm_state := Complete\<rparr>))"

definition mm_compute :: "cbor2 \<Rightarrow> mac_message \<Rightarrow> macer \<Rightarrow> bytes option \<Rightarrow> (error + unit) \<times> mac_message" where
  "mm_compute cb self mc external_aad =
     (case mm_prepare_headers cb self (mc_alg mc) (mc_kid mc) of
        (Inl e, self') \<Rightarrow> (Inl e, self')
      | (Inr _, self') \<Rightarrow>
          (case andThen (require_embedded_payload (mm_payload self') ''MacMessage::compute'') (\<lambda>payload.
                andThen (mm_to_be_maced cb (mm_protected_raw self') (unwrap_or_empty external_aad) payload)
                  (\<lambda>tbm. mc_create mc tbm)) of
             Inl e \<Rightarrow> (Inl e, self')
           | Inr s \<Rightarrow> (Inr (), self'\<lparr>mm_tag := s, mm_state := Complete\<rparr>)))"

definition mm_compute_detached ::
  "cbor2 \<Rightarrow> mac_message \<Rightarrow> macer \<Rightarrow> bytes \<Rightarrow> bytes option \<Rightarrow> (error + unit) \<times> mac_message"
where
  "mm_compute_detached cb self mc detached external_aad =
     (case mm_prepare_headers cb self (mc_alg mc) (mc_kid mc) of
        (Inl e, self') \<Rightarrow> (Inl e, self')
      | (Inr _, self') \<Rightarrow>
          (case andThen (mm_to_be_maced cb (mm_protected_raw self') (unwrap_or_empty external_aad) detached)
                  (\<lambda>tbm. mc_create mc tbm) of
             Inl e \<Rightarrow> (Inl e, self')
           | Inr s \<Rightarrow>
               (Inr (), self'\<lparr>mm_tag := s, mm_state := Complete, mm_payload := None\<rparr>)))"

section \<open>Encoding and decoding\<close>

definition mm_encode :: "cbor2 \<Rightarrow> mac_message \<Rightarrow> bytes \<Rightarrow> error + bytes" where
  "mm_encode cb self prefix =
     andThen (require_complete (mm_state self) ''MacMessage must be computed before encoding'') (\<lambda>_.
     andThen (validate_message_recipients cb (mm_recipients self) ''MacMessage'') (\<lambda>_.
     andThen (validate_layer cb (mm_protected self) (mm_unprotected self) (mm_protected_raw self)) (\<lambda>_.
     andThen (header_raw cb (mm_unprotected self)) (\<lambda>unprotected.
     andThen (canonical_recipients cb (mm_recipients self)) (\<lambda>recipients.
     encode_prefixed cb prefix
       [FBytes (mm_protected_raw self), FRaw unprotected, optional_bytes (mm_payload self),
        FBytes (mm_tag self), FRaw recipients])))))"

definition mm_to_vec :: "cbor2 \<Rightarrow> mac_message \<Rightarrow> error + bytes" where
  "mm_to_vec cb self = mm_encode cb self MAC_PREFIX"

definition mm_to_cwt_vec :: "cbor2 \<Rightarrow> mac_message \<Rightarrow> error + bytes" where
  "mm_to_cwt_vec cb self = mm_encode cb self (CWT_PREFIX @ MAC_PREFIX)"

definition mm_to_untagged_vec :: "cbor2 \<Rightarrow> mac_message \<Rightarrow> error + bytes" where
  "mm_to_untagged_vec cb self = mm_encode cb self []"

definition mm_compute_and_encode ::
  "cbor2 \<Rightarrow> mac_message \<Rightarrow> macer \<Rightarrow> bytes option \<Rightarrow> (error + bytes) \<times> mac_message"
where
  "mm_compute_and_encode cb self mc external_aad =
     (case mm_compute cb self mc external_aad of
        (Inl e, self') \<Rightarrow> (Inl e, self')
      | (Inr _, self') \<Rightarrow> (mm_to_vec cb self', self'))"

definition mm_compute_detached_and_encode ::
  "cbor2 \<Rightarrow> mac_message \<Rightarrow> macer \<Rightarrow> bytes \<Rightarrow> bytes option \<Rightarrow> (error + bytes) \<times> mac_message"
where
  "mm_compute_detached_and_encode cb self mc detached external_aad =
     (case mm_compute_detached cb self mc detached external_aad of
        (Inl e, self') \<Rightarrow> (Inl e, self')
      | (Inr _, self') \<Rightarrow> (mm_to_vec cb self', self'))"

definition mm_from_slice :: "cbor2 \<Rightarrow> bytes \<Rightarrow> error + mac_message" where
  "mm_from_slice cb data =
     andThen (tag_message_body cb data CBORTagCOSEMac) (\<lambda>body.
     andThen (map_err Cbor (lib_from_slice_mac cb label_visitor body))
       (\<lambda>(protected_raw, entries, payload, tag, wire_recipients).
     andThen (deserialize_checked entries) (\<lambda>unprotected.
     andThen (map_err Cbor (traverse (recipient_visitor cb) wire_recipients)) (\<lambda>recipients.
     andThen (validate_decoded_recipients recipients ''MacMessage'') (\<lambda>_.
     andThen (decode_protected cb protected_raw) (\<lambda>protected.
     andThen (validate_header_buckets protected unprotected) (\<lambda>_.
     Inr \<lparr>mm_protected = protected, mm_unprotected = unprotected, mm_payload = payload,
          mm_recipients = recipients, mm_tag = tag, mm_protected_raw = protected_raw,
          mm_state = Complete\<rparr>)))))))"

section \<open>Verification\<close>

definition mm_verify_payload ::
  "cbor2 \<Rightarrow> mac_message \<Rightarrow> macer \<Rightarrow> bytes \<Rightarrow> bytes \<Rightarrow> error + unit"
where
  "mm_verify_payload cb self mc payload external_aad =
     andThen (validate_layer cb (mm_protected self) (mm_unprotected self) (mm_protected_raw self)) (\<lambda>_.
     andThen (ensure_crit_understood cb (mm_protected self) (mc_understood mc)) (\<lambda>_.
     andThen (check_protected_alg (mm_protected self) (mm_unprotected self) (mc_alg mc)) (\<lambda>_.
     andThen (mm_to_be_maced cb (mm_protected_raw self) external_aad payload) (\<lambda>tbm.
     mc_verify mc tbm (mm_tag self)))))"

definition mm_verify :: "cbor2 \<Rightarrow> mac_message \<Rightarrow> macer \<Rightarrow> bytes option \<Rightarrow> error + unit" where
  "mm_verify cb self mc external_aad =
     andThen (require_complete (mm_state self) ''MacMessage must be decoded before verifying'') (\<lambda>_.
     andThen (require_embedded_payload (mm_payload self) ''MacMessage::verify'') (\<lambda>payload.
     mm_verify_payload cb self mc payload (unwrap_or_empty external_aad)))"

definition mm_verify_detached ::
  "cbor2 \<Rightarrow> mac_message \<Rightarrow> macer \<Rightarrow> bytes \<Rightarrow> bytes option \<Rightarrow> error + unit"
where
  "mm_verify_detached cb self mc detached external_aad =
     andThen (require_complete (mm_state self) ''MacMessage must be decoded before verifying'') (\<lambda>_.
     if mm_payload self \<noteq> None
     then Inl (Custom ''MacMessage carries an embedded payload; use verify'')
     else mm_verify_payload cb self mc detached (unwrap_or_empty external_aad))"

definition mm_verify_and_decode ::
  "cbor2 \<Rightarrow> macer \<Rightarrow> bytes \<Rightarrow> bytes option \<Rightarrow> error + mac_message"
where
  "mm_verify_and_decode cb mc data external_aad =
     andThen (mm_from_slice cb data) (\<lambda>msg.
     andThen (mm_verify cb msg mc external_aad) (\<lambda>_. Inr msg))"

definition mm_verify_detached_and_decode ::
  "cbor2 \<Rightarrow> macer \<Rightarrow> bytes \<Rightarrow> bytes \<Rightarrow> bytes option \<Rightarrow> error + mac_message"
where
  "mm_verify_detached_and_decode cb mc data detached external_aad =
     andThen (mm_from_slice cb data) (\<lambda>msg.
     andThen (mm_verify_detached cb msg mc detached external_aad) (\<lambda>_. Inr msg))"

end
