(* ===== verification/MacProps.thy ===== *)
theory MacProps
  imports Mac Mac0Props RecipientProps
begin

text \<open>
  \<open>COSE_Mac\<close>: a computed tag verifies, and an encoded message has valid recipients and a tag
  that a MACer produced over the bytes that are written.
\<close>

lemma mm_prepare_headers_cases:
  assumes "mm_prepare_headers cb m a k = (r, m')"
  obtains (failed) e where "r = Inl e" "mm_state m' = mm_state m"
      "mm_protected_raw m' = mm_protected_raw m" "mm_tag m' = mm_tag m" "mm_payload m' = mm_payload m"
  | (ready) raw p u where "r = Inr ()"
      "prepare_headers cb (mm_protected m) (mm_unprotected m) a k = (Inr raw, p, u)"
      "m' = m\<lparr>mm_protected := p, mm_unprotected := u, mm_protected_raw := raw,
         mm_state := Prepared, mm_tag := []\<rparr>"
proof (cases "validate_message_recipients cb (mm_recipients m) ''MacMessage''")
  case (Inl e)
  then have "r = Inl e \<and> m' = m" using assms by (simp add: mm_prepare_headers_def)
  then show thesis using failed by simp
next
  case (Inr u)
  then show thesis
    using assms failed ready by (auto simp: mm_prepare_headers_def split: prod.splits sum.splits)
qed

text \<open>
  What \<open>compute\<close> (with \<open>detached = None\<close>) or \<open>compute_detached\<close> leaves behind; \<open>content\<close> is
  the authenticated payload.
\<close>

definition mm_sealed_with :: "cbor2 \<Rightarrow> mac_message \<Rightarrow> macer \<Rightarrow> bytes \<Rightarrow> bytes \<Rightarrow> mac_message \<Rightarrow> bool" where
  "mm_sealed_with cb m mc aad content m' \<longleftrightarrow> (\<exists>raw p u tbm.
     prepare_headers cb (mm_protected m) (mm_unprotected m) (mc_alg mc) (mc_kid mc) = (Inr raw, p, u) \<and>
     mm_to_be_maced cb raw aad content = Inr tbm \<and> mc_create mc tbm = Inr (mm_tag m') \<and>
     mm_protected m' = p \<and> mm_unprotected m' = u \<and> mm_protected_raw m' = raw \<and> mm_state m' = Complete)"

lemma mm_compute_ok:
  assumes "mm_compute cb m mc aad = (Inr (), m')"
  obtains content where "mm_payload m = Some content" "mm_payload m' = Some content"
    "mm_sealed_with cb m mc (unwrap_or_empty aad) content m'"
  using assms
  by (auto simp: mm_compute_def mm_prepare_headers_def require_embedded_payload_def result_simps
      mm_sealed_with_def split: prod.splits sum.splits)

lemma mm_compute_detached_ok:
  assumes "mm_compute_detached cb m mc content aad = (Inr (), m')"
  shows "mm_payload m' = None \<and> mm_sealed_with cb m mc (unwrap_or_empty aad) content m'"
  using assms
  by (auto simp: mm_compute_detached_def mm_prepare_headers_def result_simps mm_sealed_with_def
      split: prod.splits sum.splits)

lemma mm_verify_payload_ok [guards]:
  "mm_verify_payload cb m mc payload aad = Inr () \<longleftrightarrow>
    validate_layer cb (mm_protected m) (mm_unprotected m) (mm_protected_raw m) = Inr () \<and>
    crit_understood cb (mm_protected m) (mc_understood mc) \<and>
    check_protected_alg (mm_protected m) (mm_unprotected m) (mc_alg mc) = Inr () \<and>
    (\<exists>tbm. mm_to_be_maced cb (mm_protected_raw m) aad payload = Inr tbm \<and>
       mc_verify mc tbm (mm_tag m) = Inr ())"
  by (auto simp: mm_verify_payload_def andThen_eq_Inr validate_layer_ok ensure_crit_understood_ok
      buckets_ok_def)

lemma mm_verify_ok [guards]:
  "mm_verify cb m mc aad = Inr () \<longleftrightarrow> mm_state m = Complete \<and>
    (\<exists>payload. mm_payload m = Some payload \<and>
       mm_verify_payload cb m mc payload (unwrap_or_empty aad) = Inr ())"
  by (auto simp: mm_verify_def andThen_eq_Inr require_complete_ok require_embedded_payload_def ok_or_eq)

lemma mm_verify_detached_ok [guards]:
  "mm_verify_detached cb m mc detached aad = Inr () \<longleftrightarrow> mm_state m = Complete \<and>
    mm_payload m = None \<and> mm_verify_payload cb m mc detached (unwrap_or_empty aad) = Inr ()"
  by (auto simp: mm_verify_detached_def andThen_eq_Inr require_complete_ok)

lemma mm_sealed_verifies:
  assumes "mm_sealed_with cb m mc aad content m'" and "wf_bt (mm_protected m)" and "wf_bt (mm_unprotected m)"
    and "sound_macer mc" and "crit_understood cb (mm_protected m') (mc_understood mc)"
  shows "mm_verify_payload cb m' mc content aad = Inr ()"
proof -
  obtain tbm where prep: "prepare_headers cb (mm_protected m) (mm_unprotected m) (mc_alg mc) (mc_kid mc) =
      (Inr (mm_protected_raw m'), mm_protected m', mm_unprotected m')"
    and tbm: "mm_to_be_maced cb (mm_protected_raw m') aad content = Inr tbm"
    "mc_create mc tbm = Inr (mm_tag m')"
    using assms(1) by (auto simp: mm_sealed_with_def)
  note ready = prepare_headers_ok [OF prep assms(2,3)]
  have "check_protected_alg (mm_protected m') (mm_unprotected m') (mc_alg mc) = Inr ()"
    using assms(4) by (intro prepared_alg_ok [OF ready]) (auto simp: sound_macer_def)
  then show ?thesis
    using prepared_layer_ok [OF ready] assms(4,5) tbm
    by (auto simp: mm_verify_payload_ok sound_macer_def)
qed

section \<open>The life of a message\<close>

text \<open>
  The calls that prepare a tag or use a provider, with any outcome, and assignments to the
  public fields. A caller of \<open>set_tag\<close> answers for the tag it installs.
\<close>

inductive mm_step :: "cbor2 \<Rightarrow> macer set \<Rightarrow> mac_message \<Rightarrow> mac_message \<Rightarrow> bool" for cb S where
  prepare: "mm_prepare_tag cb m a k aad = (r, m') \<Longrightarrow> mm_step cb S m m'"
| prepare_detached: "mm_prepare_detached_tag cb m a k d aad = (r, m') \<Longrightarrow> mm_step cb S m m'"
| compute: "mc \<in> S \<Longrightarrow> mm_compute cb m mc aad = (r', m') \<Longrightarrow> mm_step cb S m m'"
| compute_detached: "mc \<in> S \<Longrightarrow> mm_compute_detached cb m mc d aad = (r', m') \<Longrightarrow> mm_step cb S m m'"
| assign: "mm_step cb S m (m\<lparr>mm_protected := p, mm_unprotected := u, mm_payload := pl, mm_recipients := rs\<rparr>)"

definition mm_sealed :: "mac_message \<Rightarrow> bytes \<times> bytes" where
  "mm_sealed m = (mm_protected_raw m, mm_tag m)"

definition mm_genuine :: "cbor2 \<Rightarrow> macer set \<Rightarrow> bytes \<times> bytes \<Rightarrow> bool" where
  "mm_genuine cb S = (\<lambda>(raw, t). \<exists>mc \<in> S. \<exists>aad content tbm.
     mm_to_be_maced cb raw aad content = Inr tbm \<and> mc_create mc tbm = Inr t)"

text \<open>What a step may leave: an open message, an untouched seal, or a new genuine one.\<close>

definition mm_progress :: "cbor2 \<Rightarrow> macer set \<Rightarrow> mac_message \<Rightarrow> mac_message \<Rightarrow> bool" where
  "mm_progress cb S m m' \<longleftrightarrow> mm_state m' \<noteq> Complete \<or>
     mm_state m = Complete \<and> mm_sealed m' = mm_sealed m \<or> mm_genuine cb S (mm_sealed m')"

lemma mm_prepare_progress:
  "mm_prepare_tag cb m a k aad = (r, m') \<Longrightarrow> mm_progress cb S m m'"
  "mm_prepare_detached_tag cb m a k d aad = (r, m') \<Longrightarrow> mm_progress cb S m m'"
  by (auto simp: mm_prepare_tag_def mm_prepare_detached_tag_def mm_progress_def mm_sealed_def
      split: prod.splits sum.splits elim!: mm_prepare_headers_cases)

lemma mm_failed_progress:
  "mm_compute cb m mc aad = (Inl e, m') \<Longrightarrow> mm_progress cb S m m'"
  "mm_compute_detached cb m mc d aad = (Inl e, m') \<Longrightarrow> mm_progress cb S m m'"
  by (auto simp: mm_compute_def mm_compute_detached_def mm_progress_def mm_sealed_def
      split: prod.splits sum.splits elim!: mm_prepare_headers_cases)

lemma mm_sealed_progress:
  "mm_sealed_with cb m mc aad content m' \<Longrightarrow> mc \<in> S \<Longrightarrow> mm_progress cb S m m'"
  by (auto simp: mm_sealed_with_def mm_progress_def mm_genuine_def mm_sealed_def)

lemma mm_step_progress: "mm_step cb S m m' \<Longrightarrow> mm_progress cb S m m'"
proof (induction rule: mm_step.induct)
  case (compute mc m aad r' m')
  show ?case
  proof (cases r')
    case Inl
    then show ?thesis using compute(2) mm_failed_progress(1) by simp
  next
    case Inr
    then show ?thesis using compute by (auto elim!: mm_compute_ok intro: mm_sealed_progress)
  qed
next
  case (compute_detached mc m d aad r' m')
  show ?case
  proof (cases r')
    case Inl
    then show ?thesis using compute_detached(2) mm_failed_progress(2) by simp
  next
    case Inr
    then show ?thesis using compute_detached
      by (auto dest!: mm_compute_detached_ok intro: mm_sealed_progress)
  qed
qed (auto simp: mm_progress_def mm_sealed_def dest: mm_prepare_progress)

interpretation mm: sealed_layer mm_state mm_sealed "\<lambda>m. \<exists>p. m = mm_new p" "mm_step cb S"
    "mm_genuine cb S" for cb S
  by unfold_locales (auto simp: mm_new_def mm_progress_def dest: mm_step_progress)

section \<open>Properties\<close>

text \<open>
  C39. A tag that \<open>compute\<close> stored is accepted by \<open>verify\<close>, and one that
  \<open>compute_detached\<close> stored by \<open>verify_detached\<close> over the same payload, with the same provider
  and external data, when the provider understands the message's critical headers.
\<close>

theorem mac_compute_then_verify:
  assumes "wf_bt (mm_protected m)" and "wf_bt (mm_unprotected m)" and "sound_macer mc"
    and "crit_understood cb (mm_protected m') (mc_understood mc)"
  shows "(mm_compute cb m mc aad = (Inr (), m') \<longrightarrow> mm_verify cb m' mc aad = Inr ()) \<and>
    (mm_compute_detached cb m mc d aad = (Inr (), m') \<longrightarrow> mm_verify_detached cb m' mc d aad = Inr ())"
proof (intro conjI impI)
  assume "mm_compute cb m mc aad = (Inr (), m')"
  then show "mm_verify cb m' mc aad = Inr ()"
    using mm_sealed_verifies [OF _ assms]
    by (elim mm_compute_ok) (auto simp: mm_verify_ok mm_sealed_with_def)
next
  assume "mm_compute_detached cb m mc d aad = (Inr (), m')"
  then have "mm_payload m' = None" and sealed: "mm_sealed_with cb m mc (unwrap_or_empty aad) d m'"
    using mm_compute_detached_ok by blast+
  moreover have "mm_state m' = Complete" using sealed by (auto simp: mm_sealed_with_def)
  ultimately show "mm_verify_detached cb m' mc d aad = Inr ()"
    using mm_sealed_verifies [OF sealed assms] by (simp add: mm_verify_detached_ok)
qed

definition demo_mac :: mac_message where
  "demo_mac = \<lparr>mm_protected = [(LInt 1, VInteger 5)], mm_unprotected = [], mm_payload = Some [7],
     mm_recipients = [demo_direct],
     mm_tag = [90, 7, 65, 64, 5, 1, 161, 67, 67, 65, 77, 99, 132],
     mm_protected_raw = [161, 1, 5], mm_state = Complete\<rparr>"

definition demo_mac_new :: mac_message where
  "demo_mac_new = (mm_new (Some [7]))\<lparr>mm_recipients := [demo_direct]\<rparr>"

lemma demo_mac_computed: "mm_compute ref_cbor demo_mac_new demo_macer None = (Inr (), demo_mac)"
  by code_simp

lemma demo_mac_crit: "crit_understood ref_cbor (mm_protected demo_mac) []"
  by (intro crit_understood_no_crit) (simp add: demo_mac_def crit_None)

theorem mac_compute_then_verify_witness:
  "mm_verify ref_cbor demo_mac demo_macer None = Inr ()"
  using mac_compute_then_verify [of demo_mac_new demo_macer ref_cbor demo_mac]
    demo_mac_computed demo_mac_crit demo_macer_sound
  by (simp add: demo_mac_new_def mm_new_def demo_macer_def)

text \<open>
  Whatever calls are made on a new message, with any outcomes, its tag can
  be encoded only after a provider in use created it over a \<open>MAC_structure\<close> with the
  protected bytes that are written and the protected bucket still denotes, and only while the
  recipients are valid.
\<close>

theorem mac_encodes_only_maced:
  assumes "(mm_step cb S)\<^sup>*\<^sup>* (mm_new payload) m" and "mm_encode cb m prefix = Inr out"
  shows "validate_message_recipients cb (mm_recipients m) ''MacMessage'' = Inr () \<and>
    validate_layer cb (mm_protected m) (mm_unprotected m) (mm_protected_raw m) = Inr () \<and>
    (\<exists>mc \<in> S. \<exists>aad content tbm. mm_to_be_maced cb (mm_protected_raw m) aad content = Inr tbm \<and>
      mc_create mc tbm = Inr (mm_tag m))"
proof -
  have c: "mm_state m = Complete \<and>
      validate_message_recipients cb (mm_recipients m) ''MacMessage'' = Inr () \<and>
      validate_layer cb (mm_protected m) (mm_unprotected m) (mm_protected_raw m) = Inr ()"
    using assms(2) by (auto simp: mm_encode_def andThen_eq_Inr require_complete_ok)
  then have "mm_genuine cb S (mm_sealed m)" by (intro mm.complete_is_genuine [OF _ assms(1)]) auto
  then show ?thesis using c by (auto simp: mm_genuine_def mm_sealed_def)
qed

theorem mac_encodes_only_maced_witness:
  "\<exists>mc \<in> {demo_macer}. \<exists>aad content tbm.
    mm_to_be_maced ref_cbor (mm_protected_raw demo_mac) aad content = Inr tbm \<and>
    mc_create mc tbm = Inr (mm_tag demo_mac)"
proof -
  have "is_ok (mm_encode ref_cbor demo_mac [])" by code_simp
  then obtain out where "mm_encode ref_cbor demo_mac [] = Inr out" by (auto simp: is_ok_iff)
  moreover have "(mm_step ref_cbor {demo_macer})\<^sup>*\<^sup>* (mm_new (Some [7])) demo_mac"
  proof (rule converse_rtranclp_into_rtranclp)
    have "mm_step ref_cbor {demo_macer} (mm_new (Some [7]))
        ((mm_new (Some [7]))\<lparr>mm_protected := [], mm_unprotected := [], mm_payload := Some [7],
           mm_recipients := [demo_direct]\<rparr>)" by (rule mm_step.assign)
    then show "mm_step ref_cbor {demo_macer} (mm_new (Some [7])) demo_mac_new"
      by (simp add: demo_mac_new_def mm_new_def)
    show "(mm_step ref_cbor {demo_macer})\<^sup>*\<^sup>* demo_mac_new demo_mac"
      by (rule r_into_rtranclp, rule mm_step.compute [OF _ demo_mac_computed]) simp
  qed
  ultimately show ?thesis using mac_encodes_only_maced by blast
qed

end
