(* ===== verification/Encrypt.thy ===== *)
theory Encrypt
  imports Encrypt0 Recipient
begin

text \<open>
  \<open>src/src/encrypt.rs\<close>: \<open>COSE_Encrypt\<close>, content encrypted under a key that one or more recipients
  can recover. As in \<open>Mac\<close>, preparing, completing and encoding validate the recipients first.
\<close>

record encrypt_message =
  em_protected :: header
  em_unprotected :: header
  em_payload :: "bytes option"
  em_recipients :: "recipient list"
  em_ciphertext :: bytes
  em_detached :: bool
  em_protected_raw :: bytes
  em_state :: operation_state

definition em_new :: "bytes option \<Rightarrow> encrypt_message" where
  "em_new payload = \<lparr>em_protected = [], em_unprotected = [], em_payload = payload,
     em_recipients = [], em_ciphertext = [], em_detached = False, em_protected_raw = [], em_state = New\<rparr>"

definition em_to_be_encrypted :: "cbor2 \<Rightarrow> bytes \<Rightarrow> bytes \<Rightarrow> error + bytes" where
  "em_to_be_encrypted cb protected_raw external_aad =
     encode_structure cb [FText ''Encrypt'', FBytes protected_raw, FBytes external_aad]"

section \<open>Encryption\<close>

definition em_prepare_encryption ::
  "cbor2 \<Rightarrow> encrypt_message \<Rightarrow> label option \<Rightarrow> bytes option \<Rightarrow> nat \<Rightarrow> bytes option \<Rightarrow> bytes option \<Rightarrow>
    (error + encryption_context) \<times> encrypt_message"
where
  "em_prepare_encryption cb self a k nonce_size base_iv external_aad =
     (case validate_message_recipients cb (em_recipients self) ''EncryptMessage'' of
        Inl e \<Rightarrow> (Inl e, self)
      | Inr _ \<Rightarrow>
          (case prepare_headers cb (em_protected self) (em_unprotected self) a k of
             (Inl e, p, u) \<Rightarrow> (Inl e, self\<lparr>em_protected := p, em_unprotected := u\<rparr>)
           | (Inr raw, p, u) \<Rightarrow>
               let self' = self\<lparr>em_protected := p, em_unprotected := u\<rparr> in
               (case andThen (require_plaintext (em_payload self') ''EncryptMessage::prepare_encryption'')
                     (\<lambda>_.
                     andThen (nonce_from_header_values p u nonce_size base_iv) (\<lambda>nonce.
                     andThen (em_to_be_encrypted cb raw (unwrap_or_empty external_aad)) (\<lambda>aad.
                     Inr \<lparr>ec_nonce = nonce, ec_aad = aad\<rparr>))) of
                  Inl e \<Rightarrow> (Inl e, self')
                | Inr context \<Rightarrow>
                    (Inr context, self'\<lparr>em_protected_raw := raw, em_state := Prepared,
                       em_ciphertext := [], em_detached := False\<rparr>))))"

definition em_set_ciphertext ::
  "cbor2 \<Rightarrow> encrypt_message \<Rightarrow> bytes \<Rightarrow> bool \<Rightarrow> (error + unit) \<times> encrypt_message"
where
  "em_set_ciphertext cb self ciphertext detached =
     (case andThen (validate_message_recipients cb (em_recipients self) ''EncryptMessage'') (\<lambda>_.
           sync_protected_raw cb (em_protected self) (em_unprotected self) (em_protected_raw self)
             (em_state self)) of
        Inl e \<Rightarrow> (Inl e, self)
      | Inr raw \<Rightarrow>
          (Inr (), self\<lparr>em_protected_raw := raw, em_ciphertext := ciphertext,
             em_detached := detached, em_state := Complete\<rparr>))"

definition em_encrypt ::
  "cbor2 \<Rightarrow> encrypt_message \<Rightarrow> encryptor \<Rightarrow> bytes option \<Rightarrow> (error + unit) \<times> encrypt_message"
where
  "em_encrypt cb self en external_aad =
     (case em_prepare_encryption cb self (en_alg en) (en_kid en) (en_nonce_size en) (en_base_iv en)
         external_aad of
        (Inl e, self') \<Rightarrow> (Inl e, self')
      | (Inr context, self') \<Rightarrow>
          (case andThen (require_plaintext (em_payload self') ''EncryptMessage::encrypt'') (\<lambda>plaintext.
                en_encrypt en (ec_nonce context) plaintext (ec_aad context)) of
             Inl e \<Rightarrow> (Inl e, self')
           | Inr c \<Rightarrow> (Inr (), self'\<lparr>em_ciphertext := c, em_state := Complete\<rparr>)))"

definition em_encrypt_detached ::
  "cbor2 \<Rightarrow> encrypt_message \<Rightarrow> encryptor \<Rightarrow> bytes option \<Rightarrow> (error + bytes) \<times> encrypt_message"
where
  "em_encrypt_detached cb self en external_aad =
     (case em_encrypt cb self en external_aad of
        (Inl e, self') \<Rightarrow> (Inl e, self')
      | (Inr _, self') \<Rightarrow> (Inr (em_ciphertext self'), self'\<lparr>em_detached := True\<rparr>))"

section \<open>Encoding and decoding\<close>

definition em_encode :: "cbor2 \<Rightarrow> encrypt_message \<Rightarrow> bytes \<Rightarrow> error + bytes" where
  "em_encode cb self prefix =
     andThen (require_complete (em_state self) ''EncryptMessage must be encrypted before encoding'') (\<lambda>_.
     andThen (validate_message_recipients cb (em_recipients self) ''EncryptMessage'') (\<lambda>_.
     andThen (validate_layer cb (em_protected self) (em_unprotected self) (em_protected_raw self)) (\<lambda>_.
     let ciphertext = (if em_detached self then FNull else FBytes (em_ciphertext self)) in
     andThen (header_raw cb (em_unprotected self)) (\<lambda>unprotected.
     andThen (canonical_recipients cb (em_recipients self)) (\<lambda>recipients.
     encode_prefixed cb prefix
       [FBytes (em_protected_raw self), FRaw unprotected, ciphertext, FRaw recipients])))))"

definition em_to_vec :: "cbor2 \<Rightarrow> encrypt_message \<Rightarrow> error + bytes" where
  "em_to_vec cb self = em_encode cb self ENCRYPT_PREFIX"

definition em_to_cwt_vec :: "cbor2 \<Rightarrow> encrypt_message \<Rightarrow> error + bytes" where
  "em_to_cwt_vec cb self = em_encode cb self (CWT_PREFIX @ ENCRYPT_PREFIX)"

definition em_to_untagged_vec :: "cbor2 \<Rightarrow> encrypt_message \<Rightarrow> error + bytes" where
  "em_to_untagged_vec cb self = em_encode cb self []"

definition em_encrypt_and_encode ::
  "cbor2 \<Rightarrow> encrypt_message \<Rightarrow> encryptor \<Rightarrow> bytes option \<Rightarrow> (error + bytes) \<times> encrypt_message"
where
  "em_encrypt_and_encode cb self en external_aad =
     (case em_encrypt cb self en external_aad of
        (Inl e, self') \<Rightarrow> (Inl e, self')
      | (Inr _, self') \<Rightarrow> (em_to_vec cb self', self'))"

text \<open>The ciphertext is moved out of the message (\<open>std::mem::take\<close>).\<close>

definition em_encrypt_detached_and_encode ::
  "cbor2 \<Rightarrow> encrypt_message \<Rightarrow> encryptor \<Rightarrow> bytes option \<Rightarrow> (error + (bytes \<times> bytes)) \<times> encrypt_message"
where
  "em_encrypt_detached_and_encode cb self en external_aad =
     (case em_encrypt_detached cb self en external_aad of
        (Inl e, self') \<Rightarrow> (Inl e, self')
      | (Inr _, self') \<Rightarrow>
          (case em_to_vec cb self' of
             Inl e \<Rightarrow> (Inl e, self')
           | Inr encoded \<Rightarrow> (Inr (encoded, em_ciphertext self'), self'\<lparr>em_ciphertext := []\<rparr>)))"

definition em_from_slice :: "cbor2 \<Rightarrow> bytes \<Rightarrow> error + encrypt_message" where
  "em_from_slice cb data =
     andThen (tag_message_body cb data CBORTagCOSEEncrypt) (\<lambda>body.
     andThen (map_err Cbor (lib_from_slice_encrypt cb label_visitor body))
       (\<lambda>(protected_raw, entries, wire_ciphertext, wire_recipients).
     andThen (deserialize_checked entries) (\<lambda>unprotected.
     andThen (map_err Cbor (traverse (recipient_visitor cb) wire_recipients)) (\<lambda>recipients.
     andThen (validate_decoded_recipients recipients ''EncryptMessage'') (\<lambda>_.
     andThen (decode_protected cb protected_raw) (\<lambda>protected.
     andThen (validate_header_buckets protected unprotected) (\<lambda>_.
     let (ciphertext, detached) =
           (case wire_ciphertext of Some c \<Rightarrow> (c, False) | None \<Rightarrow> ([], True)) in
     Inr \<lparr>em_protected = protected, em_unprotected = unprotected, em_payload = None,
          em_recipients = recipients, em_ciphertext = ciphertext, em_detached = detached,
          em_protected_raw = protected_raw, em_state = Complete\<rparr>)))))))"

section \<open>Decryption\<close>

definition em_prepare_decryption_with_crit ::
  "cbor2 \<Rightarrow> encrypt_message \<Rightarrow> label option \<Rightarrow> nat \<Rightarrow> bytes option \<Rightarrow> bytes option \<Rightarrow> label list \<Rightarrow>
    error + encryption_context"
where
  "em_prepare_decryption_with_crit cb self a nonce_size base_iv external_aad understood =
     andThen (require_complete (em_state self) ''EncryptMessage must be decoded before decrypting'') (\<lambda>_.
     andThen (validate_layer cb (em_protected self) (em_unprotected self) (em_protected_raw self)) (\<lambda>_.
     andThen (ensure_crit_understood cb (em_protected self) understood) (\<lambda>_.
     andThen (check_protected_alg (em_protected self) (em_unprotected self) a) (\<lambda>_.
     andThen (nonce_from_header_values (em_protected self) (em_unprotected self) nonce_size base_iv) (\<lambda>nonce.
     andThen (em_to_be_encrypted cb (em_protected_raw self) (unwrap_or_empty external_aad)) (\<lambda>aad.
     Inr \<lparr>ec_nonce = nonce, ec_aad = aad\<rparr>))))))"

definition em_prepare_decryption ::
  "cbor2 \<Rightarrow> encrypt_message \<Rightarrow> label option \<Rightarrow> nat \<Rightarrow> bytes option \<Rightarrow> bytes option \<Rightarrow> error + encryption_context"
where
  "em_prepare_decryption cb self a nonce_size base_iv external_aad =
     em_prepare_decryption_with_crit cb self a nonce_size base_iv external_aad []"

text \<open>\<open>open\<close> is the shared tail of the two decryption methods.\<close>

definition em_open ::
  "cbor2 \<Rightarrow> encrypt_message \<Rightarrow> encryptor \<Rightarrow> bytes \<Rightarrow> bytes option \<Rightarrow> error + bytes"
where
  "em_open cb self en ciphertext external_aad =
     andThen (em_prepare_decryption_with_crit cb self (en_alg en) (en_nonce_size en) (en_base_iv en)
         external_aad (en_understood en)) (\<lambda>context.
     en_decrypt en (ec_nonce context) ciphertext (ec_aad context))"

definition em_decrypt ::
  "cbor2 \<Rightarrow> encrypt_message \<Rightarrow> encryptor \<Rightarrow> bytes option \<Rightarrow> (error + bytes) \<times> encrypt_message"
where
  "em_decrypt cb self en external_aad =
     (case andThen (require_complete (em_state self) ''EncryptMessage must be decoded before decrypting'') (\<lambda>_.
           if em_detached self
           then Inl (Custom ''EncryptMessage has detached ciphertext; use decrypt_detached'')
           else em_open cb self en (em_ciphertext self) external_aad) of
        Inl e \<Rightarrow> (Inl e, self)
      | Inr plaintext \<Rightarrow> (Inr plaintext, self\<lparr>em_payload := Some plaintext\<rparr>))"

definition em_decrypt_detached ::
  "cbor2 \<Rightarrow> encrypt_message \<Rightarrow> encryptor \<Rightarrow> bytes \<Rightarrow> bytes option \<Rightarrow> (error + bytes) \<times> encrypt_message"
where
  "em_decrypt_detached cb self en detached_ciphertext external_aad =
     (case andThen (require_complete (em_state self) ''EncryptMessage must be decoded before decrypting'') (\<lambda>_.
           if \<not> em_detached self
           then Inl (Custom ''EncryptMessage carries embedded ciphertext; use decrypt'')
           else em_open cb self en detached_ciphertext external_aad) of
        Inl e \<Rightarrow> (Inl e, self)
      | Inr plaintext \<Rightarrow>
          (Inr plaintext, self\<lparr>em_ciphertext := detached_ciphertext, em_payload := Some plaintext\<rparr>))"

definition em_decrypt_and_decode ::
  "cbor2 \<Rightarrow> encryptor \<Rightarrow> bytes \<Rightarrow> bytes option \<Rightarrow> error + encrypt_message"
where
  "em_decrypt_and_decode cb en data external_aad =
     andThen (em_from_slice cb data) (\<lambda>msg.
     case em_decrypt cb msg en external_aad of
       (Inl e, _) \<Rightarrow> Inl e
     | (Inr _, msg') \<Rightarrow> Inr msg')"

definition em_decrypt_detached_and_decode ::
  "cbor2 \<Rightarrow> encryptor \<Rightarrow> bytes \<Rightarrow> bytes \<Rightarrow> bytes option \<Rightarrow> error + encrypt_message"
where
  "em_decrypt_detached_and_decode cb en data detached_ciphertext external_aad =
     andThen (em_from_slice cb data) (\<lambda>msg.
     case em_decrypt_detached cb msg en detached_ciphertext external_aad of
       (Inl e, _) \<Rightarrow> Inl e
     | (Inr _, msg') \<Rightarrow> Inr msg')"

end
