(* ===== verification/EncryptProps.thy ===== *)
theory EncryptProps
  imports Encrypt Encrypt0Props RecipientProps
begin

text \<open>
  \<open>COSE_Encrypt\<close>: decryption returns the plaintext that was encrypted, and a message is encoded
  only with valid recipients and a ciphertext that a provider produced under the
  authenticated protected bytes that are written.
\<close>

lemma em_prepare_encryption_ok:
  assumes "em_prepare_encryption cb m a k n base aad = (Inr ctx, m')"
  obtains raw p u nonce tbe plaintext where "ctx = \<lparr>ec_nonce = nonce, ec_aad = tbe\<rparr>"
      "prepare_headers cb (em_protected m) (em_unprotected m) a k = (Inr raw, p, u)"
      "nonce_from_header_values p u n base = Inr nonce"
      "em_to_be_encrypted cb raw (unwrap_or_empty aad) = Inr tbe" "em_payload m = Some plaintext"
      "m' = m\<lparr>em_protected := p, em_unprotected := u, em_protected_raw := raw, em_state := Prepared,
         em_ciphertext := [], em_detached := False\<rparr>"
proof -
  obtain raw p u where prep: "prepare_headers cb (em_protected m) (em_unprotected m) a k = (Inr raw, p, u)"
    using assms
    by (cases "validate_message_recipients cb (em_recipients m) ''EncryptMessage''")
      (auto simp: em_prepare_encryption_def split: prod.splits sum.splits)
  then show thesis using assms
    by (cases "validate_message_recipients cb (em_recipients m) ''EncryptMessage''")
      (auto simp: em_prepare_encryption_def Let_def require_plaintext_def result_simps intro!: that)
qed

lemma em_encrypt_ok:
  assumes "em_encrypt cb m en aad = (Inr (), m')"
  obtains raw p u nonce tbe plaintext c where
    "prepare_headers cb (em_protected m) (em_unprotected m) (en_alg en) (en_kid en) = (Inr raw, p, u)"
    "nonce_from_header_values p u (en_nonce_size en) (en_base_iv en) = Inr nonce"
    "em_to_be_encrypted cb raw (unwrap_or_empty aad) = Inr tbe"
    "em_payload m = Some plaintext" "en_encrypt en nonce plaintext tbe = Inr c"
    "m' = m\<lparr>em_protected := p, em_unprotected := u, em_protected_raw := raw, em_state := Complete,
       em_ciphertext := c, em_detached := False\<rparr>"
proof -
  obtain ctx m1 where prep: "em_prepare_encryption cb m (en_alg en) (en_kid en) (en_nonce_size en)
      (en_base_iv en) aad = (Inr ctx, m1)"
    using assms by (auto simp: em_encrypt_def split: prod.splits sum.splits)
  then show thesis
  proof (rule em_prepare_encryption_ok)
    fix raw p u nonce tbe plaintext
    assume ctx: "ctx = \<lparr>ec_nonce = nonce, ec_aad = tbe\<rparr>"
      and ready: "prepare_headers cb (em_protected m) (em_unprotected m) (en_alg en) (en_kid en) = (Inr raw, p, u)"
        "nonce_from_header_values p u (en_nonce_size en) (en_base_iv en) = Inr nonce"
        "em_to_be_encrypted cb raw (unwrap_or_empty aad) = Inr tbe" "em_payload m = Some plaintext"
      and m1: "m1 = m\<lparr>em_protected := p, em_unprotected := u, em_protected_raw := raw,
        em_state := Prepared, em_ciphertext := [], em_detached := False\<rparr>"
    obtain c where "en_encrypt en nonce plaintext tbe = Inr c"
        "m' = m1\<lparr>em_ciphertext := c, em_state := Complete\<rparr>"
      using assms prep ready(4) unfolding m1 ctx
      by (auto simp: em_encrypt_def require_plaintext_def andThen_eq_Inr ok_or_eq split: sum.splits)
    then show thesis using ready by (intro that) (auto simp: m1)
  qed
qed

lemma em_open_ok:
  "em_open cb m en c aad = Inr pt \<longleftrightarrow> em_state m = Complete \<and>
    validate_layer cb (em_protected m) (em_unprotected m) (em_protected_raw m) = Inr () \<and>
    crit_understood cb (em_protected m) (en_understood en) \<and>
    check_protected_alg (em_protected m) (em_unprotected m) (en_alg en) = Inr () \<and>
    (\<exists>nonce tbe. nonce_from_header_values (em_protected m) (em_unprotected m) (en_nonce_size en)
         (en_base_iv en) = Inr nonce \<and>
       em_to_be_encrypted cb (em_protected_raw m) (unwrap_or_empty aad) = Inr tbe \<and>
       en_decrypt en nonce c tbe = Inr pt)"
  by (auto simp: em_open_def em_prepare_decryption_with_crit_def andThen_eq_Inr require_complete_ok
      validate_layer_ok ensure_crit_understood_ok buckets_ok_def)

section \<open>The life of a message\<close>

text \<open>
  The calls that use a provider, with any outcome, and assignments to the public fields.
  \<open>encrypt_detached_and_encode\<close> moves the ciphertext out of a detached message, whose
  encoding does not carry it: the seal is the ciphertext of an attached message. A caller of
  \<open>set_ciphertext\<close> answers for the ciphertext it installs.
\<close>

inductive em_step :: "cbor2 \<Rightarrow> encryptor set \<Rightarrow> encrypt_message \<Rightarrow> encrypt_message \<Rightarrow> bool" for cb S where
  prepare: "em_prepare_encryption cb m a k n base aad = (r, m') \<Longrightarrow> em_step cb S m m'"
| encrypt: "en \<in> S \<Longrightarrow> em_encrypt cb m en aad = (r', m') \<Longrightarrow> em_step cb S m m'"
| encrypt_detached: "en \<in> S \<Longrightarrow> em_encrypt_detached cb m en aad = (r2, m') \<Longrightarrow> em_step cb S m m'"
| encrypt_detached_and_encode:
    "en \<in> S \<Longrightarrow> em_encrypt_detached_and_encode cb m en aad = (r3, m') \<Longrightarrow> em_step cb S m m'"
| decrypt: "em_decrypt cb m en aad = (r4, m') \<Longrightarrow> em_step cb S m m'"
| decrypt_detached: "em_decrypt_detached cb m en c aad = (r4, m') \<Longrightarrow> em_step cb S m m'"
| assign: "em_step cb S m (m\<lparr>em_protected := p, em_unprotected := u, em_payload := pl,
    em_recipients := rs\<rparr>)"

definition em_sealed :: "encrypt_message \<Rightarrow> bytes \<times> bytes option" where
  "em_sealed m = (em_protected_raw m, if em_detached m then None else Some (em_ciphertext m))"

definition em_genuine :: "cbor2 \<Rightarrow> encryptor set \<Rightarrow> bytes \<times> bytes option \<Rightarrow> bool" where
  "em_genuine cb S = (\<lambda>(raw, sealed). \<exists>en \<in> S. \<exists>nonce plaintext aad tbe c.
     em_to_be_encrypted cb raw aad = Inr tbe \<and> en_encrypt en nonce plaintext tbe = Inr c \<and>
     length nonce = en_nonce_size en \<and> (sealed = None \<or> sealed = Some c))"

definition em_progress :: "cbor2 \<Rightarrow> encryptor set \<Rightarrow> encrypt_message \<Rightarrow> encrypt_message \<Rightarrow> bool" where
  "em_progress cb S m m' \<longleftrightarrow> em_state m' \<noteq> Complete \<or>
     em_state m = Complete \<and> em_sealed m' = em_sealed m \<or> em_genuine cb S (em_sealed m')"

lemma em_prepare_failed:
  assumes "em_prepare_encryption cb m a k n base aad = (Inl e, m')"
  shows "em_state m' = em_state m \<and> em_sealed m' = em_sealed m"
  using assms
  by (cases "validate_message_recipients cb (em_recipients m) ''EncryptMessage''")
    (auto simp: em_prepare_encryption_def em_sealed_def Let_def split: prod.splits sum.splits)

lemma em_prepare_progress: "em_prepare_encryption cb m a k n base aad = (r, m') \<Longrightarrow> em_progress cb S m m'"
  by (cases r)
    (auto simp: em_progress_def dest: em_prepare_failed elim!: em_prepare_encryption_ok)

text \<open>A successful encryption leaves a genuine seal, also when the ciphertext is detached.\<close>

lemma em_encrypt_genuine:
  assumes "em_encrypt cb m en aad = (Inr (), m')" and "en \<in> S"
  shows "\<not> em_detached m' \<and> em_genuine cb S (em_protected_raw m', Some (em_ciphertext m')) \<and>
    em_genuine cb S (em_protected_raw m', None)"
  using assms(1)
proof (rule em_encrypt_ok)
  fix raw p u nonce tbe plaintext c
  assume "nonce_from_header_values p u (en_nonce_size en) (en_base_iv en) = Inr nonce"
    "em_to_be_encrypted cb raw (unwrap_or_empty aad) = Inr tbe" "en_encrypt en nonce plaintext tbe = Inr c"
    and m': "m' = m\<lparr>em_protected := p, em_unprotected := u, em_protected_raw := raw,
      em_state := Complete, em_ciphertext := c, em_detached := False\<rparr>"
  then have "em_genuine cb S (raw, sealed)" if "sealed = None \<or> sealed = Some c" for sealed
    unfolding em_genuine_def split_conv using assms(2) nonce_length that by blast
  then show ?thesis by (simp add: m')
qed

lemma em_encrypt_failed: "em_encrypt cb m en aad = (Inl e, m') \<Longrightarrow> em_progress cb S m m'"
  by (auto simp: em_encrypt_def split: prod.splits sum.splits intro: em_prepare_progress)

lemma em_encrypt_progress:
  "em_encrypt cb m en aad = (r, m') \<Longrightarrow> en \<in> S \<Longrightarrow> em_progress cb S m m'"
  by (cases r)
    (auto simp: em_progress_def em_sealed_def dest: em_encrypt_genuine em_encrypt_failed [unfolded em_progress_def em_sealed_def])

lemma em_encrypt_detached_progress:
  "em_encrypt_detached cb m en aad = (r, m') \<Longrightarrow> en \<in> S \<Longrightarrow>
    em_progress cb S m m' \<and> (is_ok r \<longrightarrow> em_detached m' \<and> em_genuine cb S (em_protected_raw m', None))"
  by (auto simp: em_encrypt_detached_def split: prod.splits sum.splits dest: em_encrypt_failed
      dest!: em_encrypt_genuine) (auto simp: em_progress_def em_sealed_def)

lemma em_encrypt_detached_and_encode_progress:
  assumes "em_encrypt_detached_and_encode cb m en aad = (r, m')" and "en \<in> S"
  shows "em_progress cb S m m'"
proof -
  obtain r1 m1 where det: "em_encrypt_detached cb m en aad = (r1, m1)" by fastforce
  note done1 = em_encrypt_detached_progress [OF det assms(2)]
  show ?thesis
    using assms(1) det done1
    by (auto simp: em_encrypt_detached_and_encode_def em_progress_def em_sealed_def split: sum.splits)
qed

lemma em_decrypt_progress:
  "em_decrypt cb m en aad = (r, m') \<Longrightarrow> em_progress cb S m m'"
  "em_decrypt_detached cb m en c aad = (r, m') \<Longrightarrow> em_progress cb S m m'"
proof -
  show "em_decrypt cb m en aad = (r, m') \<Longrightarrow> em_progress cb S m m'"
    by (auto simp: em_decrypt_def em_progress_def em_sealed_def split: sum.splits)
  assume d: "em_decrypt_detached cb m en c aad = (r, m')"
  show "em_progress cb S m m'"
  proof (cases "em_detached m")
    case True
    then show ?thesis using d
      by (auto simp: em_decrypt_detached_def em_progress_def em_sealed_def split: sum.splits)
  next
    case False
    then have "m' = m" using d
      by (auto simp: em_decrypt_detached_def result_simps split: sum.splits)
    then show ?thesis by (auto simp: em_progress_def)
  qed
qed

lemma em_step_progress: "em_step cb S m m' \<Longrightarrow> em_progress cb S m m'"
proof (induction rule: em_step.induct)
  case (assign m p u pl rs)
  then show ?case by (simp add: em_progress_def em_sealed_def)
qed (blast intro: em_prepare_progress em_encrypt_progress em_encrypt_detached_progress [THEN conjunct1]
    em_encrypt_detached_and_encode_progress em_decrypt_progress)+

interpretation em: sealed_layer em_state em_sealed "\<lambda>m. \<exists>p. m = em_new p" "em_step cb S"
    "em_genuine cb S" for cb S
  by unfold_locales (auto simp: em_new_def em_progress_def dest: em_step_progress)

section \<open>Properties\<close>

text \<open>
  C40. Decrypting what \<open>encrypt\<close> produced returns the plaintext, under the
  same provider and external data: both sides derive the same nonce from the headers and
  authenticate the same \<open>Enc_structure\<close>. The nonce has the provider's size.
\<close>

theorem encrypt_encrypt_then_decrypt:
  assumes "em_encrypt cb m en aad = (Inr (), m')"
    and "wf_bt (em_protected m)" and "wf_bt (em_unprotected m)" and "sound_encryptor en"
    and "crit_understood cb (em_protected m') (en_understood en)"
  shows "\<exists>plaintext. em_payload m = Some plaintext \<and>
    em_decrypt cb (m'\<lparr>em_payload := None\<rparr>) en aad = (Inr plaintext, m') \<and>
    fst (em_decrypt_detached cb (m'\<lparr>em_detached := True\<rparr>) en (em_ciphertext m') aad) = Inr plaintext"
  using assms(1)
proof (rule em_encrypt_ok)
  fix raw p u nonce tbe plaintext c
  assume prep: "prepare_headers cb (em_protected m) (em_unprotected m) (en_alg en) (en_kid en) = (Inr raw, p, u)"
    and nonce: "nonce_from_header_values p u (en_nonce_size en) (en_base_iv en) = Inr nonce"
    and tbe: "em_to_be_encrypted cb raw (unwrap_or_empty aad) = Inr tbe"
    and enc: "em_payload m = Some plaintext" "en_encrypt en nonce plaintext tbe = Inr c"
    and m': "m' = m\<lparr>em_protected := p, em_unprotected := u, em_protected_raw := raw,
      em_state := Complete, em_ciphertext := c, em_detached := False\<rparr>"
  note ready = prepare_headers_ok [OF prep assms(2,3)]
  have alg: "check_protected_alg p u (en_alg en) = Inr ()"
    using assms(4) by (intro prepared_alg_ok [OF ready]) (auto simp: sound_encryptor_def)
  have dec: "en_decrypt en nonce c tbe = Inr plaintext"
    using assms(4) enc(2) nonce_length [OF nonce] by (auto simp: sound_encryptor_def)
  have "em_open cb (m'\<lparr>em_payload := None\<rparr>) en c aad = Inr plaintext"
    and "em_open cb (m'\<lparr>em_detached := True\<rparr>) en c aad = Inr plaintext"
    using prepared_layer_ok [OF ready] alg nonce tbe dec assms(5) by (auto simp: em_open_ok m')
  then show ?thesis using enc(1)
    by (auto simp: em_decrypt_def em_decrypt_detached_def require_complete_def complete_def m')
qed

definition demo_plain :: encrypt_message where
  "demo_plain = (em_new (Some [7, 8]))\<lparr>em_unprotected := [(LInt 5, VBytes [1, 2])],
     em_recipients := [demo_direct]\<rparr>"

definition demo_encrypt :: encrypt_message where
  "demo_encrypt = \<lparr>em_protected = [(LInt 1, VInteger 1)], em_unprotected = [(LInt 5, VBytes [1, 2])],
     em_payload = Some [7, 8], em_recipients = [demo_direct], em_ciphertext = [1, 2, 7, 8], em_detached = False,
     em_protected_raw = [161, 1, 1], em_state = Complete\<rparr>"

lemma demo_encrypt_encrypted: "em_encrypt ref_cbor demo_plain demo_encryptor None = (Inr (), demo_encrypt)"
  by code_simp

theorem encrypt_encrypt_then_decrypt_witness:
  "em_decrypt ref_cbor (demo_encrypt\<lparr>em_payload := None\<rparr>) demo_encryptor None = (Inr [7, 8], demo_encrypt)"
proof -
  have "sound_encryptor demo_encryptor"
    by (auto simp: sound_encryptor_def demo_encryptor_def in_i64_def)
  moreover have "crit_understood ref_cbor (em_protected demo_encrypt) (en_understood demo_encryptor)"
    by (intro crit_understood_no_crit) (simp add: demo_encrypt_def crit_None)
  ultimately show ?thesis
    using encrypt_encrypt_then_decrypt [OF demo_encrypt_encrypted]
    by (simp add: demo_plain_def em_new_def)
qed

text \<open>
  Whatever calls are made on a new message, with any outcomes, it can be
  encoded only while its recipients and layer are valid and after a provider in use encrypted
  under the protected bytes that are written; an attached ciphertext is that provider's.
\<close>

theorem encrypt_encodes_only_encrypted:
  assumes "(em_step cb S)\<^sup>*\<^sup>* (em_new payload) m" and "em_encode cb m prefix = Inr out"
  shows "validate_message_recipients cb (em_recipients m) ''EncryptMessage'' = Inr () \<and>
    validate_layer cb (em_protected m) (em_unprotected m) (em_protected_raw m) = Inr () \<and>
    (\<exists>en \<in> S. \<exists>nonce plaintext aad tbe c. em_to_be_encrypted cb (em_protected_raw m) aad = Inr tbe \<and>
      length nonce = en_nonce_size en \<and> en_encrypt en nonce plaintext tbe = Inr c \<and>
      (em_detached m \<or> em_ciphertext m = c))"
proof -
  have c: "em_state m = Complete \<and>
      validate_message_recipients cb (em_recipients m) ''EncryptMessage'' = Inr () \<and>
      validate_layer cb (em_protected m) (em_unprotected m) (em_protected_raw m) = Inr ()"
    using assms(2) by (auto simp: em_encode_def andThen_eq_Inr require_complete_ok)
  then have "em_genuine cb S (em_sealed m)" by (intro em.complete_is_genuine [OF _ assms(1)]) auto
  then show ?thesis using c by (auto simp: em_genuine_def em_sealed_def split: if_splits) blast+
qed

theorem encrypt_encodes_only_encrypted_witness:
  "\<exists>en \<in> {demo_encryptor}. \<exists>nonce plaintext tbe.
    en_encrypt en nonce plaintext tbe = Inr (em_ciphertext demo_encrypt)"
proof -
  have "is_ok (em_encode ref_cbor demo_encrypt [])" by code_simp
  then obtain out where out: "em_encode ref_cbor demo_encrypt [] = Inr out" by (auto simp: is_ok_iff)
  have run: "(em_step ref_cbor {demo_encryptor})\<^sup>*\<^sup>* (em_new (Some [7, 8])) demo_encrypt"
  proof (rule converse_rtranclp_into_rtranclp)
    have "em_step ref_cbor {demo_encryptor} (em_new (Some [7, 8]))
        ((em_new (Some [7, 8]))\<lparr>em_protected := [], em_unprotected := [(LInt 5, VBytes [1, 2])],
           em_payload := Some [7, 8], em_recipients := [demo_direct]\<rparr>)" by (rule em_step.assign)
    then show "em_step ref_cbor {demo_encryptor} (em_new (Some [7, 8])) demo_plain"
      by (simp add: demo_plain_def em_new_def)
    show "(em_step ref_cbor {demo_encryptor})\<^sup>*\<^sup>* demo_plain demo_encrypt"
      by (rule r_into_rtranclp, rule em_step.encrypt [OF _ demo_encrypt_encrypted]) simp
  qed
  have "\<not> em_detached demo_encrypt" by (simp add: demo_encrypt_def)
  then show ?thesis using encrypt_encodes_only_encrypted [OF run out] by blast
qed

end
