(* ===== verification/Separation.thy ===== *)
theory Separation
  imports ReferenceCbor Sign1 Sign Mac0 Mac Encrypt0 Encrypt
begin

text \<open>
  The byte strings that keys are applied to: the \<open>Sig_structure\<close>, \<open>MAC_structure\<close> and
  \<open>Enc_structure\<close> arrays of every message type. Each starts with its own context string, so
  that no authenticated byte string can be read as belonging to another message type or to
  other fields.
\<close>

text \<open>\<open>authenticates cb context parts b\<close>: an operation encodes the named fields as \<open>b\<close>.\<close>

inductive authenticates :: "cbor2 \<Rightarrow> string \<Rightarrow> bytes list \<Rightarrow> bytes \<Rightarrow> bool" for cb where
  sign1: "s1_to_be_signed cb raw aad payload = Inr b \<Longrightarrow>
    authenticates cb ''Signature1'' [raw, aad, payload] b"
| sign: "sm_to_be_signed cb body_raw raw aad payload = Inr b \<Longrightarrow>
    authenticates cb ''Signature'' [body_raw, raw, aad, payload] b"
| countersign: "cs_to_be_signed cb body_raw raw aad payload = Inr b \<Longrightarrow>
    authenticates cb ''CounterSignature'' [body_raw, raw, aad, payload] b"
| mac0: "m0_to_be_maced cb raw aad payload = Inr b \<Longrightarrow>
    authenticates cb ''MAC0'' [raw, aad, payload] b"
| mac: "mm_to_be_maced cb raw aad payload = Inr b \<Longrightarrow>
    authenticates cb ''MAC'' [raw, aad, payload] b"
| encrypt0: "e0_to_be_encrypted cb raw aad = Inr b \<Longrightarrow> authenticates cb ''Encrypt0'' [raw, aad] b"
| encrypt: "em_to_be_encrypted cb raw aad = Inr b \<Longrightarrow> authenticates cb ''Encrypt'' [raw, aad] b"

lemma authenticates_encoded:
  "authenticates cb context parts b \<Longrightarrow> encode_structure cb (FText context # map FBytes parts) = Inr b"
  by (induction rule: authenticates.induct)
    (auto simp: s1_to_be_signed_def sm_to_be_signed_def cs_to_be_signed_def m0_to_be_maced_def
      mm_to_be_maced_def e0_to_be_encrypted_def em_to_be_encrypted_def)

lemma authenticates_shape:
  "authenticates cb context parts b \<Longrightarrow> length context \<le> 16 \<and> length parts \<le> 4"
  by (induction rule: authenticates.induct) auto

text \<open>
  C1. With an encoder that is injective on arrays of strings, one authenticated byte
  string determines the kind of operation and every field it covers: operations of different
  message types never authenticate the same bytes, and no bytes can move from one field to
  another.
\<close>

theorem structures_separated:
  assumes "injective_encoder cb" and "authenticates cb context parts b"
    and "authenticates cb context' parts' b"
    and "list_all (\<lambda>p. length p < usize_limit) (parts @ parts')"
  shows "context' = context \<and> parts' = parts"
proof -
  have "FText context' # map FBytes parts' = FText context # map FBytes parts"
    using assms(4) authenticates_shape [OF assms(2)] authenticates_shape [OF assms(3)]
    by (intro injective_encoderD [OF assms(1) authenticates_encoded [OF assms(3)]
          authenticates_encoded [OF assms(2)]])
      (auto simp: list_all_iff usize_limit_def)
  then show ?thesis by (auto dest: map_injective intro: inj_onI)
qed

theorem structures_separated_witness:
  "\<not> authenticates ref_cbor ''Signature1'' [[1], [], [2]]
     (ref_frags [FText ''MAC0'', FBytes [1], FBytes [], FBytes [2]])"
proof
  let ?b = "ref_frags [FText ''MAC0'', FBytes [1], FBytes [], FBytes [2]]"
  assume other: "authenticates ref_cbor ''Signature1'' [[1], [], [2]] ?b"
  have own: "authenticates ref_cbor ''MAC0'' [[1], [], [2]] ?b"
    by (rule authenticates.mac0) (simp add: m0_to_be_maced_def encode_structure_def ref_cbor_def)
  show False
    using structures_separated [OF ref_cbor_injective own other] by (simp add: usize_limit_def)
qed

end
