(* ===== verification/Kdf.thy ===== *)
theory Kdf
  imports Recipient HeaderLaws
begin

text \<open>
  \<open>src/src/context.rs\<close>: the \<open>COSE_KDF_Context\<close> of RFC 9053. The library hands the encoded
  elements of an array to the visitors; a serialized context is the value that the library
  then encodes. The \<open>PartyInfo\<close> array and the integers in it are decoded by code derived in the
  library, which the record \<open>kdf_codec\<close> stands for.
\<close>

section \<open>Party information\<close>

datatype party_nonce = NonceBytes bytes | NonceInt int

definition validate_party_nonce_integer :: "int \<Rightarrow> error + unit" where
  "validate_party_nonce_integer i =
     (if i < - 1 - (2 ^ 64 - 1) \<or> 2 ^ 64 - 1 < i
      then Inl (UnexpectedType ''integer nonce out of CBOR integer range'') else Inr ())"

fun party_nonce_serialize :: "party_nonce \<Rightarrow> string + value" where
  "party_nonce_serialize (NonceBytes b) = Inr (VBytes b)"
| "party_nonce_serialize (NonceInt i) =
     andThen (map_err error_display (validate_party_nonce_integer i)) (\<lambda>_. Inr (VInteger i))"

text \<open>The visitor methods that the library may call, with their arguments.\<close>

datatype nonce_event =
    NonceVisitBytes bytes | NonceVisitI64 int | NonceVisitU64 nat | NonceVisitI128 int | NonceVisitU128 nat

fun nonce_visit :: "nonce_event \<Rightarrow> string + party_nonce" where
  "nonce_visit (NonceVisitBytes b) = Inr (NonceBytes b)"
| "nonce_visit (NonceVisitI64 i) = Inr (NonceInt i)"
| "nonce_visit (NonceVisitU64 n) = Inr (NonceInt (int n))"
| "nonce_visit (NonceVisitI128 i) =
     andThen (map_err error_display (validate_party_nonce_integer i)) (\<lambda>_. Inr (NonceInt i))"
| "nonce_visit (NonceVisitU128 n) =
     (if 2 ^ 127 \<le> n then Inl ''integer nonce out of CBOR range''
      else andThen (map_err error_display (validate_party_nonce_integer (int n))) (\<lambda>_. Inr (NonceInt (int n))))"

record party_info =
  pi_identity :: "bytes option"
  pi_nonce :: "party_nonce option"
  pi_other :: "bytes option"


text \<open>
  \<open>kc_party\<close>: the three elements of a \<open>PartyInfo\<close>, the first and the last still encoded and the
  nonce as the event for its visitor, absent for null; \<open>kc_uint\<close>: an element of type \<open>u64\<close>.
\<close>

record kdf_codec =
  kc_party :: "bytes \<Rightarrow> string + (bytes \<times> nonce_event option \<times> bytes)"
  kc_uint :: "bytes \<Rightarrow> string + nat"

definition party_info_deserialize :: "cbor2 \<Rightarrow> kdf_codec \<Rightarrow> bytes \<Rightarrow> string + party_info" where
  "party_info_deserialize cb kc raw =
     andThen (kc_party kc raw) (\<lambda>(identity, nonce, oth).
     andThen (map_err error_display (decode_optional_bytes cb identity)) (\<lambda>identity.
     andThen (transpose_opt (map_option nonce_visit nonce)) (\<lambda>nonce.
     andThen (map_err error_display (decode_optional_bytes cb oth)) (\<lambda>oth.
     Inr \<lparr>pi_identity = identity, pi_nonce = nonce, pi_other = oth\<rparr>))))"

definition party_info_serialize :: "party_info \<Rightarrow> string + value" where
  "party_info_serialize p =
     andThen (case pi_nonce p of None \<Rightarrow> Inr VNull | Some n \<Rightarrow> party_nonce_serialize n) (\<lambda>nonce.
     Inr (VArray [optional_bytes_value (pi_identity p), nonce, optional_bytes_value (pi_other p)]))"

section \<open>Public information\<close>

record supp_pub_info =
  sp_key_data_length :: nat
  sp_protected :: header
  sp_other :: "bytes option"
  sp_protected_raw :: "bytes option"



text \<open>The protected bytes that are serialized: the decoded ones while they still fit the header.\<close>

definition supp_pub_protected :: "cbor2 \<Rightarrow> supp_pub_info \<Rightarrow> string + bytes" where
  "supp_pub_protected cb s =
     map_err error_display
       (case sp_protected_raw s of
          Some raw \<Rightarrow> andThen (validate_protected_state cb (sp_protected s) raw) (\<lambda>_. Inr raw)
        | None \<Rightarrow> encode_protected cb (sp_protected s))"

definition supp_pub_info_serialize :: "cbor2 \<Rightarrow> supp_pub_info \<Rightarrow> string + value" where
  "supp_pub_info_serialize cb s =
     andThen (supp_pub_protected cb s) (\<lambda>protected_raw.
     Inr (VArray ([VInteger (int (sp_key_data_length s)), VBytes protected_raw] @
       (case sp_other s of None \<Rightarrow> [] | Some oth \<Rightarrow> [VBytes oth]))))"

text \<open>The next element of a sequence, which must be there.\<close>

fun next_element :: "string \<Rightarrow> bytes list \<Rightarrow> string + (bytes \<times> bytes list)" where
  "next_element missing [] = Inl missing"
| "next_element missing (r # rs) = Inr (r, rs)"

text \<open>A last optional byte string, and nothing after it.\<close>

definition optional_last :: "cbor2 \<Rightarrow> string \<Rightarrow> bytes list \<Rightarrow> string + bytes option" where
  "optional_last cb too_long rs =
     andThen (case rs of [] \<Rightarrow> Inr None
        | r # _ \<Rightarrow> map_ok Some (map_err error_display (decode_bytes cb r))) (\<lambda>oth.
     if tl rs \<noteq> [] then Inl too_long else Inr oth)"

definition supp_pub_info_visit :: "cbor2 \<Rightarrow> kdf_codec \<Rightarrow> bytes list \<Rightarrow> string + supp_pub_info" where
  "supp_pub_info_visit cb kc rs =
     andThen (next_element ''missing keyDataLength'' rs) (\<lambda>(r, rs).
     andThen (kc_uint kc r) (\<lambda>key_data_length.
     andThen (next_element ''missing protected header'' rs) (\<lambda>(r, rs).
     andThen (map_err error_display (decode_bytes cb r)) (\<lambda>protected_raw.
     andThen (optional_last cb ''invalid length 4, expected a SuppPubInfo array of 2 or 3 elements'' rs) (\<lambda>oth.
     andThen (map_err error_display (decode_protected cb protected_raw)) (\<lambda>protected.
     Inr \<lparr>sp_key_data_length = key_data_length, sp_protected = protected, sp_other = oth,
          sp_protected_raw = Some protected_raw\<rparr>))))))"

section \<open>The context\<close>

record kdf_context =
  kx_algorithm_id :: label
  kx_party_u_info :: party_info
  kx_party_v_info :: party_info
  kx_supp_pub_info :: supp_pub_info
  kx_supp_priv_info :: "bytes option"

definition kdf_context_visit :: "cbor2 \<Rightarrow> kdf_codec \<Rightarrow> bytes list \<Rightarrow> string + kdf_context" where
  "kdf_context_visit cb kc rs =
     andThen (next_element ''missing AlgorithmID'' rs) (\<lambda>(r, rs).
     andThen (andThen (lib_from_slice cb r) label_visitor) (\<lambda>algorithm_id.
     andThen (next_element ''missing PartyUInfo'' rs) (\<lambda>(r, rs).
     andThen (party_info_deserialize cb kc r) (\<lambda>party_u_info.
     andThen (next_element ''missing PartyVInfo'' rs) (\<lambda>(r, rs).
     andThen (party_info_deserialize cb kc r) (\<lambda>party_v_info.
     andThen (next_element ''missing SuppPubInfo'' rs) (\<lambda>(r, rs).
     andThen (andThen (lib_from_slice_array cb r) (supp_pub_info_visit cb kc)) (\<lambda>supp_pub_info.
     andThen (optional_last cb ''invalid length 6, expected a COSE_KDF_Context array of 4 or 5 elements'' rs)
       (\<lambda>supp_priv_info.
     Inr \<lparr>kx_algorithm_id = algorithm_id, kx_party_u_info = party_u_info,
          kx_party_v_info = party_v_info, kx_supp_pub_info = supp_pub_info,
          kx_supp_priv_info = supp_priv_info\<rparr>)))))))))"

definition kdf_from_slice :: "cbor2 \<Rightarrow> kdf_codec \<Rightarrow> bytes \<Rightarrow> error + kdf_context" where
  "kdf_from_slice cb kc data =
     andThen (validate_array cb data) (\<lambda>_.
     map_err Cbor (andThen (lib_from_slice_array cb data) (kdf_context_visit cb kc)))"

definition kdf_serialize :: "cbor2 \<Rightarrow> kdf_context \<Rightarrow> string + value" where
  "kdf_serialize cb self =
     andThen (party_info_serialize (kx_party_u_info self)) (\<lambda>u.
     andThen (party_info_serialize (kx_party_v_info self)) (\<lambda>v.
     andThen (supp_pub_info_serialize cb (kx_supp_pub_info self)) (\<lambda>s.
     Inr (VArray ([value_of_label (kx_algorithm_id self), u, v, s] @
       (case kx_supp_priv_info self of None \<Rightarrow> [] | Some p \<Rightarrow> [VBytes p]))))))"

definition kdf_to_vec :: "cbor2 \<Rightarrow> kdf_context \<Rightarrow> error + bytes" where
  "kdf_to_vec cb self = map_err Cbor (andThen (kdf_serialize cb self) (lib_to_canonical_vec cb))"

section \<open>Every field is bound\<close>






lemma value_of_label_eq [simp]: "value_of_label l = value_of_label m \<longleftrightarrow> l = m"
  by (cases l; cases m) simp_all

section \<open>Headers are told apart by their encoding\<close>





















text \<open>
  A decoded context keeps the protected bytes it received: they decode to its protected
  header, and as long as that header can be encoded, serializing the context writes those bytes
  and no others.
\<close>

theorem kdf_decoded_keeps_protected_bytes:
  assumes "kdf_from_slice cb kc data = Inr c" and "is_ok (encode_protected cb (sp_protected (kx_supp_pub_info c)))"
  shows "\<exists>raw. sp_protected_raw (kx_supp_pub_info c) = Some raw \<and>
    decode_protected cb raw = Inr (sp_protected (kx_supp_pub_info c)) \<and>
    supp_pub_protected cb (kx_supp_pub_info c) = Inr raw"
proof -
  obtain raw where raw: "sp_protected_raw (kx_supp_pub_info c) = Some raw"
    "decode_protected cb raw = Inr (sp_protected (kx_supp_pub_info c))"
    using assms(1)
    by (auto simp: kdf_from_slice_def kdf_context_visit_def supp_pub_info_visit_def andThen_eq_Inr map_err_eq)
  moreover have "validate_protected_state cb (sp_protected (kx_supp_pub_info c)) raw = Inr ()"
    using assms(2) raw(2) by (auto simp: validate_protected_state_def andThen_eq_Inr is_ok_iff)
  ultimately show ?thesis by (auto simp: supp_pub_protected_def)
qed

text \<open>The encoded context \<open>[1, [nil, nil, nil], [nil, nil, nil], [128, h'']]\<close>.\<close>

definition demo_kdf_data :: bytes where
  "demo_kdf_data = [0x84, 0x01, 0x83, 0xf6, 0xf6, 0xf6, 0x83, 0xf6, 0xf6, 0xf6, 0x82, 0x18, 0x80, 0x40]"

definition demo_kdf_cbor :: cbor2 where
  "demo_kdf_cbor = ref_cbor\<lparr>lib_from_slice := (\<lambda>_. Inr (VInteger 1)),
     lib_from_slice_array := (\<lambda>d.
       if d = demo_kdf_data then Inr [[0x01], [0x83, 0xf6, 0xf6, 0xf6], [0x83, 0xf6, 0xf6, 0xf6],
         [0x82, 0x18, 0x80, 0x40]]
       else if d = [0x82, 0x18, 0x80, 0x40] then Inr [[0x18, 0x80], [0x40]] else Inl [])\<rparr>"

definition demo_kdf_codec :: kdf_codec where
  "demo_kdf_codec = \<lparr>kc_party = (\<lambda>_. Inr ([0xf6], None, [0xf6])), kc_uint = (\<lambda>_. Inr 128)\<rparr>"

lemma demo_kdf_decoded:
  "\<exists>c. kdf_from_slice demo_kdf_cbor demo_kdf_codec demo_kdf_data = Inr c \<and>
     is_ok (encode_protected demo_kdf_cbor (sp_protected (kx_supp_pub_info c)))"
proof -
  have "case kdf_from_slice demo_kdf_cbor demo_kdf_codec demo_kdf_data of
      Inr c \<Rightarrow> is_ok (encode_protected demo_kdf_cbor (sp_protected (kx_supp_pub_info c))) | Inl _ \<Rightarrow> False"
    by code_simp
  then show ?thesis by (cases "kdf_from_slice demo_kdf_cbor demo_kdf_codec demo_kdf_data") simp_all
qed

lemma kdf_decoded_keeps_protected_bytes_witness:
  "\<exists>c raw. kdf_from_slice demo_kdf_cbor demo_kdf_codec demo_kdf_data = Inr c \<and>
     supp_pub_protected demo_kdf_cbor (kx_supp_pub_info c) = Inr raw"
  using demo_kdf_decoded kdf_decoded_keeps_protected_bytes by blast

end
