(* ===== verification/Float64.thy ===== *)
theory Float64
  imports CborValue Complex_Main
begin

text \<open>
  What \<open>src/src/cwt.rs\<close> uses of \<open>f64\<close>: \<open>is_finite\<close>, \<open>is_sign_negative\<close>, the comparisons, and
  the casts \<open>as i128\<close> and \<open>as f64\<close>. Values are IEEE 754 binary64 bit patterns; a pattern's
  magnitude (the bits below the sign) is a natural number whose order is the order of
  the absolute values. Each operation is related to the rational value of a finite
  pattern.
\<close>

section \<open>Bit patterns\<close>

definition f64_mag :: "f64 \<Rightarrow> nat" where
  "f64_mag x = unat (take_bit 63 (f64_bits x))"

definition is_sign_negative :: "f64 \<Rightarrow> bool" where
  "is_sign_negative x \<longleftrightarrow> bit (f64_bits x) 63"

text \<open>The weight of the lowest exponent bit, which is also the hidden significand bit.\<close>

definition hidden_bit :: nat where
  "hidden_bit = 2 ^ 52"

text \<open>The magnitude of infinity: all exponent bits set.\<close>

definition f64_inf_mag :: nat where
  "f64_inf_mag = 0x7ff * hidden_bit"

definition f64_is_finite :: "f64 \<Rightarrow> bool" where
  "f64_is_finite x \<longleftrightarrow> f64_mag x < f64_inf_mag"

definition f64_is_nan :: "f64 \<Rightarrow> bool" where
  "f64_is_nan x \<longleftrightarrow> f64_inf_mag < f64_mag x"

section \<open>Comparison\<close>

text \<open>Sign and magnitude as one integer; the two zeros have the same key.\<close>

definition f64_key :: "f64 \<Rightarrow> int" where
  "f64_key x = (if is_sign_negative x then - int (f64_mag x) else int (f64_mag x))"

datatype ordering = Less | Equal | Greater

definition cmp :: "'a::linorder \<Rightarrow> 'a \<Rightarrow> ordering" where
  "cmp a b = (if a < b then Less else if a = b then Equal else Greater)"

fun reverse :: "ordering \<Rightarrow> ordering" where
  "reverse Less = Greater"
| "reverse Equal = Equal"
| "reverse Greater = Less"

lemma cmp_simps [simp]:
  "cmp a b = Less \<longleftrightarrow> a < b" "cmp a b = Equal \<longleftrightarrow> a = b" "cmp a b = Greater \<longleftrightarrow> b < a"
  by (auto simp: cmp_def)

lemma reverse_cmp: "reverse (cmp a b) = cmp b a"
  by (auto simp: cmp_def)

lemma cmp_mono: "strict_mono f \<Longrightarrow> cmp (f a) (f b) = cmp a b"
  by (auto simp: cmp_def strict_mono_less strict_mono_eq)

definition f64_partial_cmp :: "f64 \<Rightarrow> f64 \<Rightarrow> ordering option" where
  "f64_partial_cmp x y =
     (if f64_is_nan x \<or> f64_is_nan y then None else Some (cmp (f64_key x) (f64_key y)))"

definition f64_less :: "f64 \<Rightarrow> f64 \<Rightarrow> bool" where
  "f64_less x y \<longleftrightarrow> f64_partial_cmp x y = Some Less"

definition f64_ge :: "f64 \<Rightarrow> f64 \<Rightarrow> bool" where
  "f64_ge x y \<longleftrightarrow> f64_partial_cmp x y = Some Greater \<or> f64_partial_cmp x y = Some Equal"

definition f64_eq :: "f64 \<Rightarrow> f64 \<Rightarrow> bool" where
  "f64_eq x y \<longleftrightarrow> f64_partial_cmp x y = Some Equal"

section \<open>Values\<close>

text \<open>
  The value of a magnitude in units of \<open>2 ^ -1074\<close>: exponent field 0 is subnormal, any other
  has the hidden bit.
\<close>

definition scaled_mag :: "nat \<Rightarrow> nat" where
  "scaled_mag g =
     (let e = g div hidden_bit; m = g mod hidden_bit in
        if e = 0 then m else (hidden_bit + m) * 2 ^ (e - 1))"

definition f64_scaled :: "f64 \<Rightarrow> int" where
  "f64_scaled x =
     (if is_sign_negative x then - int (scaled_mag (f64_mag x)) else int (scaled_mag (f64_mag x)))"

definition f64_unit :: nat where
  "f64_unit = 2 ^ 1074"

text \<open>The rational number that a finite pattern denotes.\<close>

definition f64_value :: "f64 \<Rightarrow> rat" where
  "f64_value x = of_int (f64_scaled x) / of_nat f64_unit"

section \<open>Casts\<close>

text \<open>\<open>x as i128\<close>: towards zero, saturating, \<open>NaN\<close> to 0.\<close>

definition i128_max :: int where "i128_max = 2 ^ 127 - 1"

definition i128_min :: int where "i128_min = - (2 ^ 127)"

definition f64_trunc :: "f64 \<Rightarrow> int" where
  "f64_trunc x =
     (let t = int (scaled_mag (f64_mag x) div f64_unit) in if is_sign_negative x then - t else t)"

definition f64_as_i128 :: "f64 \<Rightarrow> int" where
  "f64_as_i128 x = (if f64_is_nan x then 0 else max i128_min (min i128_max (f64_trunc x)))"

text \<open>\<open>n as f64\<close>: round to nearest, ties to even.\<close>

fun bit_length :: "nat \<Rightarrow> nat" where
  "bit_length n = (if n = 0 then 0 else Suc (bit_length (n div 2)))"

declare bit_length.simps [simp del]

definition mag_of_nat :: "nat \<Rightarrow> nat" where
  "mag_of_nat n =
     (let l = bit_length n in
      if n = 0 then 0
      else if l \<le> 53 then (l + 1021) * hidden_bit + n * 2 ^ (53 - l)
      else let s = l - 53; q = n div 2 ^ s; r = n mod 2 ^ s; half = 2 ^ (s - 1) in
        (l + 1021) * hidden_bit + (if half < r \<or> r = half \<and> odd q then q + 1 else q))"

definition i128_as_f64 :: "int \<Rightarrow> f64" where
  "i128_as_f64 n =
     F64 ((if n < 0 then push_bit 63 1 else 0) OR word_of_nat (mag_of_nat (nat \<bar>n\<bar>)))"

section \<open>Correctness\<close>

lemma hidden_bit_pos [simp]: "0 < hidden_bit"
  by (simp add: hidden_bit_def)

lemma f64_unit_pos [simp]: "0 < f64_unit" "f64_unit \<noteq> 0"
  by (simp_all add: f64_unit_def)

lemma scaled_mag_eq:
  "m < hidden_bit \<Longrightarrow>
     scaled_mag (e * hidden_bit + m) = (if e = 0 then m else (hidden_bit + m) * 2 ^ (e - 1))"
  by (simp add: scaled_mag_def Let_def)

lemma scaled_mag_step: "scaled_mag g < scaled_mag (Suc g)"
proof -
  define e where "e = g div hidden_bit"
  define m where "m = g mod hidden_bit"
  have g: "g = e * hidden_bit + m" and m: "m < hidden_bit" by (simp_all add: e_def m_def)
  show ?thesis
  proof (cases "Suc m < hidden_bit")
    case True
    have "scaled_mag (Suc g) = scaled_mag (e * hidden_bit + Suc m)" by (simp add: g)
    then show ?thesis using scaled_mag_eq [OF m, of e] scaled_mag_eq [OF True, of e] by (simp add: g)
  next
    case False
    with m have mm: "hidden_bit = Suc m" by simp
    have "Suc g = Suc e * hidden_bit + 0" by (simp add: g mm)
    then have "scaled_mag (Suc g) = scaled_mag (Suc e * hidden_bit + 0)" by (rule arg_cong)
    then show ?thesis
      using scaled_mag_eq [OF m, of e] scaled_mag_eq [of 0 "Suc e"] m
      by (cases e) (simp_all add: g)
  qed
qed

lemma scaled_mag_mono: "strict_mono scaled_mag"
  by (simp add: strict_mono_Suc_iff scaled_mag_step)

lemma scaled_mag_0 [simp]: "scaled_mag 0 = 0"
  by (simp add: scaled_mag_def)

text \<open>Comparing keys is comparing values.\<close>

lemma scaled_mag_pos: "0 < scaled_mag a \<longleftrightarrow> 0 < a"
  using strict_mono_less [OF scaled_mag_mono, of 0 a] by simp

lemma key_less_iff: "f64_key x < f64_key y \<longleftrightarrow> f64_scaled x < f64_scaled y"
  using scaled_mag_pos [of "f64_mag x"] scaled_mag_pos [of "f64_mag y"]
    strict_mono_less [OF scaled_mag_mono, of "f64_mag x" "f64_mag y"]
    strict_mono_less [OF scaled_mag_mono, of "f64_mag y" "f64_mag x"]
  unfolding f64_key_def f64_scaled_def by (auto split: if_splits)

lemma key_eq_iff: "f64_key x = f64_key y \<longleftrightarrow> f64_scaled x = f64_scaled y"
  using key_less_iff [of x y] key_less_iff [of y x] by linarith

lemma cmp_key: "cmp (f64_key x) (f64_key y) = cmp (f64_value x) (f64_value y)"
proof -
  have "(0 :: rat) < of_nat f64_unit" by simp
  then have "f64_value x < f64_value y \<longleftrightarrow> f64_scaled x < f64_scaled y"
    and "f64_value x = f64_value y \<longleftrightarrow> f64_scaled x = f64_scaled y"
    unfolding f64_value_def by (auto simp: divide_less_cancel)
  then show ?thesis by (simp add: cmp_def key_less_iff key_eq_iff)
qed

lemma bit_length_bounds: "0 < n \<Longrightarrow> 2 ^ (bit_length n - 1) \<le> n \<and> n < 2 ^ bit_length n"
proof (induction n rule: bit_length.induct)
  case (1 n)
  show ?case
  proof (cases "n = 1")
    case True
    then show ?thesis by (simp add: bit_length.simps)
  next
    case False
    define b where "b = bit_length (n div 2)"
    have b: "2 ^ (b - 1) \<le> n div 2" "n div 2 < 2 ^ b" using False 1 by (auto simp: b_def)
    have pos: "0 < b" using False 1 by (simp add: b_def bit_length.simps)
    then obtain c where c: "b = Suc c" by (cases b) auto
    have l: "bit_length n = Suc b" using 1 by (simp add: b_def bit_length.simps [of n])
    have "2 * 2 ^ c \<le> 2 * (n div 2)" "2 * (n div 2) + 1 < 2 * (2 * 2 ^ c)" using b by (auto simp: c)
    moreover have "2 * (n div 2) \<le> n" "n \<le> 2 * (n div 2) + 1" by auto
    ultimately show ?thesis unfolding l c by (simp del: mult_le_cancel1)
  qed
qed

text \<open>A significand with the hidden bit and an exponent make a magnitude.\<close>

lemma scaled_mag_normal:
  assumes "hidden_bit \<le> q" and "q < 2 * hidden_bit"
  shows "scaled_mag (k * hidden_bit + q) = q * 2 ^ k"
proof -
  obtain m where q: "q = hidden_bit + m" using assms(1) le_Suc_ex by blast
  then have m: "m < hidden_bit" using assms(2) by simp
  have "k * hidden_bit + q = Suc k * hidden_bit + m" by (simp add: q)
  then show ?thesis using scaled_mag_eq [OF m, of "Suc k"] by (simp add: q algebra_simps)
qed

lemma normal_significand:
  "l \<le> 53 \<Longrightarrow> 0 < l \<Longrightarrow> 2 ^ (l - 1) \<le> n \<Longrightarrow> hidden_bit \<le> n * 2 ^ (53 - l)"
  "l \<le> 53 \<Longrightarrow> n < 2 ^ l \<Longrightarrow> n * 2 ^ (53 - l) < 2 * hidden_bit"
proof -
  assume l: "l \<le> 53" "0 < l" "2 ^ (l - 1) \<le> n"
  have "hidden_bit = 2 ^ (l - 1 + (53 - l))" using l by (simp add: hidden_bit_def)
  also have "\<dots> = 2 ^ (l - 1) * 2 ^ (53 - l)" by (rule power_add)
  also have "\<dots> \<le> n * 2 ^ (53 - l)" using l(3) by simp
  finally show "hidden_bit \<le> n * 2 ^ (53 - l)" .
next
  assume l: "l \<le> 53" "n < 2 ^ l"
  have "n * 2 ^ (53 - l) < 2 ^ l * 2 ^ (53 - l)" using l(2) by simp
  also have "\<dots> = 2 ^ (l + (53 - l))" by (rule power_add [symmetric])
  also have "\<dots> = 2 * hidden_bit" using l(1) by (simp add: hidden_bit_def)
  finally show "n * 2 ^ (53 - l) < 2 * hidden_bit" .
qed

text \<open>An integer with at most 53 significant bits is converted exactly.\<close>

lemma mag_of_nat_exact:
  assumes sig: "sig < 2 * hidden_bit"
  shows "scaled_mag (mag_of_nat (sig * 2 ^ j)) = sig * 2 ^ j * f64_unit"
proof (cases "sig = 0")
  case True
  then show ?thesis by (simp add: mag_of_nat_def)
next
  case False
  define n where "n = sig * 2 ^ j"
  define l where "l = bit_length n"
  have n: "0 < n" using False by (simp add: n_def)
  have lo: "2 ^ (l - 1) \<le> n" and hi: "n < 2 ^ l" using bit_length_bounds [OF n] by (auto simp: l_def)
  have l0: "0 < l" using n hi by (cases l) auto
  show ?thesis
  proof (cases "l \<le> 53")
    case True
    have "mag_of_nat n = (l + 1021) * hidden_bit + n * 2 ^ (53 - l)"
      using n True by (simp add: mag_of_nat_def Let_def flip: l_def)
    then have "scaled_mag (mag_of_nat n) = n * 2 ^ (53 - l) * 2 ^ (l + 1021)"
      using scaled_mag_normal [OF normal_significand(1) [OF True l0 lo] normal_significand(2) [OF True hi]]
      by (simp only:)
    also have "\<dots> = n * 2 ^ (53 - l + (l + 1021))" by (simp only: power_add mult.assoc)
    also have "53 - l + (l + 1021) = 1074" using True by simp
    finally show ?thesis by (simp only: n_def f64_unit_def)
  next
    case False
    define s where "s = l - 53"
    have l: "l = s + 53" using False by (simp add: s_def)
    have "s + 52 = l - 1" by (simp add: l)
    then have "2 ^ (s + 52) \<le> n" using lo by (simp only:)
    also have "n < 2 ^ (j + 53)"
    proof -
      have "n < 2 * hidden_bit * 2 ^ j" using sig by (simp add: n_def)
      also have "2 * hidden_bit = 2 ^ 53" by (simp add: hidden_bit_def)
      finally show ?thesis by (simp only: power_add mult.commute)
    qed
    finally have "s + 52 < j + 53" by (rule power_less_imp_less_exp [of 2, rotated]) simp
    then have sj: "s \<le> j" by simp
    then have "2 ^ s dvd n" unfolding n_def by (intro dvd_mult le_imp_power_dvd)
    then obtain q where q: "n = q * 2 ^ s" by (metis dvd_def mult.commute)
    have "hidden_bit * 2 ^ s = 2 ^ (l - 1)" by (simp add: l hidden_bit_def power_add)
    then have "hidden_bit * 2 ^ s \<le> q * 2 ^ s" using lo by (simp only: q)
    then have a: "hidden_bit \<le> q" by (rule mult_le_cancel2 [THEN iffD1, THEN mp]) simp
    have "2 * hidden_bit * 2 ^ s = 2 ^ l" by (simp add: l hidden_bit_def power_add)
    then have "q * 2 ^ s < 2 * hidden_bit * 2 ^ s" using hi by (simp add: q)
    then have b: "q < 2 * hidden_bit" by (rule mult_less_cancel2 [THEN iffD1, THEN conjunct2])
    have "n div 2 ^ s = q" "n mod 2 ^ s = 0" by (simp_all add: q)
    then have "mag_of_nat n = (l + 1021) * hidden_bit + q"
      using n False by (simp add: mag_of_nat_def Let_def flip: l_def s_def)
    then have "scaled_mag (mag_of_nat n) = q * 2 ^ (l + 1021)"
      using scaled_mag_normal [OF a b] by (simp only:)
    also have "l + 1021 = s + 1074" by (simp add: l)
    finally show ?thesis by (simp only: power_add q f64_unit_def mult.assoc flip: n_def)
  qed
qed

section \<open>The casts\<close>

lemma f64_mag_bound: "f64_mag x < 2 ^ 63"
  using take_bit_nat_less_exp [of 63 "unat (f64_bits x)"]
  by (simp add: f64_mag_def unsigned_take_bit_eq)

lemma f64_mag_F64:
  assumes "g < 2 ^ 63"
  shows "f64_mag (F64 ((if neg then push_bit 63 1 else 0) OR word_of_nat g)) = g"
    and "is_sign_negative (F64 ((if neg then push_bit 63 1 else 0) OR word_of_nat g)) = neg"
proof -
  have g: "take_bit 63 (word_of_nat g :: u64) = word_of_nat g"
    using assms by (simp add: take_bit_of_nat take_bit_nat_eq_self)
  have sign: "take_bit 63 (if neg then push_bit 63 1 else 0 :: u64) = 0"
    by (simp add: take_bit_push_bit)
  have "unat (word_of_nat g :: u64) = g"
    using assms by (simp add: unsigned_of_nat take_bit_nat_eq_self)
  then show "f64_mag (F64 ((if neg then push_bit 63 1 else 0) OR word_of_nat g)) = g"
    by (simp only: f64_mag_def f64.sel take_bit_or g sign or.left_neutral)
  have "\<not> bit (word_of_nat g :: u64) 63"
    using arg_cong [OF g, of "\<lambda>w. bit w 63"] by (simp add: bit_take_bit_iff)
  then show "is_sign_negative (F64 ((if neg then push_bit 63 1 else 0) OR word_of_nat g)) = neg"
    by (simp add: is_sign_negative_def bit_or_iff bit_push_bit_iff)
qed

lemma scaled_inf: "scaled_mag f64_inf_mag = 2 ^ 2098"
proof -
  have "scaled_mag f64_inf_mag = hidden_bit * 2 ^ 2046"
    using scaled_mag_eq [of 0 "0x7ff"] by (simp add: f64_inf_mag_def)
  also have "\<dots> = 2 ^ (52 + 2046)" by (simp only: hidden_bit_def power_add)
  finally show ?thesis by simp
qed

text \<open>The cast of a representable integer keeps its value.\<close>

lemma i128_as_f64_exact:
  assumes n: "nat \<bar>n\<bar> = sig * 2 ^ j" and sig: "sig < 2 * hidden_bit" and b: "nat \<bar>n\<bar> \<le> 2 ^ 127"
  shows "f64_scaled (i128_as_f64 n) = n * int f64_unit" and "\<not> f64_is_nan (i128_as_f64 n)"
proof -
  define g where "g = mag_of_nat (nat \<bar>n\<bar>)"
  have scaled: "scaled_mag g = nat \<bar>n\<bar> * f64_unit"
    using mag_of_nat_exact [OF sig, of j] by (simp add: g_def n)
  also have "\<dots> \<le> 2 ^ 127 * 2 ^ 1074" using b unfolding f64_unit_def by (rule mult_le_mono1)
  also have "\<dots> = 2 ^ 1201" by (simp flip: power_add)
  also have "(2 :: nat) ^ 1201 < 2 ^ 2098" by (rule power_strict_increasing) simp_all
  finally have "scaled_mag g < scaled_mag f64_inf_mag" by (simp only: scaled_inf)
  then have g: "g < f64_inf_mag" by (simp only: strict_mono_less [OF scaled_mag_mono])
  then have g63: "g < 2 ^ 63" by (simp add: f64_inf_mag_def hidden_bit_def)
  have F: "f64_mag (i128_as_f64 n) = g" "is_sign_negative (i128_as_f64 n) \<longleftrightarrow> n < 0"
    unfolding i128_as_f64_def g_def [symmetric] using f64_mag_F64 [OF g63, of "n < 0"] by simp_all
  show "f64_scaled (i128_as_f64 n) = n * int f64_unit"
    using scaled by (simp add: f64_scaled_def F)
  show "\<not> f64_is_nan (i128_as_f64 n)"
    using g by (simp add: f64_is_nan_def F)
qed

lemma bit_length_eq:
  assumes "2 ^ l \<le> n" and "n < 2 ^ Suc l"
  shows "bit_length n = Suc l"
proof -
  have n: "0 < n" using assms(1) by (rule less_le_trans [rotated]) simp
  have "2 ^ l < (2 :: nat) ^ bit_length n" "(2 :: nat) ^ (bit_length n - 1) < 2 ^ Suc l"
    using bit_length_bounds [OF n] assms by linarith+
  then have "l < bit_length n" "bit_length n - 1 < Suc l"
    using power_less_imp_less_exp [of "2 :: nat", OF _ \<open>2 ^ l < _\<close>]
      power_less_imp_less_exp [of "2 :: nat" "bit_length n - 1" "Suc l"] by simp_all
  then show ?thesis by simp
qed

lemma i128_max_as_f64: "i128_as_f64 i128_max = i128_as_f64 (2 ^ 127)"
proof -
  have "bit_length (2 ^ 127 - 1) = 127" "bit_length (2 ^ 127) = 128"
    using bit_length_eq [of 126 "2 ^ 127 - 1"] bit_length_eq [of 127 "2 ^ 127"] by simp_all
  then have "mag_of_nat (2 ^ 127 - 1) = mag_of_nat (2 ^ 127)"
    by (simp add: mag_of_nat_def Let_def hidden_bit_def)
  then show ?thesis by (simp add: i128_as_f64_def i128_max_def)
qed

text \<open>Truncation drops the fraction, so its result has at most 53 significant bits.\<close>

lemma trunc_significant:
  "\<exists>sig j. scaled_mag g div f64_unit = sig * 2 ^ j \<and> sig < 2 * hidden_bit"
proof -
  define e where "e = g div hidden_bit"
  define m where "m = g mod hidden_bit"
  have m: "m < hidden_bit" by (simp add: m_def)
  obtain q k where s: "scaled_mag g = q * 2 ^ k" and q: "q < 2 * hidden_bit"
  proof (cases "e = 0")
    case True
    then show ?thesis using that [of m 0] m by (simp add: scaled_mag_def Let_def flip: e_def m_def)
  next
    case False
    then show ?thesis
      using that [of "hidden_bit + m" "e - 1"] m by (simp add: scaled_mag_def Let_def flip: e_def m_def)
  qed
  show ?thesis
  proof (cases "1074 \<le> k")
    case True
    then have "2 ^ k = 2 ^ (k - 1074) * f64_unit" by (simp only: f64_unit_def power_add [symmetric] le_add_diff_inverse2)
    then have "scaled_mag g = q * 2 ^ (k - 1074) * f64_unit" by (simp only: s mult.assoc)
    then have "scaled_mag g div f64_unit = q * 2 ^ (k - 1074)" by simp
    then show ?thesis using q by blast
  next
    case False
    then have "f64_unit = 2 ^ k * 2 ^ (1074 - k)" by (simp only: f64_unit_def power_add [symmetric]) simp
    then have "scaled_mag g div f64_unit = 2 ^ k * q div (2 ^ k * 2 ^ (1074 - k))"
      by (simp only: s mult.commute)
    then have "scaled_mag g div f64_unit = q div 2 ^ (1074 - k)" by simp
    then have "scaled_mag g div f64_unit = q div 2 ^ (1074 - k) * 2 ^ 0" by simp
    moreover have "q div 2 ^ (1074 - k) < 2 * hidden_bit" using q div_le_dividend le_less_trans by blast
    ultimately show ?thesis by blast
  qed
qed

section \<open>Rules for the clients\<close>

lemma finite_not_nan: "f64_is_finite x \<Longrightarrow> \<not> f64_is_nan x"
  by (simp add: f64_is_finite_def f64_is_nan_def)

text \<open>On finite patterns, IEEE comparison is comparison of the rational values.\<close>

lemma partial_cmp_value:
  "f64_is_finite x \<Longrightarrow> f64_is_finite y \<Longrightarrow>
     f64_partial_cmp x y = Some (cmp (f64_value x) (f64_value y))"
  by (simp add: f64_partial_cmp_def finite_not_nan cmp_key)

lemma cmp_value_int: "cmp (f64_value x) (of_int n) = cmp (f64_scaled x) (n * int f64_unit)"
proof -
  have u: "(0 :: rat) < of_nat f64_unit" by simp
  have "f64_value x < of_int n \<longleftrightarrow> (of_int (f64_scaled x) :: rat) < of_int (n * int f64_unit)"
    unfolding f64_value_def using u by (simp add: divide_less_eq)
  moreover have "f64_value x = of_int n \<longleftrightarrow> (of_int (f64_scaled x) :: rat) = of_int (n * int f64_unit)"
    unfolding f64_value_def using u by (simp add: divide_eq_eq)
  ultimately show ?thesis unfolding cmp_def of_int_less_iff of_int_eq_iff by simp
qed

text \<open>A pattern compared with the cast of a representable integer.\<close>

lemma partial_cmp_cast:
  assumes "\<not> f64_is_nan x" and "nat \<bar>n\<bar> = sig * 2 ^ j" and "sig < 2 * hidden_bit" and "nat \<bar>n\<bar> \<le> 2 ^ 127"
  shows "f64_partial_cmp x (i128_as_f64 n) = Some (cmp (f64_scaled x) (n * int f64_unit))"
  using assms(1) i128_as_f64_exact [OF assms(2-4)]
  by (simp add: f64_partial_cmp_def cmp_def key_less_iff key_eq_iff)

lemma trunc_bounds:
  "\<not> is_sign_negative x \<Longrightarrow>
     f64_trunc x * int f64_unit \<le> f64_scaled x \<and> f64_scaled x < (f64_trunc x + 1) * int f64_unit"
  "is_sign_negative x \<Longrightarrow>
     f64_scaled x \<le> f64_trunc x * int f64_unit \<and> (f64_trunc x - 1) * int f64_unit < f64_scaled x"
proof -
  define a where "a = scaled_mag (f64_mag x)"
  have "a div f64_unit * f64_unit \<le> a" "a < (a div f64_unit + 1) * f64_unit"
    using div_times_less_eq_dividend [of a f64_unit] dividend_less_div_times [of f64_unit a] by simp_all
  then have "int (a div f64_unit) * int f64_unit \<le> int a"
    "int a < (int (a div f64_unit) + 1) * int f64_unit"
    by (simp_all flip: of_nat_mult of_nat_Suc of_nat_add add: algebra_simps)
  then show "\<not> is_sign_negative x \<Longrightarrow>
     f64_trunc x * int f64_unit \<le> f64_scaled x \<and> f64_scaled x < (f64_trunc x + 1) * int f64_unit"
    and "is_sign_negative x \<Longrightarrow>
     f64_scaled x \<le> f64_trunc x * int f64_unit \<and> (f64_trunc x - 1) * int f64_unit < f64_scaled x"
    by (simp_all add: f64_trunc_def f64_scaled_def Let_def algebra_simps flip: a_def)
qed

lemma trunc_cast:
  assumes "\<not> f64_is_nan x" and "\<bar>f64_trunc x\<bar> \<le> 2 ^ 127"
  shows "f64_partial_cmp x (i128_as_f64 (f64_trunc x)) =
    Some (cmp (f64_scaled x) (f64_trunc x * int f64_unit))"
proof -
  obtain sig j where s: "scaled_mag (f64_mag x) div f64_unit = sig * 2 ^ j" "sig < 2 * hidden_bit"
    using trunc_significant by blast
  have "nat \<bar>f64_trunc x\<bar> = sig * 2 ^ j" by (simp add: f64_trunc_def Let_def s(1) nat_mult_distrib nat_power_eq)
  moreover have "nat \<bar>f64_trunc x\<bar> \<le> 2 ^ 127" using assms(2) by simp
  ultimately show ?thesis by (rule partial_cmp_cast [OF assms(1) _ s(2)])
qed

lemma as_i128_in_range:
  assumes "\<not> f64_is_nan x" and "f64_scaled x < 2 ^ 127 * int f64_unit"
    and "- (2 ^ 127) * int f64_unit \<le> f64_scaled x"
  shows "f64_as_i128 x = f64_trunc x" and "\<bar>f64_trunc x\<bar> \<le> 2 ^ 127"
proof -
  have u: "0 < int f64_unit" by simp
  have r: "- (2 ^ 127) \<le> f64_trunc x \<and> f64_trunc x < 2 ^ 127"
  proof (cases "is_sign_negative x")
    case True
    have "f64_trunc x \<le> 0" using True by (simp add: f64_trunc_def Let_def)
    moreover have "- (2 ^ 127) * int f64_unit \<le> f64_trunc x * int f64_unit"
      using trunc_bounds(2) [OF True] assms(3) by linarith
    then have "- (2 ^ 127) \<le> f64_trunc x" using u by (rule mult_right_le_imp_le)
    ultimately show ?thesis by simp
  next
    case False
    have "0 \<le> f64_trunc x" using False by (simp add: f64_trunc_def Let_def)
    moreover have "f64_trunc x * int f64_unit < 2 ^ 127 * int f64_unit"
      using trunc_bounds(1) [OF False] assms(2) by linarith
    then have "f64_trunc x < 2 ^ 127" using u by (simp only: mult_less_cancel_right_pos)
    ultimately show ?thesis by simp
  qed
  then show "f64_as_i128 x = f64_trunc x" and "\<bar>f64_trunc x\<bar> \<le> 2 ^ 127"
    using assms(1) by (auto simp: f64_as_i128_def i128_max_def i128_min_def)
qed

end
