(* ===== verification/Cwt.thy ===== *)
theory Cwt
  imports Key Float64
begin

text \<open>
  \<open>src/src/cwt.rs\<close>: CWT claims (RFC 8392), their conversion to and from a claims map, and the
  validator. \<open>NumericDate::Integer\<close> holds a Rust \<open>i128\<close>, kept as an \<open>int\<close>. The conversion of
  an integer to \<open>cbor2::value::Integer\<close>, the system clock and \<open>Debug for str\<close> (used in two
  messages) are parameters. \<open>HumanReadable\<close> has the serde implementations.
\<close>

section \<open>Numeric dates\<close>

datatype numeric_date = DInteger int | DFloat f64

definition from_f64 :: "f64 \<Rightarrow> error + numeric_date" where
  "from_f64 x =
     (if \<not> f64_is_finite x then Inl (UnexpectedType ''NumericDate must be a finite number'')
      else Inr (DFloat x))"

definition u64_max :: int where "u64_max = 2 ^ 64 - 1"

fun nd_validate :: "numeric_date \<Rightarrow> error + numeric_date" where
  "nd_validate (DFloat x) =
     (if \<not> f64_is_finite x then Inl (UnexpectedType ''NumericDate must be a finite number'')
      else Inr (DFloat x))"
| "nd_validate (DInteger i) =
     (if i < - 1 - u64_max \<or> u64_max < i
      then Inl (UnexpectedType ''NumericDate integer out of CBOR range'') else Inr (DInteger i))"

definition compare_f64_to_i128 :: "f64 \<Rightarrow> int \<Rightarrow> ordering option" where
  "compare_f64_to_i128 x other =
     (if \<not> f64_is_finite x then None
      else if f64_ge x (i128_as_f64 i128_max) then Some Greater
      else if f64_less x (i128_as_f64 i128_min) then Some Less
      else let truncated = f64_as_i128 x in
        case cmp truncated other of
          Equal \<Rightarrow>
            (if f64_eq x (i128_as_f64 truncated) then Some Equal
             else if is_sign_negative x then Some Less else Some Greater)
        | o1 \<Rightarrow> Some o1)"

fun nd_compare :: "numeric_date \<Rightarrow> numeric_date \<Rightarrow> ordering option" where
  "nd_compare (DInteger l) (DInteger r) = Some (cmp l r)"
| "nd_compare (DInteger l) (DFloat r) = map_option reverse (compare_f64_to_i128 r l)"
| "nd_compare (DFloat l) (DInteger r) = compare_f64_to_i128 l r"
| "nd_compare (DFloat l) (DFloat r) = f64_partial_cmp l r"

definition partial_cmp_integer :: "numeric_date \<Rightarrow> int \<Rightarrow> ordering option" where
  "partial_cmp_integer d other = nd_compare d (DInteger other)"

text \<open>\<open>impl Serialize for NumericDate\<close>: the serializer call and its argument.\<close>

definition nd_serialize :: "numeric_date \<Rightarrow> string + value" where
  "nd_serialize d =
     (case map_err error_display (nd_validate d) of
        Inl e \<Rightarrow> Inl e
      | Inr (DInteger i) \<Rightarrow> Inr (VInteger i)
      | Inr (DFloat x) \<Rightarrow> Inr (VFloat x))"

text \<open>\<open>impl Deserialize for NumericDate\<close>: one case per visitor method.\<close>

datatype number_event =
  VisitI64 int | VisitI128 int | VisitU64 nat | VisitU128 nat | VisitF64 f64

fun nd_visit :: "number_event \<Rightarrow> string + numeric_date" where
  "nd_visit (VisitI64 i) = Inr (DInteger i)"
| "nd_visit (VisitI128 i) = map_err error_display (nd_validate (DInteger i))"
| "nd_visit (VisitU64 n) = Inr (DInteger (int n))"
| "nd_visit (VisitU128 n) =
     (if i128_max < int n then Inl ''NumericDate out of range''
      else map_err error_display (nd_validate (DInteger (int n))))"
| "nd_visit (VisitF64 x) = map_err error_display (from_f64 x)"

section \<open>Audiences\<close>

datatype audience = One string | Many "string list"

fun aud_contains :: "audience \<Rightarrow> string \<Rightarrow> bool" where
  "aud_contains (One s) expected = (s = expected)"
| "aud_contains (Many ss) expected = list_ex (\<lambda>s. s = expected) ss"

fun aud_as_str :: "audience \<Rightarrow> string option" where
  "aud_as_str (One s) = Some s"
| "aud_as_str (Many _) = None"

fun aud_serialize :: "audience \<Rightarrow> value" where
  "aud_serialize (One s) = VText s"
| "aud_serialize (Many ss) = VArray (map VText ss)"

text \<open>\<open>Audience\<close>'s visitor: a string, or the results of \<open>next_element::<String>\<close>.\<close>

datatype audience_event = VisitStr string | VisitSeq "(string + string) list"

fun aud_visit :: "audience_event \<Rightarrow> string + audience" where
  "aud_visit (VisitStr s) = Inr (One s)"
| "aud_visit (VisitSeq es) = andThen (traverse (\<lambda>e. e) es) (\<lambda>ss. Inr (Many ss))"

section \<open>Claims\<close>

record claims =
  issuer :: "string option"
  subject :: "string option"
  audience_of :: "audience option"
  expiration :: "numeric_date option"
  not_before :: "numeric_date option"
  issued_at :: "numeric_date option"
  cwt_id :: "bytes option"
  extra :: cose_map

definition claims_new :: claims where
  "claims_new = \<lparr>issuer = None, subject = None, audience_of = None, expiration = None,
     not_before = None, issued_at = None, cwt_id = None, extra = cm_new\<rparr>"

definition insert_claim :: "cose_map \<Rightarrow> int \<Rightarrow> value \<Rightarrow> error + cose_map" where
  "insert_claim m key v =
     (case cm_insert (LInt key) v m of
        (Some _, _) \<Rightarrow>
          Inl (Custom (''claim '' @ show_int key @ '' appears in both typed fields and Claims::extra''))
      | (None, m') \<Rightarrow> Inr m')"

definition numeric_date_value :: "(int \<Rightarrow> int option) \<Rightarrow> numeric_date \<Rightarrow> error + value" where
  "numeric_date_value to_integer d =
     andThen (nd_validate d) (\<lambda>d. case d of
       DInteger i \<Rightarrow> map_ok VInteger (ok_or (to_integer i) (UnexpectedType ''NumericDate out of range''))
     | DFloat x \<Rightarrow> Inr (VFloat x))"

fun numeric_date_from_value :: "value \<Rightarrow> string \<Rightarrow> error + numeric_date" where
  "numeric_date_from_value (VInteger i) name = Inr (DInteger i)"
| "numeric_date_from_value (VFloat x) name = from_f64 x"
| "numeric_date_from_value _ name =
     Inl (UnexpectedType (name @ '' must be an integer or finite float''))"

fun aud_entry :: "value \<Rightarrow> error + string" where
  "aud_entry (VText s) = Inr s"
| "aud_entry _ = Inl (UnexpectedType ''aud array entries must be text strings'')"

fun audience_from_value :: "value \<Rightarrow> error + audience" where
  "audience_from_value (VText s) = Inr (One s)"
| "audience_from_value (VArray vs) = map_ok Many (traverse aud_entry vs)"
| "audience_from_value _ =
     Inl (UnexpectedType ''aud must be a text string or array of text strings'')"

text \<open>\<open>if let Some(value) = field { insert_claim(&mut map, key, conv(value)?)? }\<close>.\<close>

definition insert_opt :: "('a \<Rightarrow> error + value) \<Rightarrow> int \<Rightarrow> 'a option \<Rightarrow> cose_map \<Rightarrow> error + cose_map" where
  "insert_opt conv key field m =
     (case field of
        None \<Rightarrow> Inr m
      | Some x \<Rightarrow> andThen (conv x) (\<lambda>v. insert_claim m key v))"

fun insert_dates ::
  "(int \<Rightarrow> int option) \<Rightarrow> (int \<times> numeric_date option) list \<Rightarrow> cose_map \<Rightarrow> error + cose_map" where
  "insert_dates to_integer [] m = Inr m"
| "insert_dates to_integer ((key, d) # ds) m =
     andThen (insert_opt (numeric_date_value to_integer) key d m) (insert_dates to_integer ds)"

definition to_map :: "(int \<Rightarrow> int option) \<Rightarrow> claims \<Rightarrow> error + cose_map" where
  "to_map to_integer self =
     (let m = extra self in
      andThen (insert_opt (Inr \<circ> VText) CWTClaimIss (issuer self) m) (\<lambda>m.
      andThen (insert_opt (Inr \<circ> VText) CWTClaimSub (subject self) m) (\<lambda>m.
      andThen (insert_opt (Inr \<circ> aud_serialize) CWTClaimAud (audience_of self) m) (\<lambda>m.
      andThen (insert_dates to_integer
        [(CWTClaimExp, expiration self), (CWTClaimNbf, not_before self), (CWTClaimIat, issued_at self)] m)
        (\<lambda>m.
      insert_opt (Inr \<circ> VBytes) CWTClaimCti (cwt_id self) m)))))"

fun claim_text :: "string \<Rightarrow> value option \<Rightarrow> error + string option" where
  "claim_text name None = Inr None"
| "claim_text name (Some (VText s)) = Inr (Some s)"
| "claim_text name (Some _) = Inl (UnexpectedType (name @ '' must be a text string''))"

fun claim_bytes :: "value option \<Rightarrow> error + bytes option" where
  "claim_bytes None = Inr None"
| "claim_bytes (Some (VBytes b)) = Inr (Some b)"
| "claim_bytes (Some _) = Inl (UnexpectedType ''cti must be a byte string'')"

definition from_map :: "cose_map \<Rightarrow> error + claims" where
  "from_map m =
     (let (iss, m) = cm_remove (LInt CWTClaimIss) m in
      andThen (claim_text ''iss'' iss) (\<lambda>iss.
      let (sub, m) = cm_remove (LInt CWTClaimSub) m in
      andThen (claim_text ''sub'' sub) (\<lambda>sub.
      let (aud, m) = cm_remove (LInt CWTClaimAud) m in
      andThen (transpose_opt (map_option audience_from_value aud)) (\<lambda>aud.
      let (expires, m) = cm_remove (LInt CWTClaimExp) m in
      andThen (transpose_opt (map_option (\<lambda>v. numeric_date_from_value v ''exp'') expires)) (\<lambda>expires.
      let (nbf, m) = cm_remove (LInt CWTClaimNbf) m in
      andThen (transpose_opt (map_option (\<lambda>v. numeric_date_from_value v ''nbf'') nbf)) (\<lambda>nbf.
      let (iat, m) = cm_remove (LInt CWTClaimIat) m in
      andThen (transpose_opt (map_option (\<lambda>v. numeric_date_from_value v ''iat'') iat)) (\<lambda>iat.
      let (cti, m) = cm_remove (LInt CWTClaimCti) m in
      andThen (claim_bytes cti) (\<lambda>cti.
      Inr \<lparr>issuer = iss, subject = sub, audience_of = aud, expiration = expires, not_before = nbf,
        issued_at = iat, cwt_id = cti, extra = m\<rparr>))))))))"

definition claims_from_slice :: "cbor2 \<Rightarrow> bytes \<Rightarrow> error + claims" where
  "claims_from_slice cb data = andThen (map_from_slice cb data) from_map"

definition claims_from_slice_legacy_tagged :: "cbor2 \<Rightarrow> bytes \<Rightarrow> error + claims" where
  "claims_from_slice_legacy_tagged cb data =
     andThen (tagged_body cb data CBORTagCWT) (claims_from_slice cb)"

definition claims_to_vec :: "cbor2 \<Rightarrow> (int \<Rightarrow> int option) \<Rightarrow> claims \<Rightarrow> error + bytes" where
  "claims_to_vec cb to_integer self = andThen (to_map to_integer self) (map_to_vec cb)"

definition claims_to_legacy_tagged_vec :: "cbor2 \<Rightarrow> (int \<Rightarrow> int option) \<Rightarrow> claims \<Rightarrow> error + bytes" where
  "claims_to_legacy_tagged_vec cb to_integer self =
     andThen (claims_to_vec cb to_integer self) (\<lambda>b. Inr (with_tag CWT_PREFIX b))"

text \<open>\<open>Serialize\<close> and \<open>Deserialize\<close> on the binary path.\<close>

definition claims_serialize :: "(int \<Rightarrow> int option) \<Rightarrow> claims \<Rightarrow> string + value" where
  "claims_serialize to_integer self =
     andThen (map_err error_display (to_map to_integer self)) (\<lambda>m. Inr (map_value m))"

definition claims_deserialize :: "cbor2 \<Rightarrow> bytes \<Rightarrow> string + claims" where
  "claims_deserialize cb raw =
     andThen (map_deserialize cb raw) (\<lambda>m. map_err error_display (from_map m))"

section \<open>Validation\<close>

record validator_options =
  expected_issuer :: "string option"
  expected_audience :: "string option"
  allow_missing_expiration :: bool
  expect_issued_in_the_past :: bool
  clock_skew_secs :: nat
  fixed_now :: "int option"

definition MAX_CLOCK_SKEW_SECS :: nat where
  "MAX_CLOCK_SKEW_SECS = 10 * 60"

definition validator_new :: "validator_options \<Rightarrow> error + validator_options" where
  "validator_new opts =
     (if MAX_CLOCK_SKEW_SECS < clock_skew_secs opts
      then Inl (Custom (''clock skew too large, expected <= '' @ show_nat MAX_CLOCK_SKEW_SECS @
        '' seconds, got '' @ show_nat (clock_skew_secs opts)))
      else Inr opts)"

text \<open>
  \<open>SystemTime::now().duration_since(UNIX_EPOCH)\<close>: seconds and nanoseconds since the epoch,
  or until it.
\<close>

datatype clock = Since nat nat | Before nat nat

fun now_of_clock :: "clock \<Rightarrow> int" where
  "now_of_clock (Since secs nanos) = int secs"
| "now_of_clock (Before secs nanos) = - int secs - (if nanos \<noteq> 0 then 1 else 0)"

definition now :: "clock \<Rightarrow> validator_options \<Rightarrow> int" where
  "now clk opts = (case fixed_now opts of Some t \<Rightarrow> t | None \<Rightarrow> now_of_clock clk)"

definition check_times ::
  "clock \<Rightarrow> validator_options \<Rightarrow> numeric_date option \<Rightarrow> numeric_date option \<Rightarrow>
     numeric_date option \<Rightarrow> error + unit" where
  "check_times clk opts expires nbf iat =
     (let now = now clk opts; skew = int (clock_skew_secs opts) in
      andThen (transpose_opt (map_option nd_validate expires)) (\<lambda>expires.
      andThen (case expires of
          None \<Rightarrow>
            if \<not> allow_missing_expiration opts
            then Inl (Custom ''token doesn't have an expiration set'') else Inr ()
        | Some expires \<Rightarrow>
            if partial_cmp_integer expires (now - skew) \<noteq> Some Greater
            then Inl (Custom ''token has expired'') else Inr ()) (\<lambda>_.
      andThen (transpose_opt (map_option nd_validate nbf)) (\<lambda>nbf.
      andThen (case nbf of
          None \<Rightarrow> Inr ()
        | Some nbf \<Rightarrow>
            if partial_cmp_integer nbf (now + skew) = Some Greater
            then Inl (Custom ''token cannot be used yet'') else Inr ()) (\<lambda>_.
      if expect_issued_in_the_past opts then
        andThen (transpose_opt (map_option nd_validate iat)) (\<lambda>iat.
        case iat of
          None \<Rightarrow> Inr ()
        | Some iat \<Rightarrow>
            if partial_cmp_integer iat (now + skew) = Some Greater
            then Inl (Custom ''token has an invalid iat claim in the future'') else Inr ())
      else Inr ())))))"

definition check_identity ::
  "(string \<Rightarrow> string) \<Rightarrow> validator_options \<Rightarrow> string option \<Rightarrow> audience option \<Rightarrow> error + unit" where
  "check_identity debug_str opts iss aud =
     andThen (case expected_issuer opts of
         Some expected \<Rightarrow>
           if Some expected \<noteq> iss then
             Inl (Custom (''issuer mismatch, expected '' @ debug_str expected @ '', got '' @
               (case iss of None \<Rightarrow> ''None'' | Some s \<Rightarrow> ''Some('' @ debug_str s @ '')'')))
           else Inr ()
       | None \<Rightarrow> Inr ()) (\<lambda>_.
     case expected_audience opts of
       Some expected \<Rightarrow>
         if \<not> (case aud of None \<Rightarrow> False | Some a \<Rightarrow> aud_contains a expected) then
           Inl (Custom (''audience mismatch, expected '' @ debug_str expected))
         else Inr ()
     | None \<Rightarrow> Inr ())"

definition cwt_validate ::
  "clock \<Rightarrow> (string \<Rightarrow> string) \<Rightarrow> validator_options \<Rightarrow> claims \<Rightarrow> error + unit" where
  "cwt_validate clk debug_str opts c =
     andThen (check_times clk opts (expiration c) (not_before c) (issued_at c)) (\<lambda>_.
     check_identity debug_str opts (issuer c) (audience_of c))"

definition numeric_date_claim :: "cose_map \<Rightarrow> int \<Rightarrow> string \<Rightarrow> error + numeric_date option" where
  "numeric_date_claim claims key name =
     transpose_opt (map_option (\<lambda>v. numeric_date_from_value v name) (cm_get claims (LInt key)))"

definition audience_claim :: "cose_map \<Rightarrow> error + audience option" where
  "audience_claim claims =
     transpose_opt (map_option audience_from_value (cm_get claims (LInt CWTClaimAud)))"

definition claims_validate_map ::
  "clock \<Rightarrow> (string \<Rightarrow> string) \<Rightarrow> validator_options \<Rightarrow> cose_map \<Rightarrow> error + unit" where
  "claims_validate_map clk debug_str opts m =
     andThen (numeric_date_claim m CWTClaimExp ''exp'') (\<lambda>expires.
     andThen (numeric_date_claim m CWTClaimNbf ''nbf'') (\<lambda>nbf.
     andThen (numeric_date_claim m CWTClaimIat ''iat'') (\<lambda>iat.
     andThen (check_times clk opts expires nbf iat) (\<lambda>_.
     andThen (get_text m (LInt CWTClaimIss)) (\<lambda>iss.
     andThen (audience_claim m) (\<lambda>aud.
     check_identity debug_str opts iss aud))))))"

end
