(* ===== verification/CwtLaws.thy ===== *)
theory CwtLaws
  imports Cwt
begin

text \<open>
  What the claims code promises: comparisons of numeric dates are exact, the typed claims
  and the claims map carry the same information, and validation accepts exactly the
  tokens inside their time window with the expected identities, in either form.
\<close>

section \<open>Numeric dates denote rationals\<close>

fun nd_value :: "numeric_date \<Rightarrow> rat" where
  "nd_value (DInteger i) = of_int i"
| "nd_value (DFloat x) = f64_value x"

fun nd_defined :: "numeric_date \<Rightarrow> bool" where
  "nd_defined (DInteger i) \<longleftrightarrow> i128_min \<le> i \<and> i \<le> i128_max"
| "nd_defined (DFloat x) \<longleftrightarrow> f64_is_finite x"

fun nd_valid :: "numeric_date \<Rightarrow> bool" where
  "nd_valid (DInteger i) \<longleftrightarrow> - (2 ^ 64) \<le> i \<and> i < 2 ^ 64"
| "nd_valid (DFloat x) \<longleftrightarrow> f64_is_finite x"

lemma nd_validate_ok [guards]: "nd_validate d = Inr e \<longleftrightarrow> e = d \<and> nd_valid d"
  by (cases d) (auto simp: u64_max_def)

lemma nd_valid_defined: "nd_valid d \<Longrightarrow> nd_defined d"
  by (cases d) (auto simp: i128_max_def i128_min_def)

lemma compare_f64_exact:
  assumes fin: "f64_is_finite x" and n: "i128_min \<le> n" "n \<le> i128_max"
  shows "compare_f64_to_i128 x n = Some (cmp (f64_value x) (of_int n))"
proof -
  define S where "S = f64_scaled x"
  define U where "U = int f64_unit"
  have U: "0 < U" by (simp add: U_def)
  note nan = finite_not_nan [OF fin]
  have "f64_partial_cmp x (i128_as_f64 (2 ^ 127)) = Some (cmp S (2 ^ 127 * U))"
    unfolding S_def U_def by (rule partial_cmp_cast [of _ _ 1 127, OF nan]) (simp_all add: hidden_bit_def)
  then have hi: "f64_partial_cmp x (i128_as_f64 i128_max) = Some (cmp S (2 ^ 127 * U))"
    by (simp only: i128_max_as_f64)
  have lo: "f64_partial_cmp x (i128_as_f64 i128_min) = Some (cmp S (- (2 ^ 127) * U))"
    unfolding S_def U_def i128_min_def
    by (rule partial_cmp_cast [of _ _ 1 127, OF nan]) (simp_all add: hidden_bit_def)
  have goal: "cmp (f64_value x) (of_int n) = cmp S (n * U)"
    unfolding S_def U_def by (rule cmp_value_int)
  consider (high) "2 ^ 127 * U \<le> S" | (low) "S < - (2 ^ 127) * U"
    | (mid) "S < 2 ^ 127 * U" "- (2 ^ 127) * U \<le> S" by linarith
  then show ?thesis
  proof cases
    case high
    have "n * U < 2 ^ 127 * U" using n(2) U unfolding i128_max_def by (intro mult_strict_right_mono) simp_all
    with high have "cmp S (n * U) = Greater" by (simp only: cmp_simps)
    then show ?thesis
      using fin high hi goal by (auto simp: compare_f64_to_i128_def f64_ge_def cmp_def)
  next
    case low
    have "- (2 ^ 127) * U \<le> n * U" using n(1) U unfolding i128_min_def by (intro mult_right_mono) simp_all
    with low have less: "cmp S (n * U) = Less" by (simp only: cmp_simps)
    have "- (2 ^ 127) * U < 2 ^ 127 * U" using U by simp
    with low have "S < 2 ^ 127 * U" by (rule order_less_trans)
    then show ?thesis
      using fin low hi lo goal less by (simp add: compare_f64_to_i128_def f64_ge_def f64_less_def cmp_def)
  next
    case mid
    define t where "t = f64_trunc x"
    have t: "f64_as_i128 x = t" "\<bar>t\<bar> \<le> 2 ^ 127"
      using as_i128_in_range [OF nan] mid unfolding S_def U_def t_def by blast+
    have eq: "f64_eq x (i128_as_f64 t) \<longleftrightarrow> S = t * U"
      using trunc_cast [OF nan] t(2) unfolding f64_eq_def S_def U_def t_def by simp
    have no_branch: "\<not> f64_ge x (i128_as_f64 i128_max)" "\<not> f64_less x (i128_as_f64 i128_min)"
      using mid hi lo by (auto simp: f64_ge_def f64_less_def)
    have bounds: "is_sign_negative x \<Longrightarrow> S \<le> t * U \<and> (t - 1) * U < S"
      "\<not> is_sign_negative x \<Longrightarrow> t * U \<le> S \<and> S < (t + 1) * U"
      using trunc_bounds [of x] unfolding S_def U_def t_def by blast+
    have step: "a \<le> b \<Longrightarrow> a * U \<le> b * U" for a b using U by simp
    have "(case cmp t n of
        Equal \<Rightarrow> (if S = t * U then Some Equal else if is_sign_negative x then Some Less else Some Greater)
      | o1 \<Rightarrow> Some o1) = Some (cmp S (n * U))"
    proof (cases t n rule: linorder_cases)
      case less
      then have "(t + 1) * U \<le> n * U" by (intro step) simp
      moreover have "t * U < (t + 1) * U" using U by simp
      ultimately have "S < n * U" using bounds by (cases "is_sign_negative x") auto
      with less show ?thesis by (simp add: cmp_def)
    next
      case greater
      then have "n * U \<le> (t - 1) * U" by (intro step) simp
      moreover have "(t - 1) * U < t * U" using U by simp
      ultimately have "n * U < S" using bounds by (cases "is_sign_negative x") auto
      with greater show ?thesis by (simp add: cmp_def)
    next
      case equal
      with bounds show ?thesis by (cases "is_sign_negative x") (auto simp: cmp_def)
    qed
    then show ?thesis
      unfolding compare_f64_to_i128_def Let_def t(1) eq goal using fin no_branch by simp
  qed
qed

lemma nd_compare_exact:
  "nd_defined a \<Longrightarrow> nd_defined b \<Longrightarrow> nd_compare a b = Some (cmp (nd_value a) (nd_value b))"
proof (cases a; cases b)
  fix i j assume "a = DInteger i" "b = DInteger j"
  then show ?thesis by (simp add: cmp_def)
qed (simp_all add: compare_f64_exact partial_cmp_value reverse_cmp)

text \<open>
  C11. For every pair of numeric dates that are finite floats or 128-bit integers,
  \<open>NumericDate::compare\<close> returns the order of the two rational numbers they denote,
  although the comparison of a float with an integer goes through truncation and
  rounding casts.
\<close>

theorem numeric_date_compare_exact:
  assumes "nd_defined a" and "nd_defined b"
  shows "nd_compare a b = Some (cmp (nd_value a) (nd_value b))"
  using assms by (rule nd_compare_exact)

text \<open>\<open>2^53 + 1\<close> has no exact binary64 form; it is above the float \<open>2^53\<close>.\<close>

lemma numeric_date_compare_exact_witness:
  "nd_defined (DInteger (2 ^ 53 + 1)) \<and> nd_defined (DFloat (F64 0x4340000000000000)) \<and>
   nd_compare (DInteger (2 ^ 53 + 1)) (DFloat (F64 0x4340000000000000)) =
     Some (cmp (nd_value (DInteger (2 ^ 53 + 1))) (nd_value (DFloat (F64 0x4340000000000000))))"
proof -
  have a: "nd_defined (DInteger (2 ^ 53 + 1))" by (simp add: i128_min_def i128_max_def)
  have b: "nd_defined (DFloat (F64 0x4340000000000000))"
    by (simp add: f64_is_finite_def f64_mag_def f64_inf_mag_def hidden_bit_def)
  show ?thesis using numeric_date_compare_exact [OF a b] a b by blast
qed

section \<open>Claims and claims maps\<close>

fun date_to_value :: "numeric_date \<Rightarrow> value" where
  "date_to_value (DInteger i) = VInteger i"
| "date_to_value (DFloat x) = VFloat x"

text \<open>The map entries of the typed fields.\<close>

definition claim_entries :: "claims \<Rightarrow> (int \<times> value option) list" where
  "claim_entries c =
     [(CWTClaimIss, map_option VText (issuer c)), (CWTClaimSub, map_option VText (subject c)),
      (CWTClaimAud, map_option aud_serialize (audience_of c))] @
     map (\<lambda>(k, d). (k, map_option date_to_value d))
      [(CWTClaimExp, expiration c), (CWTClaimNbf, not_before c), (CWTClaimIat, issued_at c)] @
     [(CWTClaimCti, map_option VBytes (cwt_id c))]"

definition dates_of :: "claims \<Rightarrow> numeric_date set" where
  "dates_of c = set_option (expiration c) \<union> set_option (not_before c) \<union> set_option (issued_at c)"

definition registered :: "int set" where
  "registered = {1..7}"

text \<open>Inserting optional entries one after the other.\<close>

definition put :: "int \<Rightarrow> value option \<Rightarrow> cose_map \<Rightarrow> cose_map" where
  "put k ov m = (case ov of None \<Rightarrow> m | Some v \<Rightarrow> bt_insert (LInt k) v m)"

lemma wf_put: "wf_bt m \<Longrightarrow> wf_bt (put k ov m)"
  by (simp add: put_def wf_bt_insert split: option.splits)

lemma get_put:
  "bt_get (put k ov m) l = (if l = LInt k \<and> ov \<noteq> None then ov else bt_get m l)"
  by (auto simp: put_def bt_get_insert split: option.splits)

lemma insert_claim_ok:
  "insert_claim m key v = Inr m' \<longleftrightarrow> bt_get m (LInt key) = None \<and> m' = put key (Some v) m"
  by (auto simp: insert_claim_def cm_insert_def put_def split: option.splits)

lemma insert_opt_ok:
  assumes "\<And>x v. field = Some x \<Longrightarrow> conv x = Inr v \<longleftrightarrow> ok x \<and> v = enc x"
  shows "insert_opt conv key field m = Inr m' \<longleftrightarrow>
    (\<forall>x. field = Some x \<longrightarrow> ok x \<and> bt_get m (LInt key) = None) \<and>
    m' = put key (map_option enc field) m"
  using assms by (auto simp: insert_opt_def result_simps insert_claim_ok put_def split: option.splits)

lemma numeric_date_value_ok:
  assumes "\<And>i. - (2 ^ 64) \<le> i \<Longrightarrow> i < 2 ^ 64 \<Longrightarrow> to_integer i = Some i"
  shows "numeric_date_value to_integer d = Inr v \<longleftrightarrow>
    nd_valid d \<and> v = date_to_value d"
proof (cases d)
  case (DInteger i)
  have "ok_or (to_integer i) e = Inr i" if "nd_valid d" for e :: error
    using assms [of i] that by (simp add: DInteger)
  then show ?thesis
    by (auto simp: numeric_date_value_def result_simps guards DInteger simp del: nd_validate.simps)
qed (auto simp: numeric_date_value_def result_simps guards simp del: nd_validate.simps)

text \<open>The readers invert the field encodings.\<close>

lemma claim_text_ok: "claim_text name ov = Inr f \<longleftrightarrow> ov = map_option VText f"
  by (cases "(name, ov)" rule: claim_text.cases; cases f) auto

lemma claim_bytes_ok: "claim_bytes ov = Inr f \<longleftrightarrow> ov = map_option VBytes f"
  by (cases ov rule: claim_bytes.cases; cases f) auto

lemma aud_entry_ok: "aud_entry v = Inr s \<longleftrightarrow> v = VText s"
  by (cases v) auto

lemma audience_from_value_ok: "audience_from_value v = Inr a \<longleftrightarrow> v = aud_serialize a"
proof -
  have entries: "traverse aud_entry vs = Inr ss \<longleftrightarrow> vs = map VText ss" for vs ss
    unfolding traverse_eq_Inr aud_entry_ok by (induction vs arbitrary: ss) (auto simp: list_all2_Cons1)
  show ?thesis by (cases v; cases a) (auto simp: result_simps entries)
qed

lemma numeric_date_from_value_ok:
  "numeric_date_from_value v name = Inr d \<longleftrightarrow>
     v = date_to_value d \<and>
     (\<forall>x. d = DFloat x \<longrightarrow> f64_is_finite x)"
  by (cases v; cases d) (auto simp: from_f64_def)

lemma optional_field:
  assumes "\<And>v x. read v = Inr x \<longleftrightarrow> v = enc x \<and> ok x"
  shows "transpose_opt (map_option read ov) = Inr f \<longleftrightarrow> ov = map_option enc f \<and> (\<forall>x \<in> set_option f. ok x)"
  using assms by (cases ov; cases f) (auto simp: result_simps)

section \<open>Adding and removing entries\<close>

context ordered_map
begin

lemma del_commute: "inv m \<Longrightarrow> del j (del k m) = del k (del j m)"
  by (rule ext) (auto simp: look_del inv_del)

lemma ins_iff_del:
  assumes "inv m" and "inv n"
  shows "look m k = None \<and> n = ins k v m \<longleftrightarrow> look n k = Some v \<and> m = del k n"
proof
  assume *: "look m k = None \<and> n = ins k v m"
  then show "look n k = Some v \<and> m = del k n"
    using assms by (simp add: look_ins del_ins_same)
next
  assume *: "look n k = Some v \<and> m = del k n"
  moreover have "ins k v (del k n) = n"
    using * assms by (intro ext) (auto simp: look_ins look_del inv_ins inv_del)
  ultimately show "look m k = None \<and> n = ins k v m" using assms by (simp add: look_del)
qed

end

lemma put_iff_remove:
  assumes "wf_bt m" and "wf_bt n"
  shows "bt_get m (LInt k) = None \<and> n = put k ov m \<longleftrightarrow>
    bt_get n (LInt k) = ov \<and> m = bt_remove (LInt k) n"
proof (cases ov)
  case None
  show ?thesis using assms bt.del_absent [of n "LInt k"] by (auto simp: put_def None)
next
  case (Some v)
  show ?thesis using bt.ins_iff_del [OF assms, of "LInt k" v] by (simp add: put_def Some)
qed

definition puts :: "(int \<times> value option) list \<Rightarrow> cose_map \<Rightarrow> cose_map" where
  "puts es m = fold (\<lambda>(k, ov). put k ov) es m"

definition removes :: "int list \<Rightarrow> cose_map \<Rightarrow> cose_map" where
  "removes ks m = fold (\<lambda>k. bt_remove (LInt k)) ks m"

lemma wf_removes: "wf_bt m \<Longrightarrow> wf_bt (removes ks m)"
  by (induction ks arbitrary: m) (simp_all add: removes_def wf_bt_remove)

lemma get_removes:
  "wf_bt m \<Longrightarrow> bt_get (removes ks m) l = (if l \<in> LInt ` set ks then None else bt_get m l)"
  by (induction ks arbitrary: m) (auto simp: removes_def wf_bt_remove bt_get_remove)

lemma removes_remove:
  "wf_bt m \<Longrightarrow> removes ks (bt_remove (LInt k) m) = bt_remove (LInt k) (removes ks m)"
proof (induction ks arbitrary: m)
  case (Cons a ks)
  then show ?case
    using bt.del_commute [of m "LInt a" "LInt k"] by (simp add: removes_def wf_bt_remove)
qed (simp add: removes_def)

lemma puts_iff_removes:
  assumes "distinct (map fst es)" and "wf_bt m" and "wf_bt n"
  shows "(\<forall>k \<in> fst ` set es. bt_get m (LInt k) = None) \<and> n = puts es m \<longleftrightarrow>
    (\<forall>(k, ov) \<in> set es. bt_get n (LInt k) = ov) \<and> m = removes (map fst es) n"
  using assms
proof (induction es arbitrary: m)
  case Nil
  then show ?case by (auto simp: puts_def removes_def)
next
  case (Cons e es)
  obtain k ov where e: "e = (k, ov)" by (cases e)
  define r where "r = removes (map fst es) n"
  have r: "wf_bt r" "bt_get r (LInt k) = bt_get n (LInt k)"
    using Cons.prems by (auto simp: r_def e wf_removes get_removes)
  have "(\<forall>j \<in> fst ` set es. bt_get (put k ov m) (LInt j) = None) \<longleftrightarrow>
      (\<forall>j \<in> fst ` set es. bt_get m (LInt j) = None)"
    using Cons.prems(1) by (auto simp: get_put e)
  then have IH: "(\<forall>j \<in> fst ` set es. bt_get m (LInt j) = None) \<and> n = puts es (put k ov m) \<longleftrightarrow>
      (\<forall>(j, ov) \<in> set es. bt_get n (LInt j) = ov) \<and> put k ov m = r"
    using Cons.IH [of "put k ov m"] Cons.prems by (simp add: r_def wf_put)
  have step: "bt_get m (LInt k) = None \<and> r = put k ov m \<longleftrightarrow>
      bt_get n (LInt k) = ov \<and> m = bt_remove (LInt k) r"
    using put_iff_remove [OF Cons.prems(2) r(1), of k ov] r(2) by simp
  have unfold: "puts (e # es) m = puts es (put k ov m)"
    "removes (map fst (e # es)) n = bt_remove (LInt k) r"
    using removes_remove [OF Cons.prems(3)] by (simp_all add: puts_def removes_def e r_def)
  show ?case unfolding unfold using IH step by (auto simp: e)
qed

section \<open>Both directions of the conversion\<close>

lemma entries_keys: "map fst (claim_entries c) = [1, 2, 3, 4, 5, 6, 7]"
  by (simp add: claim_entries_def)

lemma to_map_puts:
  assumes conv: "\<And>i. - (2 ^ 64) \<le> i \<Longrightarrow> i < 2 ^ 64 \<Longrightarrow> to_integer i = Some i"
    and clean: "\<forall>k \<in> registered. bt_get (extra c) (LInt k) = None"
  shows "to_map to_integer c = Inr m \<longleftrightarrow>
    (\<forall>d \<in> dates_of c. nd_valid d) \<and> m = puts (claim_entries c) (extra c)"
proof -
  have absent: "bt_get (extra c) (LInt 1) = None" "bt_get (extra c) (LInt 2) = None"
    "bt_get (extra c) (LInt 3) = None" "bt_get (extra c) (LInt 4) = None"
    "bt_get (extra c) (LInt 5) = None" "bt_get (extra c) (LInt 6) = None"
    "bt_get (extra c) (LInt 7) = None"
    using clean by (simp_all add: registered_def)
  have pure: "insert_opt (Inr \<circ> enc) key field m = Inr m' \<longleftrightarrow>
      (\<forall>x. field = Some x \<longrightarrow> bt_get m (LInt key) = None) \<and> m' = put key (map_option enc field) m"
    for enc key m m' and field :: "'b option"
    using insert_opt_ok [of field "Inr \<circ> enc" "\<lambda>_. True" enc key m m'] by auto
  have date: "insert_opt (numeric_date_value to_integer) key d m = Inr m' \<longleftrightarrow>
      (\<forall>x. d = Some x \<longrightarrow> nd_valid x \<and> bt_get m (LInt key) = None) \<and>
      m' = put key (map_option date_to_value d) m" for key d m m'
    by (rule insert_opt_ok) (rule numeric_date_value_ok [OF conv])
  show ?thesis
    by (auto simp: to_map_def Let_def result_simps pure date get_put absent puts_def claim_entries_def
        dates_of_def)
qed

lemma from_map_iff:
  assumes wf: "wf_bt m"
  shows "from_map m = Inr c \<longleftrightarrow>
    (\<forall>(k, ov) \<in> set (claim_entries c). bt_get m (LInt k) = ov) \<and>
    extra c = removes [1, 2, 3, 4, 5, 6, 7] m \<and>
    (\<forall>d \<in> dates_of c. \<forall>x. d = DFloat x \<longrightarrow> f64_is_finite x)"
proof -
  have get: "bt_get (removes ks m) (LInt k) = bt_get m (LInt k)" if "k \<notin> set ks" for ks k
    using that by (auto simp: get_removes [OF wf])
  note aud = optional_field [of audience_from_value aud_serialize "\<lambda>_. True", simplified, OF audience_from_value_ok]
  note date = optional_field [of "\<lambda>v. numeric_date_from_value v name" date_to_value
      "\<lambda>d. \<forall>x. d = DFloat x \<longrightarrow> f64_is_finite x" for name, OF numeric_date_from_value_ok]
  have step: "bt_remove (LInt k) (removes ks m) = removes (ks @ [k]) m" for k ks
    by (simp add: removes_def)
  have "bt_remove (LInt 1) m = removes [1] m" by (simp add: removes_def)
  then show ?thesis
    by (cases c)
      (auto simp: from_map_def Let_def cm_remove_def andThen_eq_Inr claim_text_ok claim_bytes_ok aud date
        step get claim_entries_def dates_of_def)
qed

text \<open>
  C23. \<open>Claims::to_map\<close> and \<open>Claims::from_map\<close> are inverse to each other: for claims whose
  extra map has none of the seven registered keys, the claims convert to a map exactly
  when that map converts back to the same claims and every date is encodable.
  \<open>to_integer\<close> is the library's conversion of an \<open>i128\<close> in the CBOR range.
\<close>

theorem claims_map_roundtrip:
  assumes "\<And>i. - (2 ^ 64) \<le> i \<Longrightarrow> i < 2 ^ 64 \<Longrightarrow> to_integer i = Some i"
    and "wf_bt m" and "wf_bt (extra c)"
  shows "to_map to_integer c = Inr m \<and> (\<forall>k \<in> registered. bt_get (extra c) (LInt k) = None) \<longleftrightarrow>
    from_map m = Inr c \<and> (\<forall>d \<in> dates_of c. nd_valid d)"
proof -
  have reg: "registered = fst ` set (claim_entries c)"
    by (auto simp: registered_def claim_entries_def)
  have finite: "\<forall>d \<in> dates_of c. nd_valid d \<Longrightarrow> \<forall>d \<in> dates_of c. \<forall>x. d = DFloat x \<longrightarrow> f64_is_finite x"
    by force
  have "distinct (map fst (claim_entries c))" by (simp add: entries_keys)
  from puts_iff_removes [OF this assms(3,2)] show ?thesis
    using to_map_puts [of to_integer c m, OF assms(1)] from_map_iff [OF assms(2), of c] finite
    unfolding reg entries_keys by metis
qed

definition example_claims :: claims where
  "example_claims = claims_new \<lparr>issuer := Some ''coap://as'', audience_of := Some (Many [''a'', ''b'']),
     expiration := Some (DInteger 1444064944), cwt_id := Some [11, 113],
     extra := [(LInt 8, VBool True)]\<rparr>"

lemma claims_map_roundtrip_witness:
  "to_map Some example_claims = Inr
     [(LInt 1, VText ''coap://as''), (LInt 3, VArray [VText ''a'', VText ''b'']),
      (LInt 4, VInteger 1444064944), (LInt 7, VBytes [11, 113]), (LInt 8, VBool True)] \<and>
   from_map [(LInt 1, VText ''coap://as''), (LInt 3, VArray [VText ''a'', VText ''b'']),
      (LInt 4, VInteger 1444064944), (LInt 7, VBytes [11, 113]), (LInt 8, VBool True)] =
     Inr example_claims"
proof -
  let ?m = "[(LInt 1, VText ''coap://as''), (LInt 3, VArray [VText ''a'', VText ''b'']),
      (LInt 4, VInteger 1444064944), (LInt 7, VBytes [11, 113]), (LInt 8, VBool True)]"
  have m: "to_map Some example_claims = Inr ?m" by code_simp
  have "\<forall>k \<in> registered. bt_get (extra example_claims) (LInt k) = None"
    by (simp add: registered_def example_claims_def)
  then have "from_map ?m = Inr example_claims"
    using claims_map_roundtrip [of Some ?m example_claims] m by (simp add: example_claims_def)
  with m show ?thesis by blast
qed

section \<open>Validation\<close>

text \<open>The clock and the configured time are 64-bit quantities.\<close>

fun wf_clock :: "clock \<Rightarrow> bool" where
  "wf_clock (Since secs nanos) \<longleftrightarrow> secs < 2 ^ 64"
| "wf_clock (Before secs nanos) \<longleftrightarrow> secs < 2 ^ 64"

definition wf_options :: "validator_options \<Rightarrow> bool" where
  "wf_options opts \<longleftrightarrow> (\<forall>t \<in> set_option (fixed_now opts). in_i64 t)"

text \<open>The validity window of RFC 8392, over rational dates.\<close>

definition in_window :: "int \<Rightarrow> validator_options \<Rightarrow> claims \<Rightarrow> bool" where
  "in_window t opts c \<longleftrightarrow>
     (let skew = int (clock_skew_secs opts) in
      (case expiration c of
         None \<Rightarrow> allow_missing_expiration opts
       | Some d \<Rightarrow> nd_valid d \<and> of_int (t - skew) < nd_value d) \<and>
      (\<forall>d \<in> set_option (not_before c). nd_valid d \<and> nd_value d \<le> of_int (t + skew)) \<and>
      (expect_issued_in_the_past opts \<longrightarrow>
        (\<forall>d \<in> set_option (issued_at c). nd_valid d \<and> nd_value d \<le> of_int (t + skew))))"

definition identity_ok :: "validator_options \<Rightarrow> claims \<Rightarrow> bool" where
  "identity_ok opts c \<longleftrightarrow>
     (\<forall>s \<in> set_option (expected_issuer opts). issuer c = Some s) \<and>
     (\<forall>s \<in> set_option (expected_audience opts). \<exists>a. audience_of c = Some a \<and> aud_contains a s)"

lemma validator_new_ok [guards]: "validator_new o1 = Inr opts \<longleftrightarrow> opts = o1 \<and> clock_skew_secs o1 \<le> 600"
  by (auto simp: validator_new_def MAX_CLOCK_SKEW_SECS_def)

lemma now_in_range:
  assumes "wf_clock clk" and "wf_options opts" and "clock_skew_secs opts \<le> 600"
  shows "i128_min \<le> now clk opts - int (clock_skew_secs opts)"
    and "now clk opts - int (clock_skew_secs opts) \<le> i128_max"
    and "i128_min \<le> now clk opts + int (clock_skew_secs opts)"
    and "now clk opts + int (clock_skew_secs opts) \<le> i128_max"
proof -
  have "- (2 ^ 65) \<le> now clk opts \<and> now clk opts \<le> 2 ^ 65"
  proof (cases "fixed_now opts")
    case None
    then show ?thesis using assms(1) by (cases clk) (auto simp: now_def)
  next
    case (Some t)
    then show ?thesis using assms(2) by (simp add: now_def wf_options_def in_i64_def)
  qed
  moreover have "0 \<le> int (clock_skew_secs opts)" "int (clock_skew_secs opts) \<le> 600" using assms(3) by simp_all
  ultimately show "i128_min \<le> now clk opts - int (clock_skew_secs opts)"
    and "now clk opts - int (clock_skew_secs opts) \<le> i128_max"
    and "i128_min \<le> now clk opts + int (clock_skew_secs opts)"
    and "now clk opts + int (clock_skew_secs opts) \<le> i128_max"
    by (simp_all add: i128_min_def i128_max_def)
qed

lemma partial_cmp_integer_exact:
  "nd_valid d \<Longrightarrow> i128_min \<le> n \<Longrightarrow> n \<le> i128_max \<Longrightarrow>
     partial_cmp_integer d n = Some (cmp (nd_value d) (of_int n))"
  by (simp add: partial_cmp_integer_def nd_compare_exact nd_valid_defined)

lemma validated_option:
  "transpose_opt (map_option nd_validate d) = Inr e \<longleftrightarrow> e = d \<and> (\<forall>x \<in> set_option d. nd_valid x)"
  by (cases d; cases e) (auto simp: result_simps guards simp del: nd_validate.simps)

lemma check_times_ok:
  assumes "wf_clock clk" and "wf_options opts" and "clock_skew_secs opts \<le> 600"
  shows "check_times clk opts (expiration c) (not_before c) (issued_at c) = Inr () \<longleftrightarrow>
    in_window (now clk opts) opts c"
proof -
  note exact = partial_cmp_integer_exact [OF _ now_in_range(1,2) [OF assms]]
    partial_cmp_integer_exact [OF _ now_in_range(3,4) [OF assms]]
  show ?thesis
    unfolding check_times_def in_window_def
    by (cases "expect_issued_in_the_past opts";
        simp only: Let_def if_True if_False andThen_eq_Inr validated_option;
        cases "expiration c"; cases "not_before c"; cases "issued_at c"; auto simp: exact not_less)
qed

lemma check_identity_ok:
  "check_identity debug_str opts (issuer c) (audience_of c) = Inr () \<longleftrightarrow> identity_ok opts c"
  by (auto simp: check_identity_def identity_ok_def andThen_eq_Inr split: option.splits)

text \<open>
  C12. A validator built by \<open>Validator::new\<close> accepts exactly the claims whose expiration lies
  strictly after the current time less the skew (or is absent and may be), whose
  not-before (and, when asked for, issued-at) lies at or before the current time plus the
  skew, all dates being finite and in range, and whose issuer and audience are the
  expected ones. The dates are compared as rational numbers.
\<close>

theorem cwt_validate_iff:
  assumes "validator_new o1 = Inr opts" and "wf_clock clk" and "wf_options opts"
  shows "cwt_validate clk debug_str opts c = Inr () \<longleftrightarrow>
    in_window (now clk opts) opts c \<and> identity_ok opts c"
  using check_times_ok [OF assms(2,3), of c] assms(1) check_identity_ok [of debug_str opts c]
  by (simp add: cwt_validate_def andThen_eq_Inr guards)

definition example_options :: validator_options where
  "example_options = \<lparr>expected_issuer = Some ''coap://as'', expected_audience = Some ''b'',
     allow_missing_expiration = False, expect_issued_in_the_past = False, clock_skew_secs = 60,
     fixed_now = Some 1444064950\<rparr>"

lemma cwt_validate_iff_witness:
  "cwt_validate (Since 0 0) id example_options example_claims = Inr () \<and>
   cwt_validate (Since 0 0) id (example_options \<lparr>clock_skew_secs := 6\<rparr>) example_claims \<noteq> Inr ()"
proof -
  have new: "validator_new o1 = Inr o1" if "clock_skew_secs o1 \<le> 600" for o1
    using that by (simp add: guards)
  have "wf_clock (Since 0 0)" "wf_options example_options"
    "wf_options (example_options \<lparr>clock_skew_secs := 6\<rparr>)"
    by (simp_all add: wf_options_def example_options_def in_i64_def)
  note iff = cwt_validate_iff [OF new this(1,2)] cwt_validate_iff [OF new this(1,3)]
  have sk: "clock_skew_secs example_options \<le> 600"
    "clock_skew_secs (example_options \<lparr>clock_skew_secs := 6\<rparr>) \<le> 600"
    by (simp_all add: example_options_def)
  show ?thesis
    unfolding iff(1) [OF sk(1)] iff(2) [OF sk(2)]
    by (simp add: in_window_def identity_ok_def example_options_def example_claims_def claims_new_def
        now_def Let_def)
qed

text \<open>
  The two validation entry points agree: on the map of any claims that
  \<open>Claims::from_map\<close> accepts, \<open>validate_map\<close> returns what \<open>validate\<close> returns on the
  claims, the error included.
\<close>

theorem validate_map_agrees:
  assumes "wf_bt m" and "from_map m = Inr c"
  shows "claims_validate_map clk debug_str opts m = cwt_validate clk debug_str opts c"
proof -
  note fields = from_map_iff [OF assms(1), of c, THEN iffD1, OF assms(2)]
  then have get: "bt_get m (LInt 1) = map_option VText (issuer c)"
    "bt_get m (LInt 3) = map_option aud_serialize (audience_of c)"
    "bt_get m (LInt 4) = map_option date_to_value (expiration c)"
    "bt_get m (LInt 5) = map_option date_to_value (not_before c)"
    "bt_get m (LInt 6) = map_option date_to_value (issued_at c)"
    by (simp_all add: claim_entries_def)
  have date: "transpose_opt (map_option (\<lambda>v. numeric_date_from_value v name)
      (map_option date_to_value d)) = Inr d" if "\<And>x. d = Some x \<Longrightarrow> x \<in> dates_of c" for d name
    using fields that numeric_date_from_value_ok [of "date_to_value (the d)" name "the d"]
    by (cases d) auto
  have dates: "numeric_date_claim m 4 n = Inr (expiration c)" "numeric_date_claim m 5 n = Inr (not_before c)"
    "numeric_date_claim m 6 n = Inr (issued_at c)" for n
    unfolding numeric_date_claim_def cm_get_def get by (rule date, simp add: dates_of_def)+
  have "audience_claim m = Inr (audience_of c)"
    by (cases "audience_of c") (simp_all add: audience_claim_def cm_get_def get audience_from_value_ok [THEN iffD2])
  moreover have "get_text m (LInt 1) = Inr (issuer c)"
    by (cases "issuer c") (simp_all add: get_text_def get)
  ultimately show ?thesis
    by (simp add: claims_validate_map_def cwt_validate_def dates)
qed

lemma validate_map_agrees_witness:
  "claims_validate_map (Since 0 0) id example_options
     [(LInt 1, VText ''coap://as''), (LInt 3, VText ''b''), (LInt 4, VInteger 1444064944)] = Inr ()"
proof -
  let ?m = "[(LInt 1, VText ''coap://as''), (LInt 3, VText ''b''), (LInt 4, VInteger 1444064944)]"
  let ?c = "claims_new \<lparr>issuer := Some ''coap://as'', audience_of := Some (One ''b''),
     expiration := Some (DInteger 1444064944)\<rparr>"
  have "from_map ?m = Inr ?c" by code_simp
  then have "claims_validate_map (Since 0 0) id example_options ?m = cwt_validate (Since 0 0) id example_options ?c"
    by (rule validate_map_agrees [rotated]) (simp add: less_label_def)
  also have "\<dots> = Inr ()" by code_simp
  finally show ?thesis .
qed

end
