(* ===== verification/SdCore.thy ===== *)
theory SdCore
  imports Util
begin

text \<open>
  \<open>src/sd-cwt/src/lib.rs\<close>: the SD-CWT header parameters and markers, AEAD-encrypted
  disclosures with their header entry, the processing limits and the traversal budget that
  issuance, validation and restoration share. A budget is its limits, which never change,
  and the count of visited items, which every step returns updated.
\<close>

section \<open>Registered numbers\<close>

abbreviation (input) HEADER_SD_CLAIMS :: int where "HEADER_SD_CLAIMS \<equiv> 17"
abbreviation (input) HEADER_SD_ALG :: int where "HEADER_SD_ALG \<equiv> 170"
abbreviation (input) HEADER_SD_AEAD_ENCRYPTED_CLAIMS :: int where "HEADER_SD_AEAD_ENCRYPTED_CLAIMS \<equiv> 171"
abbreviation (input) HEADER_SD_AEAD :: int where "HEADER_SD_AEAD \<equiv> 172"
abbreviation (input) HEADER_CWT_CLAIMS :: int where "HEADER_CWT_CLAIMS \<equiv> 15"
abbreviation (input) HEADER_TYP :: int where "HEADER_TYP \<equiv> 16"
abbreviation (input) CONTENT_FORMAT_SD_CWT :: int where "CONTENT_FORMAT_SD_CWT \<equiv> 293"
abbreviation (input) CONTENT_FORMAT_KB_CWT :: int where "CONTENT_FORMAT_KB_CWT \<equiv> 294"
abbreviation (input) CWT_CLAIM_VCT :: int where "CWT_CLAIM_VCT \<equiv> 11"
abbreviation (input) CWT_CLAIM_CNONCE :: int where "CWT_CLAIM_CNONCE \<equiv> 39"
abbreviation (input) REDACTED_CLAIM_KEYS_SIMPLE :: u8 where "REDACTED_CLAIM_KEYS_SIMPLE \<equiv> 59"
abbreviation (input) REDACTED_ELEMENT_TAG :: u64 where "REDACTED_ELEMENT_TAG \<equiv> 60"
abbreviation (input) TO_BE_REDACTED_TAG :: u64 where "TO_BE_REDACTED_TAG \<equiv> 58"
abbreviation (input) TO_BE_DECOY_TAG :: u64 where "TO_BE_DECOY_TAG \<equiv> 62"
abbreviation (input) ALG_SHA_256 :: int where "ALG_SHA_256 \<equiv> AlgorithmSHA_256"

section \<open>Markers\<close>

definition redacted_claim_keys_label :: "value" where
  "redacted_claim_keys_label = VSimple REDACTED_CLAIM_KEYS_SIMPLE"

fun is_redacted_claim_keys_label :: "value \<Rightarrow> bool" where
  "is_redacted_claim_keys_label (VSimple s) = (s = REDACTED_CLAIM_KEYS_SIMPLE)"
| "is_redacted_claim_keys_label _ = False"

definition redacted_element :: "bytes \<Rightarrow> value" where
  "redacted_element hash = VTag REDACTED_ELEMENT_TAG (VBytes hash)"

definition is_sd_tag :: "u64 \<Rightarrow> bool" where
  "is_sd_tag t \<longleftrightarrow> t = TO_BE_REDACTED_TAG \<or> t = REDACTED_ELEMENT_TAG \<or> t = TO_BE_DECOY_TAG"

section \<open>Header parameters\<close>

definition sd_alg :: "header \<Rightarrow> error + int option" where
  "sd_alg protected = get_i64 protected (LInt HEADER_SD_ALG)"

definition set_sd_alg :: "int \<Rightarrow> header \<Rightarrow> header" where
  "set_sd_alg a protected = snd (cm_insert (LInt HEADER_SD_ALG) (VInteger a) protected)"

definition set_sd_cwt_typ :: "header \<Rightarrow> header" where
  "set_sd_cwt_typ protected =
     snd (cm_insert (LInt HEADER_TYP) (VInteger CONTENT_FORMAT_SD_CWT) protected)"

definition set_kb_cwt_typ :: "header \<Rightarrow> header" where
  "set_kb_cwt_typ protected =
     snd (cm_insert (LInt HEADER_TYP) (VInteger CONTENT_FORMAT_KB_CWT) protected)"

definition sd_aead :: "header \<Rightarrow> error + nat option" where
  "sd_aead protected =
     andThen (get_i64 protected (LInt HEADER_SD_AEAD)) (\<lambda>v. case v of
       None \<Rightarrow> Inr None
     | Some v \<Rightarrow> map_ok Some (ok_or (try_u16 v) (UnexpectedType ''sd_aead must be a uint .size 2'')))"

definition set_sd_aead :: "u16 \<Rightarrow> header \<Rightarrow> header" where
  "set_sd_aead a protected = snd (cm_insert (LInt HEADER_SD_AEAD) (VInteger (int (unat a))) protected)"

section \<open>Limits and budget\<close>

record processing_limits =
  max_depth :: nat
  max_items :: nat
  max_disclosures :: nat
  max_disclosure_bytes :: nat
  max_container_entries :: nat
  max_input_bytes :: nat

definition default_processing_limits :: processing_limits where
  "default_processing_limits = \<lparr>max_depth = 64, max_items = 100000, max_disclosures = 4096,
     max_disclosure_bytes = 4 * 1024 * 1024, max_container_entries = 16384,
     max_input_bytes = 8 * 1024 * 1024\<rparr>"

definition tb_consume :: "processing_limits \<Rightarrow> nat \<Rightarrow> nat \<Rightarrow> error + nat" where
  "tb_consume lim count visited =
     (case checked_add visited count of
        None \<Rightarrow> Inl (Custom ''SD-CWT item count overflow'')
      | Some n \<Rightarrow> if max_items lim < n then Inl (LimitExceeded ''SD-CWT item'' (max_items lim)) else Inr n)"

definition tb_enter :: "processing_limits \<Rightarrow> nat \<Rightarrow> nat \<Rightarrow> error + nat" where
  "tb_enter lim depth visited =
     (if max_depth lim < depth then Inl (LimitExceeded ''SD-CWT nesting'' (max_depth lim))
      else tb_consume lim 1 visited)"

definition tb_container :: "processing_limits \<Rightarrow> nat \<Rightarrow> error + unit" where
  "tb_container lim len =
     (if max_container_entries lim < len
      then Inl (LimitExceeded ''SD-CWT container entry'' (max_container_entries lim)) else Inr ())"

section \<open>Reading values\<close>

fun sd_label_from_value :: "value \<Rightarrow> error + label" where
  "sd_label_from_value (VInteger i) =
     map_ok LInt (ok_or (try_i64 i) (UnexpectedType ''claim key integer out of range''))"
| "sd_label_from_value (VText s) =
     (if 1 \<le> length s \<and> length s \<le> 255 then Inr (LText s)
      else Inl (UnexpectedType ''SD-CWT text claim keys must contain 1 to 255 octets''))"
| "sd_label_from_value _ =
     Inl (UnexpectedType ''disclosed claim key must be an integer or text string'')"

fun expect_bytes :: "value \<Rightarrow> string \<Rightarrow> error + bytes" where
  "expect_bytes (VBytes b) name = Inr b"
| "expect_bytes _ name = Inl (UnexpectedType (name @ '' must be bytes''))"

fun expect_owned_bytes :: "value \<Rightarrow> string \<Rightarrow> error + bytes" where
  "expect_owned_bytes (VBytes b) name = Inr b"
| "expect_owned_bytes _ name = Inl (UnexpectedType name)"

text \<open>The items of a value: itself and, recursively, its parts.\<close>

fun items_of :: "value \<Rightarrow> nat" where
  "items_of (VArray vs) = 1 + sum_list (map items_of vs)"
| "items_of (VMap kvs) = 1 + sum_list (map (\<lambda>(k, v). items_of k + items_of v) kvs)"
| "items_of (VTag t v) = 1 + items_of v"
| "items_of (VInteger i) = 1"
| "items_of (VFloat x) = 1"
| "items_of (VBytes b) = 1"
| "items_of (VText s) = 1"
| "items_of (VBool b) = 1"
| "items_of VNull = 1"
| "items_of (VSimple s) = 1"

lemma items_pos [simp]: "0 < items_of v"
  by (cases v) auto

lemma items_of_pairs:
  "sum_list (map items_of (concat (map (\<lambda>(k, v). [k, v]) kvs))) =
     sum_list (map (\<lambda>(k, v). items_of k + items_of v) kvs)"
  by (induction kvs) auto

lemma items_of_rev: "sum_list (map items_of (rev vs)) = sum_list (map items_of vs)"
  by (metis rev_map sum_list_rev)

text \<open>\<open>value_item_count\<close> with its explicit stack; the head of the list is the top.\<close>

function count_pending :: "value list \<Rightarrow> nat \<Rightarrow> error + nat" where
  "count_pending [] count = Inr count"
| "count_pending (v # pending) count =
     (case checked_add count 1 of
        None \<Rightarrow> Inl (Custom ''SD-CWT item count overflow'')
      | Some count \<Rightarrow>
          (case v of
             VArray items \<Rightarrow> count_pending (rev items @ pending) count
           | VMap entries \<Rightarrow>
               count_pending (rev (concat (map (\<lambda>(k, v). [k, v]) entries)) @ pending) count
           | VTag _ inner \<Rightarrow> count_pending (inner # pending) count
           | _ \<Rightarrow> count_pending pending count))"
  by pat_completeness auto

termination
proof (relation "measure (\<lambda>(vs, n). sum_list (map items_of vs))", goal_cases)
  case 1
  then show ?case by simp
qed (auto simp: items_of_rev items_of_pairs)

definition value_item_count :: "value \<Rightarrow> error + nat" where
  "value_item_count v = count_pending [v] 0"

lemma count_pending_ok:
  "count_pending vs n = Inr m \<Longrightarrow> m = n + sum_list (map items_of vs)"
proof (induction vs n rule: count_pending.induct)
  case (1 n)
  then show ?case by simp
next
  case (2 v vs n)
  have c: "checked_add n 1 = Some (n + 1)"
    using "2.prems" by (auto simp: checked_add_def split: if_splits)
  note IH = "2.IH" [OF c]
  from "2.prems" c IH show ?case by (cases v) (simp_all add: items_of_rev items_of_pairs)
qed

lemma count_pending_total:
  "n + sum_list (map items_of vs) < usize_limit \<Longrightarrow>
     count_pending vs n = Inr (n + sum_list (map items_of vs))"
proof (induction vs n rule: count_pending.induct)
  case (1 n)
  then show ?case by simp
next
  case (2 v vs n)
  have "n + 1 < usize_limit" using "2.prems" items_pos [of v] by (simp only: list.map sum_list.Cons)
  then have "checked_add n 1 = Some (n + 1)" by (simp add: checked_add_def)
  with 2 show ?case by (cases v) (auto simp: items_of_rev items_of_pairs add.assoc)
qed

text \<open>The explicit stack computes the recursive count.\<close>

lemma value_item_count_ok: "value_item_count v = Inr n \<Longrightarrow> n = items_of v"
  using count_pending_ok [of "[v]" 0 n] by (simp only: value_item_count_def) simp

lemma value_item_count_total: "items_of v < usize_limit \<Longrightarrow> value_item_count v = Inr (items_of v)"
  using count_pending_total [of 0 "[v]"] by (simp add: value_item_count_def)

section \<open>Characterisations of the budget steps\<close>

lemma tb_consume_ok [guards]:
  "tb_consume lim c n = Inr m \<longleftrightarrow> m = n + c \<and> n + c < usize_limit \<and> n + c \<le> max_items lim"
  by (auto simp: tb_consume_def checked_add_def)

lemma tb_enter_ok [guards]:
  "tb_enter lim d n = Inr m \<longleftrightarrow>
     d \<le> max_depth lim \<and> m = Suc n \<and> Suc n < usize_limit \<and> Suc n \<le> max_items lim"
  by (auto simp: tb_enter_def guards)

lemma tb_container_ok [guards]: "tb_container lim k = Inr u \<longleftrightarrow> k \<le> max_container_entries lim"
  by (auto simp: tb_container_def)

lemma sd_label_from_value_ok:
  "sd_label_from_value v = Inr l \<Longrightarrow> v = value_of_label l"
  by (cases v) (auto simp: result_simps split: if_splits)

lemma expect_owned_bytes_ok [guards]: "expect_owned_bytes v m = Inr b \<longleftrightarrow> v = VBytes b"
  by (cases v) auto

lemma expect_bytes_ok [guards]: "expect_bytes v m = Inr b \<longleftrightarrow> v = VBytes b"
  by (cases v) auto

section \<open>AEAD-encrypted disclosures\<close>

datatype aead_key_context = KcUint u64 | KcText string | KcThumbprint bytes

record aead_disclosure =
  ae_nonce :: bytes
  ae_ciphertext :: bytes
  ae_tag :: bytes
  ae_key_context :: "aead_key_context option"

fun key_context_value :: "aead_key_context \<Rightarrow> value" where
  "key_context_value (KcUint n) = VInteger (int (unat n))"
| "key_context_value (KcText s) = VText s"
| "key_context_value (KcThumbprint b) = VBytes b"

definition ae_to_value :: "aead_disclosure \<Rightarrow> value" where
  "ae_to_value self =
     VArray ([VBytes (ae_nonce self), VBytes (ae_ciphertext self), VBytes (ae_tag self)] @
       (case ae_key_context self of None \<Rightarrow> [] | Some c \<Rightarrow> [key_context_value c]))"

fun key_context_from_value :: "value \<Rightarrow> error + aead_key_context" where
  "key_context_from_value (VInteger i) =
     map_ok (\<lambda>n. KcUint (word_of_nat n))
       (ok_or (try_u64 i) (UnexpectedType ''AEAD key context uint out of range''))"
| "key_context_from_value (VText s) = Inr (KcText s)"
| "key_context_from_value (VBytes b) = Inr (KcThumbprint b)"
| "key_context_from_value _ =
     Inl (UnexpectedType ''AEAD key context must be uint, text, or bytes'')"

definition ae_from_value :: "value \<Rightarrow> error + aead_disclosure" where
  "ae_from_value v =
     (case v of
        VArray items \<Rightarrow>
          if \<not> (3 \<le> length items \<and> length items \<le> 4)
          then Inl (Custom ''AEAD encrypted disclosure must have 3 or 4 elements'')
          else
            andThen (expect_bytes (items ! 0) ''AEAD nonce'') (\<lambda>nonce.
            andThen (expect_bytes (items ! 1) ''AEAD ciphertext'') (\<lambda>ciphertext.
            andThen (expect_bytes (items ! 2) ''AEAD tag'') (\<lambda>tag.
            if nonce = [] then Inl (Custom ''AEAD disclosure nonce must not be empty'')
            else if ciphertext = [] then Inl (Custom ''AEAD disclosure ciphertext must not be empty'')
            else if length tag < 16
              then Inl (Custom ''AEAD disclosure authentication tag must be at least 16 bytes'')
            else
              andThen (if length items = 4 then map_ok Some (key_context_from_value (items ! 3))
                       else Inr None) (\<lambda>context.
              Inr \<lparr>ae_nonce = nonce, ae_ciphertext = ciphertext, ae_tag = tag,
                   ae_key_context = context\<rparr>))))
      | _ \<Rightarrow> Inl (UnexpectedType ''AEAD encrypted disclosure must be an array''))"

text \<open>The running item count, and the running size, of the entries.\<close>

fun count_items :: "value list \<Rightarrow> nat \<Rightarrow> error + nat" where
  "count_items [] count = Inr count"
| "count_items (v # vs) count =
     andThen (value_item_count v) (\<lambda>n.
     andThen (ok_or (checked_add count n) (Custom ''encrypted disclosure item count overflow''))
       (count_items vs))"

definition context_len :: "aead_disclosure \<Rightarrow> nat" where
  "context_len d =
     (case ae_key_context d of
        Some (KcText s) \<Rightarrow> length s | Some (KcThumbprint b) \<Rightarrow> length b | _ \<Rightarrow> 0)"

fun total_ae_bytes :: "aead_disclosure list \<Rightarrow> nat \<Rightarrow> error + nat" where
  "total_ae_bytes [] tot = Inr tot"
| "total_ae_bytes (d # ds) tot =
     andThen (ok_or
       (Option.bind (checked_add tot (length (ae_nonce d))) (\<lambda>tot.
        Option.bind (checked_add tot (length (ae_ciphertext d))) (\<lambda>tot.
        Option.bind (checked_add tot (length (ae_tag d))) (\<lambda>tot.
        checked_add tot (context_len d)))))
       (Custom ''encrypted disclosure size overflow'')) (total_ae_bytes ds)"

definition aead_disclosures_from_unprotected ::
  "header \<Rightarrow> processing_limits \<Rightarrow> error + aead_disclosure list" where
  "aead_disclosures_from_unprotected h lim =
     (case cm_get h (LInt HEADER_SD_AEAD_ENCRYPTED_CLAIMS) of
        None \<Rightarrow> Inr []
      | Some (VArray items) \<Rightarrow>
          if items = [] then
            Inl (Custom ''sd_aead_encrypted_claims must be omitted instead of containing an empty array'')
          else if max_disclosures lim < length items then
            Inl (LimitExceeded ''SD-CWT encrypted disclosure'' (max_disclosures lim))
          else if max_container_entries lim < length items then
            Inl (LimitExceeded ''SD-CWT encrypted disclosure container entry'' (max_container_entries lim))
          else
            andThen (count_items items 1) (\<lambda>item_count.
            if max_items lim < item_count then
              Inl (LimitExceeded ''SD-CWT encrypted disclosure item'' (max_items lim))
            else
              andThen (traverse ae_from_value items) (\<lambda>ds.
              if \<not> distinct (map ae_nonce ds) then
                Inl (Verify ''duplicate nonce in SD-CWT encrypted disclosures'')
              else
                andThen (total_ae_bytes ds 0) (\<lambda>tot.
                if max_disclosure_bytes lim < tot then
                  Inl (LimitExceeded ''SD-CWT encrypted disclosure bytes'' (max_disclosure_bytes lim))
                else Inr ds)))
      | Some _ \<Rightarrow> Inl (UnexpectedType ''sd_aead_encrypted_claims must be an array''))"

definition set_aead_disclosures :: "aead_disclosure list \<Rightarrow> header \<Rightarrow> header" where
  "set_aead_disclosures ds h =
     (if ds = [] then snd (cm_remove (LInt HEADER_SD_AEAD_ENCRYPTED_CLAIMS) h)
      else snd (cm_insert (LInt HEADER_SD_AEAD_ENCRYPTED_CLAIMS) (VArray (map ae_to_value ds)) h))"

end
