(* ===== verification/SdDisclosure.thy ===== *)
theory SdDisclosure
  imports SdCore
begin

text \<open>
  \<open>src/sd-cwt/src/disclosure.rs\<close>, with the checks of issued values that it calls from
  \<open>src/sd-cwt/src/validation.rs\<close>: salted disclosures, their encoding, and the plaintext
  disclosure header. A \<open>HashSet\<close> is a set. A redaction hasher is a parameter, the SHA-256
  of the \<open>sha2\<close> crate included.
\<close>

section \<open>Issued values\<close>

definition position_error :: "u64 \<Rightarrow> string" where
  "position_error t = ''SD-CWT tag '' @ show_nat (unat t) @ '' is not valid in this value position''"

fun issued_hashes :: "processing_limits \<Rightarrow> value list \<Rightarrow> nat \<Rightarrow> nat \<Rightarrow> error + nat" where
  "issued_hashes lim [] n d = Inr n"
| "issued_hashes lim (h # hs) n d =
     andThen (tb_enter lim d n) (\<lambda>n.
     andThen (expect_bytes h ''redacted_claim_keys entry'') (\<lambda>_.
     issued_hashes lim hs n d))"

fun validate_issued_value ::
    "cbor2 \<Rightarrow> processing_limits \<Rightarrow> value \<Rightarrow> nat \<Rightarrow> nat \<Rightarrow> error + nat"
and issued_entries ::
    "cbor2 \<Rightarrow> processing_limits \<Rightarrow> (value \<times> value) list \<Rightarrow> bytes set \<Rightarrow> nat \<Rightarrow> nat \<Rightarrow> error + nat"
and issued_items ::
    "cbor2 \<Rightarrow> processing_limits \<Rightarrow> value list \<Rightarrow> nat \<Rightarrow> nat \<Rightarrow> error + nat" where
  "validate_issued_value cb lim v n d =
     andThen (tb_enter lim d n) (\<lambda>n.
     case v of
       VMap entries \<Rightarrow>
         andThen (tb_container lim (length entries)) (\<lambda>_. issued_entries cb lim entries {} n d)
     | VArray items \<Rightarrow>
         andThen (tb_container lim (length items)) (\<lambda>_. issued_items cb lim items n d)
     | VTag t inner \<Rightarrow>
         if is_sd_tag t then Inl (UnexpectedType (position_error t))
         else validate_issued_value cb lim inner n (d + 1)
     | VSimple s \<Rightarrow>
         if s = REDACTED_CLAIM_KEYS_SIMPLE
         then Inl (UnexpectedType ''simple(59) is only valid as a redacted_claim_keys map key'')
         else Inr n
     | _ \<Rightarrow> Inr n)"
| "issued_entries cb lim [] keys n d = Inr n"
| "issued_entries cb lim ((key, v) # es) keys n d =
     andThen (tb_enter lim (d + 1) n) (\<lambda>n.
     andThen (cbor_to_canonical_vec cb key) (\<lambda>canonical.
     if canonical \<in> keys then Inl (Verify ''duplicate issued SD-CWT map key'')
     else
       andThen
         (if is_redacted_claim_keys_label key then
            case v of
              VArray hashes \<Rightarrow>
                andThen (tb_enter lim (d + 1) n) (\<lambda>n.
                andThen (tb_container lim (length hashes)) (\<lambda>_.
                issued_hashes lim hashes n (d + 2)))
            | _ \<Rightarrow> Inl (UnexpectedType ''redacted_claim_keys value must be an array'')
          else
            andThen (map_err (\<lambda>_. UnexpectedType ''issued SD-CWT map keys must be integers or text'')
              (sd_label_from_value key)) (\<lambda>_.
            validate_issued_value cb lim v n (d + 1)))
         (\<lambda>n. issued_entries cb lim es (insert canonical keys) n d)))"
| "issued_items cb lim [] n d = Inr n"
| "issued_items cb lim (item # items) n d =
     andThen
       (case item of
          VTag t inner \<Rightarrow>
            if t = REDACTED_ELEMENT_TAG then
              andThen (tb_enter lim (d + 1) n) (\<lambda>n.
              andThen (tb_enter lim (d + 2) n) (\<lambda>n.
              andThen (expect_bytes inner ''redacted array element hash'') (\<lambda>_. Inr n)))
            else validate_issued_value cb lim item n (d + 1)
        | _ \<Rightarrow> validate_issued_value cb lim item n (d + 1))
       (\<lambda>n. issued_items cb lim items n d)"

declare validate_issued_value.simps [simp del]

fun validate_text_label :: "label \<Rightarrow> error + unit" where
  "validate_text_label (LText s) =
     (if \<not> (1 \<le> length s \<and> length s \<le> 255)
      then Inl (UnexpectedType ''SD-CWT text map keys must contain 1 to 255 octets'') else Inr ())"
| "validate_text_label (LInt _) = Inr ()"

section \<open>Disclosures\<close>

record hasher =
  hs_algorithm :: int
  hs_digest :: "bytes \<Rightarrow> bytes"

datatype disclosure_kind =
    Claim bytes label "value"
  | Element bytes "value"
  | Decoy bytes

fun kind_salt :: "disclosure_kind \<Rightarrow> bytes" where
  "kind_salt (Claim salt _ _) = salt"
| "kind_salt (Element salt _) = salt"
| "kind_salt (Decoy salt) = salt"

record disclosure =
  d_kind :: disclosure_kind
  d_encoded :: bytes

definition default_hasher_for_sd_alg :: "(bytes \<Rightarrow> bytes) \<Rightarrow> int option \<Rightarrow> error + hasher" where
  "default_hasher_for_sd_alg sha256 a =
     (case a of
        None \<Rightarrow> Inr \<lparr>hs_algorithm = ALG_SHA_256, hs_digest = sha256\<rparr>
      | Some other \<Rightarrow>
          if other = ALG_SHA_256 then Inr \<lparr>hs_algorithm = ALG_SHA_256, hs_digest = sha256\<rparr>
          else Inl (Custom (''unsupported SD-CWT hash algorithm '' @ show_int other)))"

fun kind_to_value :: "disclosure_kind \<Rightarrow> value" where
  "kind_to_value (Claim salt key v) = VArray [VBytes salt, v, value_of_label key]"
| "kind_to_value (Element salt v) = VArray [VBytes salt, v]"
| "kind_to_value (Decoy salt) = VArray [VBytes salt]"

text \<open>The tuples that \<open>encode_kind\<close> serializes have the items of \<open>kind_to_value\<close>.\<close>

definition encode_kind :: "cbor2 \<Rightarrow> disclosure_kind \<Rightarrow> error + bytes" where
  "encode_kind cb k = cbor_to_canonical_vec cb (kind_to_value k)"

definition decode_disclosure_value :: "value \<Rightarrow> error + disclosure_kind" where
  "decode_disclosure_value v =
     (case v of
        VArray [s] \<Rightarrow>
          andThen (expect_owned_bytes s ''disclosure salt must be bytes'') (\<lambda>salt. Inr (Decoy salt))
      | VArray [s, x] \<Rightarrow>
          andThen (expect_owned_bytes s ''disclosure salt must be bytes'') (\<lambda>salt.
          Inr (Element salt x))
      | VArray [s, x, k] \<Rightarrow>
          andThen (expect_owned_bytes s ''disclosure salt must be bytes'') (\<lambda>salt.
          andThen (sd_label_from_value k) (\<lambda>key. Inr (Claim salt key x)))
      | VArray _ \<Rightarrow>
          Inl (UnexpectedType ''Salted Disclosed Claim must have 1, 2, or 3 elements'')
      | _ \<Rightarrow> Inl (UnexpectedType ''Salted Disclosed Claim must be an array''))"

definition validate_disclosure_kind :: "disclosure_kind \<Rightarrow> error + unit" where
  "validate_disclosure_kind k =
     (if length (kind_salt k) \<noteq> 16
      then Inl (UnexpectedType ''Salted Disclosed Claim salt must be 16 bytes'')
      else case k of Claim _ key _ \<Rightarrow> validate_text_label key | _ \<Rightarrow> Inr ())"

definition validate_disclosure_value ::
  "cbor2 \<Rightarrow> disclosure_kind \<Rightarrow> processing_limits \<Rightarrow> error + unit" where
  "validate_disclosure_value cb k lim =
     (let check = (\<lambda>v fixed.
        andThen (tb_consume lim fixed 0) (\<lambda>n. map_ok (\<lambda>_. ()) (validate_issued_value cb lim v n 0))) in
      case k of Claim _ _ v \<Rightarrow> check v 3 | Element _ v \<Rightarrow> check v 2 | Decoy _ \<Rightarrow> Inr ())"

definition definite_cbor_limits :: "processing_limits \<Rightarrow> cbor_limits" where
  "definite_cbor_limits lim =
     \<lparr>cl_max_depth = max_depth lim, cl_max_items = max_items lim, cl_require_definite = True\<rparr>"

definition from_encoded_with_limits ::
  "cbor2 \<Rightarrow> bytes \<Rightarrow> processing_limits \<Rightarrow> error + disclosure" where
  "from_encoded_with_limits cb encoded lim =
     (if max_disclosure_bytes lim < length encoded
      then Inl (LimitExceeded ''SD-CWT disclosure bytes'' (max_disclosure_bytes lim))
      else
        andThen (validate_with_limits cb encoded (definite_cbor_limits lim)) (\<lambda>_.
        andThen (cbor_from_slice cb encoded) (\<lambda>v.
        andThen (decode_disclosure_value v) (\<lambda>kind.
        andThen (validate_disclosure_kind kind) (\<lambda>_.
        andThen (validate_disclosure_value cb kind lim) (\<lambda>_.
        Inr \<lparr>d_kind = kind, d_encoded = encoded\<rparr>))))))"

definition from_encoded :: "cbor2 \<Rightarrow> bytes \<Rightarrow> error + disclosure" where
  "from_encoded cb encoded = from_encoded_with_limits cb encoded default_processing_limits"

definition from_kind_with_limits ::
  "cbor2 \<Rightarrow> disclosure_kind \<Rightarrow> processing_limits \<Rightarrow> error + disclosure" where
  "from_kind_with_limits cb kind lim =
     andThen (validate_disclosure_kind kind) (\<lambda>_.
     andThen (validate_disclosure_value cb kind lim) (\<lambda>_.
     andThen (encode_kind cb kind) (\<lambda>encoded.
     Inr \<lparr>d_kind = kind, d_encoded = encoded\<rparr>)))"

definition from_kind :: "cbor2 \<Rightarrow> disclosure_kind \<Rightarrow> error + disclosure" where
  "from_kind cb kind = from_kind_with_limits cb kind default_processing_limits"

definition claim_disclosure :: "cbor2 \<Rightarrow> bytes \<Rightarrow> label \<Rightarrow> value \<Rightarrow> error + disclosure" where
  "claim_disclosure cb salt key v = from_kind cb (Claim salt key v)"

definition element_disclosure :: "cbor2 \<Rightarrow> bytes \<Rightarrow> value \<Rightarrow> error + disclosure" where
  "element_disclosure cb salt v = from_kind cb (Element salt v)"

definition decoy_disclosure :: "cbor2 \<Rightarrow> bytes \<Rightarrow> error + disclosure" where
  "decoy_disclosure cb salt = from_kind cb (Decoy salt)"

definition redacted_hash :: "disclosure \<Rightarrow> hasher \<Rightarrow> bytes" where
  "redacted_hash self h = hs_digest h (d_encoded self)"

text \<open>\<open>salt\<close> converts to \<open>[u8; 16]\<close>; a validated disclosure has a salt of 16 bytes.\<close>

definition salt :: "disclosure \<Rightarrow> bytes" where
  "salt self = kind_salt (d_kind self)"

definition item_count :: "disclosure \<Rightarrow> error + nat" where
  "item_count self =
     (let with_value = (\<lambda>fixed v.
        andThen (value_item_count v) (\<lambda>n.
        ok_or (checked_add fixed n) (Custom ''SD-CWT item count overflow''))) in
      case d_kind self of
        Claim _ _ v \<Rightarrow> with_value 3 v
      | Element _ v \<Rightarrow> with_value 2 v
      | Decoy _ \<Rightarrow> Inr 2)"

section \<open>The plaintext disclosure header\<close>

fun read_disclosures ::
  "cbor2 \<Rightarrow> processing_limits \<Rightarrow> value list \<Rightarrow> bytes set \<Rightarrow> nat \<Rightarrow> nat \<Rightarrow> error + disclosure list" where
  "read_disclosures cb lim [] salts total_bytes remaining_items = Inr []"
| "read_disclosures cb lim (item # items) salts total_bytes remaining_items =
     (case item of
        VBytes encoded \<Rightarrow>
          andThen (ok_or (checked_add total_bytes (length encoded))
            (Custom ''SD-CWT disclosure size overflow'')) (\<lambda>total_bytes.
          if max_disclosure_bytes lim < total_bytes
          then Inl (LimitExceeded ''SD-CWT disclosure bytes'' (max_disclosure_bytes lim))
          else
            andThen (from_encoded_with_limits cb encoded (lim\<lparr>max_items := remaining_items\<rparr>)) (\<lambda>d.
            if salt d \<in> salts then Inl (Verify ''duplicate SD-CWT disclosure salt'')
            else
              andThen (item_count d) (\<lambda>count.
              andThen (ok_or (checked_sub remaining_items count)
                (LimitExceeded ''SD-CWT disclosure values'' (max_items lim))) (\<lambda>remaining_items.
              andThen (read_disclosures cb lim items (insert (salt d) salts) total_bytes remaining_items)
                (\<lambda>ds. Inr (d # ds))))))
      | _ \<Rightarrow> Inl (UnexpectedType ''sd_claims entries must be byte strings''))"

definition disclosures_from_unprotected_with_limits ::
  "cbor2 \<Rightarrow> header \<Rightarrow> processing_limits \<Rightarrow> error + disclosure list" where
  "disclosures_from_unprotected_with_limits cb h lim =
     (case cm_get h (LInt HEADER_SD_CLAIMS) of
        None \<Rightarrow> Inr []
      | Some (VArray items) \<Rightarrow>
          if items = [] then
            Inl (Custom ''sd_claims must be omitted instead of containing an empty array'')
          else if max_disclosures lim < length items then
            Inl (LimitExceeded ''SD-CWT disclosure'' (max_disclosures lim))
          else
            andThen (ok_or (checked_add (length items) 1) (Custom ''SD-CWT item count overflow''))
              (\<lambda>envelope_items.
            if max_items lim < envelope_items
            then Inl (LimitExceeded ''SD-CWT disclosure values'' (max_items lim))
            else read_disclosures cb lim items {} 0 (max_items lim - envelope_items))
      | Some _ \<Rightarrow> Inl (UnexpectedType ''sd_claims must be an array''))"

definition disclosures_from_unprotected :: "cbor2 \<Rightarrow> header \<Rightarrow> error + disclosure list" where
  "disclosures_from_unprotected cb h =
     disclosures_from_unprotected_with_limits cb h default_processing_limits"

definition set_disclosures :: "disclosure list \<Rightarrow> header \<Rightarrow> header" where
  "set_disclosures ds h =
     (if ds = [] then snd (cm_remove (LInt HEADER_SD_CLAIMS) h)
      else snd (cm_insert (LInt HEADER_SD_CLAIMS) (VArray (map (\<lambda>d. VBytes (d_encoded d)) ds)) h))"

end
