(* ===== verification/DisclosureSet.thy ===== *)
theory DisclosureSet
  imports SdDisclosure
begin

text \<open>
  \<open>DisclosureSet\<close> of \<open>src/sd-cwt/src/disclosure.rs\<close>: the list of disclosures that a holder
  presents, with its header parameter.
\<close>

type_synonym disclosure_set = "disclosure list"

definition ds_new :: disclosure_set where
  "ds_new = []"

definition ds_from_disclosures :: "disclosure list \<Rightarrow> disclosure_set" where
  "ds_from_disclosures ds = ds"

definition ds_from_unprotected :: "cbor2 \<Rightarrow> header \<Rightarrow> error + disclosure_set" where
  "ds_from_unprotected cb h = andThen (disclosures_from_unprotected cb h) (\<lambda>ds. Inr (ds_from_disclosures ds))"

definition ds_push :: "disclosure \<Rightarrow> disclosure_set \<Rightarrow> disclosure_set" where
  "ds_push d self = self @ [d]"

definition ds_is_empty :: "disclosure_set \<Rightarrow> bool" where
  "ds_is_empty self \<longleftrightarrow> self = []"

definition ds_len :: "disclosure_set \<Rightarrow> nat" where
  "ds_len self = length self"

definition ds_write_unprotected :: "disclosure_set \<Rightarrow> header \<Rightarrow> header" where
  "ds_write_unprotected self h = set_disclosures self h"

section \<open>What is written is what is read\<close>

lemma from_encoded_keeps: "from_encoded_with_limits cb encoded lim = Inr d \<Longrightarrow> d_encoded d = encoded"
  by (auto simp: from_encoded_with_limits_def andThen_eq_Inr split: if_splits)

lemma read_disclosures_keeps:
  "read_disclosures cb lim items salts total_bytes remaining_items = Inr ds \<Longrightarrow>
    items = map (\<lambda>d. VBytes (d_encoded d)) ds"
proof (induction items arbitrary: salts total_bytes remaining_items ds)
  case (Cons item items)
  from Cons.prems show ?case
    by (cases item) (auto simp: andThen_eq_Inr ok_or_eq dest!: from_encoded_keeps Cons.IH split: if_splits)
qed simp

text \<open>
  The set that is read from a header has the very bytes that the header carries; a set that was
  written is read back with its bytes, in its order, or not at all.
\<close>

lemma disclosure_set_keeps:
  assumes "wf_bt h" and "ds_from_unprotected cb (ds_write_unprotected ds h) = Inr ds'"
  shows "map d_encoded ds' = map d_encoded ds"
proof (cases "ds = []")
  case True
  then have "cm_get (ds_write_unprotected ds h) (LInt HEADER_SD_CLAIMS) = None"
    using assms(1)
    by (simp add: ds_write_unprotected_def set_disclosures_def cm_remove_def cm_get_def bt_get_remove)
  then show ?thesis using assms(2) True
    by (simp add: ds_from_unprotected_def disclosures_from_unprotected_def ds_from_disclosures_def
        disclosures_from_unprotected_with_limits_def)
next
  case False
  then have "cm_get (ds_write_unprotected ds h) (LInt HEADER_SD_CLAIMS) =
      Some (VArray (map (\<lambda>d. VBytes (d_encoded d)) ds))"
    by (simp add: ds_write_unprotected_def set_disclosures_def cm_insert_def cm_get_def bt_get_insert)
  then have "\<exists>salts n k. read_disclosures cb default_processing_limits
      (map (\<lambda>d. VBytes (d_encoded d)) ds) salts n k = Inr ds'"
    using assms(2) False
    by (auto simp: ds_from_unprotected_def disclosures_from_unprotected_def ds_from_disclosures_def
        disclosures_from_unprotected_with_limits_def andThen_eq_Inr ok_or_eq split: if_splits)
  then have "map (\<lambda>d. VBytes (d_encoded d)) ds = map (\<lambda>d. VBytes (d_encoded d)) ds'"
    by (blast dest: read_disclosures_keeps)
  then show ?thesis by (auto simp: list_eq_iff_nth_eq)
qed

end
