(* ===== verification/SdIssuance.thy ===== *)
theory SdIssuance
  imports DisclosureSet
begin

text \<open>
  \<open>src/sd-cwt/src/issuance.rs\<close>: the conversion of a pre-issuance claims map, in which tag 58
  marks what to redact and tag 62 asks for decoys, into the issued map and its disclosures.
  The salt generator is a parameter with a state of its own; the \<open>IssueContext\<close> is threaded
  through every step and dropped on the first error.
\<close>

section \<open>The context\<close>

type_synonym 'g salt_generator = "'g \<Rightarrow> (error + bytes) \<times> 'g"

record 'g issue_context =
  ic_salts :: 'g
  ic_decoy_ids :: "nat set"
  ic_salts_used :: "bytes set"
  ic_digests_used :: "bytes set"
  ic_disclosures :: "disclosure list"
  ic_disclosure_bytes :: nat
  ic_visited :: nat

text \<open>What issuance does not change: the codec, the limits, the hasher and the generator.\<close>

record 'g issue_env =
  ie_cbor :: cbor2
  ie_limits :: processing_limits
  ie_hasher :: hasher
  ie_next :: "'g salt_generator"

definition ic_next_salt :: "'g issue_env \<Rightarrow> 'g issue_context \<Rightarrow> error + (bytes \<times> 'g issue_context)" where
  "ic_next_salt env c =
     (case ie_next env (ic_salts c) of
        (Inl e, _) \<Rightarrow> Inl e
      | (Inr s, g) \<Rightarrow>
          if s \<in> ic_salts_used c then Inl (Custom ''SaltGenerator returned a duplicate salt'')
          else Inr (s, c\<lparr>ic_salts := g, ic_salts_used := insert s (ic_salts_used c)\<rparr>))"

definition add_disclosure ::
  "'g issue_env \<Rightarrow> disclosure_kind \<Rightarrow> 'g issue_context \<Rightarrow> error + (bytes \<times> 'g issue_context)" where
  "add_disclosure env kind c =
     (let lim = ie_limits env in
      andThen (from_kind_with_limits (ie_cbor env) kind lim) (\<lambda>d.
      if max_disclosures lim \<le> length (ic_disclosures c)
      then Inl (LimitExceeded ''SD-CWT disclosure'' (max_disclosures lim))
      else
        andThen (ok_or (checked_add (ic_disclosure_bytes c) (length (d_encoded d)))
          (Custom ''SD-CWT disclosure size overflow'')) (\<lambda>bytes.
        if max_disclosure_bytes lim < bytes
        then Inl (LimitExceeded ''SD-CWT disclosure bytes'' (max_disclosure_bytes lim))
        else
          let digest = redacted_hash d (ie_hasher env) in
          if digest \<in> ic_digests_used c
          then Inl (Verify ''redaction hash collision while issuing SD-CWT disclosures'')
          else Inr (digest, c\<lparr>ic_disclosure_bytes := bytes,
            ic_digests_used := insert digest (ic_digests_used c),
            ic_disclosures := ic_disclosures c @ [d]\<rparr>))))"

definition ic_enter ::
  "'g issue_env \<Rightarrow> nat \<Rightarrow> 'g issue_context \<Rightarrow> error + 'g issue_context" where
  "ic_enter env d c =
     map_ok (\<lambda>n. c\<lparr>ic_visited := n\<rparr>) (tb_enter (ie_limits env) d (ic_visited c))"

section \<open>Keys\<close>

text \<open>\<open>validate_root_disclosure_key\<close> of \<open>src/sd-cwt/src/validation.rs\<close>.\<close>

definition validate_root_disclosure_key :: "label \<Rightarrow> error + unit" where
  "validate_root_disclosure_key key =
     (case key of
        LInt i \<Rightarrow>
          if i \<in> {1, 3, 4, 5, 6, 7, 8, 39}
          then Inl (Custom (''SD-CWT claim '' @ show_label key @ '' must not be redacted''))
          else Inr ()
      | LText _ \<Rightarrow> Inr ())"

definition insert_normalized_key :: "cbor2 \<Rightarrow> value \<Rightarrow> bytes set \<Rightarrow> error + bytes set" where
  "insert_normalized_key cb key keys =
     andThen (cbor_to_canonical_vec cb key) (\<lambda>encoded.
     if encoded \<in> keys
     then Inl (Verify (''duplicate pre-issuance map key '' @ lib_display_value cb key))
     else Inr (insert encoded keys))"

definition record_decoy_id :: "value \<Rightarrow> 'g issue_context \<Rightarrow> error + 'g issue_context" where
  "record_decoy_id v c =
     (case v of
        VInteger i \<Rightarrow>
          andThen (ok_or (try_u64 i) (UnexpectedType ''tag 62 decoy payload must be a positive integer''))
            (\<lambda>i.
          if i = 0 then Inl (UnexpectedType ''tag 62 decoy payload must be greater than zero'')
          else if i \<in> ic_decoy_ids c then Inl (Verify ''duplicate tag 62 decoy identifier'')
          else Inr (c\<lparr>ic_decoy_ids := insert i (ic_decoy_ids c)\<rparr>))
      | _ \<Rightarrow> Inl (UnexpectedType ''tag 62 decoy payload must be a positive integer''))"

definition ensure_preissuance_key :: "value \<Rightarrow> error + unit" where
  "ensure_preissuance_key key = map_ok (\<lambda>_. ()) (sd_label_from_value key)"

section \<open>The traversal\<close>

text \<open>
  \<open>issue_entries\<close> is the loop of \<open>issue_map\<close>: it returns the plain entries and the hashes of
  the entries not yet visited.
\<close>

fun issue_value ::
    "'g issue_env \<Rightarrow> value \<Rightarrow> 'g issue_context \<Rightarrow> nat \<Rightarrow> error + (value \<times> 'g issue_context)"
and issue_entries ::
    "'g issue_env \<Rightarrow> (value \<times> value) list \<Rightarrow> bytes set \<Rightarrow> 'g issue_context \<Rightarrow> nat \<Rightarrow>
      error + ((value \<times> value) list \<times> value list \<times> 'g issue_context)"
and issue_items ::
    "'g issue_env \<Rightarrow> value list \<Rightarrow> 'g issue_context \<Rightarrow> nat \<Rightarrow> error + (value list \<times> 'g issue_context)"
where
  "issue_value env v c depth =
     andThen (ic_enter env depth c) (\<lambda>c.
     case v of
       VMap entries \<Rightarrow>
         andThen (tb_container (ie_limits env) (length entries)) (\<lambda>_.
         andThen (issue_entries env entries {} c depth) (\<lambda>(output, hashes, c).
         Inr (VMap (if hashes = [] then output
                    else output @ [(redacted_claim_keys_label, VArray hashes)]), c)))
     | VArray items \<Rightarrow>
         andThen (tb_container (ie_limits env) (length items)) (\<lambda>_.
         andThen (issue_items env items c depth) (\<lambda>(output, c). Inr (VArray output, c)))
     | VTag t inner \<Rightarrow>
         if is_sd_tag t then Inl (Custom (position_error t))
         else andThen (issue_value env inner c (depth + 1)) (\<lambda>(inner, c). Inr (VTag t inner, c))
     | VSimple s \<Rightarrow>
         if s = REDACTED_CLAIM_KEYS_SIMPLE
         then Inl (Custom ''pre-issuance value must not contain simple(59) redaction labels'')
         else Inr (v, c)
     | _ \<Rightarrow> Inr (v, c))"
| "issue_entries env [] keys c depth = Inr ([], [], c)"
| "issue_entries env ((key, v) # es) keys c depth =
     andThen (ic_enter env (depth + 1) c) (\<lambda>c.
     let plain =
       (if is_redacted_claim_keys_label key
        then Inl (Custom ''pre-issuance map must not already contain simple(59)'')
        else
          andThen (ensure_preissuance_key key) (\<lambda>_.
          andThen (insert_normalized_key (ie_cbor env) key keys) (\<lambda>keys.
          andThen (issue_value env v c (depth + 1)) (\<lambda>(v, c).
          andThen (issue_entries env es keys c depth) (\<lambda>(output, hashes, c).
          Inr ((key, v) # output, hashes, c)))))) in
     case key of
       VTag t inner \<Rightarrow>
         if t = TO_BE_REDACTED_TAG then
           andThen (ic_enter env (depth + 2) c) (\<lambda>c.
           andThen (sd_label_from_value inner) (\<lambda>claim_key.
           andThen (if depth = 0 then validate_root_disclosure_key claim_key else Inr ()) (\<lambda>_.
           andThen (insert_normalized_key (ie_cbor env) (value_of_label claim_key) keys) (\<lambda>keys.
           andThen (issue_value env v c (depth + 1)) (\<lambda>(issued, c).
           andThen (ic_next_salt env c) (\<lambda>(salt, c).
           andThen (add_disclosure env (Claim salt claim_key issued) c) (\<lambda>(hash, c).
           andThen (issue_entries env es keys c depth) (\<lambda>(output, hashes, c).
           Inr (output, VBytes hash # hashes, c)))))))))
         else if t = TO_BE_DECOY_TAG then
           andThen (ic_enter env (depth + 2) c) (\<lambda>c.
           andThen (insert_normalized_key (ie_cbor env) key keys) (\<lambda>keys.
           andThen (record_decoy_id inner c) (\<lambda>c.
           if v \<noteq> VNull then Inl (Custom ''map decoy tag 62 entries must have a null value'')
           else
             andThen (ic_enter env (depth + 1) c) (\<lambda>c.
             andThen (ic_next_salt env c) (\<lambda>(salt, c).
             andThen (add_disclosure env (Decoy salt) c) (\<lambda>(hash, c).
             andThen (issue_entries env es keys c depth) (\<lambda>(output, hashes, c).
             Inr (output, VBytes hash # hashes, c))))))))
         else plain
     | _ \<Rightarrow> plain)"
| "issue_items env [] c depth = Inr ([], c)"
| "issue_items env (item # items) c depth =
     andThen
       (case item of
          VTag t inner \<Rightarrow>
            if t = TO_BE_REDACTED_TAG then
              andThen (ic_enter env (depth + 1) c) (\<lambda>c.
              andThen (issue_value env inner c (depth + 2)) (\<lambda>(issued, c).
              andThen (ic_next_salt env c) (\<lambda>(salt, c).
              andThen (add_disclosure env (Element salt issued) c) (\<lambda>(hash, c).
              Inr (redacted_element hash, c)))))
            else if t = TO_BE_DECOY_TAG then
              andThen (ic_enter env (depth + 1) c) (\<lambda>c.
              andThen (ic_enter env (depth + 2) c) (\<lambda>c.
              andThen (record_decoy_id inner c) (\<lambda>c.
              andThen (ic_next_salt env c) (\<lambda>(salt, c).
              andThen (add_disclosure env (Decoy salt) c) (\<lambda>(hash, c).
              Inr (redacted_element hash, c))))))
            else issue_value env item c (depth + 1)
        | _ \<Rightarrow> issue_value env item c (depth + 1))
       (\<lambda>(out, c).
     andThen (issue_items env items c depth) (\<lambda>(output, c). Inr (out # output, c)))"

declare issue_value.simps [simp del]

section \<open>Issuing\<close>

record issue_result =
  ir_value :: "value"
  ir_disclosures :: disclosure_set

definition new_context :: "'g \<Rightarrow> 'g issue_context" where
  "new_context g = \<lparr>ic_salts = g, ic_decoy_ids = {}, ic_salts_used = {}, ic_digests_used = {},
     ic_disclosures = [], ic_disclosure_bytes = 0, ic_visited = 0\<rparr>"

definition issue_from_preissuance_with_limits ::
  "'g issue_env \<Rightarrow> value \<Rightarrow> 'g \<Rightarrow> error + issue_result" where
  "issue_from_preissuance_with_limits env v g =
     (case v of
        VMap _ \<Rightarrow>
          andThen (issue_value env v (new_context g) 0) (\<lambda>(v, c).
          Inr \<lparr>ir_value = v, ir_disclosures = ic_disclosures c\<rparr>)
      | _ \<Rightarrow> Inl (UnexpectedType ''pre-issuance SD-CWT claims must be a map''))"

definition issue_from_preissuance ::
  "cbor2 \<Rightarrow> hasher \<Rightarrow> 'g salt_generator \<Rightarrow> value \<Rightarrow> 'g \<Rightarrow> error + issue_result" where
  "issue_from_preissuance cb h nxt v g =
     issue_from_preissuance_with_limits
       \<lparr>ie_cbor = cb, ie_limits = default_processing_limits, ie_hasher = h, ie_next = nxt\<rparr> v g"

end
