(* ===== verification/SdMatching.thy ===== *)
theory SdMatching
  imports SdIssuance
begin

text \<open>
  From \<open>src/sd-cwt/src/validation.rs\<close>: the comparison of the claims that the protected
  \<open>CWT_Claims\<close> header and the payload both carry, which must agree even while parts are
  still redacted, and the removal of the redactions that stay undisclosed. A \<open>HashMap\<close> is
  the ordered map of \<open>BTreeMap\<close>; nothing depends on its order.
\<close>

section \<open>Values that may still hide parts\<close>

fun is_redacted_element :: "value \<Rightarrow> bool" where
  "is_redacted_element (VTag t _) = (t = REDACTED_ELEMENT_TAG)"
| "is_redacted_element _ = False"

definition has_redacted_keys :: "(value \<times> value) list \<Rightarrow> bool" where
  "has_redacted_keys entries = list_ex (\<lambda>(key, _). is_redacted_claim_keys_label key) entries"

text \<open>The loop over pairs of elements: stop at the first that differ.\<close>

fun match_pairs :: "('a \<Rightarrow> 'b \<Rightarrow> error + bool) \<Rightarrow> ('a \<times> 'b) list \<Rightarrow> error + bool" where
  "match_pairs f [] = Inr True"
| "match_pairs f ((l, r) # ps) = andThen (f l r) (\<lambda>b. if b then match_pairs f ps else Inr False)"

lemma match_pairs_cong [fundef_cong]:
  "ps = qs \<Longrightarrow> (\<And>l r. (l, r) \<in> set qs \<Longrightarrow> f l r = g l r) \<Longrightarrow> match_pairs f ps = match_pairs g qs"
  by (induction qs arbitrary: ps) (auto intro!: andThen_cong)

text \<open>
  The loop over the entries of the left map: \<open>None\<close> when they disagree, else the right
  entries that were not met.
\<close>

fun match_entries ::
  "('a \<Rightarrow> 'b \<Rightarrow> error + bool) \<Rightarrow> (value \<times> 'a) list \<Rightarrow> bool \<Rightarrow> (label \<times> 'b) list \<Rightarrow>
     error + (label \<times> 'b) list option" where
  "match_entries f [] right_hidden right_values = Inr (Some right_values)"
| "match_entries f ((key, v) # left) right_hidden right_values =
     (if is_redacted_claim_keys_label key then match_entries f left right_hidden right_values
      else
        andThen (sd_label_from_value key) (\<lambda>l.
        case bt_get right_values l of
          Some other \<Rightarrow>
            andThen (f v other) (\<lambda>b.
            if \<not> b then Inr None else match_entries f left right_hidden (bt_remove l right_values))
        | None \<Rightarrow>
            if \<not> right_hidden then Inr None else match_entries f left right_hidden right_values))"

lemma match_entries_cong [fundef_cong]:
  assumes "left = left'" and "h = h'" and "rv = rv'"
    and "\<And>k v w. (k, v) \<in> set left' \<Longrightarrow> f v w = g v w"
  shows "match_entries f left h rv = match_entries g left' h' rv'"
proof -
  have "(\<And>k v w. (k, v) \<in> set es \<Longrightarrow> f v w = g v w) \<Longrightarrow> match_entries f es h r = match_entries g es h r"
    for es r
  proof (induction es arbitrary: r)
    case (Cons e es)
    obtain k v where e: "e = (k, v)" by (cases e)
    have "f v w = g v w" for w using Cons.prems [of k v w] by (simp add: e)
    moreover have "match_entries f es h r = match_entries g es h r" for r
      using Cons.prems by (intro Cons.IH) auto
    ultimately show ?case by (simp add: e cong: option.case_cong if_cong)
  qed simp
  then show ?thesis using assms by blast
qed

definition array_pairs :: "value list \<Rightarrow> value list \<Rightarrow> (value \<times> value) list" where
  "array_pairs left right =
     zip (takeWhile (\<lambda>v. \<not> is_redacted_element v) left) (takeWhile (\<lambda>v. \<not> is_redacted_element v) right) @
     zip (takeWhile (\<lambda>v. \<not> is_redacted_element v) (rev left))
         (takeWhile (\<lambda>v. \<not> is_redacted_element v) (rev right))"

lemma array_pairs_left: "(l, r) \<in> set (array_pairs left right) \<Longrightarrow> l \<in> set left"
  unfolding array_pairs_def by (auto dest!: set_zip_leftD dest: set_takeWhileD)

lemma size_array_elem: "l \<in> set vs \<Longrightarrow> size l < size (VArray vs)"
  using size_list_estimation' [of l vs "size l" size] by simp

lemma size_map_value: "(k, v) \<in> set es \<Longrightarrow> size v < size (VMap es)"
  using size_list_estimation' [of "(k, v)" es "size v" "size_prod size size"] by simp

function claim_values_match :: "cbor2 \<Rightarrow> value \<Rightarrow> value \<Rightarrow> error + bool" where
  "claim_values_match cb left right =
     (case (left, right) of
        (VMap left, VMap right) \<Rightarrow>
          (let left_hidden = has_redacted_keys left; right_hidden = has_redacted_keys right in
           andThen (traverse (\<lambda>(key, v). map_ok (\<lambda>l. (l, v)) (sd_label_from_value key))
             (filter (\<lambda>(key, _). \<not> is_redacted_claim_keys_label key) right)) (\<lambda>right_values.
           andThen (match_entries (claim_values_match cb) left right_hidden (bt_from_list right_values))
             (\<lambda>rest. case rest of
               None \<Rightarrow> Inr False
             | Some rest \<Rightarrow> Inr (left_hidden \<or> rest = []))))
      | (VArray left, VArray right) \<Rightarrow>
          (let left_known = length (filter (\<lambda>v. \<not> is_redacted_element v) left);
               right_known = length (filter (\<lambda>v. \<not> is_redacted_element v) right) in
           if length right < left_known \<or> length left < right_known then Inr False
           else if left_known = length left \<and> right_known = length right
           then match_pairs (claim_values_match cb) (zip left right)
           else match_pairs (claim_values_match cb) (array_pairs left right))
      | (VTag left_tag l, VTag right_tag r) \<Rightarrow>
          if left_tag = right_tag then claim_values_match cb l r
          else
            andThen (cbor_to_canonical_vec cb left) (\<lambda>a.
            andThen (cbor_to_canonical_vec cb right) (\<lambda>b. Inr (a = b)))
      | _ \<Rightarrow>
          andThen (cbor_to_canonical_vec cb left) (\<lambda>a.
          andThen (cbor_to_canonical_vec cb right) (\<lambda>b. Inr (a = b))))"
  by pat_completeness auto

termination
  by (relation "measure (\<lambda>(cb, l, r). size l)")
    (auto dest!: set_zip_leftD array_pairs_left intro: size_array_elem size_map_value)

declare claim_values_match.simps [simp del]

section \<open>Header claims against payload claims\<close>

text \<open>The key and entry slices that \<open>claim_maps\<close> puts together, the payload first.\<close>

definition claim_maps ::
  "(value \<times> value) list \<Rightarrow> value option \<Rightarrow> (value \<times> value) list list" where
  "claim_maps payload protected_claims =
     (case protected_claims of Some (VMap entries) \<Rightarrow> [payload, entries] | _ \<Rightarrow> [payload])"

fun safe_map_key :: "cbor2 \<Rightarrow> value \<Rightarrow> error + bytes" where
  "safe_map_key cb (VInteger i) = cbor_to_canonical_vec cb (VInteger i)"
| "safe_map_key cb (VText s) =
     (if 1 \<le> length s \<and> length s \<le> 255 then cbor_to_canonical_vec cb (VText s)
      else Inl (UnexpectedType ''SD-CWT text map keys must contain 1 to 255 octets''))"
| "safe_map_key cb _ = Inl (UnexpectedType ''SD-CWT safe-map keys must be integers or text strings'')"

text \<open>The two nested loops as one over the entries with the index of their map.\<close>

definition indexed_entries :: "(value \<times> value) list list \<Rightarrow> (nat \<times> value \<times> value) list" where
  "indexed_entries maps =
     concat (map (\<lambda>(i, entries). map (\<lambda>(k, v). (i, k, v)) entries) (enumerate 0 maps))"

fun match_claims ::
  "cbor2 \<Rightarrow> (nat \<times> value \<times> value) list \<Rightarrow> (bytes \<times> nat \<times> value) list \<Rightarrow> error + unit" where
  "match_claims cb [] seen = Inr ()"
| "match_claims cb ((map_index, key, v) # es) seen =
     (if is_redacted_claim_keys_label key then match_claims cb es seen
      else
        andThen (safe_map_key cb key) (\<lambda>key_bytes.
        andThen
          (case bt_get seen key_bytes of
             None \<Rightarrow> Inr ()
           | Some (previous_map, previous) \<Rightarrow>
               if previous_map = map_index
               then Inl (Verify (''duplicate SD-CWT claim key '' @ lib_display_value cb key))
               else
                 andThen (claim_values_match cb previous v) (\<lambda>b.
                 if \<not> b then
                   Inl (Verify (''CWT_Claims header and payload disagree for claim '' @
                     lib_display_value cb key))
                 else Inr ()))
          (\<lambda>_. match_claims cb es (bt_insert key_bytes (map_index, v) seen))))"

definition validate_matching_claims :: "cbor2 \<Rightarrow> (value \<times> value) list list \<Rightarrow> error + unit" where
  "validate_matching_claims cb maps = match_claims cb (indexed_entries maps) []"

section \<open>Undisclosed redactions\<close>

fun remove_undisclosed_redactions :: "value \<Rightarrow> value" where
  "remove_undisclosed_redactions (VMap entries) =
     VMap (map (\<lambda>(k, v). (k, remove_undisclosed_redactions v))
       (filter (\<lambda>(k, v). \<not> is_redacted_claim_keys_label k) entries))"
| "remove_undisclosed_redactions (VArray items) =
     VArray (map remove_undisclosed_redactions (filter (\<lambda>v. \<not> is_redacted_element v) items))"
| "remove_undisclosed_redactions (VTag t v) = VTag t (remove_undisclosed_redactions v)"
| "remove_undisclosed_redactions v = v"

end
