(* ===== verification/SdRestore.thy ===== *)
theory SdRestore
  imports SdMatching Sign1
begin

text \<open>
  \<open>src/sd-cwt/src/restore.rs\<close>: the disclosures indexed by their digests, and the traversal
  that puts disclosed claims and elements back where their digests stand. The recursion
  follows disclosed values, so it is not structural; it ends because every level of nesting
  is checked against \<open>max_depth\<close> before it is entered.
\<close>

section \<open>State\<close>

datatype restore_mode = Holder | Verifier

record restore_report =
  rr_value :: "value"
  rr_protected_claims :: "value option"
  rr_disclosed :: nat
  rr_decoys :: nat
  rr_removed_redactions :: nat

text \<open>
  The three \<open>&mut\<close> arguments of the traversal in one record: the pending disclosures by
  digest, the statistics and the visited count of the budget.
\<close>

record restore_state =
  rs_pending :: "(bytes \<times> disclosure) list"
  rs_disclosed :: nat
  rs_decoys :: nat
  rs_removed :: nat
  rs_visited :: nat

record restore_env =
  re_cbor :: cbor2
  re_limits :: processing_limits
  re_mode :: restore_mode
  re_validate_claims :: bool

definition rs_enter :: "restore_env \<Rightarrow> nat \<Rightarrow> restore_state \<Rightarrow> error + restore_state" where
  "rs_enter env d st =
     map_ok (\<lambda>n. st\<lparr>rs_visited := n\<rparr>) (tb_enter (re_limits env) d (rs_visited st))"

lemma rs_enter_ok [guards]:
  "rs_enter env d st = Inr st' \<longleftrightarrow>
     d \<le> max_depth (re_limits env) \<and> st' = st\<lparr>rs_visited := Suc (rs_visited st)\<rparr> \<and>
     Suc (rs_visited st) < usize_limit \<and> Suc (rs_visited st) \<le> max_items (re_limits env)"
  by (auto simp: rs_enter_def result_simps guards)

section \<open>The disclosure map\<close>

fun disclosure_map_loop ::
  "processing_limits \<Rightarrow> hasher \<Rightarrow> disclosure list \<Rightarrow> nat \<Rightarrow> nat \<Rightarrow> bytes set \<Rightarrow>
     (bytes \<times> disclosure) list \<Rightarrow> nat \<Rightarrow> error + ((bytes \<times> disclosure) list \<times> nat)" where
  "disclosure_map_loop lim h [] index total_bytes salts entries visited = Inr (entries, visited)"
| "disclosure_map_loop lim h (d # ds) index total_bytes salts entries visited =
     (if max_disclosures lim \<le> index then Inl (LimitExceeded ''SD-CWT disclosure'' (max_disclosures lim))
      else
        andThen (ok_or (checked_add total_bytes (length (d_encoded d)))
          (Custom ''SD-CWT disclosure size overflow'')) (\<lambda>total_bytes.
        if max_disclosure_bytes lim < total_bytes
        then Inl (LimitExceeded ''SD-CWT disclosure bytes'' (max_disclosure_bytes lim))
        else
          andThen (item_count d) (\<lambda>count.
          andThen (tb_consume lim count visited) (\<lambda>visited.
          let hash = redacted_hash d h in
          if bt_contains entries hash then Inl (Verify ''duplicate SD-CWT disclosure digest'')
          else if salt d \<in> salts then Inl (Verify ''duplicate SD-CWT disclosure salt'')
          else disclosure_map_loop lim h ds (index + 1) total_bytes (insert (salt d) salts)
            (bt_insert hash d entries) visited))))"

definition disclosure_map_new ::
  "processing_limits \<Rightarrow> hasher \<Rightarrow> disclosure list \<Rightarrow> nat \<Rightarrow>
     error + ((bytes \<times> disclosure) list \<times> nat)" where
  "disclosure_map_new lim h ds visited = disclosure_map_loop lim h ds 0 0 {} [] visited"

definition rs_remove :: "bytes \<Rightarrow> restore_state \<Rightarrow> disclosure option \<times> restore_state" where
  "rs_remove hash st =
     (bt_get (rs_pending st) hash, st\<lparr>rs_pending := bt_remove hash (rs_pending st)\<rparr>)"

section \<open>The traversal\<close>

fun read_hashes :: "restore_env \<Rightarrow> value list \<Rightarrow> restore_state \<Rightarrow> nat \<Rightarrow> error + (bytes list \<times> restore_state)"
  where
  "read_hashes env [] st d = Inr ([], st)"
| "read_hashes env (h # hs) st d =
     andThen (rs_enter env d st) (\<lambda>st.
     andThen (expect_owned_bytes h ''redacted_claim_keys entries must be byte strings'') (\<lambda>hash.
     andThen (read_hashes env hs st d) (\<lambda>(hashes, st). Inr (hash # hashes, st))))"

text \<open>
  The levels still allowed: one more than the loops of a level may use, so that both the
  step into a container and the step back to its parts decrease.
\<close>

definition levels_left :: "restore_env \<Rightarrow> nat \<Rightarrow> nat" where
  "levels_left env d = max_depth (re_limits env) - d"

text \<open>
  \<open>restore_entries\<close> and \<open>restore_hashes\<close> are the two loops of \<open>restore_map\<close>, \<open>restore_items\<close>
  the loop of \<open>restore_array\<close>; each returns what it appends to the output.
\<close>

function (sequential) restore_value ::
    "restore_env \<Rightarrow> value \<Rightarrow> restore_state \<Rightarrow> nat \<Rightarrow> error + (value \<times> restore_state)"
and restore_entries ::
    "restore_env \<Rightarrow> (value \<times> value) list \<Rightarrow> label set \<Rightarrow> bool \<Rightarrow> restore_state \<Rightarrow> nat \<Rightarrow>
      error + ((value \<times> value) list \<times> bytes list \<times> label set \<times> restore_state)"
and restore_hashes ::
    "restore_env \<Rightarrow> bytes list \<Rightarrow> label set \<Rightarrow> restore_state \<Rightarrow> nat \<Rightarrow>
      error + ((value \<times> value) list \<times> value list \<times> restore_state)"
and restore_items ::
    "restore_env \<Rightarrow> value list \<Rightarrow> restore_state \<Rightarrow> nat \<Rightarrow> error + (value list \<times> restore_state)"
where
  "restore_value env v st depth =
     andThen (rs_enter env depth st) (\<lambda>st.
     case v of
       VMap entries \<Rightarrow>
         andThen (tb_container (re_limits env) (length entries)) (\<lambda>_.
         andThen (restore_entries env entries {} False st depth) (\<lambda>(output, hashes, keys, st).
         andThen (restore_hashes env hashes keys st depth) (\<lambda>(disclosed, undisclosed, st).
         Inr (VMap (output @ disclosed @
           (if undisclosed = [] then [] else [(redacted_claim_keys_label, VArray undisclosed)])), st))))
     | VArray items \<Rightarrow>
         andThen (tb_container (re_limits env) (length items)) (\<lambda>_.
         andThen (restore_items env items st depth) (\<lambda>(output, st). Inr (VArray output, st)))
     | VTag t inner \<Rightarrow>
         if is_sd_tag t then Inl (UnexpectedType (position_error t))
         else andThen (restore_value env inner st (depth + 1)) (\<lambda>(inner, st). Inr (VTag t inner, st))
     | VSimple s \<Rightarrow>
         if s = REDACTED_CLAIM_KEYS_SIMPLE
         then Inl (UnexpectedType ''simple(59) is only valid as a redacted_claim_keys map key'')
         else Inr (v, st)
     | _ \<Rightarrow> Inr (v, st))"
| "restore_entries env [] keys saw st depth = Inr ([], [], keys, st)"
| "restore_entries env ((key, v) # es) keys saw st depth =
     andThen (rs_enter env (depth + 1) st) (\<lambda>st.
     if is_redacted_claim_keys_label key then
       if saw then Inl (Verify ''duplicate redacted_claim_keys entry'')
       else
         case v of
           VArray hashes \<Rightarrow>
             andThen (rs_enter env (depth + 1) st) (\<lambda>st.
             andThen (tb_container (re_limits env) (length hashes)) (\<lambda>_.
             andThen (read_hashes env hashes st (depth + 2)) (\<lambda>(hashes, st).
             andThen (restore_entries env es keys True st depth) (\<lambda>(output, more, keys, st).
             Inr (output, hashes @ more, keys, st)))))
         | _ \<Rightarrow> Inl (UnexpectedType ''redacted_claim_keys value must be an array'')
     else
       andThen (map_err (\<lambda>_. UnexpectedType ''issued SD-CWT map keys must be integers or text'')
         (sd_label_from_value key)) (\<lambda>label.
       if label \<in> keys
       then Inl (Verify (''duplicate claim key '' @ lib_display_value (re_cbor env) key))
       else
         andThen (restore_value env v st (depth + 1)) (\<lambda>(v, st).
         andThen (restore_entries env es (insert label keys) saw st depth)
           (\<lambda>(output, more, keys, st). Inr ((key, v) # output, more, keys, st)))))"
| "restore_hashes env [] keys st depth = Inr ([], [], st)"
| "restore_hashes env (hash # hs) keys st depth =
     (let (found, st) = rs_remove hash st in
      case found of
        Some disclosure \<Rightarrow>
          (case d_kind disclosure of
             Claim _ key v \<Rightarrow>
               andThen (if re_validate_claims env \<and> depth = 0 then validate_root_disclosure_key key
                        else Inr ()) (\<lambda>_.
               if key \<in> keys then Inl (Verify (''duplicate claim key '' @ show_label key))
               else
                 andThen (restore_value env v st (depth + 1)) (\<lambda>(v, st).
                 andThen (restore_hashes env hs (insert key keys)
                   (st\<lparr>rs_disclosed := rs_disclosed st + 1\<rparr>) depth) (\<lambda>(output, undisclosed, st).
                 Inr ((value_of_label key, v) # output, undisclosed, st))))
           | Decoy _ \<Rightarrow> restore_hashes env hs keys (st\<lparr>rs_decoys := rs_decoys st + 1\<rparr>) depth
           | Element _ _ \<Rightarrow> Inl (Verify ''array-element disclosure matched a redacted map claim''))
      | None \<Rightarrow>
          if re_mode env = Verifier then
            andThen (restore_hashes env hs keys (st\<lparr>rs_removed := rs_removed st + 1\<rparr>) depth)
              (\<lambda>(output, undisclosed, st).
            Inr (output, if re_validate_claims env then VBytes hash # undisclosed else undisclosed, st))
          else Inl (Verify ''holder validation found redacted map claim without disclosure''))"
| "restore_items env [] st depth = Inr ([], st)"
| "restore_items env (item # items) st depth =
     andThen
       (case (case item of VTag t inner \<Rightarrow> if t = REDACTED_ELEMENT_TAG then Some inner else None
              | _ \<Rightarrow> None) of
          Some inner \<Rightarrow>
            andThen (rs_enter env (depth + 1) st) (\<lambda>st.
            andThen (rs_enter env (depth + 2) st) (\<lambda>st.
            andThen (expect_owned_bytes inner ''redacted array element hash must be bytes'') (\<lambda>hash.
            let (found, st) = rs_remove hash st in
            case found of
              Some disclosure \<Rightarrow>
                (case d_kind disclosure of
                   Element _ v \<Rightarrow>
                     andThen (restore_value env v st (depth + 1)) (\<lambda>(v, st).
                     Inr ([v], st\<lparr>rs_disclosed := rs_disclosed st + 1\<rparr>))
                 | Decoy _ \<Rightarrow> Inr ([], st\<lparr>rs_decoys := rs_decoys st + 1\<rparr>)
                 | Claim _ _ _ \<Rightarrow> Inl (Verify ''map-claim disclosure matched a redacted array element''))
            | None \<Rightarrow>
                if re_mode env = Verifier then
                  Inr (if re_validate_claims env then [redacted_element hash] else [],
                       st\<lparr>rs_removed := rs_removed st + 1\<rparr>)
                else Inl (Verify ''holder validation found redacted array element without disclosure''))))
        | None \<Rightarrow> andThen (restore_value env item st (depth + 1)) (\<lambda>(v, st). Inr ([v], st)))
       (\<lambda>(out, st).
     andThen (restore_items env items st depth) (\<lambda>(output, st). Inr (out @ output, st)))"
  by pat_completeness auto

termination
  by (relation "measures
      [case_sum
         (case_sum (\<lambda>(env, v, st, d). max_depth (re_limits env) + 1 - d)
           (\<lambda>(env, es, keys, saw, st, d). levels_left env d))
         (case_sum (\<lambda>(env, hs, keys, st, d). levels_left env d)
           (\<lambda>(env, vs, st, d). levels_left env d)),
       case_sum
         (case_sum (\<lambda>_. 0) (\<lambda>(env, es, keys, saw, st, d). Suc (length es)))
         (case_sum (\<lambda>(env, hs, keys, st, d). Suc (length hs)) (\<lambda>(env, vs, st, d). Suc (length vs)))]")
    (auto simp: levels_left_def guards)

declare restore_value.simps [simp del]

section \<open>Restoring a claims set\<close>

text \<open>
  The value restored for validation is a claims map, so the \<open>unreachable!\<close> of the source is
  an error that no caller sees; \<open>restore_value\<close> turns maps into maps.
\<close>

definition restore_with_protected_claims ::
  "restore_env \<Rightarrow> hasher \<Rightarrow> value \<Rightarrow> value option \<Rightarrow> disclosure list \<Rightarrow> error + restore_report" where
  "restore_with_protected_claims env h v protected_claims ds =
     andThen (disclosure_map_new (re_limits env) h ds 0) (\<lambda>(pending, visited).
     let st = \<lparr>rs_pending = pending, rs_disclosed = 0, rs_decoys = 0, rs_removed = 0,
               rs_visited = visited\<rparr> in
     andThen
       (case protected_claims of
          None \<Rightarrow> Inr (None, st)
        | Some claims \<Rightarrow>
            andThen (restore_value env claims st 0) (\<lambda>(claims, st). Inr (Some claims, st)))
       (\<lambda>(protected_claims, st).
     andThen (restore_value env v st 0) (\<lambda>(v, st).
     if rs_pending st \<noteq> [] then
       Inl (Verify ''sd_claims contains a disclosure without a matching redacted claim'')
     else
       andThen
         (if re_validate_claims env then
            case v of
              VMap entries \<Rightarrow>
                andThen (validate_matching_claims (re_cbor env) (claim_maps entries protected_claims))
                  (\<lambda>_. Inr (remove_undisclosed_redactions v,
                    map_option remove_undisclosed_redactions protected_claims))
            | _ \<Rightarrow> Inl (Custom ''unreachable: the structural validator requires a claims map'')
          else Inr (v, protected_claims)) (\<lambda>(v, protected_claims).
       Inr \<lparr>rr_value = v, rr_protected_claims = protected_claims, rr_disclosed = rs_disclosed st,
            rr_decoys = rs_decoys st, rr_removed_redactions = rs_removed st\<rparr>))))"

definition restore_with_limits ::
  "cbor2 \<Rightarrow> value \<Rightarrow> disclosure list \<Rightarrow> hasher \<Rightarrow> restore_mode \<Rightarrow> processing_limits \<Rightarrow>
     error + restore_report" where
  "restore_with_limits cb v ds h mode lim =
     restore_with_protected_claims
       \<lparr>re_cbor = cb, re_limits = lim, re_mode = mode, re_validate_claims = False\<rparr> h v None ds"

definition restore ::
  "cbor2 \<Rightarrow> value \<Rightarrow> disclosure list \<Rightarrow> hasher \<Rightarrow> restore_mode \<Rightarrow> error + restore_report" where
  "restore cb v ds h mode = restore_with_limits cb v ds h mode default_processing_limits"

definition restore_for_holder ::
  "cbor2 \<Rightarrow> value \<Rightarrow> disclosure list \<Rightarrow> hasher \<Rightarrow> error + restore_report" where
  "restore_for_holder cb v ds h = restore cb v ds h Holder"

definition restore_for_verifier ::
  "cbor2 \<Rightarrow> value \<Rightarrow> disclosure list \<Rightarrow> hasher \<Rightarrow> error + restore_report" where
  "restore_for_verifier cb v ds h = restore cb v ds h Verifier"

text \<open>\<open>protected_cwt_claims\<close> of \<open>src/sd-cwt/src/validation.rs\<close>.\<close>

definition protected_cwt_claims :: "sign1 \<Rightarrow> error + value option" where
  "protected_cwt_claims message =
     (case cm_get (s1_protected message) (LInt HEADER_CWT_CLAIMS) of
        None \<Rightarrow> Inr None
      | Some (VMap entries) \<Rightarrow> Inr (Some (VMap entries))
      | Some _ \<Rightarrow> Inl (UnexpectedType ''protected CWT_Claims header must contain a claims map''))"

definition restore_payload_with_disclosures_and_limits ::
  "cbor2 \<Rightarrow> sign1 \<Rightarrow> disclosure list \<Rightarrow> hasher \<Rightarrow> restore_mode \<Rightarrow> processing_limits \<Rightarrow>
     error + restore_report" where
  "restore_payload_with_disclosures_and_limits cb message ds h mode lim =
     andThen (s1_validate_headers cb message) (\<lambda>_.
     andThen (ok_or (s1_payload message) (Custom ''SD-CWT message must carry an embedded payload''))
       (\<lambda>payload.
     if max_input_bytes lim < length payload
     then Inl (LimitExceeded ''SD-CWT payload bytes'' (max_input_bytes lim))
     else
       andThen (validate_with_limits cb payload (definite_cbor_limits lim)) (\<lambda>_.
       andThen (cbor_from_slice cb payload) (\<lambda>v.
       case v of
         VMap _ \<Rightarrow>
           andThen (protected_cwt_claims message) (\<lambda>claims.
           restore_with_protected_claims
             \<lparr>re_cbor = cb, re_limits = lim, re_mode = mode, re_validate_claims = False\<rparr> h v claims ds)
       | _ \<Rightarrow> Inl (UnexpectedType ''SD-CWT payload must be a claims map'')))))"

definition restore_payload_with_disclosures ::
  "cbor2 \<Rightarrow> sign1 \<Rightarrow> disclosure list \<Rightarrow> hasher \<Rightarrow> restore_mode \<Rightarrow> error + restore_report" where
  "restore_payload_with_disclosures cb message ds h mode =
     restore_payload_with_disclosures_and_limits cb message ds h mode default_processing_limits"

definition restore_payload_from_message ::
  "cbor2 \<Rightarrow> (bytes \<Rightarrow> bytes) \<Rightarrow> sign1 \<Rightarrow> restore_mode \<Rightarrow> error + restore_report" where
  "restore_payload_from_message cb sha256 message mode =
     andThen (sd_alg (s1_protected message)) (\<lambda>a.
     andThen (default_hasher_for_sd_alg sha256 a) (\<lambda>h.
     andThen (disclosures_from_unprotected cb (s1_unprotected message)) (\<lambda>ds.
     restore_payload_with_disclosures cb message ds h mode)))"

end
