(* ===== verification/SdValidation.thy ===== *)
theory SdValidation
  imports SdRestore Cwt
begin

text \<open>
  The rest of \<open>src/sd-cwt/src/validation.rs\<close>: the placement and content rules of the SD-CWT
  headers, the rules of the claims, and the entry points that verify, validate and restore
  a presentation.
\<close>

section \<open>Algorithms and media types\<close>

definition to_ascii_lowercase :: "string \<Rightarrow> string" where
  "to_ascii_lowercase s =
     map (\<lambda>c. let n = of_char c :: nat in if 65 \<le> n \<and> n \<le> 90 then char_of (n + 32) else c) s"

definition is_sd_cwt_content_type :: "string \<Rightarrow> bool" where
  "is_sd_cwt_content_type v =
     (let v = to_ascii_lowercase v in
      if v = ''application/sd-cwt'' then True
      else case split_once v (CHR ''/'') of
        None \<Rightarrow> False
      | Some (type_name, subtype) \<Rightarrow>
          is_media_type_token type_name \<and> is_media_type_token subtype \<and>
          \<not> starts_with subtype ''+'' \<and> ends_with subtype ''+sd-cwt'')"

text \<open>ESB512 to ESB256, WalnutDSA, RS512 to RS256, Ed448 to HSS-LMS, PS512 to PS256, Ed25519, ESP256.\<close>

definition is_fully_specified_signature_algorithm :: "int \<Rightarrow> bool" where
  "is_fully_specified_signature_algorithm a \<longleftrightarrow>
     a \<in> {- 268, - 267, - 266, - 265, - 260, AlgorithmRS512, AlgorithmRS384, AlgorithmRS256,
       - 53, - 52, - 51, - 50, - 49, - 48, - 47, - 46, AlgorithmPS512, AlgorithmPS384, AlgorithmPS256,
       AlgorithmEd25519, - 9}"

text \<open>The nonce size and the allowed tag sizes.\<close>

definition sd_aead_dimensions :: "nat \<Rightarrow> error + (nat \<times> nat list)" where
  "sd_aead_dimensions a =
     (if a \<in> {1, 2} then Inr (12, [16])
      else if a \<in> {15, 16, 17, 20, 23, 26} then Inr (1, [16])
      else if a \<in> {29, 30, 31} then Inr (12, [16])
      else if a = 32 then Inr (16, [16, 32])
      else if a = 33 then Inr (32, [16, 32])
      else if a \<in> {34, 35} then Inr (16, [32])
      else if a \<in> {36, 37} then Inr (32, [32])
      else if a \<in> {38, 39} then Inr (24, [16])
      else Inl (Custom (''AEAD algorithm '' @ show_nat a @
        '' is not permitted for SD-CWT encrypted disclosures'')))"

definition validate_sd_aead_algorithm :: "nat \<Rightarrow> error + unit" where
  "validate_sd_aead_algorithm a = map_ok (\<lambda>_. ()) (sd_aead_dimensions a)"

fun join_or :: "string list \<Rightarrow> string" where
  "join_or [] = []"
| "join_or [s] = s"
| "join_or (s # ss) = s @ '' or '' @ join_or ss"

definition validate_aead_entry ::
  "nat \<Rightarrow> nat \<times> nat list \<Rightarrow> nat option \<Rightarrow> aead_disclosure \<Rightarrow> error + unit" where
  "validate_aead_entry a dimensions profile_nonce_size e =
     (let actual = length (ae_nonce e) in
      if actual \<noteq> fst dimensions then
        Inl (Custom (''AEAD algorithm '' @ show_nat a @ '' disclosure nonce size mismatch, expected '' @
          show_nat (fst dimensions) @ '', got '' @ show_nat actual))
      else
        andThen
          (case profile_nonce_size of
             None \<Rightarrow> Inr ()
           | Some expected \<Rightarrow>
               if actual \<noteq> expected then
                 Inl (Custom (''AEAD disclosure nonce size does not satisfy the profile, expected '' @
                   show_nat expected @ '', got '' @ show_nat actual))
               else Inr ()) (\<lambda>_.
        if length (ae_tag e) \<notin> set (snd dimensions) then
          Inl (Custom (''AEAD algorithm '' @ show_nat a @ '' disclosure tag size mismatch, expected '' @
            join_or (map show_nat (snd dimensions)) @ '' bytes, got '' @ show_nat (length (ae_tag e))))
        else Inr ()))"

definition validate_aead_disclosure_dimensions ::
  "aead_disclosure list \<Rightarrow> nat \<Rightarrow> nat option \<Rightarrow> error + unit" where
  "validate_aead_disclosure_dimensions encrypted a profile_nonce_size =
     andThen (sd_aead_dimensions a) (\<lambda>dimensions.
     for_each (validate_aead_entry a dimensions profile_nonce_size) encrypted)"

section \<open>Headers\<close>

fun validate_safe_value :: "cbor2 \<Rightarrow> processing_limits \<Rightarrow> value \<Rightarrow> nat \<Rightarrow> nat \<Rightarrow> error + nat"
and safe_items :: "cbor2 \<Rightarrow> processing_limits \<Rightarrow> value list \<Rightarrow> nat \<Rightarrow> nat \<Rightarrow> error + nat"
and safe_entries ::
    "cbor2 \<Rightarrow> processing_limits \<Rightarrow> (value \<times> value) list \<Rightarrow> bytes set \<Rightarrow> nat \<Rightarrow> nat \<Rightarrow> error + nat"
where
  "validate_safe_value cb limits v n d =
     andThen (tb_enter limits d n) (\<lambda>n.
     case v of
       VArray items \<Rightarrow>
         andThen (tb_container limits (length items)) (\<lambda>_. safe_items cb limits items n d)
     | VMap entries \<Rightarrow>
         andThen (tb_container limits (length entries)) (\<lambda>_. safe_entries cb limits entries {} n d)
     | VTag t inner \<Rightarrow>
         if is_sd_tag t then
           Inl (UnexpectedType (''SD-CWT reserved tag '' @ show_nat (unat t) @
             '' is not permitted in this header value''))
         else validate_safe_value cb limits inner n (d + 1)
     | VSimple s \<Rightarrow>
         if s = REDACTED_CLAIM_KEYS_SIMPLE
         then Inl (UnexpectedType ''simple(59) is not permitted in this header value'')
         else Inr n
     | _ \<Rightarrow> Inr n)"
| "safe_items cb limits [] n d = Inr n"
| "safe_items cb limits (item # items) n d =
     andThen (validate_safe_value cb limits item n (d + 1)) (\<lambda>n. safe_items cb limits items n d)"
| "safe_entries cb limits [] keys n d = Inr n"
| "safe_entries cb limits ((key, v) # es) keys n d =
     andThen (tb_enter limits (d + 1) n) (\<lambda>n.
     andThen (safe_map_key cb key) (\<lambda>key.
     if key \<in> keys then Inl (Verify ''duplicate safe-map key'')
     else
       andThen (validate_safe_value cb limits v n (d + 1)) (\<lambda>n.
       safe_entries cb limits es (insert key keys) n d)))"

declare validate_safe_value.simps [simp del]

fun safe_header_entries ::
  "cbor2 \<Rightarrow> processing_limits \<Rightarrow> bool \<Rightarrow> header \<Rightarrow> nat \<Rightarrow> error + nat" where
  "safe_header_entries cb limits skip_cwt_claims [] n = Inr n"
| "safe_header_entries cb limits skip_cwt_claims ((label, v) # es) n =
     andThen (tb_enter limits 1 n) (\<lambda>n.
     andThen (validate_text_label label) (\<lambda>_.
     andThen
       (if skip_cwt_claims \<and> label = LInt HEADER_CWT_CLAIMS then Inr n
        else validate_safe_value cb limits v n 1) (\<lambda>n.
     safe_header_entries cb limits skip_cwt_claims es n)))"

definition safe_header :: "cbor2 \<Rightarrow> processing_limits \<Rightarrow> header \<Rightarrow> bool \<Rightarrow> nat \<Rightarrow> error + nat" where
  "safe_header cb limits h skip_cwt_claims n =
     andThen (tb_enter limits 0 n) (\<lambda>n.
     andThen (tb_container limits (cm_len h)) (\<lambda>_. safe_header_entries cb limits skip_cwt_claims h n))"

definition validate_safe_headers :: "cbor2 \<Rightarrow> sign1 \<Rightarrow> processing_limits \<Rightarrow> error + unit" where
  "validate_safe_headers cb message limits =
     andThen (safe_header cb limits (s1_protected message) True 0) (\<lambda>n.
     map_ok (\<lambda>_. ()) (safe_header cb limits (s1_unprotected message) False n))"

definition must_be_unprotected :: "sign1 \<Rightarrow> int \<Rightarrow> error + unit" where
  "must_be_unprotected message label =
     (if contains_key (s1_protected message) (LInt label)
      then Inl (Custom (''SD-CWT header '' @ show_int label @ '' must be unprotected'')) else Inr ())"

definition must_be_protected :: "sign1 \<Rightarrow> int \<Rightarrow> error + unit" where
  "must_be_protected message label =
     (if contains_key (s1_unprotected message) (LInt label)
      then Inl (Custom (''SD-CWT header '' @ show_int label @ '' must be protected'')) else Inr ())"

definition typ_ok :: "value option \<Rightarrow> bool" where
  "typ_ok typ =
     (case typ of
        Some (VInteger i) \<Rightarrow> try_i64 i = Some CONTENT_FORMAT_SD_CWT
      | Some (VText s) \<Rightarrow> is_sd_cwt_content_type s
      | _ \<Rightarrow> False)"

definition validate_sd_headers :: "cbor2 \<Rightarrow> sign1 \<Rightarrow> processing_limits \<Rightarrow> error + unit" where
  "validate_sd_headers cb message limits =
     andThen (if s1_protected_raw message \<noteq> []
              then validate_with_limits cb (s1_protected_raw message) (definite_cbor_limits limits)
              else Inr ()) (\<lambda>_.
     andThen (for_each (must_be_unprotected message) [HEADER_SD_CLAIMS, HEADER_SD_AEAD_ENCRYPTED_CLAIMS])
       (\<lambda>_.
     andThen (for_each (must_be_protected message)
       [HEADER_CWT_CLAIMS, HEADER_TYP, HEADER_SD_ALG, HEADER_SD_AEAD]) (\<lambda>_.
     if \<not> typ_ok (cm_get (s1_protected message) (LInt HEADER_TYP)) then
       Inl (Custom ''SD-CWT protected typ must be 293, application/sd-cwt, or a +sd-cwt media type'')
     else
       andThen (sd_alg (s1_protected message)) (\<lambda>_.
       andThen (sd_aead (s1_protected message)) (\<lambda>aead.
       andThen (case aead of None \<Rightarrow> Inr () | Some a \<Rightarrow> validate_sd_aead_algorithm a) (\<lambda>_.
       andThen (alg (s1_protected message)) (\<lambda>a.
       andThen (ok_or a (Custom ''SD-CWT protected header is missing alg'')) (\<lambda>a.
       case a of
         LText _ \<Rightarrow> Inl (Custom ''SD-CWT signature algorithm must be a registered integer'')
       | LInt i \<Rightarrow>
           if \<not> is_fully_specified_signature_algorithm i then
             Inl (Custom (''SD-CWT algorithm '' @ show_int i @
               '' is not a recognized fully specified asymmetric signature algorithm''))
           else
             andThen (protected_cwt_claims message) (\<lambda>claims.
             andThen (case claims of
                 None \<Rightarrow> Inr ()
               | Some claims \<Rightarrow> map_ok (\<lambda>_. ()) (validate_issued_value cb limits claims 0 0)) (\<lambda>_.
             validate_safe_headers cb message limits))))))))))"

section \<open>Claims\<close>

text \<open>\<open>map_value\<close>: the first entry with the integer key.\<close>

fun entry_value :: "(value \<times> value) list \<Rightarrow> int \<Rightarrow> value option" where
  "entry_value [] label = None"
| "entry_value ((key, v) # es) label =
     (if (case key of VInteger i \<Rightarrow> try_i64 i = Some label | _ \<Rightarrow> False) then Some v
      else entry_value es label)"

fun claim_value :: "(value \<times> value) list list \<Rightarrow> int \<Rightarrow> value option" where
  "claim_value [] label = None"
| "claim_value (entries # maps) label =
     (case entry_value entries label of Some v \<Rightarrow> Some v | None \<Rightarrow> claim_value maps label)"

fun is_text :: "value \<Rightarrow> bool" where
  "is_text (VText _) = True"
| "is_text _ = False"

fun is_bytes :: "value \<Rightarrow> bool" where
  "is_bytes (VBytes _) = True"
| "is_bytes _ = False"

fun is_map :: "value \<Rightarrow> bool" where
  "is_map (VMap _) = True"
| "is_map _ = False"

text \<open>\<open>f64::abs\<close>, and \<open>2^53\<close> as a binary64 pattern.\<close>

definition f64_abs :: "f64 \<Rightarrow> f64" where
  "f64_abs x = F64 (take_bit 63 (f64_bits x))"

definition f64_le :: "f64 \<Rightarrow> f64 \<Rightarrow> bool" where
  "f64_le x y \<longleftrightarrow> f64_partial_cmp x y = Some Less \<or> f64_partial_cmp x y = Some Equal"

definition f64_2_53 :: f64 where
  "f64_2_53 = F64 0x4340000000000000"

fun date_value :: "value \<Rightarrow> string \<Rightarrow> error + numeric_date" where
  "date_value (VInteger i) name = Inr (DInteger i)"
| "date_value (VFloat x) name =
     (if f64_is_finite x \<and> f64_le (f64_abs x) f64_2_53 then Inr (DFloat x)
      else Inl (UnexpectedType (name @ '' must be a finite float in the inclusive range [-2^53, 2^53]'')))"
| "date_value _ name = Inl (UnexpectedType (name @ '' must be numeric''))"

definition claim_is :: "(value \<Rightarrow> bool) \<Rightarrow> (value \<times> value) list list \<Rightarrow> int \<Rightarrow> string \<Rightarrow> error + unit" where
  "claim_is p maps label message =
     (case claim_value maps label of
        None \<Rightarrow> Inr ()
      | Some v \<Rightarrow> if p v then Inr () else Inl (UnexpectedType message))"

definition claim_date :: "(value \<times> value) list list \<Rightarrow> int \<Rightarrow> string \<Rightarrow> error + numeric_date option" where
  "claim_date maps label name = transpose_opt (map_option (\<lambda>v. date_value v name) (claim_value maps label))"

fun is_vct :: "value \<Rightarrow> bool" where
  "is_vct (VText _) = True"
| "is_vct (VInteger i) = (try_u16 i \<noteq> None)"
| "is_vct _ = False"

definition validate_registered_claim_types :: "(value \<times> value) list list \<Rightarrow> error + unit" where
  "validate_registered_claim_types maps =
     andThen (for_each (\<lambda>(label, name). claim_is is_text maps label (''SD-CWT '' @ name @ '' must be a text string''))
       [(CWTClaimIss, ''iss''), (CWTClaimSub, ''sub''), (CWTClaimAud, ''aud'')]) (\<lambda>_.
     andThen (for_each (\<lambda>(label, name). map_ok (\<lambda>_. ()) (claim_date maps label name))
       [(CWTClaimExp, ''exp''), (CWTClaimNbf, ''nbf''), (CWTClaimIat, ''iat'')]) (\<lambda>_.
     andThen (claim_is is_bytes maps CWTClaimCti ''SD-CWT cti must be a byte string'') (\<lambda>_.
     andThen (claim_is is_map maps 8 ''SD-CWT cnf must be a map'') (\<lambda>_.
     andThen (claim_is is_bytes maps CWT_CLAIM_CNONCE ''SD-CWT cnonce must be a byte string'') (\<lambda>_.
     claim_is is_vct maps CWT_CLAIM_VCT ''SD-CWT vct must be a text string or uint16'')))))"

definition has_redacted_root_claim :: "(value \<times> value) list list \<Rightarrow> bool" where
  "has_redacted_root_claim maps =
     list_ex (list_ex (\<lambda>(key, v). is_redacted_claim_keys_label key \<and>
       (case v of VArray hashes \<Rightarrow> hashes \<noteq> [] | _ \<Rightarrow> False))) maps"

definition validate_required_claims :: "(value \<times> value) list list \<Rightarrow> bool \<Rightarrow> bool \<Rightarrow> error + unit" where
  "validate_required_claims maps issuer_from_header allow_redacted_subject =
     andThen (if \<not> issuer_from_header then
         case claim_value maps CWTClaimIss of
           None \<Rightarrow> Inl (Custom ''SD-CWT is missing required iss claim'')
         | Some v \<Rightarrow> if is_text v then Inr () else Inl (UnexpectedType ''SD-CWT iss must be text'')
       else Inr ()) (\<lambda>_.
     andThen (case claim_value maps 8 of
         None \<Rightarrow> Inl (Custom ''SD-CWT is missing required cnf claim'')
       | Some v \<Rightarrow> if is_map v then Inr () else Inl (UnexpectedType ''SD-CWT cnf must be a map'')) (\<lambda>_.
     if \<not> (case claim_value maps CWTClaimSub of Some v \<Rightarrow> is_text v | None \<Rightarrow> False) \<and>
        (\<not> allow_redacted_subject \<or> \<not> has_redacted_root_claim maps)
     then Inl (Custom ''SD-CWT is missing required disclosed or redacted sub claim'')
     else Inr ()))"

definition validate_time_relationships :: "(value \<times> value) list list \<Rightarrow> error + unit" where
  "validate_time_relationships maps =
     andThen (claim_date maps 4 ''exp'') (\<lambda>expires.
     andThen (claim_date maps 5 ''nbf'') (\<lambda>nbf.
     andThen (claim_date maps 6 ''iat'') (\<lambda>iat.
     andThen (case (nbf, iat) of
         (Some nbf, Some iat) \<Rightarrow>
           if nd_compare nbf iat = Some Greater then Inl (Custom ''SD-CWT requires nbf <= iat'') else Inr ()
       | _ \<Rightarrow> Inr ()) (\<lambda>_.
     andThen (case (nbf, expires) of
         (Some nbf, Some expires) \<Rightarrow>
           if nd_compare nbf expires \<noteq> Some Less then Inl (Custom ''SD-CWT requires nbf < exp'') else Inr ()
       | _ \<Rightarrow> Inr ()) (\<lambda>_.
     case (iat, expires) of
       (Some iat, Some expires) \<Rightarrow>
         if nd_compare iat expires \<noteq> Some Less then Inl (Custom ''SD-CWT requires iat < exp'') else Inr ()
     | _ \<Rightarrow> Inr ())))))"

section \<open>Entry points\<close>

definition sd_critical_verifier :: "verifier \<Rightarrow> verifier" where
  "sd_critical_verifier inner =
     inner\<lparr>vf_understood := fold (\<lambda>label understood.
       if LInt label \<in> set understood then understood else understood @ [LInt label])
       [HEADER_CWT_CLAIMS, HEADER_TYP, HEADER_SD_ALG, HEADER_SD_AEAD] (vf_understood inner)\<rparr>"

definition verify_and_decode_sd_cwt ::
  "cbor2 \<Rightarrow> verifier \<Rightarrow> bytes \<Rightarrow> bytes option \<Rightarrow> processing_limits \<Rightarrow> error + sign1" where
  "verify_and_decode_sd_cwt cb vf data external_aad limits =
     (if max_input_bytes limits < length data
      then Inl (LimitExceeded ''SD-CWT input bytes'' (max_input_bytes limits))
      else
        andThen (s1_from_slice_with_limits cb data (definite_cbor_limits limits)) (\<lambda>message.
        andThen (validate_sd_headers cb message limits) (\<lambda>_.
        andThen (s1_verify cb message (sd_critical_verifier vf) external_aad) (\<lambda>_.
        Inr message))))"

record sd_options =
  so_issuer_identified_by_protected_header :: bool
  so_aead_nonce_size :: "nat option"
  so_limits :: processing_limits

definition restore_validated_headers ::
  "cbor2 \<Rightarrow> (bytes \<Rightarrow> bytes) \<Rightarrow> sd_options \<Rightarrow> sign1 \<Rightarrow> restore_mode \<Rightarrow> error + restore_report" where
  "restore_validated_headers cb sha256 opts message mode =
     (let limits = so_limits opts in
      andThen (protected_cwt_claims message) (\<lambda>protected_claims.
      andThen (disclosures_from_unprotected_with_limits cb (s1_unprotected message) limits) (\<lambda>disclosures.
      andThen (aead_disclosures_from_unprotected (s1_unprotected message) limits) (\<lambda>encrypted.
      andThen (sd_aead (s1_protected message)) (\<lambda>aead.
      andThen (validate_aead_disclosure_dimensions encrypted (case aead of None \<Rightarrow> 1 | Some a \<Rightarrow> a)
        (so_aead_nonce_size opts)) (\<lambda>_.
      andThen (ok_or (s1_payload message) (Custom ''SD-CWT message must carry an embedded payload''))
        (\<lambda>payload.
      if max_input_bytes limits < length payload
      then Inl (LimitExceeded ''SD-CWT payload bytes'' (max_input_bytes limits))
      else
        andThen (validate_with_limits cb payload (definite_cbor_limits limits)) (\<lambda>_.
        andThen (cbor_from_slice cb payload) (\<lambda>v.
        case v of
          VMap entries \<Rightarrow>
            (let maps = claim_maps entries protected_claims in
             andThen (validate_registered_claim_types maps) (\<lambda>_.
             andThen (validate_required_claims maps (so_issuer_identified_by_protected_header opts) True)
               (\<lambda>_.
             andThen (validate_time_relationships maps) (\<lambda>_.
             andThen (sd_alg (s1_protected message)) (\<lambda>a.
             andThen (default_hasher_for_sd_alg sha256 a) (\<lambda>h.
             andThen (restore_with_protected_claims
               \<lparr>re_cbor = cb, re_limits = limits, re_mode = mode, re_validate_claims = True\<rparr>
               h v protected_claims disclosures) (\<lambda>report.
             case rr_value report of
               VMap entries \<Rightarrow>
                 (let restored_maps = claim_maps entries (rr_protected_claims report) in
                  andThen (validate_registered_claim_types restored_maps) (\<lambda>_.
                  andThen (validate_time_relationships restored_maps) (\<lambda>_.
                  andThen (if mode = Holder then
                      validate_required_claims restored_maps
                        (so_issuer_identified_by_protected_header opts) False
                    else Inr ()) (\<lambda>_.
                  Inr report))))
             | _ \<Rightarrow> Inl (Custom ''unreachable''))))))))
        | _ \<Rightarrow> Inl (UnexpectedType ''SD-CWT payload must be a claims map''))))))))))"

definition validate_and_restore ::
  "cbor2 \<Rightarrow> (bytes \<Rightarrow> bytes) \<Rightarrow> sd_options \<Rightarrow> sign1 \<Rightarrow> restore_mode \<Rightarrow> error + restore_report" where
  "validate_and_restore cb sha256 opts message mode =
     andThen (s1_validate_headers cb message) (\<lambda>_.
     andThen (validate_sd_headers cb message (so_limits opts)) (\<lambda>_.
     restore_validated_headers cb sha256 opts message mode))"

definition verify_validate_and_restore_sd_cwt ::
  "cbor2 \<Rightarrow> (bytes \<Rightarrow> bytes) \<Rightarrow> verifier \<Rightarrow> bytes \<Rightarrow> bytes option \<Rightarrow> restore_mode \<Rightarrow> sd_options \<Rightarrow>
     error + (sign1 \<times> restore_report)" where
  "verify_validate_and_restore_sd_cwt cb sha256 vf data external_aad mode opts =
     andThen (verify_and_decode_sd_cwt cb vf data external_aad (so_limits opts)) (\<lambda>message.
     andThen (restore_validated_headers cb sha256 opts message mode) (\<lambda>report.
     Inr (message, report)))"

end
