(* ===== verification/SdRoundtrip.thy ===== *)
theory SdRoundtrip
  imports SdRestore ReferenceCbor "HOL-Library.Multiset"
begin

text \<open>
  Issuance followed by restoration: the claims that a holder recovers from an issued map
  and all its disclosures are those of the pre-issuance map with its redaction marks and
  decoys removed. \<open>reveal\<close> is that map; the lemmas show, part by part, that restoring what
  was issued for a part consumes exactly the disclosures created for it.
\<close>

section \<open>What is revealed\<close>

fun is_mark :: "value \<Rightarrow> bool" where
  "is_mark (VTag t _) = (t = TO_BE_REDACTED_TAG \<or> t = TO_BE_DECOY_TAG)"
| "is_mark _ = False"

text \<open>Redacted claims move behind the plain ones; decoys disappear.\<close>

fun reveal :: "value \<Rightarrow> value" where
  "reveal (VMap entries) =
     VMap (map (\<lambda>(k, v). (k, reveal v)) (filter (\<lambda>(k, v). \<not> is_mark k) entries) @
       concat (map (\<lambda>(k, v). case k of
           VTag t inner \<Rightarrow> if t = TO_BE_REDACTED_TAG then [(inner, reveal v)] else []
         | _ \<Rightarrow> []) entries))"
| "reveal (VArray items) =
     VArray (concat (map (\<lambda>v. if is_mark v
       then (case v of
           VTag t inner \<Rightarrow> if t = TO_BE_REDACTED_TAG then [reveal inner] else []
         | _ \<Rightarrow> [])
       else [reveal v]) items))"
| "reveal (VTag t v) = VTag t (reveal v)"
| "reveal v = v"

declare reveal.simps(1,2) [simp del]

definition reveal_plain :: "(value \<times> value) list \<Rightarrow> (value \<times> value) list" where
  "reveal_plain es = map (\<lambda>(k, v). (k, reveal v)) (filter (\<lambda>(k, v). \<not> is_mark k) es)"

definition reveal_marked :: "(value \<times> value) list \<Rightarrow> (value \<times> value) list" where
  "reveal_marked es = concat (map (\<lambda>(k, v). case k of
     VTag t inner \<Rightarrow> if t = TO_BE_REDACTED_TAG then [(inner, reveal v)] else [] | _ \<Rightarrow> []) es)"

definition reveal_items :: "value list \<Rightarrow> value list" where
  "reveal_items vs = concat (map (\<lambda>v. if is_mark v
     then (case v of VTag t inner \<Rightarrow> if t = TO_BE_REDACTED_TAG then [reveal inner] else [] | _ \<Rightarrow> [])
     else [reveal v]) vs)"

lemma reveal_map: "reveal (VMap es) = VMap (reveal_plain es @ reveal_marked es)"
  unfolding reveal_plain_def reveal_marked_def by (rule reveal.simps(1))

lemma reveal_array: "reveal (VArray vs) = VArray (reveal_items vs)"
  unfolding reveal_items_def by (rule reveal.simps(2))

lemma reveal_plain_simps [simp]:
  "reveal_plain [] = []"
  "reveal_plain ((k, v) # es) = (if is_mark k then reveal_plain es else (k, reveal v) # reveal_plain es)"
  by (simp_all add: reveal_plain_def)

lemma reveal_marked_simps [simp]:
  "reveal_marked [] = []"
  "reveal_marked ((VTag TO_BE_REDACTED_TAG inner, v) # es) = (inner, reveal v) # reveal_marked es"
  "reveal_marked ((VTag TO_BE_DECOY_TAG inner, v) # es) = reveal_marked es"
  by (simp_all add: reveal_marked_def)

lemma reveal_marked_plain [simp]:
  "\<not> is_mark k \<Longrightarrow> reveal_marked ((k, v) # es) = reveal_marked es"
  by (cases k) (simp_all add: reveal_marked_def)

lemma reveal_items_simps [simp]:
  "reveal_items [] = []"
  "reveal_items (VTag TO_BE_REDACTED_TAG inner # vs) = reveal inner # reveal_items vs"
  "reveal_items (VTag TO_BE_DECOY_TAG inner # vs) = reveal_items vs"
  by (simp_all add: reveal_items_def)

lemma reveal_items_plain [simp]:
  "\<not> is_mark v \<Longrightarrow> reveal_items (v # vs) = reveal v # reveal_items vs"
  unfolding reveal_items_def by (cases v) simp_all

section \<open>Consuming disclosures\<close>

fun is_decoy :: "disclosure_kind \<Rightarrow> bool" where
  "is_decoy (Decoy _) = True"
| "is_decoy _ = False"

text \<open>The items that restoring a disclosure visits.\<close>

fun kind_items :: "disclosure_kind \<Rightarrow> nat" where
  "kind_items (Claim _ _ v) = items_of v"
| "kind_items (Element _ v) = items_of v"
| "kind_items (Decoy _) = 0"

definition new_items :: "disclosure list \<Rightarrow> nat" where
  "new_items ds = sum_list (map (kind_items \<circ> d_kind) ds)"

definition decoys_in :: "disclosure list \<Rightarrow> nat" where
  "decoys_in ds = length (filter (is_decoy \<circ> d_kind) ds)"

definition disclosed_in :: "disclosure list \<Rightarrow> nat" where
  "disclosed_in ds = length (filter (Not \<circ> is_decoy \<circ> d_kind) ds)"

definition hashes :: "hasher \<Rightarrow> disclosure list \<Rightarrow> bytes list" where
  "hashes h ds = map (\<lambda>d. redacted_hash d h) ds"

definition consume :: "hasher \<Rightarrow> disclosure list \<Rightarrow> nat \<Rightarrow> restore_state \<Rightarrow> restore_state" where
  "consume h ds cost st =
     st\<lparr>rs_pending := filter (\<lambda>(k, d). k \<notin> set (hashes h ds)) (rs_pending st),
        rs_disclosed := rs_disclosed st + disclosed_in ds,
        rs_decoys := rs_decoys st + decoys_in ds,
        rs_visited := rs_visited st + cost\<rparr>"

definition provides :: "hasher \<Rightarrow> restore_state \<Rightarrow> disclosure list \<Rightarrow> bool" where
  "provides h st ds \<longleftrightarrow>
     distinct (hashes h ds) \<and> wf_bt (rs_pending st) \<and>
     (\<forall>d \<in> set ds. bt_get (rs_pending st) (redacted_hash d h) = Some d)"

lemma count_simps [simp]:
  "new_items [] = 0" "new_items (d # ds) = kind_items (d_kind d) + new_items ds"
  "new_items (ds @ es) = new_items ds + new_items es"
  "decoys_in [] = 0" "decoys_in (d # ds) = (if is_decoy (d_kind d) then 1 else 0) + decoys_in ds"
  "decoys_in (ds @ es) = decoys_in ds + decoys_in es"
  "disclosed_in [] = 0" "disclosed_in (d # ds) = (if is_decoy (d_kind d) then 0 else 1) + disclosed_in ds"
  "disclosed_in (ds @ es) = disclosed_in ds + disclosed_in es"
  by (simp_all add: new_items_def decoys_in_def disclosed_in_def)

lemma hashes_simps [simp]:
  "hashes h [] = []" "hashes h (d # ds) = redacted_hash d h # hashes h ds"
  "hashes h (ds @ es) = hashes h ds @ hashes h es"
  by (simp_all add: hashes_def)

lemma set_hashes: "set (hashes h ds) = (\<lambda>d. redacted_hash d h) ` set ds"
  by (auto simp: hashes_def)

lemma restore_state_eqI:
  assumes "rs_pending s = rs_pending t" and "rs_disclosed s = rs_disclosed t"
    and "rs_decoys s = rs_decoys t" and "rs_removed s = rs_removed t" and "rs_visited s = rs_visited t"
  shows "s = (t :: restore_state)"
  using assms by (cases s; cases t) simp

lemma consume_nil: "consume h [] cost st = st\<lparr>rs_visited := rs_visited st + cost\<rparr>"
  by (rule restore_state_eqI) (simp_all add: consume_def)

lemma consume_append: "consume h es c2 (consume h ds c1 st) = consume h (ds @ es) (c1 + c2) st"
  by (rule restore_state_eqI) (auto simp: consume_def intro!: filter_cong)

lemma consume_perm: "mset ds = mset es \<Longrightarrow> consume h ds c st = consume h es c st"
proof -
  assume m: "mset ds = mset es"
  then have "set (hashes h ds) = set (hashes h es)" by (metis set_hashes set_mset_mset)
  moreover have "decoys_in ds = decoys_in es" "disclosed_in ds = disclosed_in es"
    using m unfolding decoys_in_def disclosed_in_def by (metis mset_filter size_mset)+
  ultimately show ?thesis by (simp add: consume_def)
qed

lemma provides_perm: "mset ds = mset es \<Longrightarrow> provides h st ds \<longleftrightarrow> provides h st es"
proof -
  assume m: "mset ds = mset es"
  then have "mset (hashes h ds) = mset (hashes h es)" by (simp add: hashes_def)
  then have "distinct (hashes h ds) = distinct (hashes h es)" by (rule mset_eq_imp_distinct_iff)
  moreover have "set ds = set es" using m by (metis set_mset_mset)
  ultimately show ?thesis by (simp add: provides_def)
qed

lemma bt_get_filter:
  "wf_bt m \<Longrightarrow> bt_get (filter (\<lambda>(k, d). P k) m) j = (if P j then bt_get m j else None)"
  by (induction m) (auto simp: bt_get_None_iff)

lemma keys_filter_subset: "bt_keys (filter P m) \<subseteq> bt_keys m"
  by (auto simp: bt_keys_def)

lemma wf_bt_filter: "wf_bt m \<Longrightarrow> wf_bt (filter P m)"
proof (induction m)
  case (Cons e m)
  obtain a b where e: "e = (a, b)" by (cases e)
  have "wf_bt (filter P m)" and "\<forall>k \<in> bt_keys (filter P m). a < k"
    using Cons keys_filter_subset [of P m] by (auto simp: e)
  then show ?case by (simp add: e)
qed simp

lemma bt_remove_filter: "wf_bt m \<Longrightarrow> bt_remove k m = filter (\<lambda>(j, d). j \<noteq> k) m"
proof (rule wf_bt_ext)
  assume m: "wf_bt m"
  show "wf_bt (bt_remove k m)" by (rule wf_bt_remove [OF m])
  show "wf_bt (filter (\<lambda>(j, d). j \<noteq> k) m)" by (rule wf_bt_filter [OF m])
  show "bt_get (bt_remove k m) = bt_get (filter (\<lambda>(j, d). j \<noteq> k) m)"
    by (rule ext) (simp add: bt_get_remove [OF m] bt_get_filter [OF m])
qed

text \<open>What is provided for two parts stays provided for the second when the first is consumed.\<close>

lemma provides_appendD:
  assumes "provides h st (ds @ es)"
  shows "provides h st ds" and "provides h (consume h ds c st) es"
  using assms by (auto simp: provides_def consume_def bt_get_filter wf_bt_filter set_hashes)

lemma provides_visited [simp]: "provides h (st\<lparr>rs_visited := n\<rparr>) ds = provides h st ds"
  by (simp add: provides_def)

text \<open>Taking one provided disclosure.\<close>

lemma remove_provided:
  assumes "provides h st (d # ds)"
  shows "rs_remove (redacted_hash d h) st =
    (Some d, st\<lparr>rs_pending := rs_pending (consume h [d] 0 st)\<rparr>)"
  using assms by (simp add: provides_def rs_remove_def consume_def bt_remove_filter)

section \<open>Restorable parts\<close>

text \<open>
  \<open>restorable renv h d v new w\<close>: at every level that depth \<open>d\<close> of issuance may become, the
  value \<open>v\<close> is restored to \<open>w\<close> by consuming the disclosures \<open>new\<close>, wherever they are
  provided and the items fit in the budget.
\<close>

definition level :: "nat \<Rightarrow> nat \<Rightarrow> bool" where
  "level e d \<longleftrightarrow> e \<le> d \<and> (e = 0 \<longrightarrow> d = 0)"

definition restorable ::
  "restore_env \<Rightarrow> hasher \<Rightarrow> nat \<Rightarrow> value \<Rightarrow> disclosure list \<Rightarrow> value \<Rightarrow> bool" where
  "restorable renv h d v new w \<longleftrightarrow> (\<forall>st e. level e d \<longrightarrow> provides h st new \<longrightarrow>
     rs_visited st + items_of v + new_items new \<le> max_items (re_limits renv) \<longrightarrow>
     restore_value renv v st e = Inr (w, consume h new (items_of v + new_items new) st))"

definition entry_items :: "(value \<times> value) list \<Rightarrow> nat" where
  "entry_items es = sum_list (map (\<lambda>(k, v). Suc (items_of v)) es)"

text \<open>
  The labels \<open>ls\<close> are those of the entries; they are new to the map. The entries may be
  followed by others, as the plain entries of an issued map are by the redacted hashes.
\<close>

definition fresh_labels :: "label list \<Rightarrow> label set \<Rightarrow> bool" where
  "fresh_labels ls keys \<longleftrightarrow> distinct ls \<and> set ls \<inter> keys = {} \<and>
     (\<forall>l \<in> set ls. sd_label_from_value (value_of_label l) = Inr l)"

definition restorable_entries ::
  "restore_env \<Rightarrow> hasher \<Rightarrow> nat \<Rightarrow> label list \<Rightarrow> (value \<times> value) list \<Rightarrow> disclosure list \<Rightarrow>
     (value \<times> value) list \<Rightarrow> bool" where
  "restorable_entries renv h d ls es new w \<longleftrightarrow> map fst es = map value_of_label ls \<and> (\<forall>st e keys saw. level e d \<longrightarrow> provides h st new \<longrightarrow>
     rs_visited st + entry_items es + new_items new \<le> max_items (re_limits renv) \<longrightarrow>
     fresh_labels ls keys \<longrightarrow>
     (\<forall>tail. restore_entries renv (es @ tail) keys saw st e =
       andThen (restore_entries renv tail (keys \<union> set ls) saw
         (consume h new (entry_items es + new_items new) st) e)
         (\<lambda>(output, more, keys, st). Inr (w @ output, more, keys, st))))"

definition restorable_hashes ::
  "restore_env \<Rightarrow> hasher \<Rightarrow> nat \<Rightarrow> label list \<Rightarrow> bytes list \<Rightarrow> disclosure list \<Rightarrow>
     (value \<times> value) list \<Rightarrow> bool" where
  "restorable_hashes renv h d ls hs new w \<longleftrightarrow> (\<forall>st e keys. level e d \<longrightarrow> provides h st new \<longrightarrow>
     rs_visited st + new_items new \<le> max_items (re_limits renv) \<longrightarrow> fresh_labels ls keys \<longrightarrow>
     restore_hashes renv hs keys st e = Inr (w, [], consume h new (new_items new) st))"

definition restorable_items ::
  "restore_env \<Rightarrow> hasher \<Rightarrow> nat \<Rightarrow> value list \<Rightarrow> disclosure list \<Rightarrow> value list \<Rightarrow> bool" where
  "restorable_items renv h d vs new w \<longleftrightarrow> (\<forall>st e. level e d \<longrightarrow> provides h st new \<longrightarrow>
     rs_visited st + sum_list (map items_of vs) + new_items new \<le> max_items (re_limits renv) \<longrightarrow>
     restore_items renv vs st e = Inr (w, consume h new (sum_list (map items_of vs) + new_items new) st))"

lemma level_Suc: "level e d \<Longrightarrow> level (Suc e) (Suc d)" "level e d \<Longrightarrow> level (Suc e) (Suc (Suc d))"
  by (auto simp: level_def)

lemma fresh_labels_Cons:
  "fresh_labels (l # ls) keys \<longleftrightarrow>
     l \<notin> keys \<and> sd_label_from_value (value_of_label l) = Inr l \<and> fresh_labels ls (insert l keys)"
  by (auto simp: fresh_labels_def)

lemma fresh_labels_append:
  "fresh_labels (ls @ ms) keys \<longleftrightarrow> fresh_labels ls keys \<and> fresh_labels ms (keys \<union> set ls)"
  by (auto simp: fresh_labels_def)

lemma consume_visited: "rs_visited (consume h new c st) = rs_visited st + c"
  by (simp add: consume_def)

lemma provides_consume_nil [simp]: "provides h (consume h [] c st) ds = provides h st ds"
  by (simp add: provides_def consume_nil)

text \<open>What the limits of the restoration must allow for the limits of issuance.\<close>

definition fits :: "processing_limits \<Rightarrow> restore_env \<Rightarrow> bool" where
  "fits il renv \<longleftrightarrow> max_items (re_limits renv) < usize_limit \<and>
     max_depth il \<le> max_depth (re_limits renv) \<and>
     max_container_entries il \<le> max_container_entries (re_limits renv)"

lemma rs_enter_fits:
  assumes "fits il renv" and "level e d" and "d + k \<le> max_depth il"
    and "rs_visited st < max_items (re_limits renv)"
  shows "rs_enter renv (e + k) st = Inr (consume h [] 1 st)"
  using assms by (simp add: guards fits_def level_def consume_nil)

lemma restorableD:
  assumes "restorable renv h d v new w" and "level e d" and "provides h st new"
    and "rs_visited st + items_of v + new_items new \<le> max_items (re_limits renv)"
  shows "restore_value renv v st e = Inr (w, consume h new (items_of v + new_items new) st)"
  using assms unfolding restorable_def by blast

text \<open>A leaf.\<close>

lemma restorable_leaf:
  assumes "fits il renv" and "d \<le> max_depth il"
    and "\<And>st e. restore_value renv v st e = andThen (rs_enter renv e st) (\<lambda>st. Inr (v, st))"
    and "items_of v = 1"
  shows "restorable renv h d v [] v"
  unfolding restorable_def
proof (intro allI impI)
  fix st :: restore_state and e
  assume "level e d" and "rs_visited st + items_of v + new_items [] \<le> max_items (re_limits renv)"
  then have "rs_enter renv (e + 0) st = Inr (consume h [] 1 st)"
    using assms(1,2,4) by (intro rs_enter_fits [where il = il and d = d]) simp_all
  then show "restore_value renv v st e = Inr (v, consume h [] (items_of v + new_items []) st)"
    by (simp add: assms(3,4))
qed

lemma restorable_tag:
  assumes fit: "fits il renv" and d: "d \<le> max_depth il"
    and inner: "restorable renv h (Suc d) v new w" and t: "\<not> is_sd_tag t"
  shows "restorable renv h d (VTag t v) new (VTag t w)"
  unfolding restorable_def
proof (intro allI impI)
  fix st :: restore_state and e
  assume e: "level e d" and p: "provides h st new"
    and b: "rs_visited st + items_of (VTag t v) + new_items new \<le> max_items (re_limits renv)"
  have enter: "rs_enter renv (e + 0) st = Inr (consume h [] 1 st)"
    using b by (intro rs_enter_fits [OF fit e]) (use d in simp_all)
  have "restore_value renv v (consume h [] 1 st) (Suc e) =
      Inr (w, consume h new (items_of v + new_items new) (consume h [] 1 st))"
    using b p by (intro restorableD [OF inner level_Suc(1) [OF e]]) (simp_all add: consume_visited)
  with enter t show "restore_value renv (VTag t v) st e =
      Inr (VTag t w, consume h new (items_of (VTag t v) + new_items new) st)"
    by (simp add: restore_value.simps [of renv "VTag t v"] consume_append)
qed

text \<open>Plain entries.\<close>

lemma restorable_entries_Nil: "restorable_entries renv h d [] [] [] []"
proof -
  have "andThen r (\<lambda>(output, more, keys, st). Inr (output, more, keys, st)) = r" for r :: "error + 'a \<times> 'b \<times> 'c \<times> 'd"
    by (cases r) auto
  then show ?thesis by (simp add: restorable_entries_def consume_nil entry_items_def)
qed

lemma label_not_redacted [simp]: "\<not> is_redacted_claim_keys_label (value_of_label l)"
  by (cases l) simp_all

lemma restorable_entries_Cons:
  assumes fit: "fits il renv" and d: "Suc d \<le> max_depth il"
    and v: "restorable renv h (Suc d) v newv w" and es: "restorable_entries renv h d ls es new ws"
  shows "restorable_entries renv h d (l # ls) ((value_of_label l, v) # es) (newv @ new)
    ((value_of_label l, w) # ws)"
  unfolding restorable_entries_def
proof (intro conjI allI impI)
  show "map fst ((value_of_label l, v) # es) = map value_of_label (l # ls)"
    using es by (simp add: restorable_entries_def)
next
  fix st :: restore_state and e keys saw tail
  assume e: "level e d" and p: "provides h st (newv @ new)" and f: "fresh_labels (l # ls) keys"
    and b: "rs_visited st + entry_items ((value_of_label l, v) # es) + new_items (newv @ new)
      \<le> max_items (re_limits renv)"
  define st1 where "st1 = consume h [] 1 st"
  define st2 where "st2 = consume h newv (items_of v + new_items newv) st1"
  have enter: "rs_enter renv (e + 1) st = Inr st1"
    unfolding st1_def using b d by (intro rs_enter_fits [OF fit e]) (simp_all add: entry_items_def)
  have val: "restore_value renv v st1 (Suc e) = Inr (w, st2)"
    unfolding st2_def using b provides_appendD(1) [OF p]
    by (intro restorableD [OF v level_Suc(1) [OF e]])
      (simp_all add: st1_def consume_visited entry_items_def)
  have p2: "provides h st2 new"
    unfolding st2_def using p by (intro provides_appendD(2)) (simp add: st1_def)
  have rest: "restore_entries renv (es @ tail) (insert l keys) saw st2 e =
      andThen (restore_entries renv tail (insert l keys \<union> set ls) saw
        (consume h new (entry_items es + new_items new) st2) e)
        (\<lambda>(output, more, keys, st). Inr (ws @ output, more, keys, st))" for tail
    using es e p2 b f unfolding restorable_entries_def
    by (simp add: st2_def st1_def consume_visited entry_items_def fresh_labels_Cons)
  have st: "consume h new (entry_items es + new_items new) st2 =
      consume h (newv @ new) (entry_items ((value_of_label l, v) # es) + new_items (newv @ new)) st"
    unfolding st2_def st1_def consume_append by (simp add: entry_items_def ac_simps)
  show "restore_entries renv (((value_of_label l, v) # es) @ tail) keys saw st e =
      andThen (restore_entries renv tail (keys \<union> set (l # ls)) saw
        (consume h (newv @ new) (entry_items ((value_of_label l, v) # es) + new_items (newv @ new)) st) e)
        (\<lambda>(output, more, keys, st). Inr (((value_of_label l, w) # ws) @ output, more, keys, st))"
    using enter val rest f unfolding st
    by (simp add: fresh_labels_Cons andThen_assoc split_def)
qed

text \<open>Redacted claims, in the second pass over a map.\<close>

lemma take_provided:
  assumes "provides h st (x # new)"
  shows "rs_remove (redacted_hash x h) st = (Some x, st\<lparr>rs_pending := rs_pending (consume h [x] 0 st)\<rparr>)"
    and "provides h (st\<lparr>rs_pending := rs_pending (consume h [x] 0 st)\<rparr>) new"
  using remove_provided [OF assms] provides_appendD(2) [of h st "[x]" new 0] assms
  by (simp_all add: provides_def)

lemma take_counts:
  "\<not> is_decoy (d_kind x) \<Longrightarrow>
     (let st1 = consume h new c (st\<lparr>rs_pending := rs_pending (consume h [x] 0 st)\<rparr>) in
      st1\<lparr>rs_disclosed := Suc (rs_disclosed st1)\<rparr>) = consume h (x # new) c st"
  "is_decoy (d_kind x) \<Longrightarrow>
     (let st1 = st\<lparr>rs_pending := rs_pending (consume h [x] 0 st)\<rparr> in
      st1\<lparr>rs_decoys := Suc (rs_decoys st1)\<rparr>) = consume h [x] 0 st"
  by (auto simp: Let_def consume_def intro!: restore_state_eqI filter_cong)

lemma restorable_hashes_Nil: "restorable_hashes renv h d [] [] [] []"
  by (simp add: restorable_hashes_def consume_nil)

lemma restorable_hashes_Claim:
  assumes v: "restorable renv h (Suc d) v newv w" and hs: "restorable_hashes renv h d ls hs new ws"
    and x: "d_kind x = Claim s l v" and root: "d = 0 \<Longrightarrow> validate_root_disclosure_key l = Inr ()"
  shows "restorable_hashes renv h d (l # ls) (redacted_hash x h # hs) (x # newv @ new)
    ((value_of_label l, w) # ws)"
  unfolding restorable_hashes_def
proof (intro allI impI)
  fix st :: restore_state and e keys
  assume e: "level e d" and p: "provides h st (x # newv @ new)" and f: "fresh_labels (l # ls) keys"
    and b: "rs_visited st + new_items (x # newv @ new) \<le> max_items (re_limits renv)"
  define st1 where "st1 = st\<lparr>rs_pending := rs_pending (consume h [x] 0 st)\<rparr>"
  define st2 where "st2 = consume h newv (items_of v + new_items newv) st1"
  define st3 where "st3 = st2\<lparr>rs_disclosed := Suc (rs_disclosed st2)\<rparr>"
  note take = take_provided [OF p, folded st1_def]
  have st3: "st3 = consume h (x # newv) (items_of v + new_items newv) st"
    using take_counts(1) [of x h newv "items_of v + new_items newv" st] x
    by (simp add: st3_def st2_def st1_def Let_def)
  have val: "restore_value renv v st1 (Suc e) = Inr (w, st2)"
    unfolding st2_def using b x provides_appendD(1) [OF take(2)]
    by (intro restorableD [OF v level_Suc(1) [OF e]]) (simp_all add: st1_def)
  have p3: "provides h st3 new"
    unfolding st3 using provides_appendD(2) [of h st "x # newv" new] p by simp
  have rest: "restore_hashes renv hs (insert l keys) st3 e = Inr (ws, [], consume h new (new_items new) st3)"
    using hs e p3 b f x unfolding restorable_hashes_def
    by (simp add: st3 consume_visited fresh_labels_Cons)
  have "consume h new (new_items new) st3 = consume h (x # newv @ new) (new_items (x # newv @ new)) st"
    unfolding st3 consume_append using x by (simp add: ac_simps)
  moreover have "re_validate_claims renv \<and> e = 0 \<Longrightarrow> validate_root_disclosure_key l = Inr ()"
    using root e by (simp add: level_def)
  ultimately show "restore_hashes renv (redacted_hash x h # hs) keys st e =
      Inr ((value_of_label l, w) # ws, [], consume h (x # newv @ new) (new_items (x # newv @ new)) st)"
    using take(1) val rest f x by (simp add: fresh_labels_Cons st3_def)
qed

lemma restorable_hashes_Decoy:
  assumes hs: "restorable_hashes renv h d ls hs new ws" and x: "d_kind x = Decoy s"
  shows "restorable_hashes renv h d ls (redacted_hash x h # hs) (x # new) ws"
  unfolding restorable_hashes_def
proof (intro allI impI)
  fix st :: restore_state and e keys
  assume e: "level e d" and p: "provides h st (x # new)" and f: "fresh_labels ls keys"
    and b: "rs_visited st + new_items (x # new) \<le> max_items (re_limits renv)"
  define st1 where "st1 = consume h [x] 0 st"
  have st1: "st\<lparr>rs_pending := rs_pending (consume h [x] 0 st), rs_decoys := Suc (rs_decoys st)\<rparr> = st1"
    using take_counts(2) [of x h st] x by (simp add: st1_def Let_def)
  have "restore_hashes renv hs keys st1 e = Inr (ws, [], consume h new (new_items new) st1)"
    using hs e f b x provides_appendD(2) [of h st "[x]" new 0] p unfolding restorable_hashes_def
    by (simp add: st1_def consume_visited)
  then show "restore_hashes renv (redacted_hash x h # hs) keys st e =
      Inr (ws, [], consume h (x # new) (new_items (x # new)) st)"
    using take_provided(1) [OF p] x st1 consume_append [of h new "new_items new" "[x]" 0 st]
    by (simp add: st1_def)
qed

text \<open>Array items.\<close>

lemma restorable_items_Nil: "restorable_items renv h d [] [] []"
  by (simp add: restorable_items_def consume_nil)

lemma restorable_items_step:
  assumes vs: "restorable_items renv h d vs new ws"
    and item: "\<And>st e. level e d \<Longrightarrow> provides h st newv \<Longrightarrow>
      rs_visited st + items_of v + new_items newv \<le> max_items (re_limits renv) \<Longrightarrow>
      restore_items renv (v # vs) st e =
        andThen (restore_items renv vs (consume h newv (items_of v + new_items newv) st) e)
          (\<lambda>(output, st). Inr (out @ output, st))"
  shows "restorable_items renv h d (v # vs) (newv @ new) (out @ ws)"
  unfolding restorable_items_def
proof (intro allI impI)
  fix st :: restore_state and e
  assume e: "level e d" and p: "provides h st (newv @ new)"
    and b: "rs_visited st + sum_list (map items_of (v # vs)) + new_items (newv @ new)
      \<le> max_items (re_limits renv)"
  let ?st1 = "consume h newv (items_of v + new_items newv) st"
  have "restore_items renv vs ?st1 e =
      Inr (ws, consume h new (sum_list (map items_of vs) + new_items new) ?st1)"
    using vs e b provides_appendD(2) [OF p] unfolding restorable_items_def by (simp add: consume_visited)
  moreover have "restore_items renv (v # vs) st e =
      andThen (restore_items renv vs ?st1 e) (\<lambda>(output, st). Inr (out @ output, st))"
    using b by (intro item [OF e provides_appendD(1) [OF p]]) simp
  ultimately show "restore_items renv (v # vs) st e =
      Inr (out @ ws, consume h (newv @ new) (sum_list (map items_of (v # vs)) + new_items (newv @ new)) st)"
    by (simp add: consume_append algebra_simps)
qed

lemma restorable_items_plain:
  assumes "restorable_items renv h d vs new ws" and "restorable renv h (Suc d) v newv w"
    and "\<not> is_redacted_element v"
  shows "restorable_items renv h d (v # vs) (newv @ new) (w # ws)"
proof -
  have none: "(case v of VTag t inner \<Rightarrow> if t = REDACTED_ELEMENT_TAG then Some inner else None | _ \<Rightarrow> None) = None"
    using assms(3) by (cases v) simp_all
  have "restorable_items renv h d (v # vs) (newv @ new) ([w] @ ws)"
    using assms(1)
  proof (rule restorable_items_step)
    fix st :: restore_state and e
    assume "level e d" and "provides h st newv"
      and "rs_visited st + items_of v + new_items newv \<le> max_items (re_limits renv)"
    then have "restore_value renv v st (Suc e) = Inr (w, consume h newv (items_of v + new_items newv) st)"
      using restorableD [OF assms(2) level_Suc(1)] by blast
    then show "restore_items renv (v # vs) st e =
        andThen (restore_items renv vs (consume h newv (items_of v + new_items newv) st) e)
          (\<lambda>(output, st). Inr ([w] @ output, st))"
      by (simp add: none)
  qed
  then show ?thesis by simp
qed

text \<open>The two visits of a redacted element: its tag and its hash.\<close>

lemma redacted_element_visits:
  assumes fit: "fits il renv" and d: "Suc (Suc d) \<le> max_depth il" and e: "level e d"
    and b: "rs_visited st + 2 \<le> max_items (re_limits renv)"
  shows "rs_enter renv (Suc e) st = Inr (consume h [] 1 st)"
    and "rs_enter renv (Suc (Suc e)) (consume h [] 1 st) = Inr (consume h [] (Suc (Suc 0)) st)"
  using rs_enter_fits [OF fit e, of 1 st h] rs_enter_fits [OF fit e, of 2 "consume h [] 1 st" h] d b
  by (simp_all add: consume_append consume_visited)

lemma restorable_items_Element:
  assumes fit: "fits il renv" and d: "Suc (Suc d) \<le> max_depth il"
    and vs: "restorable_items renv h d vs new ws"
    and v: "restorable renv h (Suc (Suc d)) v newv w" and x: "d_kind x = Element s v"
  shows "restorable_items renv h d (redacted_element (redacted_hash x h) # vs) (x # newv @ new) (w # ws)"
proof -
  have "restorable_items renv h d (redacted_element (redacted_hash x h) # vs) ((x # newv) @ new) ([w] @ ws)"
    using vs
  proof (rule restorable_items_step)
    fix st :: restore_state and e
    assume e: "level e d" and p: "provides h st (x # newv)"
      and b: "rs_visited st + items_of (redacted_element (redacted_hash x h)) + new_items (x # newv)
        \<le> max_items (re_limits renv)"
    define st0 where "st0 = consume h [] (Suc (Suc 0)) st"
    define st1 where "st1 = st0\<lparr>rs_pending := rs_pending (consume h [x] 0 st0)\<rparr>"
    define st2 where "st2 = consume h newv (items_of v + new_items newv) st1"
    have p0: "provides h st0 (x # newv)" using p by (simp add: st0_def)
    note take = take_provided [OF p0, folded st1_def]
    have visits: "rs_enter renv (Suc e) st = Inr (consume h [] 1 st)"
      "rs_enter renv (Suc (Suc e)) (consume h [] 1 st) = Inr st0"
      unfolding st0_def using b
      by (intro redacted_element_visits [OF fit d e]; simp add: redacted_element_def)+
    have val: "restore_value renv v st1 (Suc e) = Inr (w, st2)"
      unfolding st2_def using b x
      by (intro restorableD [OF v level_Suc(2) [OF e] take(2)])
        (simp add: st1_def st0_def consume_visited redacted_element_def)
    have "st2\<lparr>rs_disclosed := Suc (rs_disclosed st2)\<rparr> =
        consume h (x # newv) (items_of v + new_items newv) st0"
      using take_counts(1) [of x h newv "items_of v + new_items newv" st0] x
      by (simp add: st2_def st1_def Let_def)
    also have "\<dots> = consume h (x # newv)
        (items_of (redacted_element (redacted_hash x h)) + new_items (x # newv)) st"
      unfolding st0_def consume_append using x by (simp add: redacted_element_def)
    finally show "restore_items renv (redacted_element (redacted_hash x h) # vs) st e =
        andThen (restore_items renv vs (consume h (x # newv)
          (items_of (redacted_element (redacted_hash x h)) + new_items (x # newv)) st) e)
          (\<lambda>(output, st). Inr ([w] @ output, st))"
      using visits take(1) val x by (simp add: redacted_element_def)
  qed
  then show ?thesis by simp
qed

lemma restorable_items_Decoy:
  assumes fit: "fits il renv" and d: "Suc (Suc d) \<le> max_depth il"
    and vs: "restorable_items renv h d vs new ws" and x: "d_kind x = Decoy s"
  shows "restorable_items renv h d (redacted_element (redacted_hash x h) # vs) (x # new) ws"
proof -
  have "restorable_items renv h d (redacted_element (redacted_hash x h) # vs) ([x] @ new) ([] @ ws)"
    using vs
  proof (rule restorable_items_step)
    fix st :: restore_state and e
    assume e: "level e d" and p: "provides h st [x]"
      and b: "rs_visited st + items_of (redacted_element (redacted_hash x h)) + new_items [x]
        \<le> max_items (re_limits renv)"
    define st0 where "st0 = consume h [] (Suc (Suc 0)) st"
    have p0: "provides h st0 [x]" using p by (simp add: st0_def)
    have visits: "rs_enter renv (Suc e) st = Inr (consume h [] 1 st)"
      "rs_enter renv (Suc (Suc e)) (consume h [] 1 st) = Inr st0"
      unfolding st0_def using b
      by (intro redacted_element_visits [OF fit d e]; simp add: redacted_element_def)+
    have "st0\<lparr>rs_pending := rs_pending (consume h [x] 0 st0), rs_decoys := Suc (rs_decoys st0)\<rparr> =
        consume h [x] 0 st0"
      using take_counts(2) [of x h st0] x by (simp add: Let_def)
    also have "\<dots> = consume h [x] (items_of (redacted_element (redacted_hash x h)) + new_items [x]) st"
      unfolding st0_def consume_append using x by (simp add: redacted_element_def)
    finally show "restore_items renv (redacted_element (redacted_hash x h) # vs) st e =
        andThen (restore_items renv vs (consume h [x]
          (items_of (redacted_element (redacted_hash x h)) + new_items [x]) st) e)
          (\<lambda>(output, st). Inr ([] @ output, st))"
      using visits take_provided(1) [OF p0] x by (simp add: redacted_element_def)
  qed
  then show ?thesis by simp
qed

lemma restorable_array:
  assumes fit: "fits il renv" and d: "d \<le> max_depth il" and c: "length vs \<le> max_container_entries il"
    and vs: "restorable_items renv h d vs new ws"
  shows "restorable renv h d (VArray vs) new (VArray ws)"
  unfolding restorable_def
proof (intro allI impI)
  fix st :: restore_state and e
  assume e: "level e d" and p: "provides h st new"
    and b: "rs_visited st + items_of (VArray vs) + new_items new \<le> max_items (re_limits renv)"
  have enter: "rs_enter renv (e + 0) st = Inr (consume h [] 1 st)"
    using b by (intro rs_enter_fits [OF fit e]) (use d in simp_all)
  have "restore_items renv vs (consume h [] 1 st) e =
      Inr (ws, consume h new (sum_list (map items_of vs) + new_items new) (consume h [] 1 st))"
    using vs e p b unfolding restorable_items_def by (simp add: consume_visited)
  moreover have "tb_container (re_limits renv) (length vs) = Inr ()"
    using fit c by (simp add: guards fits_def)
  ultimately show "restore_value renv (VArray vs) st e =
      Inr (VArray ws, consume h new (items_of (VArray vs) + new_items new) st)"
    using enter by (simp add: restore_value.simps [of renv "VArray vs"] consume_append)
qed

text \<open>The hashes of a map are read before any is resolved.\<close>

lemma read_hashes_ok:
  assumes fit: "fits il renv" and e: "level e d" and d: "Suc (Suc d) \<le> max_depth il"
    and b: "rs_visited st + length hs \<le> max_items (re_limits renv)"
  shows "read_hashes renv (map VBytes hs) st (Suc (Suc e)) = Inr (hs, consume h [] (length hs) st)"
  using b
proof (induction hs arbitrary: st)
  case Nil
  then show ?case by (simp add: consume_nil)
next
  case (Cons x hs)
  have "rs_enter renv (e + 2) st = Inr (consume h [] 1 st)"
    using Cons.prems d by (intro rs_enter_fits [OF fit e]) simp_all
  moreover have "read_hashes renv (map VBytes hs) (consume h [] 1 st) (Suc (Suc e)) =
      Inr (hs, consume h [] (length hs) (consume h [] 1 st))"
    using Cons.prems by (intro Cons.IH) (simp add: consume_visited)
  ultimately show ?case by (simp add: consume_append)
qed

lemma restorable_map:
  assumes fit: "fits il renv" and d: "d \<le> max_depth il"
    and len: "length es + (if hs = [] then 0 else 1) \<le> max_container_entries il"
    and hlen: "length hs \<le> max_container_entries il"
    and hd: "hs \<noteq> [] \<Longrightarrow> Suc (Suc d) \<le> max_depth il"
    and es: "restorable_entries renv h d ls es new ws"
    and hashes: "restorable_hashes renv h d ms hs newh wh"
    and fresh: "fresh_labels (ls @ ms) {}"
  shows "restorable renv h d
    (VMap (if hs = [] then es else es @ [(redacted_claim_keys_label, VArray (map VBytes hs))]))
    (new @ newh) (VMap (ws @ wh))"
  unfolding restorable_def
proof (intro allI impI)
  fix st :: restore_state and e
  let ?tail = "if hs = [] then [] else [(redacted_claim_keys_label, VArray (map VBytes hs))]"
  let ?cost = "if hs = [] then 0 else Suc (Suc (length hs))"
  let ?map = "VMap (if hs = [] then es else es @ [(redacted_claim_keys_label, VArray (map VBytes hs))])"
  have map: "?map = VMap (es @ ?tail)" by simp
  have hash_items: "sum_list (map (items_of \<circ> VBytes) hs) = length hs"
    by (induction hs) simp_all
  have keys: "map fst es = map value_of_label ls" using es by (simp add: restorable_entries_def)
  have label_items: "items_of (value_of_label l) = 1" for l by (cases l) simp_all
  have "\<forall>(k, v) \<in> set es. items_of k = 1"
    using arg_cong [OF keys, of set] label_items by force
  then have "sum_list (map (\<lambda>(k, v). items_of k + items_of v) es) = entry_items es"
    unfolding entry_items_def by (intro arg_cong [of _ _ sum_list] map_cong) auto
  then have items: "items_of ?map = Suc (entry_items es + ?cost)"
    by (simp add: redacted_claim_keys_label_def hash_items)
  assume e: "level e d" and p: "provides h st (new @ newh)"
    and b: "rs_visited st + items_of ?map + new_items (new @ newh) \<le> max_items (re_limits renv)"
  define st1 where "st1 = consume h [] 1 st"
  define st2 where "st2 = consume h new (entry_items es + new_items new) st1"
  define st3 where "st3 = consume h [] ?cost st2"
  have enter: "rs_enter renv (e + 0) st = Inr st1"
    unfolding st1_def using b items by (intro rs_enter_fits [OF fit e]) (use d in simp_all)
  have first: "restore_entries renv (es @ ?tail) {} False st1 e =
      andThen (restore_entries renv ?tail (set ls) False st2 e)
        (\<lambda>(output, more, keys, st). Inr (ws @ output, more, keys, st))"
    using es e b items provides_appendD(1) [OF p] fresh
    unfolding restorable_entries_def st2_def st1_def fresh_labels_append by (simp add: consume_visited)
  have tail: "restore_entries renv ?tail (set ls) False st2 e = Inr ([], hs, set ls, st3)"
  proof (cases "hs = []")
    case True
    then show ?thesis by (simp add: st3_def consume_nil)
  next
    case False
    have b2: "rs_visited st2 + Suc (Suc (length hs)) \<le> max_items (re_limits renv)"
      using b items False by (simp add: st2_def st1_def consume_visited)
    have key: "rs_enter renv (e + 1) st2 = Inr (consume h [] 1 st2)"
      using b2 hd [OF False] by (intro rs_enter_fits [OF fit e]) simp_all
    have array: "rs_enter renv (e + 1) (consume h [] 1 st2) = Inr (consume h [] (Suc (Suc 0)) st2)"
      using b2 hd [OF False] rs_enter_fits [OF fit e, of 1 "consume h [] 1 st2" h]
      by (simp add: consume_visited consume_append)
    have "read_hashes renv (map VBytes hs) (consume h [] (Suc (Suc 0)) st2) (Suc (Suc e)) =
        Inr (hs, consume h [] (length hs) (consume h [] (Suc (Suc 0)) st2))"
      using b2 by (intro read_hashes_ok [OF fit e hd [OF False]]) (simp add: consume_visited)
    moreover have "tb_container (re_limits renv) (length hs) = Inr ()"
      using fit hlen by (simp add: guards fits_def)
    ultimately show ?thesis
      using key array False by (simp add: redacted_claim_keys_label_def st3_def consume_append)
  qed
  have st3: "st3 = consume h new (Suc (entry_items es + ?cost) + new_items new) st"
    unfolding st3_def st2_def st1_def consume_append by (simp add: ac_simps)
  have p3: "provides h st3 newh" unfolding st3 by (rule provides_appendD(2) [OF p])
  have second: "restore_hashes renv hs (set ls) st3 e = Inr (wh, [], consume h newh (new_items newh) st3)"
    using hashes e p3 b items fresh
    unfolding restorable_hashes_def st3 fresh_labels_append by (simp add: consume_visited)
  have "tb_container (re_limits renv) (length (es @ ?tail)) = Inr ()"
    using fit len by (auto simp: guards fits_def)
  then have "restore_value renv (VMap (es @ ?tail)) st e =
      Inr (VMap (ws @ wh), consume h newh (new_items newh) st3)"
    using enter first tail second by (simp add: restore_value.simps [of renv "VMap (es @ ?tail)"])
  also have "consume h newh (new_items newh) st3 =
      consume h (new @ newh) (items_of ?map + new_items (new @ newh)) st"
    unfolding st3 items consume_append by (simp add: ac_simps)
  finally show "restore_value renv ?map st e =
      Inr (VMap (ws @ wh), consume h (new @ newh) (items_of ?map + new_items (new @ newh)) st)"
    by (simp only: map)
qed

section \<open>Successful steps of issuance\<close>

lemma issue_valueE:
  assumes "issue_value env v c d = Inr (v', c')"
  obtains (map) es c1 out hvs where "v = VMap es" and "ic_enter env d c = Inr c1"
    and "length es \<le> max_container_entries (ie_limits env)"
    and "issue_entries env es {} c1 d = Inr (out, hvs, c')"
    and "v' = VMap (if hvs = [] then out else out @ [(redacted_claim_keys_label, VArray hvs)])"
  | (array) vs c1 out where "v = VArray vs" and "ic_enter env d c = Inr c1"
    and "length vs \<le> max_container_entries (ie_limits env)"
    and "issue_items env vs c1 d = Inr (out, c')" and "v' = VArray out"
  | (tag) t u c1 w where "v = VTag t u" and "ic_enter env d c = Inr c1" and "\<not> is_sd_tag t"
    and "issue_value env u c1 (Suc d) = Inr (w, c')" and "v' = VTag t w"
  | (leaf) "ic_enter env d c = Inr c'" and "v' = v"
  using assms [unfolded issue_value.simps [of env v]]
  by (cases v) (auto simp: andThen_eq_Inr guards split: if_splits)

lemma issue_itemsE:
  assumes "issue_items env (v # vs) c d = Inr (out, c')"
  obtains (mark) inner c1 issued c2 s c3 hash c4 out' where
    "v = VTag TO_BE_REDACTED_TAG inner" and "ic_enter env (Suc d) c = Inr c1"
    and "issue_value env inner c1 (Suc (Suc d)) = Inr (issued, c2)"
    and "ic_next_salt env c2 = Inr (s, c3)" and "add_disclosure env (Element s issued) c3 = Inr (hash, c4)"
    and "issue_items env vs c4 d = Inr (out', c')" and "out = redacted_element hash # out'"
  | (decoy) inner c1 c2 c3 s c4 hash c5 out' where
    "v = VTag TO_BE_DECOY_TAG inner" and "ic_enter env (Suc d) c = Inr c1"
    and "ic_enter env (Suc (Suc d)) c1 = Inr c2" and "record_decoy_id inner c2 = Inr c3"
    and "ic_next_salt env c3 = Inr (s, c4)" and "add_disclosure env (Decoy s) c4 = Inr (hash, c5)"
    and "issue_items env vs c5 d = Inr (out', c')" and "out = redacted_element hash # out'"
  | (plain) w c1 out' where
    "\<not> is_mark v" and "issue_value env v c (Suc d) = Inr (w, c1)"
    and "issue_items env vs c1 d = Inr (out', c')" and "out = w # out'"
proof -
  consider (m) inner where "v = VTag TO_BE_REDACTED_TAG inner"
    | (d) inner where "v = VTag TO_BE_DECOY_TAG inner" | (p) "\<not> is_mark v"
    by (cases v) auto
  then show ?thesis
  proof cases
    case m
    then show ?thesis using assms by (auto simp: andThen_eq_Inr intro: mark)
  next
    case d
    then show ?thesis using assms by (auto simp: andThen_eq_Inr intro: decoy)
  next
    case p
    then have "issue_items env (v # vs) c d =
        andThen (issue_value env v c (Suc d)) (\<lambda>(w, c1).
        andThen (issue_items env vs c1 d) (\<lambda>(output, c). Inr (w # output, c)))"
      by (cases v) simp_all
    then show ?thesis using assms p by (auto simp: andThen_eq_Inr intro: plain)
  qed
qed

lemma issue_entriesE:
  assumes "issue_entries env ((k, v) # es) keys c d = Inr (out, hvs, c')"
  obtains (mark) inner c1 c2 l keys1 issued c3 s c4 hash c5 hvs1 where
    "k = VTag TO_BE_REDACTED_TAG inner" and "ic_enter env (Suc d) c = Inr c1"
    and "ic_enter env (Suc (Suc d)) c1 = Inr c2" and "sd_label_from_value inner = Inr l"
    and "d = 0 \<Longrightarrow> validate_root_disclosure_key l = Inr ()"
    and "insert_normalized_key (ie_cbor env) (value_of_label l) keys = Inr keys1"
    and "issue_value env v c2 (Suc d) = Inr (issued, c3)"
    and "ic_next_salt env c3 = Inr (s, c4)" and "add_disclosure env (Claim s l issued) c4 = Inr (hash, c5)"
    and "issue_entries env es keys1 c5 d = Inr (out, hvs1, c')" and "hvs = VBytes hash # hvs1"
  | (decoy) inner c1 c2 keys1 c3 c4 s c5 hash c6 hvs1 where
    "k = VTag TO_BE_DECOY_TAG inner" and "ic_enter env (Suc d) c = Inr c1"
    and "ic_enter env (Suc (Suc d)) c1 = Inr c2"
    and "insert_normalized_key (ie_cbor env) k keys = Inr keys1"
    and "record_decoy_id inner c2 = Inr c3" and "ic_enter env (Suc d) c3 = Inr c4"
    and "ic_next_salt env c4 = Inr (s, c5)" and "add_disclosure env (Decoy s) c5 = Inr (hash, c6)"
    and "issue_entries env es keys1 c6 d = Inr (out, hvs1, c')" and "hvs = VBytes hash # hvs1"
  | (plain) c1 l keys1 w c2 out1 where
    "\<not> is_mark k" and "ic_enter env (Suc d) c = Inr c1" and "sd_label_from_value k = Inr l"
    and "insert_normalized_key (ie_cbor env) k keys = Inr keys1"
    and "issue_value env v c1 (Suc d) = Inr (w, c2)"
    and "issue_entries env es keys1 c2 d = Inr (out1, hvs, c')" and "out = (k, w) # out1"
proof -
  consider (m) inner where "k = VTag TO_BE_REDACTED_TAG inner"
    | (d) inner where "k = VTag TO_BE_DECOY_TAG inner" | (p) "\<not> is_mark k"
    by (cases k) auto
  then show ?thesis
  proof cases
    case m
    then show ?thesis using assms by (auto simp: andThen_eq_Inr split: if_splits intro: mark)
  next
    case d
    then show ?thesis using assms by (auto simp: andThen_eq_Inr split: if_splits intro: decoy)
  next
    case p
    then have "issue_entries env ((k, v) # es) keys c d =
        andThen (ic_enter env (Suc d) c) (\<lambda>c.
        if is_redacted_claim_keys_label k
        then Inl (Custom ''pre-issuance map must not already contain simple(59)'')
        else
          andThen (ensure_preissuance_key k) (\<lambda>_.
          andThen (insert_normalized_key (ie_cbor env) k keys) (\<lambda>keys.
          andThen (issue_value env v c (Suc d)) (\<lambda>(w, c).
          andThen (issue_entries env es keys c d) (\<lambda>(output, hashes, c).
          Inr ((k, w) # output, hashes, c))))))"
      by (cases k) (simp_all cong del: if_weak_cong)
    then show ?thesis
      using assms p
      by (auto simp: andThen_eq_Inr ensure_preissuance_key_def map_ok_eq split: if_splits intro: plain)
  qed
qed

section \<open>What issuance creates\<close>

lemma ic_enter_ok:
  "ic_enter env d c = Inr c' \<Longrightarrow> d \<le> max_depth (ie_limits env) \<and> ic_disclosures c' = ic_disclosures c"
  by (auto simp: ic_enter_def result_simps guards)

lemma ic_next_salt_ok: "ic_next_salt env c = Inr (s, c') \<Longrightarrow> ic_disclosures c' = ic_disclosures c"
  by (auto simp: ic_next_salt_def split: prod.splits sum.splits if_splits)

lemma record_decoy_id_ok: "record_decoy_id v c = Inr c' \<Longrightarrow> ic_disclosures c' = ic_disclosures c"
  by (cases v) (auto simp: record_decoy_id_def result_simps split: if_splits)

lemma add_disclosure_ok:
  "add_disclosure env k c = Inr (hash, c') \<Longrightarrow>
     \<exists>x. d_kind x = k \<and> hash = redacted_hash x (ie_hasher env) \<and> ic_disclosures c' = ic_disclosures c @ [x]"
  by (auto simp: add_disclosure_def from_kind_with_limits_def Let_def result_simps split: if_splits)

lemma issue_value_depth: "issue_value env v c d = Inr (v', c') \<Longrightarrow> d \<le> max_depth (ie_limits env)"
  by (auto simp: issue_value.simps [of env v] andThen_eq_Inr dest: ic_enter_ok)

text \<open>Sealing a part: a salt, then the disclosure made with it.\<close>

lemma sealed:
  assumes "ic_next_salt env c = Inr (s, c1)" and "add_disclosure env k c1 = Inr (hash, c')"
  obtains x where "d_kind x = k" and "hash = redacted_hash x (ie_hasher env)"
    and "mset (ic_disclosures c') = add_mset x (mset (ic_disclosures c))"
  using assms add_disclosure_ok [of env k c1 hash c'] ic_next_salt_ok [of env c s c1] by auto

text \<open>\<open>good\<close>: whatever is issued for the value can be restored to what it reveals.\<close>

definition good :: "'g issue_env \<Rightarrow> restore_env \<Rightarrow> value \<Rightarrow> bool" where
  "good env renv v \<longleftrightarrow> (\<forall>c d v' c'. issue_value env v c d = Inr (v', c') \<longrightarrow>
     \<not> is_redacted_element v' \<and>
     (\<exists>new. mset (ic_disclosures c') = mset (ic_disclosures c) + mset new \<and>
        restorable renv (ie_hasher env) d v' new (reveal v)))"

lemma goodD:
  assumes "good env renv v" and "issue_value env v c d = Inr (v', c')"
  obtains new where "\<not> is_redacted_element v'"
    and "mset (ic_disclosures c') = mset (ic_disclosures c) + mset new"
    and "restorable renv (ie_hasher env) d v' new (reveal v)"
  using assms unfolding good_def by blast

lemma good_items:
  assumes fit: "fits (ie_limits env) renv"
    and parts: "\<And>v. v \<in> set vs \<Longrightarrow> good env renv v"
    and marked: "\<And>t v. VTag t v \<in> set vs \<Longrightarrow> good env renv v"
    and issue: "issue_items env vs c d = Inr (out, c')"
  shows "length out = length vs \<and> (\<exists>new. mset (ic_disclosures c') = mset (ic_disclosures c) + mset new \<and>
    restorable_items renv (ie_hasher env) d out new (reveal_items vs))"
  using parts marked issue
proof (induction vs arbitrary: c out)
  case Nil
  then show ?case using restorable_items_Nil by (auto intro: exI [of _ "[]"])
next
  case (Cons v vs)
  let ?h = "ie_hasher env"
  have IH: "length out2 = length vs \<and> (\<exists>new. mset (ic_disclosures c') = mset (ic_disclosures c1) + mset new \<and>
      restorable_items renv ?h d out2 new (reveal_items vs))"
    if "issue_items env vs c1 d = Inr (out2, c')" for c1 out2
    by (rule Cons.IH [OF _ _ that]) (auto intro: Cons.prems(1,2))
  from Cons.prems(3) show ?case
  proof (cases rule: issue_itemsE)
    case (mark inner c1 issued c2 s c3 hash c4 out')
    from IH [OF mark(6)] obtain new where IH: "length out' = length vs"
      "mset (ic_disclosures c') = mset (ic_disclosures c4) + mset new"
      "restorable_items renv ?h d out' new (reveal_items vs)" by blast
    have g: "good env renv inner" by (rule Cons.prems(2) [of TO_BE_REDACTED_TAG]) (simp add: mark(1))
    obtain newv where newv: "mset (ic_disclosures c2) = mset (ic_disclosures c1) + mset newv"
      "restorable renv ?h (Suc (Suc d)) issued newv (reveal inner)"
      by (rule goodD [OF g mark(3)])
    obtain x where x: "d_kind x = Element s issued" "hash = redacted_hash x ?h"
      "mset (ic_disclosures c4) = add_mset x (mset (ic_disclosures c2))"
      using sealed [OF mark(4,5)] by blast
    have "restorable_items renv ?h d out (x # newv @ new) (reveal_items (v # vs))"
      using restorable_items_Element [OF fit _ IH(3) newv(2) x(1)] issue_value_depth [OF mark(3)]
      by (simp add: mark(1,7) x(2))
    moreover have "mset (ic_disclosures c') = mset (ic_disclosures c) + mset (x # newv @ new)"
      using IH(2) x(3) newv(1) ic_enter_ok [OF mark(2)] by simp
    moreover have "length out = length (v # vs)" by (simp add: mark(7) IH(1))
    ultimately show ?thesis by blast
  next
    case (decoy inner c1 c2 c3 s c4 hash c5 out')
    from IH [OF decoy(7)] obtain new where IH: "length out' = length vs"
      "mset (ic_disclosures c') = mset (ic_disclosures c5) + mset new"
      "restorable_items renv ?h d out' new (reveal_items vs)" by blast
    obtain x where x: "d_kind x = Decoy s" "hash = redacted_hash x ?h"
      "mset (ic_disclosures c5) = add_mset x (mset (ic_disclosures c3))"
      using sealed [OF decoy(5,6)] by blast
    have "restorable_items renv ?h d out (x # new) (reveal_items (v # vs))"
      using restorable_items_Decoy [OF fit _ IH(3) x(1)] ic_enter_ok [OF decoy(3)]
      by (simp add: decoy(1,8) x(2))
    moreover have "mset (ic_disclosures c') = mset (ic_disclosures c) + mset (x # new)"
      using IH(2) x(3) record_decoy_id_ok [OF decoy(4)] ic_enter_ok [OF decoy(2)] ic_enter_ok [OF decoy(3)]
      by simp
    moreover have "length out = length (v # vs)" by (simp add: decoy(8) IH(1))
    ultimately show ?thesis by blast
  next
    case (plain w c1 out')
    from IH [OF plain(3)] obtain new where IH: "length out' = length vs"
      "mset (ic_disclosures c') = mset (ic_disclosures c1) + mset new"
      "restorable_items renv ?h d out' new (reveal_items vs)" by blast
    have g: "good env renv v" using Cons.prems(1) by simp
    obtain newv where newv: "\<not> is_redacted_element w"
      "mset (ic_disclosures c1) = mset (ic_disclosures c) + mset newv"
      "restorable renv ?h (Suc d) w newv (reveal v)"
      by (rule goodD [OF g plain(2)])
    have "restorable_items renv ?h d out (newv @ new) (reveal_items (v # vs))"
      using restorable_items_plain [OF IH(3) newv(3,1)] by (simp add: plain(1,4))
    moreover have "mset (ic_disclosures c') = mset (ic_disclosures c) + mset (newv @ new)"
      using IH(2) newv(2) by simp
    moreover have "length out = length (v # vs)" by (simp add: plain(4) IH(1))
    ultimately show ?thesis by blast
  qed
qed

text \<open>
  What \<open>issue_entries\<close> returns: plain entries with labels \<open>ls\<close> and hashes of claims with
  labels \<open>ms\<close> (a decoy has none), all labels different from each other and from the keys
  met before.
\<close>

definition new_labels :: "cbor2 \<Rightarrow> bytes set \<Rightarrow> label list \<Rightarrow> bool" where
  "new_labels cb keys ls \<longleftrightarrow> distinct ls \<and>
     (\<forall>l \<in> set ls. sd_label_from_value (value_of_label l) = Inr l \<and>
        (\<exists>b. cbor_to_canonical_vec cb (value_of_label l) = Inr b \<and> b \<notin> keys))"

lemma new_labels_Cons:
  assumes "insert_normalized_key cb (value_of_label l) keys = Inr keys'"
    and "sd_label_from_value (value_of_label l) = Inr l" and "new_labels cb keys' ls"
  shows "new_labels cb keys (l # ls)"
  using assms
  by (auto simp: new_labels_def insert_normalized_key_def andThen_eq_Inr split: if_splits)

lemma new_labels_mono: "keys \<subseteq> keys' \<Longrightarrow> new_labels cb keys' ls \<Longrightarrow> new_labels cb keys ls"
  unfolding new_labels_def by blast

lemma new_labels_perm: "mset ls = mset ms \<Longrightarrow> new_labels cb keys ls = new_labels cb keys ms"
  unfolding new_labels_def by (metis mset_eq_imp_distinct_iff set_mset_mset)

lemma insert_normalized_key_mono: "insert_normalized_key cb k keys = Inr keys' \<Longrightarrow> keys \<subseteq> keys'"
  by (auto simp: insert_normalized_key_def andThen_eq_Inr split: if_splits)

definition entries_result ::
  "'g issue_env \<Rightarrow> restore_env \<Rightarrow> (value \<times> value) list \<Rightarrow> bytes set \<Rightarrow> 'g issue_context \<Rightarrow> nat \<Rightarrow>
     (value \<times> value) list \<Rightarrow> value list \<Rightarrow> 'g issue_context \<Rightarrow> bool" where
  "entries_result env renv es keys c d out hvs c' \<longleftrightarrow> (\<exists>ls ms hs new newh.
     hvs = map VBytes hs \<and> length out + length hs = length es \<and>
     (hs \<noteq> [] \<longrightarrow> Suc (Suc d) \<le> max_depth (ie_limits env)) \<and>
     mset (ic_disclosures c') = mset (ic_disclosures c) + mset (new @ newh) \<and>
     new_labels (ie_cbor env) keys (ls @ ms) \<and>
     restorable_entries renv (ie_hasher env) d ls out new (reveal_plain es) \<and>
     restorable_hashes renv (ie_hasher env) d ms hs newh (reveal_marked es))"

lemma good_entries:
  assumes fit: "fits (ie_limits env) renv"
    and parts: "\<And>k v. (k, v) \<in> set es \<Longrightarrow> good env renv v"
    and issue: "issue_entries env es keys c d = Inr (out, hvs, c')"
  shows "entries_result env renv es keys c d out hvs c'"
  using parts issue
proof (induction es arbitrary: keys c out hvs)
  case Nil
  then show ?case
    unfolding entries_result_def
    by (intro exI [of _ "[]"])
      (auto simp: new_labels_def restorable_entries_Nil restorable_hashes_Nil intro!: exI [of _ "[]"])
next
  case (Cons e es)
  let ?h = "ie_hasher env"
  obtain k v where kv: "e = (k, v)" by (cases e)
  have g: "good env renv v" using Cons.prems(1) [of k v] by (simp add: kv)
  have IH: "issue_entries env es keys c d = Inr (out, hvs, c') \<Longrightarrow> entries_result env renv es keys c d out hvs c'"
    for keys c out hvs
    using Cons.IH Cons.prems(1) by (meson list.set_intros(2))
  from Cons.prems(2) [unfolded kv] show ?case
  proof (cases rule: issue_entriesE)
    case (mark inner c1 c2 l keys1 issued c3 s c4 hash c5 hvs1)
    have inner: "inner = value_of_label l" by (rule sd_label_from_value_ok [OF mark(4)])
    obtain newv where newv: "mset (ic_disclosures c3) = mset (ic_disclosures c2) + mset newv"
      "restorable renv ?h (Suc d) issued newv (reveal v)"
      by (rule goodD [OF g mark(7)])
    obtain x where x: "d_kind x = Claim s l issued" "hash = redacted_hash x ?h"
      "mset (ic_disclosures c5) = add_mset x (mset (ic_disclosures c3))"
      using sealed [OF mark(8,9)] by blast
    from IH [OF mark(10)] obtain ls ms hs new newh where
      r: "hvs1 = map VBytes hs" "length out + length hs = length es"
      "mset (ic_disclosures c') = mset (ic_disclosures c5) + mset (new @ newh)"
      "new_labels (ie_cbor env) keys1 (ls @ ms)"
      "restorable_entries renv ?h d ls out new (reveal_plain es)"
      "restorable_hashes renv ?h d ms hs newh (reveal_marked es)"
      unfolding entries_result_def by blast
    have "restorable_hashes renv ?h d (l # ms) (hash # hs) (x # newv @ newh) (reveal_marked (e # es))"
      using restorable_hashes_Claim [OF newv(2) r(6) x(1) mark(5)] by (simp add: kv mark(1) inner x(2))
    moreover have "mset (ls @ l # ms) = mset (l # ls @ ms)" by simp
    then have "new_labels (ie_cbor env) keys (ls @ l # ms)"
      using new_labels_Cons [OF mark(6) _ r(4)] mark(4) inner new_labels_perm by metis
    moreover have "mset (ic_disclosures c') = mset (ic_disclosures c) + mset (new @ x # newv @ newh)"
      using r(3) x(3) newv(1) ic_enter_ok [OF mark(2)] ic_enter_ok [OF mark(3)] by simp
    moreover have "restorable_entries renv ?h d ls out new (reveal_plain (e # es))"
      using r(5) by (simp add: kv mark(1))
    moreover have "hvs = map VBytes (hash # hs)" "length out + length (hash # hs) = length (e # es)"
      using r(1,2) mark(11) by simp_all
    ultimately show ?thesis
      unfolding entries_result_def using ic_enter_ok [OF mark(3)] by blast
  next
    case (decoy inner c1 c2 keys1 c3 c4 s c5 hash c6 hvs1)
    obtain x where x: "d_kind x = Decoy s" "hash = redacted_hash x ?h"
      "mset (ic_disclosures c6) = add_mset x (mset (ic_disclosures c4))"
      using sealed [OF decoy(7,8)] by blast
    from IH [OF decoy(9)] obtain ls ms hs new newh where
      r: "hvs1 = map VBytes hs" "length out + length hs = length es"
      "mset (ic_disclosures c') = mset (ic_disclosures c6) + mset (new @ newh)"
      "new_labels (ie_cbor env) keys1 (ls @ ms)"
      "restorable_entries renv ?h d ls out new (reveal_plain es)"
      "restorable_hashes renv ?h d ms hs newh (reveal_marked es)"
      unfolding entries_result_def by blast
    have "restorable_hashes renv ?h d ms (hash # hs) (x # newh) (reveal_marked (e # es))"
      using restorable_hashes_Decoy [OF r(6) x(1)] by (simp add: kv decoy(1) x(2))
    moreover have "new_labels (ie_cbor env) keys (ls @ ms)"
      by (rule new_labels_mono [OF insert_normalized_key_mono [OF decoy(4)] r(4)])
    moreover have "mset (ic_disclosures c') = mset (ic_disclosures c) + mset (new @ x # newh)"
      using r(3) x(3) ic_enter_ok [OF decoy(2)] ic_enter_ok [OF decoy(3)] ic_enter_ok [OF decoy(6)]
        record_decoy_id_ok [OF decoy(5)] by simp
    moreover have "restorable_entries renv ?h d ls out new (reveal_plain (e # es))"
      using r(5) by (simp add: kv decoy(1))
    moreover have "hvs = map VBytes (hash # hs)" "length out + length (hash # hs) = length (e # es)"
      using r(1,2) decoy(10) by simp_all
    ultimately show ?thesis
      unfolding entries_result_def using ic_enter_ok [OF decoy(3)] by blast
  next
    case (plain c1 l keys1 w c2 out1)
    have k: "k = value_of_label l" by (rule sd_label_from_value_ok [OF plain(3)])
    obtain newv where newv: "mset (ic_disclosures c2) = mset (ic_disclosures c1) + mset newv"
      "restorable renv ?h (Suc d) w newv (reveal v)"
      by (rule goodD [OF g plain(5)])
    from IH [OF plain(6)] obtain ls ms hs new newh where
      r: "hvs = map VBytes hs" "length out1 + length hs = length es"
      "mset (ic_disclosures c') = mset (ic_disclosures c2) + mset (new @ newh)"
      "new_labels (ie_cbor env) keys1 (ls @ ms)"
      "restorable_entries renv ?h d ls out1 new (reveal_plain es)"
      "restorable_hashes renv ?h d ms hs newh (reveal_marked es)"
      "hs \<noteq> [] \<longrightarrow> Suc (Suc d) \<le> max_depth (ie_limits env)"
      unfolding entries_result_def by blast
    have "restorable_entries renv ?h d (l # ls) out (newv @ new) (reveal_plain (e # es))"
      using restorable_entries_Cons [OF fit _ newv(2) r(5)] ic_enter_ok [OF plain(2)] plain(1)
      by (simp add: kv plain(7) k)
    moreover have "new_labels (ie_cbor env) keys ((l # ls) @ ms)"
      using new_labels_Cons [OF plain(4) [unfolded k] _ r(4)] plain(3) k by simp
    moreover have "mset (ic_disclosures c') = mset (ic_disclosures c) + mset ((newv @ new) @ newh)"
      using r(3) newv(1) ic_enter_ok [OF plain(2)] by simp
    moreover have "restorable_hashes renv ?h d ms hs newh (reveal_marked (e # es))"
      using r(6) plain(1) by (simp add: kv)
    moreover have "length out + length hs = length (e # es)" using r(2) plain(7) by simp
    ultimately show ?thesis unfolding entries_result_def using r(1,7) by blast
  qed
qed

lemma new_labels_fresh: "new_labels cb keys ls \<Longrightarrow> fresh_labels ls {}"
  by (auto simp: new_labels_def fresh_labels_def)

lemma good_map:
  assumes fit: "fits (ie_limits env) renv" and parts: "\<And>k v. (k, v) \<in> set es \<Longrightarrow> good env renv v"
  shows "good env renv (VMap es)"
  unfolding good_def
proof (intro allI impI)
  fix c d v' c'
  assume "issue_value env (VMap es) c d = Inr (v', c')"
  then obtain c1 out hvs where
    e: "ic_enter env d c = Inr c1" and len: "length es \<le> max_container_entries (ie_limits env)"
    and i: "issue_entries env es {} c1 d = Inr (out, hvs, c')"
    and v': "v' = VMap (if hvs = [] then out else out @ [(redacted_claim_keys_label, VArray hvs)])"
    by (auto simp: issue_value.simps [of env "VMap es"] andThen_eq_Inr guards)
  have "entries_result env renv es {} c1 d out hvs c'"
    by (rule good_entries [OF fit _ i]) (rule parts)
  then obtain ls ms hs new newh where
    r: "hvs = map VBytes hs" "length out + length hs = length es"
    "hs \<noteq> [] \<longrightarrow> Suc (Suc d) \<le> max_depth (ie_limits env)"
    "mset (ic_disclosures c') = mset (ic_disclosures c1) + mset (new @ newh)"
    "new_labels (ie_cbor env) {} (ls @ ms)"
    "restorable_entries renv (ie_hasher env) d ls out new (reveal_plain es)"
    "restorable_hashes renv (ie_hasher env) d ms hs newh (reveal_marked es)"
    unfolding entries_result_def by blast
  have "length out + (if hs = [] then 0 else 1) \<le> max_container_entries (ie_limits env)"
    "length hs \<le> max_container_entries (ie_limits env)"
    using r(2) len by (cases hs; simp)+
  from restorable_map [OF fit _ this _ r(6,7) new_labels_fresh [OF r(5)]] r(3) ic_enter_ok [OF e]
  have "restorable renv (ie_hasher env) d v' (new @ newh) (reveal (VMap es))"
    by (cases "hs = []") (simp_all add: v' r(1) reveal_map)
  then show "\<not> is_redacted_element v' \<and>
      (\<exists>new. mset (ic_disclosures c') = mset (ic_disclosures c) + mset new \<and>
        restorable renv (ie_hasher env) d v' new (reveal (VMap es)))"
    using r(4) ic_enter_ok [OF e] v' by (metis is_redacted_element.simps(2-) mset_append)
qed

lemma good_array:
  assumes fit: "fits (ie_limits env) renv" and parts: "\<And>v. v \<in> set vs \<Longrightarrow> good env renv v"
    and marked: "\<And>t v. VTag t v \<in> set vs \<Longrightarrow> good env renv v"
  shows "good env renv (VArray vs)"
  unfolding good_def
proof (intro allI impI)
  fix c d v' c'
  assume "issue_value env (VArray vs) c d = Inr (v', c')"
  then obtain c1 out where
    e: "ic_enter env d c = Inr c1" and len: "length vs \<le> max_container_entries (ie_limits env)"
    and i: "issue_items env vs c1 d = Inr (out, c')" and v': "v' = VArray out"
    by (auto simp: issue_value.simps [of env "VArray vs"] andThen_eq_Inr guards)
  have "length out = length vs \<and> (\<exists>new. mset (ic_disclosures c') = mset (ic_disclosures c1) + mset new \<and>
      restorable_items renv (ie_hasher env) d out new (reveal_items vs))"
    by (rule good_items [OF fit _ _ i]) (rule parts marked, assumption)+
  then obtain new where
    r: "length out = length vs" "mset (ic_disclosures c') = mset (ic_disclosures c1) + mset new"
    "restorable_items renv (ie_hasher env) d out new (reveal_items vs)" by blast
  have "restorable renv (ie_hasher env) d v' new (reveal (VArray vs))"
    unfolding v' reveal_array using len r(1) ic_enter_ok [OF e] by (intro restorable_array [OF fit _ _ r(3)]) simp_all
  then show "\<not> is_redacted_element v' \<and>
      (\<exists>new. mset (ic_disclosures c') = mset (ic_disclosures c) + mset new \<and>
        restorable renv (ie_hasher env) d v' new (reveal (VArray vs)))"
    using r(2) ic_enter_ok [OF e] by (auto simp: v')
qed

lemma good_tag:
  assumes fit: "fits (ie_limits env) renv" and inner: "good env renv v"
  shows "good env renv (VTag t v)"
  unfolding good_def
proof (intro allI impI)
  fix c d v' c'
  assume "issue_value env (VTag t v) c d = Inr (v', c')"
  then obtain c1 w where
    e: "ic_enter env d c = Inr c1" and t: "\<not> is_sd_tag t"
    and i: "issue_value env v c1 (Suc d) = Inr (w, c')" and v': "v' = VTag t w"
    by (auto simp: issue_value.simps [of env "VTag t v"] andThen_eq_Inr split: if_splits)
  obtain new where r: "mset (ic_disclosures c') = mset (ic_disclosures c1) + mset new"
    "restorable renv (ie_hasher env) (Suc d) w new (reveal v)"
    by (rule goodD [OF inner i])
  have "restorable renv (ie_hasher env) d v' new (reveal (VTag t v))"
    unfolding v' using restorable_tag [OF fit _ r(2) t] ic_enter_ok [OF e] by simp
  then show "\<not> is_redacted_element v' \<and>
      (\<exists>new. mset (ic_disclosures c') = mset (ic_disclosures c) + mset new \<and>
        restorable renv (ie_hasher env) d v' new (reveal (VTag t v)))"
    using r(1) ic_enter_ok [OF e] t by (auto simp: v' is_sd_tag_def)
qed

lemma good_leaf:
  assumes fit: "fits (ie_limits env) renv"
    and issue: "\<And>c d. issue_value env v c d = andThen (ic_enter env d c) (\<lambda>c. Inr (v, c))"
    and restore: "\<And>st e. restore_value renv v st e = andThen (rs_enter renv e st) (\<lambda>st. Inr (v, st))"
    and leaf: "items_of v = 1" "reveal v = v" "\<not> is_redacted_element v"
  shows "good env renv v"
  unfolding good_def
proof (intro allI impI)
  fix c d v' c'
  assume "issue_value env v c d = Inr (v', c')"
  then have e: "ic_enter env d c = Inr c'" and v': "v' = v" by (auto simp: issue andThen_eq_Inr)
  have "restorable renv (ie_hasher env) d v [] v"
    using ic_enter_ok [OF e] by (intro restorable_leaf [OF fit _ restore leaf(1)]) simp
  then show "\<not> is_redacted_element v' \<and>
      (\<exists>new. mset (ic_disclosures c') = mset (ic_disclosures c) + mset new \<and>
        restorable renv (ie_hasher env) d v' new (reveal v))"
    using leaf ic_enter_ok [OF e] by (auto simp: v' intro: exI [of _ "[]"])
qed

lemma good_value:
  assumes fit: "fits (ie_limits env) renv"
  shows "good env renv v"
proof (induction "size v" arbitrary: v rule: less_induct)
  case less
  note rules = issue_value.simps [of env v] restore_value.simps [of renv v]
  show ?case
  proof (cases v)
    case (VArray vs)
    have "good env renv u" if "u \<in> set vs" for u
      using less size_array_elem [OF that] by (simp add: VArray)
    moreover have "good env renv u" if "VTag t u \<in> set vs" for t u
      using less size_array_elem [OF that] by (simp add: VArray)
    ultimately show ?thesis unfolding VArray by (rule good_array [OF fit])
  next
    case (VMap es)
    have "good env renv u" if "(k, u) \<in> set es" for k u
      using less size_map_value [OF that] by (simp add: VMap)
    then show ?thesis unfolding VMap by (rule good_map [OF fit])
  next
    case (VTag t u)
    then show ?thesis using less by (simp add: good_tag [OF fit])
  next
    case (VSimple s)
    show ?thesis
    proof (cases "s = REDACTED_CLAIM_KEYS_SIMPLE")
      case True
      then show ?thesis
        by (auto simp: good_def VSimple issue_value.simps [of env "VSimple 59"] andThen_eq_Inr)
    next
      case False
      then show ?thesis
        unfolding VSimple by (intro good_leaf [OF fit])
          (simp_all add: issue_value.simps [of env "VSimple s"] restore_value.simps [of renv "VSimple s"])
    qed
  qed (use rules in \<open>auto intro!: good_leaf [OF fit]\<close>)
qed

section \<open>Invariants of issuance\<close>

text \<open>
  A property of the context that entering a level, recording a decoy and sealing a part
  keep is kept by the whole traversal.
\<close>

locale issue_invariant =
  fixes env :: "'g issue_env" and Q :: "'g issue_context \<Rightarrow> bool"
  assumes enter: "Q c \<Longrightarrow> ic_enter env d c = Inr c' \<Longrightarrow> Q c'"
    and decoy: "Q c \<Longrightarrow> record_decoy_id v c = Inr c' \<Longrightarrow> Q c'"
    and seal: "Q c \<Longrightarrow> ic_next_salt env c = Inr (s, c1) \<Longrightarrow> kind_salt k = s \<Longrightarrow>
      add_disclosure env k c1 = Inr (hash, c') \<Longrightarrow> Q c'"
begin

lemma items_keep:
  assumes "\<And>u c d w c'. u \<in> set vs \<or> (\<exists>t. VTag t u \<in> set vs) \<Longrightarrow>
      issue_value env u c d = Inr (w, c') \<Longrightarrow> Q c \<Longrightarrow> Q c'"
    and "issue_items env vs c d = Inr (out, c')" and "Q c"
  shows "Q c'"
  using assms
proof (induction vs arbitrary: c out)
  case (Cons v vs)
  have IH: "Q c1 \<Longrightarrow> issue_items env vs c1 d = Inr (out', c') \<Longrightarrow> Q c'" for c1 out'
    using Cons.IH Cons.prems(1) by (meson list.set_intros(2))
  have part: "issue_value env u c1 e = Inr (w, c2) \<Longrightarrow> Q c1 \<Longrightarrow> Q c2" if "u = v \<or> v = VTag t u" for u t c1 e w c2
    using Cons.prems(1) that by (metis list.set_intros(1))
  from Cons.prems(2) show ?case
  proof (cases rule: issue_itemsE)
    case (mark inner c1 issued c2 s c3 hash c4 out')
    have "Q c2" using part mark(1,3) enter [OF Cons.prems(3) mark(2)] by blast
    then show ?thesis using IH [OF seal [OF _ mark(4) _ mark(5)] mark(6)] by simp
  next
    case (decoy inner c1 c2 c3 s c4 hash c5 out')
    have "Q c3" using enter [OF enter [OF Cons.prems(3) decoy(2)] decoy(3)] issue_invariant.decoy [OF issue_invariant_axioms _ decoy(4)] by blast
    then show ?thesis using IH [OF seal [OF _ decoy(5) _ decoy(6)] decoy(7)] by simp
  next
    case (plain w c1 out')
    show ?thesis by (rule IH [OF part [OF _ plain(2) Cons.prems(3)] plain(3)]) simp
  qed
qed simp

lemma entries_keep:
  assumes "\<And>k u c d w c'. (k, u) \<in> set es \<Longrightarrow> issue_value env u c d = Inr (w, c') \<Longrightarrow> Q c \<Longrightarrow> Q c'"
    and "issue_entries env es keys c d = Inr (out, hvs, c')" and "Q c"
  shows "Q c'"
  using assms
proof (induction es arbitrary: keys c out hvs)
  case (Cons e es)
  obtain k v where kv: "e = (k, v)" by (cases e)
  have IH: "Q c1 \<Longrightarrow> issue_entries env es keys1 c1 d = Inr (out', hvs', c') \<Longrightarrow> Q c'" for c1 keys1 out' hvs'
    using Cons.IH Cons.prems(1) by (meson list.set_intros(2))
  have part: "issue_value env v c1 d1 = Inr (w, c2) \<Longrightarrow> Q c1 \<Longrightarrow> Q c2" for c1 d1 w c2
    using Cons.prems(1) kv by (meson list.set_intros(1))
  from Cons.prems(2) [unfolded kv] show ?case
  proof (cases rule: issue_entriesE)
    case (mark inner c1 c2 l keys1 issued c3 s c4 hash c5 hvs1)
    have "Q c3" by (rule part [OF mark(7) enter [OF enter [OF Cons.prems(3) mark(2)] mark(3)]])
    then show ?thesis using IH [OF seal [OF _ mark(8) _ mark(9)] mark(10)] by simp
  next
    case (decoy inner c1 c2 keys1 c3 c4 s c5 hash c6 hvs1)
    have "Q c3" using enter [OF enter [OF Cons.prems(3) decoy(2)] decoy(3)] issue_invariant.decoy [OF issue_invariant_axioms _ decoy(5)] by blast
    then have "Q c4" using decoy(6) enter by blast
    then show ?thesis using IH [OF seal [OF _ decoy(7) _ decoy(8)] decoy(9)] by simp
  next
    case (plain c1 l keys1 w c2 out1)
    show ?thesis by (rule IH [OF part [OF plain(5) enter [OF Cons.prems(3) plain(2)]] plain(6)])
  qed
qed simp

lemma issue_keeps: "issue_value env v c d = Inr (w, c') \<Longrightarrow> Q c \<Longrightarrow> Q c'"
proof (induction "size v" arbitrary: v c d w c' rule: less_induct)
  case less
  from less.prems(1) show ?case
  proof (cases rule: issue_valueE)
    case (map es c1 out hvs)
    have part: "issue_value env u c d = Inr (w, c') \<Longrightarrow> Q c \<Longrightarrow> Q c'" if "(k, u) \<in> set es" for k u c d w c'
      using less.hyps size_map_value [OF that] map(1) by blast
    show ?thesis by (rule entries_keep [OF part map(4) enter [OF less.prems(2) map(2)]])
  next
    case (array vs c1 out)
    have part: "issue_value env u c d = Inr (w, c') \<Longrightarrow> Q c \<Longrightarrow> Q c'"
      if "u \<in> set vs \<or> (\<exists>t. VTag t u \<in> set vs)" for u c d w c'
    proof -
      have "size u < size v"
        using that size_array_elem [of _ vs] array(1) by fastforce
      then show "issue_value env u c d = Inr (w, c') \<Longrightarrow> Q c \<Longrightarrow> Q c'" using less.hyps by blast
    qed
    show ?thesis by (rule items_keep [OF part array(4) enter [OF less.prems(2) array(2)]])
  next
    case (tag t u c1 w1)
    show ?thesis by (rule less.hyps [OF _ tag(4) enter [OF less.prems(2) tag(2)]]) (simp add: tag(1))
  next
    case leaf
    show ?thesis by (rule enter [OF less.prems(2) leaf(1)])
  qed
qed

end

section \<open>The context of a successful issuance\<close>

definition encoded_bytes :: "disclosure list \<Rightarrow> nat" where
  "encoded_bytes ds = sum_list (map (\<lambda>d. length (d_encoded d)) ds)"

text \<open>
  The counters of the context describe its disclosures: digests and salts are unique, and the
  number and the total size of the disclosures are within the limits.
\<close>

definition sound_context :: "'g issue_env \<Rightarrow> 'g issue_context \<Rightarrow> bool" where
  "sound_context env c \<longleftrightarrow>
     distinct (hashes (ie_hasher env) (ic_disclosures c)) \<and>
     set (hashes (ie_hasher env) (ic_disclosures c)) = ic_digests_used c \<and>
     distinct (map salt (ic_disclosures c)) \<and>
     set (map salt (ic_disclosures c)) \<subseteq> ic_salts_used c \<and>
     encoded_bytes (ic_disclosures c) = ic_disclosure_bytes c \<and> ic_disclosure_bytes c < usize_limit \<and>
     ic_disclosure_bytes c \<le> max_disclosure_bytes (ie_limits env) \<and>
     length (ic_disclosures c) \<le> max_disclosures (ie_limits env)"

lemma sound_context_new: "sound_context env (new_context g)"
  by (simp add: sound_context_def new_context_def encoded_bytes_def usize_limit_def)

lemma sound_context_update [simp]:
  "sound_context env (c\<lparr>ic_visited := n\<rparr>) = sound_context env c"
  "sound_context env (c\<lparr>ic_decoy_ids := ids\<rparr>) = sound_context env c"
  by (simp_all add: sound_context_def)

lemma sound_context_seal:
  assumes sound: "sound_context env c" and salt: "ic_next_salt env c = Inr (s, c1)" "kind_salt k = s"
    and add: "add_disclosure env k c1 = Inr (hash, c')"
  shows "sound_context env c'"
proof -
  obtain g where new: "s \<notin> ic_salts_used c"
    and c1: "c1 = c\<lparr>ic_salts := g, ic_salts_used := insert s (ic_salts_used c)\<rparr>"
    using salt(1) by (auto simp: ic_next_salt_def split: prod.splits sum.splits if_splits)
  obtain encoded where add:
    "ic_disclosure_bytes c + length encoded < usize_limit"
    "ic_disclosure_bytes c + length encoded \<le> max_disclosure_bytes (ie_limits env)"
    "redacted_hash \<lparr>d_kind = k, d_encoded = encoded\<rparr> (ie_hasher env) \<notin> ic_digests_used c"
    "length (ic_disclosures c) < max_disclosures (ie_limits env)"
    "c' = c1\<lparr>ic_disclosure_bytes := ic_disclosure_bytes c + length encoded,
      ic_digests_used :=
        insert (redacted_hash \<lparr>d_kind = k, d_encoded = encoded\<rparr> (ie_hasher env)) (ic_digests_used c),
      ic_disclosures := ic_disclosures c @ [\<lparr>d_kind = k, d_encoded = encoded\<rparr>]\<rparr>"
    using add unfolding c1 add_disclosure_def from_kind_with_limits_def Let_def
    by (auto simp: result_simps checked_add_def not_le not_less split: if_splits)
  have fresh: "kind_salt k \<notin> salt ` set (ic_disclosures c)"
    using sound new salt(2) by (auto simp: sound_context_def)
  have salts: "salt \<lparr>d_kind = k, d_encoded = encoded\<rparr> = kind_salt k" by (simp add: SdDisclosure.salt_def)
  show ?thesis
    using sound add(1-4) fresh salt(2)
    unfolding sound_context_def add(5) c1 by (simp add: salts set_hashes encoded_bytes_def) blast
qed

interpretation issue: issue_invariant env "sound_context env" for env :: "'g issue_env"
proof
  fix c c' :: "'g issue_context" and d
  assume "sound_context env c" and "ic_enter env d c = Inr c'"
  then show "sound_context env c'" by (auto simp: ic_enter_def result_simps guards)
next
  fix c c' :: "'g issue_context" and v
  assume "sound_context env c" and "record_decoy_id v c = Inr c'"
  then show "sound_context env c'"
    by (cases v) (auto simp: record_decoy_id_def result_simps split: if_splits)
qed (rule sound_context_seal)

section \<open>The disclosure map of the restoration\<close>

definition kind_head :: "disclosure_kind \<Rightarrow> nat" where
  "kind_head k = (case k of Claim _ _ _ \<Rightarrow> 3 | _ \<Rightarrow> 2)"

text \<open>The items that presenting the disclosures costs, before any of them is restored.\<close>

definition presented_items :: "disclosure list \<Rightarrow> nat" where
  "presented_items ds = sum_list (map (\<lambda>d. kind_head (d_kind d) + kind_items (d_kind d)) ds)"

lemma item_count_ok:
  "kind_head (d_kind d) + kind_items (d_kind d) < usize_limit \<Longrightarrow>
     item_count d = Inr (kind_head (d_kind d) + kind_items (d_kind d))"
  by (cases "d_kind d") (simp_all add: item_count_def kind_head_def value_item_count_total checked_add_def)

definition by_hash :: "hasher \<Rightarrow> disclosure list \<Rightarrow> (bytes \<times> disclosure) list \<Rightarrow> (bytes \<times> disclosure) list" where
  "by_hash h ds m = fold (\<lambda>d. bt_insert (redacted_hash d h) d) ds m"

lemma by_hash_facts:
  "wf_bt m \<Longrightarrow> wf_bt (by_hash h ds m)"
  "bt_keys (by_hash h ds m) = bt_keys m \<union> set (hashes h ds)"
  unfolding by_hash_def by (induction ds arbitrary: m) (auto simp: wf_bt_insert)

lemma by_hash_other: "k \<notin> set (hashes h ds) \<Longrightarrow> bt_get (by_hash h ds m) k = bt_get m k"
  unfolding by_hash_def by (induction ds arbitrary: m) (auto simp: bt_get_insert)

lemma by_hash_get:
  "distinct (hashes h ds) \<Longrightarrow> d \<in> set ds \<Longrightarrow> bt_get (by_hash h ds m) (redacted_hash d h) = Some d"
proof (induction ds arbitrary: m)
  case (Cons x ds)
  have step: "by_hash h (x # ds) m = by_hash h ds (bt_insert (redacted_hash x h) x m)"
    by (simp add: by_hash_def)
  show ?case
    using Cons by (auto simp: step by_hash_other bt_get_insert)
qed simp

lemma disclosure_map_loop_ok:
  assumes "max_items lim < usize_limit"
    and "index + length ds \<le> max_disclosures lim" and "total_bytes + encoded_bytes ds \<le> max_disclosure_bytes lim"
    and "total_bytes + encoded_bytes ds < usize_limit" and "visited + presented_items ds \<le> max_items lim"
    and "distinct (hashes h ds)" and "set (hashes h ds) \<inter> bt_keys entries = {}"
    and "distinct (map salt ds)" and "set (map salt ds) \<inter> salts = {}"
  shows "disclosure_map_loop lim h ds index total_bytes salts entries visited =
    Inr (by_hash h ds entries, visited + presented_items ds)"
  using assms
proof (induction ds arbitrary: index total_bytes salts entries visited)
  case Nil
  then show ?case by (simp add: by_hash_def presented_items_def)
next
  case (Cons d ds)
  let ?n = "kind_head (d_kind d) + kind_items (d_kind d)"
  have n: "visited + ?n + presented_items ds \<le> max_items lim"
    using Cons.prems(5) by (simp add: presented_items_def)
  have consume: "tb_consume lim ?n visited = Inr (visited + ?n)"
    using n Cons.prems(1) by (simp add: guards)
  have "item_count d = Inr ?n" by (rule item_count_ok) (use n Cons.prems(1) in simp)
  moreover have "disclosure_map_loop lim h ds (index + 1) (total_bytes + length (d_encoded d))
      (insert (salt d) salts) (bt_insert (redacted_hash d h) d entries) (visited + ?n) =
      Inr (by_hash h ds (bt_insert (redacted_hash d h) d entries), visited + ?n + presented_items ds)"
    by (rule Cons.IH) (use Cons.prems n in \<open>auto simp: encoded_bytes_def\<close>)
  ultimately show ?case
    using Cons.prems(2-4,7,9) consume
    by (simp add: by_hash_def presented_items_def encoded_bytes_def checked_add_def bt_contains_iff)
qed

lemma presented_items_perm: "mset ds = mset es \<Longrightarrow> presented_items ds = presented_items es"
  by (simp add: presented_items_def flip: sum_mset_sum_list)

lemma new_items_perm: "mset ds = mset es \<Longrightarrow> new_items ds = new_items es"
  by (simp add: new_items_def flip: sum_mset_sum_list)

section \<open>Issue, then restore\<close>

text \<open>
  The limits of a verifier allow for those of the issuer and for the items of what was issued.
\<close>

definition room_for :: "processing_limits \<Rightarrow> issue_result \<Rightarrow> processing_limits \<Rightarrow> bool" where
  "room_for il r lim \<longleftrightarrow>
     max_depth il \<le> max_depth lim \<and> max_container_entries il \<le> max_container_entries lim \<and>
     max_disclosures il \<le> max_disclosures lim \<and> max_disclosure_bytes il \<le> max_disclosure_bytes lim \<and>
     max_items lim < usize_limit \<and>
     presented_items (ir_disclosures r) + items_of (ir_value r) + new_items (ir_disclosures r) \<le> max_items lim"

lemma issue_result_sound:
  assumes "issue_value env v (new_context g) 0 = Inr (w, c)" and "mset ds = mset (ic_disclosures c)"
    and "max_disclosures (ie_limits env) \<le> max_disclosures lim"
    and "max_disclosure_bytes (ie_limits env) \<le> max_disclosure_bytes lim"
    and "max_items lim < usize_limit" and "presented_items (ic_disclosures c) \<le> max_items lim"
  shows "disclosure_map_new lim (ie_hasher env) ds 0 =
    Inr (by_hash (ie_hasher env) ds [], presented_items (ic_disclosures c))"
    and "distinct (hashes (ie_hasher env) ds)"
proof -
  have sound: "sound_context env c" by (rule issue.issue_keeps [OF assms(1) sound_context_new])
  have len: "length ds = length (ic_disclosures c)" using assms(2) by (rule mset_eq_length)
  have bytes: "encoded_bytes ds = encoded_bytes (ic_disclosures c)"
    using assms(2) by (simp add: encoded_bytes_def flip: sum_mset_sum_list)
  have items: "presented_items ds = presented_items (ic_disclosures c)"
    using assms(2) by (rule presented_items_perm)
  have salts: "distinct (map salt ds)"
    using sound mset_eq_imp_distinct_iff [of "map salt ds" "map salt (ic_disclosures c)"] assms(2)
    by (simp add: sound_context_def)
  show distinct: "distinct (hashes (ie_hasher env) ds)"
    using sound assms(2)
      mset_eq_imp_distinct_iff [of "hashes (ie_hasher env) ds" "hashes (ie_hasher env) (ic_disclosures c)"]
    by (simp add: sound_context_def) (simp add: hashes_def)
  show "disclosure_map_new lim (ie_hasher env) ds 0 =
      Inr (by_hash (ie_hasher env) ds [], presented_items (ic_disclosures c))"
    unfolding disclosure_map_new_def
    using sound assms distinct salts len bytes items
    by (subst disclosure_map_loop_ok) (simp_all add: sound_context_def)
qed

text \<open>
  C3. A verifier that gets an issued map and all of its disclosures, in any order, restores
  exactly the claims that the pre-issuance map marks as revealed: the redacted ones are
  back, the decoys are gone, no redaction is left, and every disclosure is accounted for.
\<close>

theorem issue_then_restore:
  assumes issue: "issue_from_preissuance_with_limits env v g = Inr r"
    and presented: "mset ds = mset (ir_disclosures r)"
    and room: "room_for (ie_limits env) r lim"
  shows "restore_with_limits cb (ir_value r) ds (ie_hasher env) mode lim =
    Inr \<lparr>rr_value = reveal v, rr_protected_claims = None, rr_disclosed = disclosed_in ds,
      rr_decoys = decoys_in ds, rr_removed_redactions = 0\<rparr>"
proof -
  let ?h = "ie_hasher env"
  let ?renv = "\<lparr>re_cbor = cb, re_limits = lim, re_mode = mode, re_validate_claims = False\<rparr>"
  obtain c where i: "issue_value env v (new_context g) 0 = Inr (ir_value r, c)"
    and r: "ir_disclosures r = ic_disclosures c"
    using issue by (auto simp: issue_from_preissuance_with_limits_def andThen_eq_Inr split: "value.splits")
  have fit: "fits (ie_limits env) ?renv" using room by (simp add: fits_def room_for_def)
  obtain new where new: "mset (ic_disclosures c) = mset new"
    and restorable: "restorable ?renv ?h 0 (ir_value r) new (reveal v)"
    using goodD [OF good_value [OF fit] i] by (auto simp: new_context_def)
  have m: "mset new = mset ds" using new presented r by simp
  have map: "disclosure_map_new lim ?h ds 0 = Inr (by_hash ?h ds [], presented_items (ir_disclosures r))"
    and distinct: "distinct (hashes ?h ds)"
    using issue_result_sound [OF i presented [unfolded r], of lim] room by (simp_all add: r room_for_def)
  let ?st = "\<lparr>rs_pending = by_hash ?h ds [], rs_disclosed = 0, rs_decoys = 0, rs_removed = 0,
    rs_visited = presented_items (ir_disclosures r)\<rparr>"
  have "provides ?h ?st ds"
    using distinct by (simp add: provides_def by_hash_facts by_hash_get)
  then have p: "provides ?h ?st new" using provides_perm [OF m] by blast
  have "restore_value ?renv (ir_value r) ?st 0 =
      Inr (reveal v, consume ?h new (items_of (ir_value r) + new_items new) ?st)"
    using room new_items_perm [OF m] new_items_perm [OF presented]
    by (intro restorableD [OF restorable _ p]) (simp_all add: level_def room_for_def)
  moreover have "rs_pending (consume ?h ds cost ?st) = []" for cost
    using by_hash_facts(2) [of ?h ds "[]"]
    by (force simp: consume_def bt_keys_def filter_empty_conv)
  ultimately show ?thesis
    unfolding consume_perm [OF m]
    by (simp add: restore_with_limits_def restore_with_protected_claims_def map consume_def)
qed

section \<open>A concrete map\<close>

definition demo_claims :: "value" where
  "demo_claims = VMap
     [(VInteger 1, VText ''iss''),
      (VTag 58 (VInteger 20), VMap [(VTag 58 (VText ''a''), VBool True)]),
      (VInteger 21, VArray [VTag 58 (VText ''x''), VTag 62 (VInteger 1), VInteger 7]),
      (VTag 62 (VInteger 2), VNull)]"

text \<open>A generator that counts, and a hasher without collisions.\<close>

definition demo_issue_env :: "nat issue_env" where
  "demo_issue_env = \<lparr>ie_cbor = ref_cbor, ie_limits = default_processing_limits,
     ie_hasher = \<lparr>hs_algorithm = ALG_SHA_256, hs_digest = (\<lambda>b. b)\<rparr>,
     ie_next = (\<lambda>n. (Inr (replicate 16 (word_of_nat n)), Suc n))\<rparr>"

definition demo_issued :: "error + issue_result" where
  "demo_issued = issue_from_preissuance_with_limits demo_issue_env demo_claims 0"

lemma case_ok_ex: "case x of Inr r \<Rightarrow> P r | Inl _ \<Rightarrow> False \<Longrightarrow> \<exists>r. x = Inr r \<and> P r"
  by (cases x) simp_all

text \<open>Evaluation step by step: what follows a step is only simplified once the step is done.\<close>

lemma andThen_weak_cong: "x = y \<Longrightarrow> andThen x f = andThen y f"
  by simp

lemmas issuance_steps = issue_value.simps ic_enter_def tb_container_def tb_enter_def tb_consume_def
  checked_add_def insert_normalized_key_def record_decoy_id_def ic_next_salt_def add_disclosure_def
  from_kind_with_limits_def validate_disclosure_kind_def validate_disclosure_value_def
  validate_issued_value.simps encode_kind_def redacted_hash_def validate_root_disclosure_key_def
  ensure_preissuance_key_def try_i64_def in_i64_def try_u64_def in_u64_def Let_def

lemmas demo_values = demo_issued_def demo_claims_def demo_issue_env_def ref_cbor_def ref_head_def
  write_head_def default_processing_limits_def new_context_def usize_limit_def is_sd_tag_def
  redacted_claim_keys_label_def redacted_element_def

lemma demo_issued_ok:
  "case demo_issued of
     Inr r \<Rightarrow> room_for (ie_limits demo_issue_env) r default_processing_limits \<and>
       disclosed_in (rev (ir_disclosures r)) = 3 \<and> decoys_in (rev (ir_disclosures r)) = 2
   | Inl _ \<Rightarrow> False"
  by (simp add: issue_from_preissuance_with_limits_def issuance_steps demo_values room_for_def
      presented_items_def kind_head_def cong: andThen_weak_cong)

lemma issue_then_restore_witness:
  "case demo_issued of
     Inr r \<Rightarrow> restore_with_limits ref_cbor (ir_value r) (rev (ir_disclosures r))
       (ie_hasher demo_issue_env) Verifier default_processing_limits =
     Inr \<lparr>rr_value = VMap
         [(VInteger 1, VText ''iss''), (VInteger 21, VArray [VText ''x'', VInteger 7]),
          (VInteger 20, VMap [(VText ''a'', VBool True)])],
       rr_protected_claims = None, rr_disclosed = 3, rr_decoys = 2, rr_removed_redactions = 0\<rparr>
   | Inl _ \<Rightarrow> False"
proof -
  obtain r where r: "demo_issued = Inr r" "room_for (ie_limits demo_issue_env) r default_processing_limits"
    "disclosed_in (rev (ir_disclosures r)) = 3" "decoys_in (rev (ir_disclosures r)) = 2"
    using case_ok_ex [OF demo_issued_ok] by blast
  have "reveal demo_claims = VMap
      [(VInteger 1, VText ''iss''), (VInteger 21, VArray [VText ''x'', VInteger 7]),
       (VInteger 20, VMap [(VText ''a'', VBool True)])]"
    by code_simp
  with issue_then_restore [OF r(1) [unfolded demo_issued_def] mset_rev r(2), of ref_cbor Verifier]
  show ?thesis by (simp only: r(1,3,4) sum.case)
qed

end
