(* ===== verification/SdLaws.thy ===== *)
theory SdLaws
  imports SdValidation SdRoundtrip
begin

text \<open>
  What a successful restoration guarantees: every disclosure is used exactly once, no
  redaction is left, and the result respects the limits. The three are instances of one
  induction over the successful branches of the traversal.
\<close>

section \<open>The successful branches\<close>

fun is_container :: "value \<Rightarrow> bool" where
  "is_container (VMap _) = True"
| "is_container (VArray _) = True"
| "is_container (VTag _ _) = True"
| "is_container _ = False"

text \<open>
  \<open>PV\<close>, \<open>PE\<close>, \<open>PH\<close> and \<open>PI\<close> relate the arguments of a value, of map entries, of redacted
  hashes and of array items to what the loop returns for them. One rule per branch.
\<close>

locale restore_rules =
  fixes env :: restore_env
    and PV :: "value \<Rightarrow> restore_state \<Rightarrow> nat \<Rightarrow> value \<Rightarrow> restore_state \<Rightarrow> bool"
    and PE :: "(value \<times> value) list \<Rightarrow> label set \<Rightarrow> restore_state \<Rightarrow> nat \<Rightarrow>
      (value \<times> value) list \<Rightarrow> bytes list \<Rightarrow> label set \<Rightarrow> restore_state \<Rightarrow> bool"
    and PH :: "bytes list \<Rightarrow> label set \<Rightarrow> restore_state \<Rightarrow> nat \<Rightarrow>
      (value \<times> value) list \<Rightarrow> value list \<Rightarrow> restore_state \<Rightarrow> bool"
    and PI :: "value list \<Rightarrow> restore_state \<Rightarrow> nat \<Rightarrow> value list \<Rightarrow> restore_state \<Rightarrow> bool"
  assumes map: "rs_enter env d st = Inr st1 \<Longrightarrow> PE es {} st1 d out hs keys st2 \<Longrightarrow>
      PH hs keys st2 d dis hidden st3 \<Longrightarrow>
      PV (VMap es) st d (VMap (out @ dis @
        (if hidden = [] then [] else [(redacted_claim_keys_label, VArray hidden)]))) st3"
    and array: "rs_enter env d st = Inr st1 \<Longrightarrow> PI vs st1 d ws st2 \<Longrightarrow> PV (VArray vs) st d (VArray ws) st2"
    and tag: "rs_enter env d st = Inr st1 \<Longrightarrow> \<not> is_sd_tag t \<Longrightarrow> PV v st1 (Suc d) w st2 \<Longrightarrow>
      PV (VTag t v) st d (VTag t w) st2"
    and leaf: "rs_enter env d st = Inr st1 \<Longrightarrow> \<not> is_container v \<Longrightarrow>
      v \<noteq> VSimple REDACTED_CLAIM_KEYS_SIMPLE \<Longrightarrow> PV v st d v st1"
    and entries_nil: "PE [] keys st d [] [] keys st"
    and entries_redacted: "is_redacted_claim_keys_label k \<Longrightarrow> rs_enter env (Suc d) st = Inr st1 \<Longrightarrow>
      rs_enter env (Suc d) st1 = Inr st2 \<Longrightarrow> read_hashes env vs st2 (Suc (Suc d)) = Inr (bs, st3) \<Longrightarrow>
      PE es keys st3 d out rest keys' st4 \<Longrightarrow> PE ((k, VArray vs) # es) keys st d out (bs @ rest) keys' st4"
    and entries_plain: "rs_enter env (Suc d) st = Inr st1 \<Longrightarrow> sd_label_from_value k = Inr l \<Longrightarrow>
      l \<notin> keys \<Longrightarrow> PV v st1 (Suc d) w st2 \<Longrightarrow> PE es (insert l keys) st2 d out rest keys' st3 \<Longrightarrow>
      PE ((k, v) # es) keys st d ((k, w) # out) rest keys' st3"
    and hashes_nil: "PH [] keys st d [] [] st"
    and hashes_claim: "rs_remove b st = (Some x, st1) \<Longrightarrow> d_kind x = Claim s l v \<Longrightarrow> l \<notin> keys \<Longrightarrow>
      (re_validate_claims env \<Longrightarrow> d = 0 \<Longrightarrow> validate_root_disclosure_key l = Inr ()) \<Longrightarrow>
      PV v st1 (Suc d) w st2 \<Longrightarrow>
      PH hs (insert l keys) (st2\<lparr>rs_disclosed := Suc (rs_disclosed st2)\<rparr>) d out hidden st3 \<Longrightarrow>
      PH (b # hs) keys st d ((value_of_label l, w) # out) hidden st3"
    and hashes_decoy: "rs_remove b st = (Some x, st1) \<Longrightarrow> d_kind x = Decoy s \<Longrightarrow>
      PH hs keys (st1\<lparr>rs_decoys := Suc (rs_decoys st1)\<rparr>) d out hidden st2 \<Longrightarrow>
      PH (b # hs) keys st d out hidden st2"
    and hashes_hidden: "rs_remove b st = (None, st1) \<Longrightarrow> re_mode env = Verifier \<Longrightarrow>
      PH hs keys (st1\<lparr>rs_removed := Suc (rs_removed st1)\<rparr>) d out hidden st2 \<Longrightarrow>
      PH (b # hs) keys st d out (if re_validate_claims env then VBytes b # hidden else hidden) st2"
    and items_nil: "PI [] st d [] st"
    and items_element: "rs_enter env (Suc d) st = Inr st1 \<Longrightarrow> rs_enter env (Suc (Suc d)) st1 = Inr st2 \<Longrightarrow>
      rs_remove b st2 = (Some x, st3) \<Longrightarrow> d_kind x = Element s v \<Longrightarrow> PV v st3 (Suc d) w st4 \<Longrightarrow>
      PI vs (st4\<lparr>rs_disclosed := Suc (rs_disclosed st4)\<rparr>) d ws st5 \<Longrightarrow>
      PI (VTag REDACTED_ELEMENT_TAG (VBytes b) # vs) st d (w # ws) st5"
    and items_decoy: "rs_enter env (Suc d) st = Inr st1 \<Longrightarrow> rs_enter env (Suc (Suc d)) st1 = Inr st2 \<Longrightarrow>
      rs_remove b st2 = (Some x, st3) \<Longrightarrow> d_kind x = Decoy s \<Longrightarrow>
      PI vs (st3\<lparr>rs_decoys := Suc (rs_decoys st3)\<rparr>) d ws st4 \<Longrightarrow>
      PI (VTag REDACTED_ELEMENT_TAG (VBytes b) # vs) st d ws st4"
    and items_hidden: "rs_enter env (Suc d) st = Inr st1 \<Longrightarrow> rs_enter env (Suc (Suc d)) st1 = Inr st2 \<Longrightarrow>
      rs_remove b st2 = (None, st3) \<Longrightarrow> re_mode env = Verifier \<Longrightarrow>
      PI vs (st3\<lparr>rs_removed := Suc (rs_removed st3)\<rparr>) d ws st4 \<Longrightarrow>
      PI (VTag REDACTED_ELEMENT_TAG (VBytes b) # vs) st d
        (if re_validate_claims env then redacted_element b # ws else ws) st4"
    and items_plain: "PV v st (Suc d) w st1 \<Longrightarrow> PI vs st1 d ws st2 \<Longrightarrow> PI (v # vs) st d (w # ws) st2"
begin

lemma restored:
  "e = env \<Longrightarrow> restore_value e v st d = Inr (w, st') \<Longrightarrow> PV v st d w st'"
  "e = env \<Longrightarrow> restore_entries e es keys saw st d = Inr (out, hs, keys', st') \<Longrightarrow>
     PE es keys st d out hs keys' st'"
  "e = env \<Longrightarrow> restore_hashes e bs keys st d = Inr (out, hidden, st') \<Longrightarrow>
     PH bs keys st d out hidden st'"
  "e = env \<Longrightarrow> restore_items e vs st d = Inr (ws, st') \<Longrightarrow> PI vs st d ws st'"
proof (induction e v st d and e es keys saw st d and e bs keys st d and e vs st d
    arbitrary: w st' and out hs keys' st' and out hidden st' and ws st'
    rule: restore_value_restore_entries_restore_hashes_restore_items.induct)
  case (1 e v st d)
  from "1.prems"(2) obtain st1 where enter: "rs_enter env d st = Inr st1"
    unfolding "1.prems"(1) by (auto simp: restore_value.simps [of env v] andThen_eq_Inr)
  note run = "1.prems"(2) [unfolded "1.prems"(1), unfolded restore_value.simps [of env v] enter]
  note IH = "1.IH" [unfolded "1.prems"(1), OF enter]
  show ?case
  proof (cases v)
    case (VMap es)
    with run obtain out hs keys st2 dis hidden where
      steps: "tb_container (re_limits env) (length es) = Inr ()"
        "restore_entries env es {} False st1 d = Inr (out, hs, keys, st2)"
        "restore_hashes env hs keys st2 d = Inr (dis, hidden, st')"
      and w: "w = VMap (out @ dis @ (if hidden = [] then [] else [(redacted_claim_keys_label, VArray hidden)]))"
      by (auto simp: andThen_eq_Inr)
    show ?thesis unfolding VMap w
      by (rule map [OF enter IH(3) [OF VMap steps(1) refl steps(2)]
            IH(4) [OF VMap steps(1,2) refl refl refl refl steps(3)]])
  next
    case (VArray vs)
    then show ?thesis using run IH(2) by (auto simp: andThen_eq_Inr intro: array [OF enter])
  next
    case (VTag t u)
    then show ?thesis using run IH(1) by (auto simp: andThen_eq_Inr split: if_splits intro: tag [OF enter])
  qed (use run enter in \<open>auto intro: leaf split: if_splits\<close>)
next
  case (2 e keys saw st d)
  then show ?case by (simp add: entries_nil)
next
  case (3 e k v es keys saw st d)
  show ?case
  proof (cases "is_redacted_claim_keys_label k")
    case True
    then obtain vs where v: "v = VArray vs"
      using "3.prems"(2) by (cases v) (auto simp: andThen_eq_Inr split: if_splits)
    from True show ?thesis
      using "3.prems" "3.IH"(1)
      by (auto simp: v andThen_eq_Inr split: if_splits intro!: entries_redacted)
  next
    case False
    then show ?thesis
      using "3.prems" "3.IH"(2,3)
      by (auto simp: result_simps split: if_splits intro!: entries_plain)
  qed
next
  case (4 e keys st d)
  then show ?case by (simp add: hashes_nil)
next
  case (5 e b bs keys st d)
  obtain found st1 where found: "rs_remove b st = (found, st1)" by fastforce
  show ?case
  proof (cases found)
    case None
    with "5.prems" found obtain hidden' where
      mode: "re_mode env = Verifier"
      and rest: "restore_hashes e bs keys (st1\<lparr>rs_removed := rs_removed st1 + 1\<rparr>) d = Inr (out, hidden', st')"
      and hidden: "hidden = (if re_validate_claims env then VBytes b # hidden' else hidden')"
      by (auto simp: andThen_eq_Inr split: if_splits)
    have "PH bs keys (st1\<lparr>rs_removed := rs_removed st1 + 1\<rparr>) d out hidden' st'"
      by (rule "5.IH"(1) [OF refl _ refl _ "5.prems"(1) rest]) (use found None mode "5.prems"(1) in simp_all)
    then show ?thesis unfolding hidden by (intro hashes_hidden [OF found [unfolded None] mode]) simp
  next
    case (Some x)
    show ?thesis
    proof (cases "d_kind x")
      case (Claim s l v)
      from "5.prems" found Some Claim obtain w st2 out' where
        root: "(if re_validate_claims e \<and> d = 0 then validate_root_disclosure_key l else Inr ()) = Inr ()"
        and l: "l \<notin> keys" and inner: "restore_value e v st1 (d + 1) = Inr (w, st2)"
        and rest: "restore_hashes e bs (insert l keys) (st2\<lparr>rs_disclosed := rs_disclosed st2 + 1\<rparr>) d =
          Inr (out', hidden, st')"
        and out: "out = (value_of_label l, w) # out'"
        by (auto simp: andThen_eq_Inr split: if_splits)
      have "PV v st1 (Suc d) w st2"
        using "5.IH"(2) [OF refl _ Some Claim root l "5.prems"(1) inner] found by simp
      moreover have "PH bs (insert l keys) (st2\<lparr>rs_disclosed := Suc (rs_disclosed st2)\<rparr>) d out' hidden st'"
        using "5.IH"(3) [OF refl _ Some Claim root l inner refl "5.prems"(1) rest] found by simp
      ultimately show ?thesis unfolding out
        by (rule hashes_claim [OF found [unfolded Some] Claim l, rotated]) (use root "5.prems"(1) in simp)
    next
      case (Decoy s)
      then show ?thesis using "5.prems" "5.IH"(4) found Some by (auto intro: hashes_decoy)
    qed (use "5.prems" found Some in simp)
  qed
next
  case (6 e st d)
  then show ?case by (simp add: items_nil)
next
  case (7 e v vs st d)
  note prems = "7.prems"(2) [unfolded "7.prems"(1)]
  note IH = "7.IH" [unfolded "7.prems"(1)]
  show ?case
  proof (cases "is_redacted_element v")
    case True
    then obtain inner where v: "v = VTag REDACTED_ELEMENT_TAG inner" by (cases v) auto
    from prems obtain st1 st2 b where
      enter: "rs_enter env (Suc d) st = Inr st1" "rs_enter env (Suc (Suc d)) st1 = Inr st2"
      and inner: "inner = VBytes b"
      by (cases inner) (auto simp: v andThen_eq_Inr)
    obtain found st3 where found: "rs_remove b st2 = (found, st3)" by fastforce
    show ?thesis
    proof (cases found)
      case None
      with prems enter found obtain ws' where
        mode: "re_mode env = Verifier"
        and rest: "restore_items env vs (st3\<lparr>rs_removed := rs_removed st3 + 1\<rparr>) d = Inr (ws', st')"
        and ws: "ws = (if re_validate_claims env then redacted_element b # ws' else ws')"
        by (auto simp: v inner andThen_eq_Inr split: if_splits)
      have "PI vs (st3\<lparr>rs_removed := rs_removed st3 + 1\<rparr>) d ws' st'"
        by (rule IH(3) [OF _ refl refl rest]) (use enter found None mode in \<open>simp add: v inner\<close>)
      then show ?thesis unfolding ws v inner
        by (intro items_hidden [OF enter found [unfolded None] mode]) simp
    next
      case (Some x)
      show ?thesis
      proof (cases "d_kind x")
        case (Element s u)
        from prems enter found Some Element obtain w st4 ws' where
          part: "restore_value env u st3 (Suc d) = Inr (w, st4)"
          and rest: "restore_items env vs (st4\<lparr>rs_disclosed := Suc (rs_disclosed st4)\<rparr>) d = Inr (ws', st')"
          and ws: "ws = w # ws'"
          by (auto simp: v inner andThen_eq_Inr)
        have "PV u st3 (Suc d) w st4"
          by (rule IH(2) [of inner st1 st2 b "(found, st3)" found st3 x s u, simplified])
            (use enter found Some Element part in \<open>simp_all add: v inner\<close>)
        moreover have "PI vs (st4\<lparr>rs_disclosed := Suc (rs_disclosed st4)\<rparr>) d ws' st'"
          by (rule IH(3) [OF _ refl refl rest]) (use enter found Some Element part in \<open>simp add: v inner\<close>)
        ultimately show ?thesis unfolding ws v inner
          by (rule items_element [OF enter found [unfolded Some] Element])
      next
        case (Decoy s)
        then show ?thesis using prems IH(3) enter found Some
          by (auto simp: v inner andThen_eq_Inr intro: items_decoy)
      qed (use prems enter found Some in \<open>auto simp: v inner andThen_eq_Inr\<close>)
    qed
  next
    case False
    then have none: "(case v of VTag t inner \<Rightarrow> if t = REDACTED_ELEMENT_TAG then Some inner else None | _ \<Rightarrow> None) = None"
      by (cases v) auto
    with prems obtain w st1 ws' where
      part: "restore_value env v st (Suc d) = Inr (w, st1)"
      and rest: "restore_items env vs st1 d = Inr (ws', st')" and ws: "ws = w # ws'"
      by (auto simp: andThen_eq_Inr)
    have "PV v st (Suc d) w st1" using IH(1) [OF none refl] part by simp
    moreover have "PI vs st1 d ws' st'"
      by (rule IH(3) [OF _ refl refl rest]) (use none part in simp)
    ultimately show ?thesis unfolding ws by (rule items_plain)
  qed
qed

end

section \<open>Every disclosure is used once\<close>

lemma length_bt_remove: "bt_get m k = Some v \<Longrightarrow> Suc (length (bt_remove k m)) = length m"
  by (induction k m rule: bt_remove.induct) (auto split: if_splits)

lemma length_bt_insert: "k \<notin> bt_keys m \<Longrightarrow> length (bt_insert k v m) = Suc (length m)"
  by (induction k v m rule: bt_insert.induct) auto

lemma bt_remove_none: "bt_get m k = None \<Longrightarrow> bt_remove k m = m"
  by (induction k m rule: bt_remove.induct) (auto split: if_splits)

lemma rs_remove_Some:
  "rs_remove b st = (Some x, st') \<Longrightarrow>
     Suc (length (rs_pending st')) = length (rs_pending st) \<and> rs_disclosed st' = rs_disclosed st \<and>
     rs_decoys st' = rs_decoys st \<and> rs_removed st' = rs_removed st \<and> rs_visited st' = rs_visited st"
  by (auto simp: rs_remove_def length_bt_remove)

lemma rs_remove_None: "rs_remove b st = (None, st') \<Longrightarrow> st' = st"
  by (auto simp: rs_remove_def bt_remove_none)

lemma read_hashes_result:
  "read_hashes env vs st d = Inr (bs, st') \<Longrightarrow>
     st' = st\<lparr>rs_visited := rs_visited st + length bs\<rparr> \<and>
     (rs_visited st \<le> max_items (re_limits env) \<longrightarrow> rs_visited st' \<le> max_items (re_limits env)) \<and>
     (bs \<noteq> [] \<longrightarrow> d \<le> max_depth (re_limits env))"
  by (induction vs arbitrary: st bs) (fastforce simp: result_simps guards)+

definition accounted :: "restore_env \<Rightarrow> restore_state \<Rightarrow> restore_state \<Rightarrow> bool" where
  "accounted env st st' \<longleftrightarrow>
     length (rs_pending st') + rs_disclosed st' + rs_decoys st' =
       length (rs_pending st) + rs_disclosed st + rs_decoys st \<and>
     (re_mode env = Holder \<longrightarrow> rs_removed st' = rs_removed st)"

interpretation accounts: restore_rules env
    "\<lambda>v st d w st'. accounted env st st'"
    "\<lambda>es keys st d out hs keys' st'. accounted env st st'"
    "\<lambda>hs keys st d out hidden st'. accounted env st st'"
    "\<lambda>vs st d ws st'. accounted env st st'" for env
  by unfold_locales
    (auto simp: accounted_def guards dest!: rs_remove_Some rs_remove_None read_hashes_result)

section \<open>The limits hold for what is returned\<close>

fun nested_within :: "nat \<Rightarrow> nat \<Rightarrow> value \<Rightarrow> bool" where
  "nested_within m d (VMap es) \<longleftrightarrow>
     d \<le> m \<and> (\<forall>(k, v) \<in> set es. nested_within m (Suc d) k \<and> nested_within m (Suc d) v)"
| "nested_within m d (VArray vs) \<longleftrightarrow> d \<le> m \<and> (\<forall>v \<in> set vs. nested_within m (Suc d) v)"
| "nested_within m d (VTag t v) \<longleftrightarrow> d \<le> m \<and> nested_within m (Suc d) v"
| "nested_within m d _ \<longleftrightarrow> d \<le> m"

lemma nested_within_depth: "nested_within m d v \<Longrightarrow> d \<le> m"
  by (cases v) auto

lemma nested_leaf: "\<not> is_container v \<Longrightarrow> nested_within m d v \<longleftrightarrow> d \<le> m"
  by (cases v) auto

lemma items_leaf: "\<not> is_container v \<Longrightarrow> items_of v = 1"
  by (cases v) auto

text \<open>The entries of a restored map: labels with values one level deeper.\<close>

definition entries_within :: "restore_env \<Rightarrow> nat \<Rightarrow> (value \<times> value) list \<Rightarrow> bool" where
  "entries_within env d es \<longleftrightarrow>
     (\<forall>(k, v) \<in> set es. \<not> is_container k \<and> nested_within (max_depth (re_limits env)) (Suc d) v)"

definition budgeted :: "restore_env \<Rightarrow> nat \<Rightarrow> restore_state \<Rightarrow> restore_state \<Rightarrow> bool" where
  "budgeted env n st st' \<longleftrightarrow> rs_visited st + n \<le> rs_visited st' \<and>
     (rs_visited st \<le> max_items (re_limits env) \<longrightarrow> rs_visited st' \<le> max_items (re_limits env))"

lemma sd_label_leaf: "sd_label_from_value k = Inr l \<Longrightarrow> k = value_of_label l"
  by (cases k) (auto simp: result_simps split: if_splits)

lemma label_leaf [simp]: "\<not> is_container (value_of_label l)"
  by (cases l) simp_all

lemma entry_items_simps [simp]:
  "entry_items [] = 0" "entry_items ((k, v) # es) = Suc (items_of v) + entry_items es"
  "entry_items (es @ fs) = entry_items es + entry_items fs"
  by (simp_all add: entry_items_def)

lemma items_map_within: "entries_within env d es \<Longrightarrow> items_of (VMap es) = Suc (entry_items es)"
  by (induction es) (auto simp: entries_within_def entry_items_def items_leaf)

lemma entries_within_nested:
  assumes "entries_within env d es" and "(k, v) \<in> set es"
  shows "nested_within (max_depth (re_limits env)) (Suc d) k"
    and "nested_within (max_depth (re_limits env)) (Suc d) v"
proof -
  from assms have k: "\<not> is_container k" and v: "nested_within (max_depth (re_limits env)) (Suc d) v"
    by (auto simp: entries_within_def)
  show "nested_within (max_depth (re_limits env)) (Suc d) v" by (rule v)
  show "nested_within (max_depth (re_limits env)) (Suc d) k"
    using nested_within_depth [OF v] by (simp add: nested_leaf [OF k])
qed

lemma items_hidden: "\<forall>x \<in> set hidden. \<not> is_container x \<Longrightarrow> sum_list (map items_of hidden) = length hidden"
  by (induction hidden) (auto simp: items_leaf)

lemma items_restored_map:
  assumes "entries_within env d es" and "\<forall>x \<in> set hidden. \<not> is_container x"
  shows "items_of (VMap (es @
      (if hidden = [] then [] else [(redacted_claim_keys_label, VArray hidden)]))) =
    Suc (entry_items es) + (if hidden = [] then 0 else Suc (Suc (length hidden)))"
  using items_map_within [OF assms(1)] items_hidden [OF assms(2)]
  by (simp add: redacted_claim_keys_label_def)

interpretation limits: restore_rules env
    "\<lambda>v st d w st'. budgeted env (items_of w) st st' \<and>
       rs_visited st' \<le> max_items (re_limits env) \<and> nested_within (max_depth (re_limits env)) d w"
    "\<lambda>es keys st d out hs keys' st'.
       budgeted env (entry_items out + length hs + (if hs = [] then 0 else 2)) st st' \<and>
       entries_within env d out \<and> (hs \<noteq> [] \<longrightarrow> Suc (Suc d) \<le> max_depth (re_limits env))"
    "\<lambda>hs keys st d out hidden st'.
       rs_visited st + entry_items out + length hidden \<le> rs_visited st' + length hs \<and>
       (rs_visited st \<le> max_items (re_limits env) \<longrightarrow> rs_visited st' \<le> max_items (re_limits env)) \<and>
       entries_within env d out \<and> length hidden \<le> length hs \<and> (\<forall>x \<in> set hidden. \<not> is_container x)"
    "\<lambda>vs st d ws st'. budgeted env (sum_list (map items_of ws)) st st' \<and>
       (\<forall>w \<in> set ws. nested_within (max_depth (re_limits env)) (Suc d) w)" for env
proof (unfold_locales, goal_cases)
  case (1 d st st1 es out hs keys st2 dis hidden st3)
  let ?es = "out @ dis"
  have es: "entries_within env d ?es" using 1 by (auto simp: entries_within_def)
  have parts: "nested_within (max_depth (re_limits env)) (Suc d) k \<and>
      nested_within (max_depth (re_limits env)) (Suc d) v" if "(k, v) \<in> set out \<or> (k, v) \<in> set dis" for k v
    using entries_within_nested [OF es] that by auto
  have hidden: "\<forall>x \<in> set hidden. \<not> is_container x" using 1 by blast
  have deep: "hidden \<noteq> [] \<Longrightarrow> Suc (Suc d) \<le> max_depth (re_limits env)" using 1 by (cases hs) auto
  have "nested_within (max_depth (re_limits env)) d (VMap (?es @
      (if hidden = [] then [] else [(redacted_claim_keys_label, VArray hidden)])))"
    using parts hidden deep 1(1) by (auto simp: redacted_claim_keys_label_def nested_leaf guards)
  moreover have "budgeted env (items_of (VMap (?es @
      (if hidden = [] then [] else [(redacted_claim_keys_label, VArray hidden)])))) st st3"
    unfolding items_restored_map [OF es hidden] budgeted_def using 1
    by (cases "hs = []") (auto simp: guards budgeted_def)
  moreover have "rs_visited st3 \<le> max_items (re_limits env)" using 1 by (auto simp: guards budgeted_def)
  ultimately show ?case by simp
qed (auto simp: budgeted_def entries_within_def guards nested_leaf items_leaf redacted_element_def
    dest!: rs_remove_Some rs_remove_None read_hashes_result sd_label_leaf)

section \<open>No redaction is left\<close>

fun is_label :: "value \<Rightarrow> bool" where
  "is_label (VInteger _) = True"
| "is_label (VText _) = True"
| "is_label _ = False"

text \<open>
  A restored value: maps have distinct labels, and the markers of SD-CWT stand nowhere,
  except, while \<open>hidden\<close> ones are kept for the comparison of claims, where a redaction may be.
\<close>

fun restored_value :: "bool \<Rightarrow> value \<Rightarrow> bool" where
  "restored_value hidden (VMap es) \<longleftrightarrow> distinct (map fst es) \<and>
     (\<forall>(k, v) \<in> set es. if is_redacted_claim_keys_label k then hidden
        else is_label k \<and> restored_value hidden v)"
| "restored_value hidden (VArray vs) \<longleftrightarrow>
     (\<forall>v \<in> set vs. if is_redacted_element v then hidden else restored_value hidden v)"
| "restored_value hidden (VTag t v) \<longleftrightarrow> \<not> is_sd_tag t \<and> restored_value hidden v"
| "restored_value hidden (VSimple s) \<longleftrightarrow> s \<noteq> REDACTED_CLAIM_KEYS_SIMPLE"
| "restored_value hidden _ \<longleftrightarrow> True"

definition no_redactions :: "value \<Rightarrow> bool" where
  "no_redactions v \<longleftrightarrow> restored_value False v"

lemma restored_not_element: "restored_value hidden v \<Longrightarrow> \<not> is_redacted_element v"
  by (cases v) (auto simp: is_sd_tag_def)

lemma restored_leaf:
  "\<not> is_container v \<Longrightarrow> v \<noteq> VSimple REDACTED_CLAIM_KEYS_SIMPLE \<Longrightarrow> restored_value hidden v"
  by (cases v) auto

text \<open>Entries with the labels \<open>ls\<close>, none of which is among \<open>keys\<close>.\<close>

definition labelled :: "bool \<Rightarrow> label set \<Rightarrow> label list \<Rightarrow> (value \<times> value) list \<Rightarrow> bool" where
  "labelled hidden keys ls es \<longleftrightarrow> map fst es = map value_of_label ls \<and> distinct ls \<and>
     set ls \<inter> keys = {} \<and> (\<forall>(k, v) \<in> set es. restored_value hidden v)"

lemma labelled_Nil: "labelled hidden keys [] []"
  by (simp add: labelled_def)

lemma labelled_Cons:
  "labelled hidden (insert l keys) ls es \<Longrightarrow> l \<notin> keys \<Longrightarrow> restored_value hidden v \<Longrightarrow>
     labelled hidden keys (l # ls) ((value_of_label l, v) # es)"
  by (auto simp: labelled_def)

lemma label_of_value [simp]: "is_label (value_of_label l)" "\<not> is_redacted_claim_keys_label (value_of_label l)"
  by (cases l; simp)+

lemma inj_value_of_label: "inj value_of_label"
proof (rule injI)
  fix l m :: label
  assume "value_of_label l = value_of_label m"
  then show "l = m" by (cases l; cases m) simp_all
qed

lemma restored_map:
  assumes "labelled hidden {} ls out" and "labelled hidden (set ls) ms dis"
    and "undisclosed \<noteq> [] \<longrightarrow> hidden"
  shows "restored_value hidden (VMap (out @ dis @
    (if undisclosed = [] then [] else [(redacted_claim_keys_label, VArray undisclosed)])))"
proof -
  have keys: "map fst (out @ dis) = map value_of_label (ls @ ms)" and "distinct (ls @ ms)"
    using assms by (auto simp: labelled_def)
  then have "distinct (map fst (out @ dis))"
    by (simp only: keys distinct_map) (use inj_value_of_label in \<open>auto intro: inj_on_subset\<close>)
  moreover have label: "\<exists>l. k = value_of_label l" if "k \<in> set (map fst (out @ dis))" for k
    using that unfolding keys by auto
  moreover have "redacted_claim_keys_label \<notin> set (map fst (out @ dis))"
    using label by (metis is_redacted_claim_keys_label.simps(1) label_of_value(2) redacted_claim_keys_label_def)
  moreover have "\<forall>(k, v) \<in> set (out @ dis). is_label k \<and> \<not> is_redacted_claim_keys_label k \<and> restored_value hidden v"
  proof (clarify)
    fix k v assume kv: "(k, v) \<in> set (out @ dis)"
    then obtain l where "k = value_of_label l" using label [of k] by (force simp: image_iff)
    moreover have "restored_value hidden v" using kv assms by (auto simp: labelled_def)
    ultimately show "is_label k \<and> \<not> is_redacted_claim_keys_label k \<and> restored_value hidden v" by simp
  qed
  ultimately show ?thesis using assms(3)
    by (auto simp: redacted_claim_keys_label_def split: if_splits)
qed

interpretation restored: restore_rules env
    "\<lambda>v st d w st'. restored_value (re_validate_claims env) w"
    "\<lambda>es keys st d out hs keys' st'.
       \<exists>ls. labelled (re_validate_claims env) keys ls out \<and> keys' = keys \<union> set ls"
    "\<lambda>hs keys st d out hidden st'.
       (\<exists>ls. labelled (re_validate_claims env) keys ls out) \<and> (hidden \<noteq> [] \<longrightarrow> re_validate_claims env)"
    "\<lambda>vs st d ws st'. \<forall>w \<in> set ws.
       if is_redacted_element w then re_validate_claims env else restored_value (re_validate_claims env) w" for env
proof (unfold_locales, goal_cases)
  case (1 d st st1 es out hs keys st2 dis hidden st3)
  then obtain ls ms where "labelled (re_validate_claims env) {} ls out"
    and "labelled (re_validate_claims env) (set ls) ms dis" and "hidden \<noteq> [] \<longrightarrow> re_validate_claims env"
    by auto
  then show ?case by (rule restored_map)
next
  case 7
  then show ?case by (auto dest!: sd_label_leaf intro: labelled_Cons)
next
  case 9
  then show ?case by (auto intro: labelled_Cons)
qed (auto simp: redacted_element_def intro: restored_leaf labelled_Nil dest: restored_not_element)

text \<open>Removing the hidden redactions leaves none and makes nothing larger.\<close>

lemma restored_remove: "restored_value hidden v \<Longrightarrow> restored_value False (remove_undisclosed_redactions v)"
proof (induction v rule: remove_undisclosed_redactions.induct)
  case (1 es)
  let ?es = "filter (\<lambda>(k, v). \<not> is_redacted_claim_keys_label k) es"
  have "fst \<circ> (\<lambda>(k :: value, v). (k, remove_undisclosed_redactions v)) = fst" by auto
  moreover have "distinct (map fst ?es)" using 1(2) by (simp add: distinct_map_filter)
  ultimately show ?case using 1 by (auto split: if_splits)
next
  case (2 vs)
  then show ?case by (auto dest: restored_not_element split: if_splits)
qed auto

lemma sum_list_le_filter: "(\<And>x. x \<in> set xs \<Longrightarrow> P x \<Longrightarrow> f x \<le> (g x :: nat)) \<Longrightarrow>
    sum_list (map f (filter P xs)) \<le> sum_list (map g xs)"
proof (induction xs)
  case (Cons x xs)
  then have "sum_list (map f (filter P xs)) \<le> sum_list (map g xs)" and "P x \<longrightarrow> f x \<le> g x" by simp_all
  then show ?case by auto
qed simp

lemma items_remove: "items_of (remove_undisclosed_redactions v) \<le> items_of v"
proof (induction v rule: remove_undisclosed_redactions.induct)
  case (1 es)
  have "sum_list (map (\<lambda>e. items_of (fst e) + items_of (remove_undisclosed_redactions (snd e)))
        (filter (\<lambda>e. \<not> is_redacted_claim_keys_label (fst e)) es))
      \<le> sum_list (map (\<lambda>e. items_of (fst e) + items_of (snd e)) es)"
    by (rule sum_list_le_filter) (use 1 in fastforce)
  then show ?case by (simp add: comp_def case_prod_unfold)
next
  case (2 vs)
  have "sum_list (map (items_of \<circ> remove_undisclosed_redactions) (filter (\<lambda>v. \<not> is_redacted_element v) vs))
      \<le> sum_list (map items_of vs)"
    by (rule sum_list_le_filter) (use 2 in simp)
  then show ?case by simp
qed auto

lemma nested_remove: "nested_within m d v \<Longrightarrow> nested_within m d (remove_undisclosed_redactions v)"
proof (induction v arbitrary: d rule: remove_undisclosed_redactions.induct)
  case (1 es)
  then show ?case by fastforce
next
  case (2 vs)
  then show ?case by fastforce
qed auto

section \<open>Reports\<close>

text \<open>The states and values of a successful restoration.\<close>

lemma restore_reportE:
  assumes "restore_with_protected_claims env h v pc ds = Inr rep"
  obtains pending visited st1 pc1 st2 v2 where
    "disclosure_map_new (re_limits env) h ds 0 = Inr (pending, visited)"
    and "case pc of
        None \<Rightarrow> pc1 = None \<and> st1 = \<lparr>rs_pending = pending, rs_disclosed = 0, rs_decoys = 0, rs_removed = 0,
          rs_visited = visited\<rparr>
      | Some claims \<Rightarrow> \<exists>c. pc1 = Some c \<and> restore_value env claims
          \<lparr>rs_pending = pending, rs_disclosed = 0, rs_decoys = 0, rs_removed = 0, rs_visited = visited\<rparr> 0 =
          Inr (c, st1)"
    and "restore_value env v st1 0 = Inr (v2, st2)" and "rs_pending st2 = []"
    and "rr_value rep = (if re_validate_claims env then remove_undisclosed_redactions v2 else v2)"
    and "rr_protected_claims rep =
      (if re_validate_claims env then map_option remove_undisclosed_redactions pc1 else pc1)"
    and "rr_disclosed rep = rs_disclosed st2" and "rr_decoys rep = rs_decoys st2"
    and "rr_removed_redactions rep = rs_removed st2"
proof -
  let ?st = "\<lambda>pending visited. \<lparr>rs_pending = pending, rs_disclosed = 0, rs_decoys = 0, rs_removed = 0,
    rs_visited = visited\<rparr> :: restore_state"
  from assms obtain pending visited pc1 st1 v2 st2 out pc2 where
    new: "disclosure_map_new (re_limits env) h ds 0 = Inr (pending, visited)"
    and pc: "(case pc of None \<Rightarrow> Inr (None, ?st pending visited)
        | Some claims \<Rightarrow> andThen (restore_value env claims (?st pending visited) 0)
            (\<lambda>(claims, st). Inr (Some claims, st))) = Inr (pc1, st1)"
    and main: "restore_value env v st1 0 = Inr (v2, st2)" "rs_pending st2 = []"
    and checked: "(if re_validate_claims env then
        case v2 of
          VMap entries \<Rightarrow>
            andThen (validate_matching_claims (re_cbor env) (claim_maps entries pc1))
              (\<lambda>_. Inr (remove_undisclosed_redactions v2, map_option remove_undisclosed_redactions pc1))
        | _ \<Rightarrow> Inl (Custom ''unreachable: the structural validator requires a claims map'')
        else Inr (v2, pc1)) = Inr (out, pc2)"
    and rep: "rep = \<lparr>rr_value = out, rr_protected_claims = pc2, rr_disclosed = rs_disclosed st2,
      rr_decoys = rs_decoys st2, rr_removed_redactions = rs_removed st2\<rparr>"
    unfolding restore_with_protected_claims_def Let_def
    by (auto simp: andThen_eq_Inr simp del: "value.case" split: if_splits)
  show ?thesis
  proof (rule that [OF new _ main])
    show "case pc of None \<Rightarrow> pc1 = None \<and> st1 = ?st pending visited
      | Some claims \<Rightarrow> \<exists>c. pc1 = Some c \<and> restore_value env claims (?st pending visited) 0 = Inr (c, st1)"
      using pc by (cases pc) (auto simp: andThen_eq_Inr)
    show "rr_value rep = (if re_validate_claims env then remove_undisclosed_redactions v2 else v2)"
      "rr_protected_claims rep =
        (if re_validate_claims env then map_option remove_undisclosed_redactions pc1 else pc1)"
      using checked by (cases v2; auto simp: rep andThen_eq_Inr split: if_splits)+
  qed (simp_all add: rep)
qed

text \<open>What the disclosures accepted into the map satisfy.\<close>

definition accepted_disclosures ::
  "processing_limits \<Rightarrow> disclosure list \<Rightarrow> nat \<Rightarrow> nat \<Rightarrow> bytes set \<Rightarrow> nat \<Rightarrow> bool" where
  "accepted_disclosures L ds index total_bytes salts visited \<longleftrightarrow>
     distinct (map salt ds) \<and> set (map salt ds) \<inter> salts = {} \<and>
     (ds \<noteq> [] \<longrightarrow> index + length ds \<le> max_disclosures L \<and>
       total_bytes + encoded_bytes ds \<le> max_disclosure_bytes L \<and>
       visited + presented_items ds \<le> max_items L)"

lemma item_count_result: "item_count d = Inr n \<Longrightarrow> n = kind_head (d_kind d) + kind_items (d_kind d)"
  by (cases "d_kind d") (auto simp: item_count_def kind_head_def result_simps dest!: value_item_count_ok)

lemma counting_simps [simp]:
  "encoded_bytes [] = 0" "encoded_bytes (d # ds) = length (d_encoded d) + encoded_bytes ds"
  "presented_items [] = 0"
  "presented_items (d # ds) = kind_head (d_kind d) + kind_items (d_kind d) + presented_items ds"
  by (simp_all add: encoded_bytes_def presented_items_def)

lemma disclosure_map_loop_result:
  "disclosure_map_loop L h ds index total_bytes salts entries visited = Inr (entries', visited') \<Longrightarrow>
     length entries' = length entries + length ds \<and> visited' = visited + presented_items ds \<and>
     accepted_disclosures L ds index total_bytes salts visited"
proof (induction ds arbitrary: index total_bytes salts entries visited)
  case Nil
  then show ?case by (simp add: accepted_disclosures_def)
next
  case (Cons d ds)
  let ?n = "kind_head (d_kind d) + kind_items (d_kind d)"
  from Cons.prems have step:
    "index < max_disclosures L" "total_bytes + length (d_encoded d) \<le> max_disclosure_bytes L"
    "visited + ?n \<le> max_items L" "salt d \<notin> salts"
    "length (bt_insert (redacted_hash d h) d entries) = Suc (length entries)"
    and rest: "disclosure_map_loop L h ds (index + 1) (total_bytes + length (d_encoded d))
      (insert (salt d) salts) (bt_insert (redacted_hash d h) d entries) (visited + ?n) = Inr (entries', visited')"
    by (auto simp: result_simps guards checked_add_def Let_def bt_contains_iff length_bt_insert
        split: if_splits dest!: item_count_result)
  from Cons.IH [OF rest] step show ?case by (cases ds) (auto simp: accepted_disclosures_def)
qed

section \<open>A concrete restoration\<close>

text \<open>
  One claim is disclosed, one redacted element is a decoy, and the verifier has no disclosure
  for the second redacted claim. The hasher is the identity on short encodings.
\<close>

definition demo_hasher :: hasher where
  "demo_hasher = \<lparr>hs_algorithm = ALG_SHA_256, hs_digest = (\<lambda>b. b)\<rparr>"

definition demo_restore_env :: "restore_mode \<Rightarrow> restore_env" where
  "demo_restore_env mode = \<lparr>re_cbor = ref_cbor, re_limits = default_processing_limits,
     re_mode = mode, re_validate_claims = False\<rparr>"

definition demo_redacted :: "value list \<Rightarrow> value" where
  "demo_redacted hs = VMap [(VInteger 1, VText ''iss''), (VInteger 9, VArray [VTag 60 (VBytes [2])]),
     (VSimple 59, VArray hs)]"

definition demo_disclosures :: "disclosure list" where
  "demo_disclosures =
     [\<lparr>d_kind = Claim [10] (LInt 20) (VBool True), d_encoded = [1]\<rparr>,
      \<lparr>d_kind = Decoy [11], d_encoded = [2]\<rparr>]"

definition demo_report :: "nat \<Rightarrow> restore_report" where
  "demo_report n = \<lparr>rr_value = VMap [(VInteger 1, VText ''iss''), (VInteger 9, VArray []), (VInteger 20, VBool True)],
     rr_protected_claims = None, rr_disclosed = 1, rr_decoys = 1, rr_removed_redactions = n\<rparr>"

lemmas restoration_steps = restore_with_protected_claims_def disclosure_map_new_def item_count_def
  value_item_count_def rs_enter_def tb_enter_def tb_consume_def tb_container_def checked_add_def
  redacted_hash_def SdDisclosure.salt_def bt_contains_def rs_remove_def restore_value.simps try_i64_def in_i64_def
  Let_def

lemmas demo_defs = demo_restore_env_def demo_hasher_def demo_redacted_def demo_disclosures_def
  demo_report_def default_processing_limits_def usize_limit_def is_sd_tag_def redacted_claim_keys_label_def

lemma demo_restored:
  "restore_with_protected_claims (demo_restore_env Verifier) demo_hasher
     (demo_redacted [VBytes [1], VBytes [3]]) None demo_disclosures = Inr (demo_report 1)"
  by (simp add: demo_defs restoration_steps cong: andThen_weak_cong)

lemma demo_held:
  "restore_with_protected_claims (demo_restore_env Holder) demo_hasher
     (demo_redacted [VBytes [1]]) None demo_disclosures = Inr (demo_report 0)"
  by (simp add: demo_defs restoration_steps cong: andThen_weak_cong)

section \<open>Properties\<close>

lemma report_accounts:
  assumes "restore_with_protected_claims env h v pc ds = Inr rep"
  shows "rr_disclosed rep + rr_decoys rep = length ds \<and> distinct (map salt ds) \<and>
    (re_mode env = Holder \<longrightarrow> rr_removed_redactions rep = 0)"
  using assms
proof (cases rule: restore_reportE)
  case (1 pending visited st1 pc1 st2 v2)
  let ?st = "\<lparr>rs_pending = pending, rs_disclosed = 0, rs_decoys = 0, rs_removed = 0, rs_visited = visited\<rparr>"
  have new: "length pending = length ds" "distinct (map salt ds)"
    using disclosure_map_loop_result [OF 1(1) [unfolded disclosure_map_new_def]]
    by (simp_all add: accepted_disclosures_def)
  have "accounted env ?st st1"
    using 1(2) accounts.restored(1) [OF refl, of env] by (cases pc) (auto simp: accounted_def)
  moreover have "accounted env st1 st2" by (rule accounts.restored(1) [OF refl 1(3)])
  ultimately show ?thesis using 1(4,7-9) new by (simp add: accounted_def)
qed

text \<open>
  C7. A restoration that succeeds has used every disclosure it was given exactly once, as a
  disclosed claim or element or as a decoy, and no two disclosures share a salt; a holder's
  restoration leaves no redaction behind.
\<close>

theorem restore_accounts_for_disclosures:
  assumes "restore_with_protected_claims env h v pc ds = Inr rep"
  shows "rr_disclosed rep + rr_decoys rep = length ds \<and> distinct (map salt ds) \<and>
    (re_mode env = Holder \<longrightarrow> rr_removed_redactions rep = 0)"
  using assms by (rule report_accounts)

lemma restore_accounts_for_disclosures_witness:
  "rr_disclosed (demo_report 0) + rr_decoys (demo_report 0) = length demo_disclosures \<and>
    rr_removed_redactions (demo_report 0) = 0"
  using restore_accounts_for_disclosures [OF demo_held] by (simp add: demo_restore_env_def)

lemma report_no_redactions:
  assumes "restore_with_protected_claims env h v pc ds = Inr rep"
  shows "no_redactions (rr_value rep) \<and> pred_option no_redactions (rr_protected_claims rep)"
  using assms
proof (cases rule: restore_reportE)
  case (1 pending visited st1 pc1 st2 v2)
  have kept: "no_redactions (if re_validate_claims env then remove_undisclosed_redactions w else w)"
    if "restored_value (re_validate_claims env) w" for w
    using that restored_remove by (auto simp: no_redactions_def)
  have "restored_value (re_validate_claims env) v2" by (rule restored.restored(1) [OF refl 1(3)])
  moreover have "pred_option (restored_value (re_validate_claims env)) pc1"
    using 1(2) restored.restored(1) [OF refl, of env] by (cases pc) auto
  ultimately show ?thesis using kept 1(5,6) by (cases pc1) (auto split: if_splits)
qed

text \<open>
  C6. What a restoration returns, protected claims included, has distinct labels in every map
  and no redaction marker, redacted hash or pre-issuance mark anywhere.
\<close>

theorem restore_leaves_no_redactions:
  assumes "restore_with_protected_claims env h v pc ds = Inr rep"
  shows "no_redactions (rr_value rep) \<and> pred_option no_redactions (rr_protected_claims rep)"
  using assms by (rule report_no_redactions)

lemma restore_leaves_no_redactions_witness:
  "no_redactions (VMap [(VInteger 1, VText ''iss''), (VInteger 9, VArray []), (VInteger 20, VBool True)])"
  using restore_leaves_no_redactions [OF demo_restored] by (simp add: demo_report_def)

text \<open>
  C8. The limits bound what a restoration returns, not only what it reads: the disclosures
  presented and the items of the restored claims fit in \<open>max_items\<close> together, no part is
  nested deeper than \<open>max_depth\<close>, and the disclosures are within their number and size.
\<close>

theorem restore_within_limits:
  assumes "restore_with_protected_claims env h v pc ds = Inr rep"
  shows "presented_items ds + items_of (rr_value rep) +
      (case rr_protected_claims rep of None \<Rightarrow> 0 | Some c \<Rightarrow> items_of c) \<le> max_items (re_limits env) \<and>
    nested_within (max_depth (re_limits env)) 0 (rr_value rep) \<and>
    length ds \<le> max_disclosures (re_limits env) \<and> encoded_bytes ds \<le> max_disclosure_bytes (re_limits env)"
  using assms
proof (cases rule: restore_reportE)
  case (1 pending visited st1 pc1 st2 v2)
  let ?L = "re_limits env"
  have new: "visited = presented_items ds" "length ds \<le> max_disclosures ?L" "encoded_bytes ds \<le> max_disclosure_bytes ?L"
    using disclosure_map_loop_result [OF 1(1) [unfolded disclosure_map_new_def]]
    by (cases ds; simp add: accepted_disclosures_def)+
  have pc: "visited + (case pc1 of None \<Rightarrow> 0 | Some c \<Rightarrow> items_of c) \<le> rs_visited st1"
    using 1(2) limits.restored(1) [OF refl, of env] by (cases pc) (force simp: budgeted_def)+
  have main: "rs_visited st1 + items_of v2 \<le> rs_visited st2" "rs_visited st2 \<le> max_items ?L"
    "nested_within (max_depth ?L) 0 v2"
    using limits.restored(1) [OF refl 1(3)] by (simp_all add: budgeted_def)
  have "items_of (rr_value rep) \<le> items_of v2" "nested_within (max_depth ?L) 0 (rr_value rep)"
    using items_remove main(3) nested_remove by (simp_all add: 1(5))
  moreover have "(case rr_protected_claims rep of None \<Rightarrow> 0 | Some c \<Rightarrow> items_of c) \<le>
      (case pc1 of None \<Rightarrow> 0 | Some c \<Rightarrow> items_of c)"
    using items_remove by (cases pc1) (simp_all add: 1(6))
  ultimately show ?thesis using new pc main by linarith
qed

lemma restore_within_limits_witness:
  "presented_items demo_disclosures + items_of (rr_value (demo_report 1)) \<le> max_items default_processing_limits"
  using restore_within_limits [OF demo_restored]
  by (simp add: demo_report_def demo_restore_env_def)

end
