(* ===== verification/SdProps.thy ===== *)
theory SdProps
  imports SdLaws CwtLaws Sign1Props
begin

text \<open>
  The rules of a whole SD-CWT: what a verified and restored presentation guarantees, the
  order of its dates as rational numbers, and the header of encrypted disclosures read back.
\<close>

section \<open>Dates\<close>

definition in_order :: "(rat \<Rightarrow> rat \<Rightarrow> bool) \<Rightarrow> numeric_date option \<Rightarrow> numeric_date option \<Rightarrow> bool" where
  "in_order r a b \<longleftrightarrow> (case (a, b) of (Some x, Some y) \<Rightarrow> r (nd_value x) (nd_value y) | _ \<Rightarrow> True)"

lemma cmp_Some_iff [simp]:
  "cmp x y = Greater \<longleftrightarrow> y < (x :: rat)" "cmp x y = Less \<longleftrightarrow> x < y"
  by (auto simp: cmp_def)

text \<open>
  C13. The time relationships of an SD-CWT hold exactly when, of the dates that are present,
  the rational numbers they denote satisfy \<open>nbf \<le> iat\<close>, \<open>nbf < exp\<close> and \<open>iat < exp\<close>, whether
  they are written as integers or as floats.
\<close>

theorem time_relationships_iff:
  assumes "claim_date maps CWTClaimExp ''exp'' = Inr expires"
    and "claim_date maps CWTClaimNbf ''nbf'' = Inr nbf" and "claim_date maps CWTClaimIat ''iat'' = Inr iat"
    and "pred_option nd_defined expires" and "pred_option nd_defined nbf" and "pred_option nd_defined iat"
  shows "validate_time_relationships maps = Inr () \<longleftrightarrow>
    in_order (\<le>) nbf iat \<and> in_order (<) nbf expires \<and> in_order (<) iat expires"
  using assms
  by (cases expires; cases nbf; cases iat)
    (simp_all add: validate_time_relationships_def in_order_def nd_compare_exact andThen_eq_Inr not_less)

lemma time_relationships_iff_witness:
  "validate_time_relationships
     [[(VInteger 4, VInteger 9007199254740993), (VInteger 5, VFloat (F64 0x4340000000000000))]] = Inr () \<longleftrightarrow>
   nd_value (DFloat (F64 0x4340000000000000)) < nd_value (DInteger 9007199254740993)"
proof -
  let ?maps = "[[(VInteger 4, VInteger 9007199254740993), (VInteger 5, VFloat (F64 0x4340000000000000))]]"
  have dates: "claim_date ?maps CWTClaimExp ''exp'' = Inr (Some (DInteger 9007199254740993))"
    "claim_date ?maps CWTClaimNbf ''nbf'' = Inr (Some (DFloat (F64 0x4340000000000000)))"
    "claim_date ?maps CWTClaimIat ''iat'' = Inr None"
    by code_simp+
  have ok: "nd_defined (DInteger 9007199254740993)" "nd_defined (DFloat (F64 0x4340000000000000))"
    by (simp_all add: i128_min_def i128_max_def f64_is_finite_def f64_mag_def f64_inf_mag_def hidden_bit_def)
  show ?thesis using time_relationships_iff [OF dates] ok by (simp add: in_order_def)
qed

section \<open>Encrypted disclosures in the header\<close>

definition ae_acceptable :: "aead_disclosure \<Rightarrow> bool" where
  "ae_acceptable e \<longleftrightarrow> ae_nonce e \<noteq> [] \<and> ae_ciphertext e \<noteq> [] \<and> 16 \<le> length (ae_tag e)"

definition ae_size :: "aead_disclosure \<Rightarrow> nat" where
  "ae_size e = length (ae_nonce e) + length (ae_ciphertext e) + length (ae_tag e) + context_len e"

lemma key_context_roundtrip: "key_context_from_value (key_context_value c) = Inr c"
proof (cases c)
  case (KcUint n)
  have "unat n < 2 ^ 64" using unsigned_less [of n, where 'a = nat] by simp
  then have "int (unat n) < 2 ^ 64" by (metis of_nat_less_iff of_nat_numeral of_nat_power)
  then show ?thesis by (simp add: KcUint try_u64_def in_u64_def)
qed simp_all

lemma ae_from_to_value: "ae_from_value (ae_to_value e) = Inr x \<longleftrightarrow> ae_acceptable e \<and> x = e"
  by (cases "ae_key_context e")
    (auto simp: ae_from_value_def ae_to_value_def ae_acceptable_def andThen_eq_Inr key_context_roundtrip
      map_ok_eq not_le not_less split: if_splits)

lemma traverse_ae:
  "traverse ae_from_value (map ae_to_value es) = Inr xs \<longleftrightarrow> (\<forall>e \<in> set es. ae_acceptable e) \<and> xs = es"
  by (induction es arbitrary: xs) (auto simp: ae_from_to_value andThen_eq_Inr)

lemma count_items_result: "count_items vs n = Inr m \<Longrightarrow> m = n + sum_list (map items_of vs)"
  by (induction vs arbitrary: n) (fastforce simp: result_simps dest!: value_item_count_ok)+

lemma count_items_total:
  "n + sum_list (map items_of vs) < usize_limit \<Longrightarrow> count_items vs n = Inr (n + sum_list (map items_of vs))"
  by (induction vs arbitrary: n) (auto simp: value_item_count_total checked_add_def add.assoc)

lemma total_ae_bytes_result: "total_ae_bytes es n = Inr m \<Longrightarrow> m = n + sum_list (map ae_size es)"
  by (induction es arbitrary: n) (fastforce simp: result_simps ae_size_def split: bind_splits)+

lemma total_ae_bytes_total:
  "n + sum_list (map ae_size es) < usize_limit \<Longrightarrow> total_ae_bytes es n = Inr (n + sum_list (map ae_size es))"
  by (induction es arbitrary: n) (auto simp: checked_add_def ae_size_def add.assoc)

text \<open>The encrypted disclosures that the header can carry under the limits.\<close>

definition ae_presentable :: "processing_limits \<Rightarrow> aead_disclosure list \<Rightarrow> bool" where
  "ae_presentable L es \<longleftrightarrow>
     (\<forall>e \<in> set es. ae_acceptable e) \<and> distinct (map ae_nonce es) \<and>
     length es \<le> max_disclosures L \<and> length es \<le> max_container_entries L \<and>
     1 + sum_list (map (items_of \<circ> ae_to_value) es) \<le> max_items L \<and>
     sum_list (map ae_size es) \<le> max_disclosure_bytes L"

text \<open>
  C24. Encrypted disclosures written to a header are read back unchanged exactly when each has
  a nonce, a ciphertext and a tag of at least 16 bytes, no nonce is repeated, and they fit the
  limits; none at all are read back from the header without the parameter.
\<close>

theorem encrypted_disclosures_roundtrip_iff:
  assumes "wf_bt h" and "max_items L < usize_limit" and "max_disclosure_bytes L < usize_limit"
  shows "aead_disclosures_from_unprotected (set_aead_disclosures es h) L = Inr es \<longleftrightarrow>
    es = [] \<or> ae_presentable L es"
proof (cases "es = []")
  case True
  then show ?thesis
    using assms(1) by (simp add: aead_disclosures_from_unprotected_def set_aead_disclosures_def cm_get_def
        cm_remove_def bt_get_remove)
next
  case False
  have get: "cm_get (set_aead_disclosures es h) (LInt HEADER_SD_AEAD_ENCRYPTED_CLAIMS) =
      Some (VArray (map ae_to_value es))"
    using False by (simp add: set_aead_disclosures_def cm_get_def cm_insert_def bt_get_insert)
  show ?thesis
  proof
    assume "aead_disclosures_from_unprotected (set_aead_disclosures es h) L = Inr es"
    then show "es = [] \<or> ae_presentable L es"
      using False by (auto simp: aead_disclosures_from_unprotected_def get andThen_eq_Inr traverse_ae
          ae_presentable_def not_less split: if_splits dest!: count_items_result total_ae_bytes_result)
  next
    assume "es = [] \<or> ae_presentable L es"
    then have p: "ae_presentable L es" using False by simp
    have "count_items (map ae_to_value es) 1 = Inr (1 + sum_list (map (items_of \<circ> ae_to_value) es))"
      using count_items_total [of 1 "map ae_to_value es"] p assms(2) by (simp add: ae_presentable_def)
    moreover have "total_ae_bytes es 0 = Inr (sum_list (map ae_size es))"
      using total_ae_bytes_total [of 0 es] p assms(3) by (simp add: ae_presentable_def)
    moreover have "traverse ae_from_value (map ae_to_value es) = Inr es"
      using p by (simp add: traverse_ae ae_presentable_def)
    ultimately show "aead_disclosures_from_unprotected (set_aead_disclosures es h) L = Inr es"
      using p False by (simp add: aead_disclosures_from_unprotected_def get ae_presentable_def)
  qed
qed

lemma encrypted_disclosures_roundtrip_iff_witness:
  "aead_disclosures_from_unprotected
     (set_aead_disclosures [\<lparr>ae_nonce = [1], ae_ciphertext = [2], ae_tag = replicate 16 3,
        ae_key_context = Some (KcText ''k'')\<rparr>] []) default_processing_limits =
   Inr [\<lparr>ae_nonce = [1], ae_ciphertext = [2], ae_tag = replicate 16 3, ae_key_context = Some (KcText ''k'')\<rparr>]"
proof -
  let ?es = "[\<lparr>ae_nonce = [1], ae_ciphertext = [2], ae_tag = replicate 16 3,
    ae_key_context = Some (KcText ''k'')\<rparr>]"
  have "ae_presentable default_processing_limits ?es"
    by (simp add: ae_presentable_def ae_acceptable_def ae_size_def context_len_def ae_to_value_def
        default_processing_limits_def)
  then show ?thesis
    using encrypted_disclosures_roundtrip_iff [of "[]" default_processing_limits ?es]
    by (simp add: default_processing_limits_def usize_limit_def)
qed

section \<open>A verified SD-CWT\<close>

text \<open>Disclosures travel unprotected; everything that decides how they are read is protected.\<close>

definition sd_headers_placed :: "sign1 \<Rightarrow> bool" where
  "sd_headers_placed m \<longleftrightarrow>
     (\<forall>l \<in> {HEADER_SD_CLAIMS, HEADER_SD_AEAD_ENCRYPTED_CLAIMS}. \<not> contains_key (s1_protected m) (LInt l)) \<and>
     (\<forall>l \<in> {HEADER_CWT_CLAIMS, HEADER_TYP, HEADER_SD_ALG, HEADER_SD_AEAD}.
        \<not> contains_key (s1_unprotected m) (LInt l))"

definition sd_policy :: "sign1 \<Rightarrow> bool" where
  "sd_policy m \<longleftrightarrow> sd_headers_placed m \<and> typ_ok (cm_get (s1_protected m) (LInt HEADER_TYP)) \<and>
     (\<exists>i. alg (s1_protected m) = Inr (Some (LInt i)) \<and> is_fully_specified_signature_algorithm i)"

lemma only_int_eq:
  "(case l of LText _ \<Rightarrow> Inl e | LInt i \<Rightarrow> f i) = Inr r \<longleftrightarrow> (\<exists>i. l = LInt i \<and> f i = Inr r)"
  by (cases l) auto

lemma validate_sd_headers_policy: "validate_sd_headers cb m L = Inr u \<Longrightarrow> sd_policy m"
  by (auto simp: validate_sd_headers_def andThen_eq_Inr sd_policy_def sd_headers_placed_def
      must_be_unprotected_def must_be_protected_def ok_or_eq only_int_eq split: if_splits)

text \<open>The bytes that the signature covers, for external data \<open>aad\<close>.\<close>

definition signature_accepted :: "cbor2 \<Rightarrow> verifier \<Rightarrow> sign1 \<Rightarrow> bytes option \<Rightarrow> bool" where
  "signature_accepted cb vf m aad \<longleftrightarrow> (\<exists>payload tbs. s1_payload m = Some payload \<and>
     encode_structure cb [FText ''Signature1'', FBytes (s1_protected_raw m),
       FBytes (unwrap_or_empty aad), FBytes payload] = Inr tbs \<and>
     vf_verify vf tbs (s1_signature m) = Inr ())"

lemma sd_critical_verifier_same [simp]:
  "vf_verify (sd_critical_verifier vf) = vf_verify vf" "vf_alg (sd_critical_verifier vf) = vf_alg vf"
  by (simp_all add: sd_critical_verifier_def)

lemma verify_and_decode_sound:
  assumes "verify_and_decode_sd_cwt cb vf data aad L = Inr m"
  shows "s1_from_slice_with_limits cb data (definite_cbor_limits L) = Inr m \<and> sd_policy m \<and>
    signature_accepted cb vf m aad \<and>
    check_protected_alg (s1_protected m) (s1_unprotected m) (vf_alg vf) = Inr () \<and>
    length data \<le> max_input_bytes L"
  using assms validate_sd_headers_policy [of cb m L]
  by (auto simp: verify_and_decode_sd_cwt_def andThen_eq_Inr s1_verify_ok s1_verify_payload_ok
      s1_to_be_signed_def signature_accepted_def not_less split: if_splits)

lemma only_map_eq:
  "(case v of VMap es \<Rightarrow> f es | _ \<Rightarrow> Inl e) = Inr r \<longleftrightarrow> (\<exists>es. v = VMap es \<and> f es = Inr r)"
  by (cases v) auto

lemma restore_validated_reads:
  assumes "restore_validated_headers cb sha256 opts m mode = Inr rep"
  obtains ds h v pc where
    "disclosures_from_unprotected_with_limits cb (s1_unprotected m) (so_limits opts) = Inr ds"
    and "protected_cwt_claims m = Inr pc"
    and "restore_with_protected_claims \<lparr>re_cbor = cb, re_limits = so_limits opts, re_mode = mode,
      re_validate_claims = True\<rparr> h v pc ds = Inr rep"
    and "is_ok (validate_time_relationships
      (case rr_value rep of VMap es \<Rightarrow> claim_maps es (rr_protected_claims rep) | _ \<Rightarrow> []))"
  using assms unfolding restore_validated_headers_def Let_def
  by (auto simp: andThen_eq_Inr only_map_eq is_ok_iff split: if_splits)

text \<open>
  C2. A presentation that is verified, validated and restored in one call is the decoding of
  the received bytes; the verifier accepted its signature over the protected bytes received,
  the external data and the payload; its protected header declares an SD-CWT signed with a
  fully specified algorithm and its parameters stand in the right buckets; every disclosure
  of its header is accounted for, and no redaction is left in the claims.
\<close>

theorem sd_cwt_verified_and_restored:
  assumes "verify_validate_and_restore_sd_cwt cb sha256 vf data aad mode opts = Inr (m, rep)"
  shows "s1_from_slice_with_limits cb data (definite_cbor_limits (so_limits opts)) = Inr m \<and>
    signature_accepted cb vf m aad \<and> sd_policy m \<and>
    (\<exists>ds. disclosures_from_unprotected_with_limits cb (s1_unprotected m) (so_limits opts) = Inr ds \<and>
      rr_disclosed rep + rr_decoys rep = length ds) \<and>
    no_redactions (rr_value rep)"
proof -
  from assms have v: "verify_and_decode_sd_cwt cb vf data aad (so_limits opts) = Inr m"
    and r: "restore_validated_headers cb sha256 opts m mode = Inr rep"
    by (auto simp: verify_validate_and_restore_sd_cwt_def andThen_eq_Inr)
  obtain ds h w pc where
    ds: "disclosures_from_unprotected_with_limits cb (s1_unprotected m) (so_limits opts) = Inr ds"
    and run: "restore_with_protected_claims \<lparr>re_cbor = cb, re_limits = so_limits opts, re_mode = mode,
      re_validate_claims = True\<rparr> h w pc ds = Inr rep"
    by (rule restore_validated_reads [OF r])
  show ?thesis
    using verify_and_decode_sound [OF v] ds report_accounts [OF run] report_no_redactions [OF run] by blast
qed

text \<open>A signed message with the claims \<open>iss\<close>, \<open>sub\<close> and \<open>cnf\<close>, without disclosures.\<close>

definition demo_sd_cbor :: cbor2 where
  "demo_sd_cbor = ref_cbor\<lparr>
     lib_from_slice_wire4 := (\<lambda>_ _. Inr ([0xa2, 0x01, 0x28, 0x10, 0x19, 0x01, 0x25], [],
       Some [0xa3, 0x01, 0x61, 0x69, 0x02, 0x61, 0x73, 0x08, 0xa0], [0x09])),
     lib_from_slice_map := (\<lambda>_ _. Inr [(LInt 1, VInteger (- 9)), (LInt 16, VInteger 293)]),
     lib_from_slice := (\<lambda>_. Inr (VMap [(VInteger 1, VText ''i''), (VInteger 2, VText ''s''), (VInteger 8, VMap [])]))\<rparr>"

definition demo_sd_data :: bytes where
  "demo_sd_data = [0xd2, 0x84, 0x47, 0xa2, 0x01, 0x28, 0x10, 0x19, 0x01, 0x25, 0xa0,
     0x49, 0xa3, 0x01, 0x61, 0x69, 0x02, 0x61, 0x73, 0x08, 0xa0, 0x41, 0x09]"

definition demo_sd_verifier :: verifier where
  "demo_sd_verifier = demo_verifier\<lparr>vf_alg := Some (LInt (- 9)), vf_verify := (\<lambda>_ s. if s = [9] then Inr () else Inl (Verify []))\<rparr>"

definition demo_sd_options :: sd_options where
  "demo_sd_options = \<lparr>so_issuer_identified_by_protected_header = False, so_aead_nonce_size = None,
     so_limits = default_processing_limits\<rparr>"

definition demo_sd_message :: sign1 where
  "demo_sd_message = \<lparr>s1_protected = [(LInt 1, VInteger (- 9)), (LInt 16, VInteger 293)], s1_unprotected = [],
     s1_payload = Some [0xa3, 0x01, 0x61, 0x69, 0x02, 0x61, 0x73, 0x08, 0xa0], s1_signature = [0x09],
     s1_protected_raw = [0xa2, 0x01, 0x28, 0x10, 0x19, 0x01, 0x25], s1_state = Complete\<rparr>"

lemma demo_sd_decoded:
  "s1_from_slice_with_limits demo_sd_cbor demo_sd_data (definite_cbor_limits default_processing_limits) =
     Inr demo_sd_message"
  by code_simp

lemma demo_sd_headers: "validate_sd_headers demo_sd_cbor demo_sd_message default_processing_limits = Inr ()"
  by code_simp

lemma demo_sd_signature: "s1_verify demo_sd_cbor demo_sd_message (sd_critical_verifier demo_sd_verifier) None = Inr ()"
  by code_simp

lemma demo_sd_restored:
  "is_ok (restore_validated_headers demo_sd_cbor (\<lambda>b. b) demo_sd_options demo_sd_message Holder)"
  by code_simp

lemma sd_cwt_verified_and_restored_witness:
  "\<exists>rep. verify_validate_and_restore_sd_cwt demo_sd_cbor (\<lambda>b. b) demo_sd_verifier demo_sd_data None Holder
      demo_sd_options = Inr (demo_sd_message, rep) \<and>
    signature_accepted demo_sd_cbor demo_sd_verifier demo_sd_message None \<and> no_redactions (rr_value rep)"
proof -
  obtain rep where rep: "restore_validated_headers demo_sd_cbor (\<lambda>b. b) demo_sd_options demo_sd_message Holder = Inr rep"
    using demo_sd_restored by (auto simp: is_ok_iff)
  have "so_limits demo_sd_options = default_processing_limits" by (simp add: demo_sd_options_def)
  moreover have "length demo_sd_data \<le> max_input_bytes default_processing_limits"
    by (simp add: demo_sd_data_def default_processing_limits_def)
  ultimately have run: "verify_validate_and_restore_sd_cwt demo_sd_cbor (\<lambda>b. b) demo_sd_verifier demo_sd_data None
      Holder demo_sd_options = Inr (demo_sd_message, rep)"
    by (simp add: verify_validate_and_restore_sd_cwt_def verify_and_decode_sd_cwt_def demo_sd_decoded
        demo_sd_headers demo_sd_signature rep)
  show ?thesis using sd_cwt_verified_and_restored [OF run] run by blast
qed

end
