(* ===== verification/CborTree.thy ===== *)
theory CborTree
  imports StrictLaws
begin

text \<open>
  The concrete syntax of CBOR (RFC 8949, section 3), stated apart from the parser of
  \<open>src/src/strict.rs\<close>: a tree holds every byte of an encoding, the entries of maps included,
  with the width of every head and both forms of length. \<open>tree_bytes\<close> is the encoding that a
  tree stands for, \<open>well_formed\<close> the grammar, \<open>tree_depth\<close>, \<open>tree_count\<close> and
  \<open>tree_definite\<close> what the limits speak about, \<open>item_at\<close> the item that describes a tree, and
  \<open>distinct_keys\<close> the rule for map keys.
\<close>

section \<open>Trees\<close>

text \<open>
  A node has the major type, the additional information, the argument bytes, the payload of a
  definite string and the nested data items: chunks, members, keys and values in turn, or the
  content of a tag.
\<close>

datatype cbor_tree = Node
  (t_major: u8) (t_info: u8) (t_tail: bytes) (t_payload: bytes) (t_kids: "cbor_tree list")

definition initial_byte :: "u8 \<Rightarrow> u8 \<Rightarrow> u8" where
  "initial_byte m a = (push_bit 5 m OR a)"

definition tree_argument :: "u8 \<Rightarrow> bytes \<Rightarrow> u64" where
  "tree_argument a t = (if a \<le> 23 then ucast a else fold_be t)"

definition break_bytes :: "u8 \<Rightarrow> bytes" where
  "break_bytes a = (if a = 31 then [0xff] else [])"

fun tree_bytes :: "cbor_tree \<Rightarrow> bytes" where
  "tree_bytes (Node m a t b ks) =
     initial_byte m a # t @ b @ concat (map tree_bytes ks) @ break_bytes a"

definition head_ok :: "u8 \<Rightarrow> u8 \<Rightarrow> bytes \<Rightarrow> bool" where
  "head_ok m a t \<longleftrightarrow> m < 8 \<and>
     (a \<le> 27 \<and> length t = tail_width a \<or> a = 31 \<and> t = [] \<and> 2 \<le> m \<and> m \<le> 5)"

definition body_ok :: "u8 \<Rightarrow> u8 \<Rightarrow> u64 \<Rightarrow> bytes \<Rightarrow> cbor_tree list \<Rightarrow> bool" where
  "body_ok m a n b ks \<longleftrightarrow>
     (if m = 2 \<or> m = 3 then
        (if a = 31 then b = [] \<and> (\<forall>k \<in> set ks. t_major k = m \<and> t_info k \<noteq> 31)
         else length b = unat n \<and> ks = [])
      else b = [] \<and>
        (if m = 4 then a \<noteq> 31 \<longrightarrow> length ks = unat n
         else if m = 5 then (if a = 31 then even (length ks) else length ks = 2 * unat n)
         else if m = 6 then length ks = 1
         else ks = []))"

fun well_formed :: "cbor_tree \<Rightarrow> bool" where
  "well_formed (Node m a t b ks) \<longleftrightarrow> head_ok m a t \<and> body_ok m a (tree_argument a t) b ks \<and>
     (\<forall>k \<in> set ks. well_formed k)"

section \<open>Measures\<close>

fun tree_depth :: "cbor_tree \<Rightarrow> nat" where
  "tree_depth (Node m a t b ks) = foldr (\<lambda>k n. max (Suc (tree_depth k)) n) ks 0"

fun tree_count :: "cbor_tree \<Rightarrow> nat" where
  "tree_count (Node m a t b ks) = Suc (sum_list (map tree_count ks))"

fun tree_definite :: "cbor_tree \<Rightarrow> bool" where
  "tree_definite (Node m a t b ks) \<longleftrightarrow> a \<noteq> 31 \<and> (\<forall>k \<in> set ks. tree_definite k)"

fun subtrees :: "cbor_tree \<Rightarrow> cbor_tree list" where
  "subtrees (Node m a t b ks) = Node m a t b ks # concat (map subtrees ks)"

lemma tree_depth_kid: "k \<in> set ks \<Longrightarrow> Suc (tree_depth k) \<le> tree_depth (Node m a t b ks)"
  by (induction ks) auto

lemma tree_depth_le:
  "(\<forall>k \<in> set ks. d + Suc (tree_depth k) \<le> n) \<Longrightarrow> d \<le> n \<Longrightarrow> d + tree_depth (Node m a t b ks) \<le> n"
  by (induction ks) auto

section \<open>The items of a tree\<close>

definition tree_kind :: "u8 \<Rightarrow> u8 \<Rightarrow> bytes \<Rightarrow> kind" where
  "tree_kind m a t =
     (if m = 0 then KUnsigned else if m = 1 then KNegative else if m = 2 then KBytes
      else if m = 3 then KText else if m = 4 then KArray else if m = 5 then KMap
      else if m = 6 then KTag (tree_argument a t)
      else if a \<le> 24 then KSimple (ucast (tree_argument a t)) else KFloat)"

text \<open>The item of a tree that starts at offset \<open>o\<close>; the entries of a map are not retained.\<close>

fun item_at :: "nat \<Rightarrow> cbor_tree \<Rightarrow> item" and items_at :: "nat \<Rightarrow> cbor_tree list \<Rightarrow> item list" where
  "item_at off (Node m a t b ks) = Item (tree_kind m a t) off (off + Suc (length t))
     (off + length (tree_bytes (Node m a t b ks))) (a = 31)
     (if m = 5 then [] else items_at (off + Suc (length t)) ks)"
| "items_at off [] = []"
| "items_at off (k # ks) = item_at off k # items_at (off + length (tree_bytes k)) ks"

section \<open>Map keys\<close>

fun entry_keys :: "'a list \<Rightarrow> 'a list" where
  "entry_keys (k # v # r) = k # entry_keys r"
| "entry_keys _ = []"

fun scalar_tree :: "cbor_tree \<Rightarrow> bool" where
  "scalar_tree (Node m a t b ks) \<longleftrightarrow> m = 0 \<or> m = 1 \<or> (m = 2 \<or> m = 3) \<and> a \<noteq> 31"

text \<open>
  What an integer or a definite string says, whatever the width of its head: its major type,
  its argument and its payload. Its deterministic encoding has the preferred head.
\<close>

fun scalar_data :: "cbor_tree \<Rightarrow> u8 \<times> u64 \<times> bytes" where
  "scalar_data (Node m a t b ks) = (m, tree_argument a t, b)"

fun scalar_encoding :: "cbor_tree \<Rightarrow> bytes" where
  "scalar_encoding (Node m a t b ks) = write_head m (tree_argument a t) @ b"

definition library_encoding :: "cbor2 \<Rightarrow> bytes \<Rightarrow> error + bytes" where
  "library_encoding cb raw = andThen (cbor_from_slice cb raw) (\<lambda>v. cbor_to_canonical_vec cb v)"

text \<open>
  \<open>x\<close> is the deterministic encoding of the key \<open>k\<close>: that of a scalar is defined here, and a
  key that is not a scalar in that form already must be one that the library re-encodes as \<open>x\<close>.
\<close>

definition key_encoding :: "cbor2 \<Rightarrow> cbor_tree \<Rightarrow> bytes \<Rightarrow> bool" where
  "key_encoding cb k x \<longleftrightarrow> (scalar_tree k \<longrightarrow> x = scalar_encoding k) \<and>
     (\<not> scalar_tree k \<or> tree_bytes k \<noteq> scalar_encoding k \<longrightarrow>
       library_encoding cb (tree_bytes k) = Inr x)"

text \<open>The keys of one map, and of every map in a tree, have different deterministic encodings.\<close>

definition keys_distinct :: "(cbor_tree \<Rightarrow> bytes \<Rightarrow> bool) \<Rightarrow> cbor_tree list \<Rightarrow> bool" where
  "keys_distinct enc ks \<longleftrightarrow> (\<exists>xs. list_all2 enc (entry_keys ks) xs \<and> distinct xs)"

fun map_keys_distinct :: "(cbor_tree \<Rightarrow> bytes \<Rightarrow> bool) \<Rightarrow> cbor_tree \<Rightarrow> bool" where
  "map_keys_distinct enc (Node m a t b ks) \<longleftrightarrow>
     (m = 5 \<longrightarrow> keys_distinct enc ks) \<and> (\<forall>k \<in> set ks. map_keys_distinct enc k)"

text \<open>
  The documented behaviour of the library that the comparison of keys relies on (RFC 8949,
  section 4.2): what it re-encodes a well-formed integer or definite string to has the
  preferred head.
\<close>

definition canonical_scalars :: "cbor2 \<Rightarrow> bool" where
  "canonical_scalars cb \<longleftrightarrow> (\<forall>k x. well_formed k \<longrightarrow> scalar_tree k \<longrightarrow>
     library_encoding cb (tree_bytes k) = Inr x \<longrightarrow> x = scalar_encoding k)"

end
