(* ===== verification/StrictGrammar.thy ===== *)
theory StrictGrammar
  imports CborTree
begin

text \<open>
  The strict parser of \<open>src/src/strict.rs\<close> against the grammar of concrete syntax trees: what it
  accepts is the encoding of a well-formed tree, within the limits, with different keys in every
  map. The first sections relate one step of the parser to the bytes that it has not read yet;
  they are shared with the converse, \<open>StrictComplete\<close>.
\<close>

section \<open>Unread bytes\<close>

definition advance :: "parser \<Rightarrow> nat \<Rightarrow> nat \<Rightarrow> parser" where
  "advance p n k = p\<lparr>pa_pos := pa_pos p + n, pa_items := pa_items p + k\<rparr>"

lemma advance_fields [simp]:
  "pa_data (advance p n k) = pa_data p" "pa_pos (advance p n k) = pa_pos p + n"
  "pa_items (advance p n k) = pa_items p + k" "pa_limits (advance p n k) = pa_limits p"
  "pa_reject_duplicate_keys (advance p n k) = pa_reject_duplicate_keys p"
  by (simp_all add: advance_def)

lemma advance_advance [simp]: "advance (advance p n k) n' k' = advance p (n + n') (k + k')"
  by (simp add: advance_def add.assoc)

lemma advance_0 [simp]: "advance p 0 0 = p"
  by (simp add: advance_def)

lemma skip_break_advance: "skip_break p = advance p 1 0"
  by (simp add: skip_break_def advance_def)

definition unread :: "parser \<Rightarrow> bytes \<Rightarrow> bool" where
  "unread p bs \<longleftrightarrow> (\<exists>pre. pa_data p = pre @ bs \<and> pa_pos p = length pre)"

lemma unread_advance: "unread p (a @ b) \<Longrightarrow> unread (advance p (length a) k) b"
  by (force simp: unread_def)

lemma unread_slice:
  "unread p (a @ b) \<Longrightarrow> slice (pa_data p) (pa_pos p) (pa_pos p + length a) = a"
  by (auto simp: unread_def slice_def)

lemma unread_length: "unread p bs \<Longrightarrow> pa_pos p + length bs = length (pa_data p)"
  by (auto simp: unread_def)

lemma unread_exists: "pa_pos p \<le> length (pa_data p) \<Longrightarrow> unread p (drop (pa_pos p) (pa_data p))"
  unfolding unread_def by (intro exI [of _ "take (pa_pos p) (pa_data p)"]) simp

lemma unread_same: "unread p a \<Longrightarrow> unread p b \<Longrightarrow> a = b"
  by (auto simp: unread_def)

lemma unread_prefix:
  assumes "unread p (a @ rest)" and "unread (advance p (length a) k) (b @ rest')"
  shows "unread p ((a @ b) @ rest')"
  using unread_advance [OF assms(1), of k] unread_same [OF _ assms(2)] assms(1) by simp

lemma at_break_unread: "unread p bs \<Longrightarrow> at_break p \<longleftrightarrow> (\<exists>rest. bs = 0xff # rest)"
  by (cases bs) (auto simp: unread_def at_break_def get_at_def)

section \<open>Heads\<close>

lemma info_cases:
  fixes a :: u8
  assumes "a \<le> 27"
  shows "a \<le> 23 \<or> a = 24 \<or> a = 25 \<or> a = 26 \<or> a = 27"
proof -
  have "unat a \<le> 27" using assms by (simp add: word_le_nat_alt)
  then have "unat a \<le> 23 \<or> unat a = 24 \<or> unat a = 25 \<or> unat a = 26 \<or> unat a = 27" by arith
  then show ?thesis by (simp add: word_unat_eq_iff word_le_nat_alt)
qed

lemma not_31: "(a :: u8) \<le> 27 \<Longrightarrow> a \<noteq> 31"
  by auto

lemma initial_byte_parts: "initial_byte (drop_bit 5 b) (b AND 0x1f) = b"
proof -
  have "push_bit 5 (drop_bit 5 b) OR (b AND mask 5) = b"
    by (rule bit_word_eqI) (auto simp: bit_simps)
  then show ?thesis by (simp add: initial_byte_def mask_eq_exp_minus_1)
qed

lemma initial_byte_not_break:
  assumes "m < 8" and "a \<le> 27 \<or> a = 31 \<and> m \<le> 5"
  shows "initial_byte m a \<noteq> 0xff"
proof
  assume e: "initial_byte m a = 0xff"
  have "a < 32" using assms(2) by (auto intro: order_le_less_trans)
  note f = initial_byte_fields [OF assms(1) this, folded initial_byte_def, unfolded e]
  have "m = 7" "a = 31" using f by simp_all
  then show False using assms(2) by simp
qed

lemma indefinite_majors: "\<not> (2 :: u8) \<le> 1" "\<not> (2 :: u8) \<le> 0" "\<not> (6 :: u8) \<le> 5" "\<not> (7 :: u8) \<le> 5"
  by (simp_all add: word_le_nat_alt)

lemma head_ok_fields:
  assumes "head_ok m a t"
  shows "drop_bit 5 (initial_byte m a) = m" "initial_byte m a AND 0x1f = a" "initial_byte m a \<noteq> 0xff"
proof -
  have m: "m < 8" and a: "a \<le> 27 \<or> a = 31 \<and> m \<le> 5" using assms by (auto simp: head_ok_def)
  have "a < 32" using a by (auto intro: order_le_less_trans)
  then show "drop_bit 5 (initial_byte m a) = m" "initial_byte m a AND 0x1f = a"
    unfolding initial_byte_def by (rule initial_byte_fields [OF m])+
  show "initial_byte m a \<noteq> 0xff" by (rule initial_byte_not_break [OF m a])
qed

lemma well_formed_not_break: "well_formed k \<Longrightarrow> tree_bytes k \<noteq> 0xff # bs"
  by (cases k) (auto dest: head_ok_fields(3))

lemma well_formed_nonempty: "tree_bytes k \<noteq> []"
  by (cases k) simp

text \<open>What the head of a node is to the parser.\<close>

definition tree_head :: "nat \<Rightarrow> u8 \<Rightarrow> u8 \<Rightarrow> bytes \<Rightarrow> head" where
  "tree_head start m a t = \<lparr>hd_start = start, hd_major = m, hd_additional = a,
     hd_argument = (if a = 31 then None else Some (tree_argument a t))\<rparr>"

lemma tree_head_fields [simp]:
  "hd_start (tree_head s m a t) = s" "hd_major (tree_head s m a t) = m"
  "hd_additional (tree_head s m a t) = a"
  "hd_argument (tree_head s m a t) = (if a = 31 then None else Some (tree_argument a t))"
  by (simp_all add: tree_head_def)

lemma uint_sound:
  assumes "uint a p = Inr (n, p')"
  shows "\<exists>t. (a \<le> 27 \<and> length t = tail_width a \<or> a = 31 \<and> t = []) \<and>
    n = (if a = 31 then None else Some (tree_argument a t)) \<and> p' = advance p (length t) 0 \<and>
    (pa_pos p \<le> length (pa_data p) \<longrightarrow> (\<exists>rest. unread p (t @ rest)))"
proof -
  consider "a \<le> 23" | "a = 31" "\<not> a \<le> 23" | "a \<noteq> 31" "\<not> a \<le> 23" by blast
  then show ?thesis
  proof cases
    case 1
    then have "n = Some (ucast a)" "p' = p" "a \<noteq> 31" using assms by (auto simp: uint_def)
    moreover have "a \<le> 27" using 1 by (rule order_trans) simp
    ultimately show ?thesis using 1
      by (intro exI [of _ "[]"]) (auto simp: tail_width_def tree_argument_def intro: unread_exists)
  next
    case 2
    then have "n = None" "p' = p" using assms by (auto simp: uint_def)
    then show ?thesis using 2 by (auto intro: unread_exists)
  next
    case 3
    then obtain w where w: "uint_width a = Some w" and in_data: "pa_pos p + w \<le> length (pa_data p)"
      and n: "n = Some (fold_be (slice (pa_data p) (pa_pos p) (pa_pos p + w)))"
      and p': "p' = p\<lparr>pa_pos := pa_pos p + w\<rparr>"
      using assms
      by (auto simp: uint_def result_simps get_slice_def checked_add_def split: option.splits if_splits)
    have a: "a \<le> 27" "tail_width a = w" using w 3
      by (auto simp: uint_width_def tail_width_def split: if_splits)
    let ?t = "slice (pa_data p) (pa_pos p) (pa_pos p + w)"
    have t: "length ?t = w" using in_data by simp
    have "unread p (?t @ drop (pa_pos p + w) (pa_data p))"
      unfolding unread_def using in_data
      by (intro exI [of _ "take (pa_pos p) (pa_data p)"])
        (simp add: slice_def flip: take_add append_assoc)
    then show ?thesis using 3 a n p' t
      by (intro exI [of _ ?t]) (auto simp: tree_argument_def advance_def)
  qed
qed

lemma head_sound:
  assumes "parse_head depth p = Inr (h, p1)"
  obtains m a t rest where "unread p ((initial_byte m a # t) @ rest)" "head_ok m a t"
    "h = tree_head (pa_pos p) m a t" "p1 = advance p (Suc (length t)) 1"
    "depth \<le> cl_max_depth (pa_limits p)" "cl_require_definite (pa_limits p) \<longrightarrow> a \<noteq> 31"
proof -
  obtain p1' p2 b argument where depth: "depth \<le> cl_max_depth (pa_limits p)"
    and p1': "count_item p = Inr p1'" and p2: "byte p1' = Inr (b, p2)"
    and p3: "uint (b AND 0x1f) p2 = Inr (argument, p1)"
    and none: "argument = None \<longrightarrow> 2 \<le> drop_bit 5 b \<and> drop_bit 5 b \<le> 5 \<and>
      \<not> cl_require_definite (pa_limits p1)"
    and h: "h = \<lparr>hd_start = pa_pos p1', hd_major = drop_bit 5 b,
      hd_additional = b AND 0x1f, hd_argument = argument\<rparr>"
    using assms by (auto simp: parse_head_def Let_def result_simps split: if_splits)
  have c: "p1' = advance p 0 1" using p1' by (simp add: count_item_ok advance_def)
  have first: "p2 = advance p 1 1" "unread p (b # drop (Suc (pa_pos p)) (pa_data p))"
    "pa_pos p < length (pa_data p)"
  proof -
    have "pa_pos p < length (pa_data p)" "b = pa_data p ! pa_pos p" "p2 = advance p 1 1"
      using p2 by (auto simp: c byte_def result_simps get_at_def advance_def split: if_splits)
    then show "p2 = advance p 1 1" "pa_pos p < length (pa_data p)"
      "unread p (b # drop (Suc (pa_pos p)) (pa_data p))"
      using unread_exists [of p] by (simp_all add: Cons_nth_drop_Suc)
  qed
  obtain t rest where t: "b AND 0x1f \<le> 27 \<and> length t = tail_width (b AND 0x1f) \<or> b AND 0x1f = 31 \<and> t = []"
    and n: "argument = (if b AND 0x1f = 31 then None else Some (tree_argument (b AND 0x1f) t))"
    and p': "p1 = advance p (Suc (length t)) 1" and u: "unread p2 (t @ rest)"
    using uint_sound [OF p3] first(1,3) by auto
  have "unread p (([b] @ t) @ rest)"
    using first(2) u by (intro unread_prefix [where k = 1]) (auto simp: first(1))
  then have 1: "unread p ((initial_byte (drop_bit 5 b) (b AND 0x1f) # t) @ rest)"
    by (simp add: initial_byte_parts)
  have "drop_bit 5 b < 8" using major_le_7 [of b] by (rule order_le_less_trans) simp
  then have 2: "head_ok (drop_bit 5 b) (b AND 0x1f) t" using t n none
    by (auto simp: head_ok_def)
  have 3: "h = tree_head (pa_pos p) (drop_bit 5 b) (b AND 0x1f) t"
    by (simp add: h tree_head_def n c)
  have "cl_require_definite (pa_limits p) \<longrightarrow> b AND 0x1f \<noteq> 31" using none n p' by auto
  with 1 2 3 p' depth show thesis by (rule that)
qed

section \<open>Keys\<close>

lemma fold_be_snoc: "fold_be (t @ [x]) = push_bit 8 (fold_be t) OR ucast x"
  by (simp add: fold_be_def)

lemma fold_be_bytes:
  "length t \<le> 8 \<Longrightarrow> map (\<lambda>i. ucast (drop_bit (8 * i) (fold_be t)) :: u8) (rev [0..<length t]) = t"
proof (induction t rule: rev_induct)
  case Nil
  then show ?case by simp
next
  case (snoc x t)
  let ?v = "push_bit 8 (fold_be t) OR ucast x"
  have up: "rev [0..<Suc (length t)] = map Suc (rev [0..<length t]) @ [0]"
    by (simp add: upt_conv_Cons rev_map map_Suc_upt [symmetric] del: upt_Suc)
  have high: "(ucast (drop_bit (8 * Suc i) ?v) :: u8) = ucast (drop_bit (8 * i) (fold_be t))"
    if "i < length t" for i
  proof (rule bit_word_eqI)
    fix j assume j: "j < LENGTH(8)"
    have "8 * Suc i + j < 64" "j + 8 * Suc i - 8 = 8 * i + j" using that snoc.prems j by auto
    then show "bit (ucast (drop_bit (8 * Suc i) ?v) :: u8) j =
        bit (ucast (drop_bit (8 * i) (fold_be t)) :: u8) j"
      using j by (auto simp: bit_simps add.commute dest: bit_imp_le_length)
  qed
  have low: "(ucast ?v :: u8) = x"
    by (rule bit_word_eqI) (auto simp: bit_simps)
  have "map (\<lambda>i. ucast (drop_bit (8 * Suc i) ?v) :: u8) (rev [0..<length t]) = t"
  proof -
    have "map (\<lambda>i. ucast (drop_bit (8 * Suc i) ?v) :: u8) (rev [0..<length t]) =
        map (\<lambda>i. ucast (drop_bit (8 * i) (fold_be t))) (rev [0..<length t])"
      by (intro map_cong refl high) simp
    also have "\<dots> = t" using snoc by simp
    finally show ?thesis .
  qed
  moreover have "map (\<lambda>i. ucast (drop_bit (8 * i) ?v) :: u8) (rev [0..<length (t @ [x])]) =
      map (\<lambda>i. ucast (drop_bit (8 * Suc i) ?v)) (rev [0..<length t]) @ [ucast ?v]"
    by (simp only: length_append_singleton up map_append map_map comp_def list.map mult_0_right drop_bit_0 id_apply)
  ultimately show ?case unfolding fold_be_snoc low by simp
qed

lemma fold_be_inj: "fold_be t = fold_be t' \<Longrightarrow> length t = length t' \<Longrightarrow> length t \<le> 8 \<Longrightarrow> t = t'"
proof -
  assume e: "fold_be t = fold_be t'" "length t = length t'" and l: "length t \<le> 8"
  have "t = map (\<lambda>i. ucast (drop_bit (8 * i) (fold_be t)) :: u8) (rev [0..<length t])"
    by (rule fold_be_bytes [symmetric, OF l])
  also have "\<dots> = t'" unfolding e by (rule fold_be_bytes) (use e l in simp)
  finally show "t = t'" .
qed

lemma tail_width_le: "tail_width a \<le> 8"
  by (simp add: tail_width_def)

lemma tail_width_same:
  assumes "a \<le> 27" and "a' \<le> 27" and "tail_width a = tail_width a'"
  shows "a \<le> 23 \<and> a' \<le> 23 \<or> a = a'"
  using info_cases [OF assms(1)] info_cases [OF assms(2)] assms(3)
  by (elim disjE) (simp_all add: tail_width_def)

lemma length_write_head: "length (write_head m n) = preferred_len n"
proof -
  have "n < 24 \<longleftrightarrow> n \<le> 23" unfolding word_less_nat_alt word_le_nat_alt by auto
  then show ?thesis by (simp add: write_head_def preferred_len_def Let_def)
qed

text \<open>A head of the preferred length is the head that the encoder writes.\<close>

lemma preferred_head:
  assumes "a \<le> 27" and "length t = tail_width a"
  shows "Suc (length t) = preferred_len (tree_argument a t) \<longleftrightarrow>
    initial_byte m a # t = write_head m (tree_argument a t)"
proof
  assume pref: "Suc (length t) = preferred_len (tree_argument a t)"
  obtain a' t' where w: "write_head m (tree_argument a t) = initial_byte m a' # t'" and a': "a' \<le> 27"
    and t': "length t' = tail_width a'" and n: "tree_argument a t = tree_argument a' t'"
    by (rule write_head_form [of m "tree_argument a t"]) (auto simp: initial_byte_def tree_argument_def)
  have len: "length t = length t'"
    using length_write_head [of m "tree_argument a t"] pref by (simp add: w)
  then have "a \<le> 23 \<and> a' \<le> 23 \<or> a = a'" using assms a' t' by (intro tail_width_same) simp_all
  then have aa: "a = a'"
  proof
    assume small: "a \<le> 23 \<and> a' \<le> 23"
    then have "(ucast a :: u64) = ucast a'" using n by (simp add: tree_argument_def)
    then have "(ucast (ucast a :: u64) :: u8) = ucast (ucast a' :: u64)" by simp
    moreover have "(ucast (ucast c :: u64) :: u8) = c" for c :: u8
      by (rule bit_word_eqI) (auto simp: bit_simps)
    ultimately show "a = a'" by simp
  qed
  have "t = t'"
  proof (cases "a \<le> 23")
    case True
    then show ?thesis using assms(2) len by (simp add: tail_width_def)
  next
    case False
    then show ?thesis using n aa len assms(2) tail_width_le [of a]
      by (intro fold_be_inj) (simp_all add: tree_argument_def)
  qed
  then show "initial_byte m a # t = write_head m (tree_argument a t)" unfolding w by (simp add: aa)
next
  assume e: "initial_byte m a # t = write_head m (tree_argument a t)"
  show "Suc (length t) = preferred_len (tree_argument a t)"
    using length_write_head [of m "tree_argument a t"] unfolding e [symmetric] by simp
qed

text \<open>What \<open>canonical_key\<close> returns for a key, and when that is its deterministic encoding.\<close>

definition read_key :: "cbor2 \<Rightarrow> cbor_tree \<Rightarrow> bytes \<Rightarrow> bool" where
  "read_key cb k x \<longleftrightarrow>
     (if scalar_tree k \<and> tree_bytes k = scalar_encoding k then x = tree_bytes k
      else library_encoding cb (tree_bytes k) = Inr x)"

lemma read_key_encoding:
  assumes "canonical_scalars cb" and "well_formed k" and "read_key cb k x"
  shows "key_encoding cb k x"
proof (cases "scalar_tree k \<and> tree_bytes k = scalar_encoding k")
  case True
  then show ?thesis using assms(3) by (simp add: read_key_def key_encoding_def)
next
  case False
  then have "library_encoding cb (tree_bytes k) = Inr x" using assms(3) unfolding read_key_def by presburger
  then show ?thesis using assms(1,2) unfolding canonical_scalars_def key_encoding_def by blast
qed

lemma key_encoding_read: "key_encoding cb k x \<Longrightarrow> read_key cb k x"
  by (cases "scalar_tree k \<and> tree_bytes k = scalar_encoding k") (simp_all add: read_key_def key_encoding_def)

lemma item_at_fields [simp]:
  "it_start (item_at off k) = off" "it_end (item_at off k) = off + length (tree_bytes k)"
  "it_kind (item_at off k) = tree_kind (t_major k) (t_info k) (t_tail k)"
  "it_content_start (item_at off k) = off + Suc (length (t_tail k))"
  "it_indefinite (item_at off k) \<longleftrightarrow> t_info k = 31"
  unfolding atomize_conj by (cases k) simp

lemma canonical_key_tree:
  assumes wf: "well_formed k" and u: "unread q (tree_bytes k @ rest)"
  shows "canonical_key cb (pa_data q) (item_at (pa_pos q) k) = Inr x \<longleftrightarrow> read_key cb k x"
proof -
  obtain m a t b ks where k: "k = Node m a t b ks" by (cases k)
  let ?head = "initial_byte m a # t"
  have hd: "head_ok m a t" and body: "body_ok m a (tree_argument a t) b ks" using wf k by simp_all
  have s: "slice (pa_data q) (pa_pos q) (pa_pos q + length (tree_bytes k)) = tree_bytes k"
    by (rule unread_slice [OF u])
  have h: "take (Suc (length t)) (tree_bytes k) = ?head" by (simp add: k)
  have arg: "head_argument ?head = tree_argument a t"
    by (simp add: head_argument_def tree_argument_def head_ok_fields [OF hd])
  have width: "it_content_start (item_at (pa_pos q) k) - pa_pos q = Suc (length t)" by (simp add: k)
  have scalar: "scalar_key (item_at (pa_pos q) k) \<longleftrightarrow> scalar_tree k"
    by (simp add: scalar_key_def k tree_kind_def)
  have pref: "Suc (length t) = preferred_len (tree_argument a t) \<longleftrightarrow> tree_bytes k = scalar_encoding k"
    if "scalar_tree k"
  proof -
    have "a \<noteq> 31" "ks = []" using that hd body 
      by (auto simp: k head_ok_def body_ok_def indefinite_majors split: if_splits)
    then have a: "a \<le> 27" "length t = tail_width a" and bytes: "tree_bytes k = ?head @ b"
      using hd by (auto simp: head_ok_def k break_bytes_def)
    have "scalar_encoding k = write_head m (tree_argument a t) @ b" by (simp add: k)
    then show ?thesis unfolding bytes preferred_head [OF a, of m] by (simp only: append_same_eq)
  qed
  have "canonical_key cb (pa_data q) (item_at (pa_pos q) k) =
      (if scalar_tree k \<and> Suc (length t) = preferred_len (tree_argument a t) then Inr (tree_bytes k)
       else library_encoding cb (tree_bytes k))"
    by (simp only: canonical_key_def Let_def item_at_fields(1,2) s width h arg scalar library_encoding_def
        list.size(4) add_0_right add_Suc_right One_nat_def)
  then show ?thesis using pref by (auto simp: read_key_def)
qed

section \<open>Soundness of the loops\<close>

text \<open>The tree \<open>t\<close> keeps the limits of the parser when it stands at nesting \<open>depth\<close>.\<close>

definition within :: "cbor2 \<Rightarrow> parser \<Rightarrow> nat \<Rightarrow> cbor_tree \<Rightarrow> bool" where
  "within cb p depth t \<longleftrightarrow> well_formed t \<and> depth + tree_depth t \<le> cl_max_depth (pa_limits p) \<and>
     (cl_require_definite (pa_limits p) \<longrightarrow> tree_definite t) \<and>
     (pa_reject_duplicate_keys p \<longrightarrow> map_keys_distinct (read_key cb) t)"

lemma within_advance [simp]: "within cb (advance p n k) depth t = within cb p depth t"
  by (simp add: within_def)

text \<open>From \<open>p\<close> to \<open>p'\<close> the parser has read the encoding of \<open>t\<close>, and the item describes it.\<close>

definition spells :: "cbor2 \<Rightarrow> nat \<Rightarrow> parser \<Rightarrow> cbor_tree \<Rightarrow> item \<Rightarrow> parser \<Rightarrow> bool" where
  "spells cb depth p t it p' \<longleftrightarrow> within cb p depth t \<and> (\<exists>rest. unread p (tree_bytes t @ rest)) \<and>
     it = item_at (pa_pos p) t \<and> p' = advance p (length (tree_bytes t)) (tree_count t)"

definition spells_all ::
  "cbor2 \<Rightarrow> nat \<Rightarrow> parser \<Rightarrow> cbor_tree list \<Rightarrow> item list \<Rightarrow> parser \<Rightarrow> bool" where
  "spells_all cb depth p ts its p' \<longleftrightarrow> (\<forall>t \<in> set ts. within cb p depth t) \<and>
     (\<exists>rest. unread p (concat (map tree_bytes ts) @ rest)) \<and> its = items_at (pa_pos p) ts \<and>
     p' = advance p (length (concat (map tree_bytes ts))) (sum_list (map tree_count ts))"

definition child_sound :: "cbor2 \<Rightarrow> nat \<Rightarrow> child_parser \<Rightarrow> bool" where
  "child_sound cb depth child \<longleftrightarrow>
     (\<forall>p it p'. child p = Some (Inr (it, p')) \<longrightarrow> (\<exists>t. spells cb depth p t it p'))"

lemma child_soundE:
  assumes "child_sound cb depth child" and "child p = Some (Inr (it, p'))"
  obtains t where "spells cb depth p t it p'"
  using assms unfolding child_sound_def by blast

lemma spells_all_Nil: "unread p bs \<Longrightarrow> spells_all cb depth p [] [] p"
  by (auto simp: spells_all_def)

lemma spells_all_Cons:
  assumes "spells cb depth p t it p1" and "spells_all cb depth p1 ts its p'"
  shows "spells_all cb depth p (t # ts) (it # its) p'"
proof -
  obtain rest where "unread p (tree_bytes t @ rest)" using assms(1) by (auto simp: spells_def)
  moreover obtain rest' where
    "unread (advance p (length (tree_bytes t)) (tree_count t)) (concat (map tree_bytes ts) @ rest')"
    using assms by (auto simp: spells_def spells_all_def)
  ultimately have "unread p ((tree_bytes t @ concat (map tree_bytes ts)) @ rest')"
    by (rule unread_prefix)
  then show ?thesis using assms by (auto simp: spells_def spells_all_def)
qed

lemma spells_unread:
  assumes "spells cb depth p t it p'"
  obtains bs where "unread p' bs"
  using assms by (auto simp: spells_def dest: unread_advance)

lemma items_at_kinds:
  "(\<forall>c \<in> set (items_at off ts). it_kind c = kd \<and> \<not> it_indefinite c) \<longleftrightarrow>
    (\<forall>t \<in> set ts. tree_kind (t_major t) (t_info t) (t_tail t) = kd \<and> t_info t \<noteq> 31)"
  by (induction ts arbitrary: off) auto

lemma parse_chunks_sound:
  assumes child: "child_sound cb depth child"
  shows "parse_chunks child fuel kd p = Some (Inr (its, p')) \<Longrightarrow> unread p bs \<Longrightarrow>
    \<exists>ts q. spells_all cb depth p ts its q \<and> closes q p' \<and>
      (\<forall>c \<in> set its. it_kind c = kd \<and> \<not> it_indefinite c)"
proof (induction fuel arbitrary: p its p' bs)
  case 0
  then show ?case by simp
next
  case (Suc fuel)
  show ?case
  proof (cases "at_break p")
    case True
    then show ?thesis using Suc.prems spells_all_Nil [OF Suc.prems(2)]
      by (auto simp: closes_def intro!: exI [of _ "[]"] exI [of _ p])
  next
    case False
    then obtain c p1 r where c: "child p = Some (Inr (c, p1))" "it_kind c = kd" "\<not> it_indefinite c"
      and rest: "parse_chunks child fuel kd p1 = Some (Inr (r, p'))" and its: "its = c # r"
      using Suc.prems by (auto simp: result_simps split: if_splits)
    obtain t where t: "spells cb depth p t c p1" by (rule child_soundE [OF child c(1)])
    obtain bs1 where "unread p1 bs1" by (rule spells_unread [OF t])
    from Suc.IH [OF rest this] spells_all_Cons [OF t] c show ?thesis unfolding its by fastforce
  qed
qed

lemma parse_members_sound:
  assumes child: "child_sound cb depth child"
  shows "parse_members child fuel remaining p = Some (Inr (its, p')) \<Longrightarrow> unread p bs \<Longrightarrow>
    \<exists>ts q. spells_all cb depth p ts its q \<and>
      (case remaining of None \<Rightarrow> closes q p' | Some n \<Rightarrow> q = p' \<and> length ts = n)"
proof (induction fuel arbitrary: remaining p its p' bs)
  case 0
  then show ?case by simp
next
  case (Suc fuel)
  show ?case
  proof (cases "remaining = Some 0 \<or> remaining = None \<and> at_break p")
    case True
    then show ?thesis using Suc.prems spells_all_Nil [OF Suc.prems(2)]
      by (auto simp: closes_def intro!: exI [of _ "[]"] exI [of _ p])
  next
    case False
    then obtain c p1 r where c: "child p = Some (Inr (c, p1))"
      and rest: "parse_members child fuel (map_option (\<lambda>n. n - 1) remaining) p1 = Some (Inr (r, p'))"
      and its: "its = c # r"
      using Suc.prems by (auto simp: result_simps split: if_splits)
    obtain t where t: "spells cb depth p t c p1" by (rule child_soundE [OF child c(1)])
    obtain bs1 where "unread p1 bs1" by (rule spells_unread [OF t])
    from Suc.IH [OF rest this] obtain ts q where ts: "spells_all cb depth p1 ts r q"
      "case map_option (\<lambda>n. n - 1) remaining of None \<Rightarrow> closes q p' | Some n \<Rightarrow> q = p' \<and> length ts = n"
      by blast
    show ?thesis unfolding its using spells_all_Cons [OF t ts(1)] ts(2) False
      by (intro exI [of _ "t # ts"] exI [of _ q]) (auto split: option.splits)
  qed
qed

section \<open>Soundness of maps\<close>

lemma insert_key_ok:
  "insert_key cb (Some seen) key p = Inr keys' \<longleftrightarrow>
    (\<exists>k. canonical_key cb (pa_data p) key = Inr k \<and> k \<notin> seen \<and> keys' = Some (insert k seen))"
  by (auto simp: insert_key_def result_simps)

text \<open>The keys of the entries still to come are new: different from each other and from \<open>seen\<close>.\<close>

definition new_keys :: "cbor2 \<Rightarrow> bytes set option \<Rightarrow> cbor_tree list \<Rightarrow> bool" where
  "new_keys cb keys ts \<longleftrightarrow> (\<forall>seen. keys = Some seen \<longrightarrow>
     (\<exists>xs. list_all2 (read_key cb) (entry_keys ts) xs \<and> distinct xs \<and> set xs \<inter> seen = {}))"

lemma new_keys_Nil: "new_keys cb keys []"
  by (simp add: new_keys_def)

lemma new_keys_step:
  assumes t: "spells cb depth p t key p1" and ins: "insert_key cb keys key p1 = Inr keys'"
    and rest: "new_keys cb keys' ts"
  shows "new_keys cb keys (t # v # ts)"
  unfolding new_keys_def
proof (intro allI impI)
  fix seen assume s: "keys = Some seen"
  obtain r where wf: "well_formed t" and u: "unread p (tree_bytes t @ r)"
    and key: "key = item_at (pa_pos p) t" and p1: "pa_data p1 = pa_data p"
    using t by (auto simp: spells_def within_def)
  from ins obtain x where x: "canonical_key cb (pa_data p1) key = Inr x" "x \<notin> seen"
    "keys' = Some (insert x seen)" by (auto simp: s insert_key_ok)
  have "read_key cb t x" using x(1) canonical_key_tree [OF wf u] by (simp add: key p1)
  moreover obtain xs where "list_all2 (read_key cb) (entry_keys ts) xs" "distinct xs"
    "set xs \<inter> insert x seen = {}" using rest x(3) by (auto simp: new_keys_def)
  ultimately show "\<exists>xs. list_all2 (read_key cb) (entry_keys (t # v # ts)) xs \<and> distinct xs \<and>
      set xs \<inter> seen = {}"
    using x(2) by (intro exI [of _ "x # xs"]) auto
qed

lemma parse_entries_sound:
  assumes child: "child_sound cb depth child"
  shows "parse_entries cb child fuel pairs parsed keys p = Some (Inr p') \<Longrightarrow> unread p bs \<Longrightarrow>
    \<exists>ts its q. spells_all cb depth p ts its q \<and> even (length ts) \<and> new_keys cb keys ts \<and>
      (case pairs of None \<Rightarrow> closes q p' | Some n \<Rightarrow> q = p' \<and> 2 * parsed + length ts = 2 * n)"
proof (induction fuel arbitrary: parsed keys p bs)
  case 0
  then show ?case by simp
next
  case (Suc fuel)
  show ?case
  proof (cases "pairs = Some parsed \<or> pairs = None \<and> at_break p")
    case True
    then show ?thesis using Suc.prems spells_all_Nil [OF Suc.prems(2)]
      by (auto simp: closes_def new_keys_Nil split: if_splits
          intro!: exI [of _ "[]"] exI [of _ p])
  next
    case False
    then obtain key p1 keys' v p2 where key: "child p = Some (Inr (key, p1))"
      and ins: "insert_key cb keys key p1 = Inr keys'" and v: "child p1 = Some (Inr (v, p2))"
      and rest: "parse_entries cb child fuel pairs (parsed + 1) keys' p2 = Some (Inr p')"
      using Suc.prems by (auto simp: result_simps split: if_splits)
    obtain t where t: "spells cb depth p t key p1" by (rule child_soundE [OF child key])
    obtain t' where t': "spells cb depth p1 t' v p2" by (rule child_soundE [OF child v])
    obtain bs2 where "unread p2 bs2" by (rule spells_unread [OF t'])
    from Suc.IH [OF rest this] obtain ts its q where ts: "spells_all cb depth p2 ts its q"
      "even (length ts)" "new_keys cb keys' ts"
      "case pairs of None \<Rightarrow> closes q p' | Some n \<Rightarrow> q = p' \<and> 2 * (parsed + 1) + length ts = 2 * n"
      by blast
    show ?thesis
      using spells_all_Cons [OF t spells_all_Cons [OF t' ts(1)]] new_keys_step [OF t ins ts(3)] ts(2,4)
      by (intro exI [of _ "t # t' # ts"] exI [of _ "key # v # its"] exI [of _ q])
        (auto split: option.splits)
  qed
qed

section \<open>Soundness of the contents\<close>

text \<open>What follows the head of a node: its payload, its nested items and a break.\<close>

definition body_bytes :: "u8 \<Rightarrow> bytes \<Rightarrow> cbor_tree list \<Rightarrow> bytes" where
  "body_bytes a b ks = b @ concat (map tree_bytes ks) @ break_bytes a"

definition content_spells ::
  "cbor2 \<Rightarrow> nat \<Rightarrow> parser \<Rightarrow> u8 \<Rightarrow> u8 \<Rightarrow> bytes \<Rightarrow> bytes \<Rightarrow> cbor_tree list \<Rightarrow> kind \<Rightarrow> item list \<Rightarrow> parser \<Rightarrow> bool"
where
  "content_spells cb depth p m a t b ks kd its p' \<longleftrightarrow> body_ok m a (tree_argument a t) b ks \<and>
     (\<exists>rest. unread p (body_bytes a b ks @ rest)) \<and> kd = tree_kind m a t \<and>
     its = (if m = 5 then [] else items_at (pa_pos p) ks) \<and>
     p' = advance p (length (body_bytes a b ks)) (sum_list (map tree_count ks)) \<and>
     (\<forall>k \<in> set ks. within cb p depth k) \<and>
     (m = 5 \<and> pa_reject_duplicate_keys p \<longrightarrow> keys_distinct (read_key cb) ks)"

text \<open>A run of items, closed by a break when the length is indefinite.\<close>

lemma closed_run:
  assumes "spells_all cb depth p ks its q" and "if a = 31 then closes q p' else q = p'"
  shows "\<exists>rest. unread p (body_bytes a [] ks @ rest)"
    and "p' = advance p (length (body_bytes a [] ks)) (sum_list (map tree_count ks))"
proof -
  let ?ks = "concat (map tree_bytes ks)"
  obtain rest where u: "unread p (?ks @ rest)"
    and q: "q = advance p (length ?ks) (sum_list (map tree_count ks))"
    using assms(1) by (auto simp: spells_all_def)
  show "\<exists>rest. unread p (body_bytes a [] ks @ rest)"
  proof (cases "a = 31")
    case True
    then have "at_break q" using assms(2) by (simp add: closes_def)
    then obtain r where "rest = 0xff # r"
      using at_break_unread [of q rest] unread_advance [OF u] by (auto simp: q)
    then show ?thesis using u True by (auto simp: body_bytes_def break_bytes_def)
  next
    case False
    then show ?thesis using u by (auto simp: body_bytes_def break_bytes_def)
  qed
  show "p' = advance p (length (body_bytes a [] ks)) (sum_list (map tree_count ks))"
    using assms(2) by (auto simp: body_bytes_def break_bytes_def q closes_def skip_break_advance split: if_splits)
qed

lemma run_content:
  assumes run: "spells_all cb depth p ks its q" and fin: "if a = 31 then closes q p' else q = p'"
    and body: "body_ok m a (tree_argument a t) [] ks" and kd: "kd = tree_kind m a t"
    and keys: "m = 5 \<Longrightarrow> pa_reject_duplicate_keys p \<Longrightarrow> keys_distinct (read_key cb) ks"
  shows "content_spells cb depth p m a t [] ks kd (if m = 5 then [] else its) p'"
  using closed_run [OF run fin] run body kd keys by (auto simp: content_spells_def spells_all_def)

lemma plain_content_sound:
  assumes "m \<in> {0, 1, 7}" and "unread p bs" and "head_ok m a t" and "kd = tree_kind m a t"
  shows "content_spells cb depth p m a t [] [] kd [] p"
proof -
  have "a \<noteq> 31" using assms(1,3) by (auto simp: head_ok_def indefinite_majors)
  then show ?thesis using assms
    by (auto simp: content_spells_def body_bytes_def break_bytes_def body_ok_def)
qed

lemma parse_string_sound:
  assumes child: "child_sound cb depth child" and m: "m = 2 \<and> kd = KBytes \<or> m = 3 \<and> kd = KText"
    and u: "unread p bs"
    and res: "parse_string child kd (if a = 31 then None else Some (tree_argument a t)) p =
      Some (Inr (k, its, p'))"
  shows "\<exists>b ks. content_spells cb depth p m a t b ks k its p'"
proof (cases "a = 31")
  case True
  then obtain fuel where k: "k = kd" and c: "parse_chunks child fuel kd p = Some (Inr (its, p'))"
    using res by (auto simp: parse_string_def result_simps)
  from parse_chunks_sound [OF child c u] obtain ts q where ts: "spells_all cb depth p ts its q"
    "closes q p'" and kinds: "\<forall>c \<in> set its. it_kind c = kd \<and> \<not> it_indefinite c" by blast
  have "\<forall>t \<in> set ts. tree_kind (t_major t) (t_info t) (t_tail t) = kd \<and> t_info t \<noteq> 31"
    using kinds ts(1) items_at_kinds [of "pa_pos p" ts kd] by (simp add: spells_all_def)
  then have "\<forall>t \<in> set ts. t_major t = m \<and> t_info t \<noteq> 31"
    using m by (auto simp: tree_kind_def split: if_splits)
  then have "body_ok m a (tree_argument a t) [] ts" using m True by (auto simp: body_ok_def)
  moreover have "k = tree_kind m a t" using m k by (auto simp: tree_kind_def)
  ultimately have "content_spells cb depth p m a t [] ts k (if m = 5 then [] else its) p'"
    using ts True m by (intro run_content [OF ts(1)]) auto
  then show ?thesis using m by (intro exI [of _ "[]"] exI [of _ ts]) auto
next
  case False
  let ?l = "unat (tree_argument a t)"
  have k: "k = kd" "its = []" and p': "p' = p\<lparr>pa_pos := pa_pos p + ?l\<rparr>"
    and fits: "pa_pos p + ?l \<le> length (pa_data p)"
    using res False
    by (auto simp: parse_string_def result_simps skip_string_def length_arg_def checked_add_def
        split: option.splits if_splits)
  have bs: "?l \<le> length bs" using fits unread_length [OF u] by simp
  then have "unread p (take ?l bs @ drop ?l bs)" using u by simp
  then show ?thesis using False m k p' bs
    by (intro exI [of _ "take ?l bs"] exI [of _ "[]"])
      (auto simp: content_spells_def body_bytes_def break_bytes_def body_ok_def tree_kind_def advance_def
        simp del: append_take_drop_id)
qed

lemma parse_array_sound:
  assumes child: "child_sound cb depth child" and u: "unread p bs"
    and res: "parse_array child (if a = 31 then None else Some (tree_argument a t)) p =
      Some (Inr (k, its, p'))"
  shows "\<exists>b ks. content_spells cb depth p 4 a t b ks k its p'"
proof -
  obtain len fuel where k: "k = KArray"
    and len: "len = (if a = 31 then None else Some (unat (tree_argument a t)))"
    and c: "parse_members child fuel len p = Some (Inr (its, p'))"
    using res by (auto simp: parse_array_def result_simps length_arg_def split: if_splits)
  from parse_members_sound [OF child c u] obtain ts q where ts: "spells_all cb depth p ts its q"
    "case len of None \<Rightarrow> closes q p' | Some n \<Rightarrow> q = p' \<and> length ts = n" by blast
  have "content_spells cb depth p 4 a t [] ts k (if (4 :: u8) = 5 then [] else its) p'"
    using ts(2) k by (intro run_content [OF ts(1)])
      (auto simp: len body_ok_def tree_kind_def split: if_splits)
  then show ?thesis by auto
qed

lemma parse_map_sound:
  assumes child: "child_sound cb depth child" and u: "unread p bs"
    and res: "parse_map cb child (if a = 31 then None else Some (tree_argument a t)) p =
      Some (Inr (k, its, p'))"
  shows "\<exists>b ks. content_spells cb depth p 5 a t b ks k its p'"
proof -
  let ?keys = "if pa_reject_duplicate_keys p then Some {} else None"
  obtain pairs fuel where k: "k = KMap" "its = []"
    and pairs: "pairs = (if a = 31 then None else Some (unat (tree_argument a t)))"
    and c: "parse_entries cb child fuel pairs 0 ?keys p = Some (Inr p')"
    using res by (auto simp: parse_map_def result_simps length_arg_def split: if_splits)
  from parse_entries_sound [OF child c u] obtain ts ys q where ts: "spells_all cb depth p ts ys q"
    "even (length ts)" and keys: "new_keys cb ?keys ts"
    and fin: "case pairs of None \<Rightarrow> closes q p' | Some n \<Rightarrow> q = p' \<and> 2 * 0 + length ts = 2 * n"
    by blast
  have "keys_distinct (read_key cb) ts" if "pa_reject_duplicate_keys p"
    using keys that by (auto simp: new_keys_def keys_distinct_def)
  then have "content_spells cb depth p 5 a t [] ts k (if (5 :: u8) = 5 then [] else ys) p'"
    using ts(2) k fin by (intro run_content [OF ts(1)])
      (auto simp: pairs body_ok_def tree_kind_def split: if_splits)
  then show ?thesis using k by auto
qed

lemma parse_tag_sound:
  assumes child: "child_sound cb depth child" and "head_ok 6 a t"
    and res: "parse_tag child (if a = 31 then None else Some (tree_argument a t)) p =
      Some (Inr (k, its, p'))"
  shows "\<exists>b ks. content_spells cb depth p 6 a t b ks k its p'"
proof -
  have a: "a \<noteq> 31" using assms(2) by (auto simp: head_ok_def indefinite_majors)
  obtain inner where k: "k = KTag (tree_argument a t)" "its = [inner]"
    and c: "child p = Some (Inr (inner, p'))"
    using res a by (auto simp: parse_tag_def result_simps)
  obtain s where s: "spells cb depth p s inner p'" by (rule child_soundE [OF child c])
  obtain bs where "unread p' bs" by (rule spells_unread [OF s])
  then have "spells_all cb depth p [s] [inner] p'"
    by (intro spells_all_Cons [OF s] spells_all_Nil)
  then have "content_spells cb depth p 6 a t [] [s] k (if (6 :: u8) = 5 then [] else [inner]) p'"
    using a k by (intro run_content) (auto simp: body_ok_def tree_kind_def)
  then show ?thesis using k by auto
qed

lemma ucast_u8_u64: "(ucast (ucast a :: u64) :: u8) = a"
  by (rule bit_word_eqI) (auto simp: bit_simps)

lemma info_small: "(a :: u8) \<le> 23 \<Longrightarrow> a \<le> 24"
  by (erule order_trans) simp

lemma simple_kind_sound:
  "simple_kind a (Some (tree_argument a t)) p = Inr kd \<Longrightarrow> a \<le> 27 \<Longrightarrow> kd = tree_kind 7 a t"
  by (drule info_cases, elim disjE)
    (auto simp: simple_kind_def tree_kind_def tree_argument_def ucast_u8_u64 result_simps info_small split: if_splits)

lemma parse_content_sound:
  assumes child: "child_sound cb depth child" and u: "unread p bs" and hd: "head_ok m a t"
    and res: "parse_content cb child (tree_head s m a t) p = Some (Inr (kd, its, p'))"
  shows "\<exists>b ks. content_spells cb depth p m a t b ks kd its p'"
proof -
  have "m < 8" using hd by (simp add: head_ok_def)
  then have "m \<le> 7" by (simp add: word_less_nat_alt word_le_nat_alt)
  then consider "m = 0" | "m = 1" | "m = 2" | "m = 3" | "m = 4" | "m = 5" | "m = 6" | "m = 7"
    using u8_major_7 by blast
  then show ?thesis
  proof cases
    case 1
    then show ?thesis using res plain_content_sound [of m p bs a t kd cb depth] u hd
      by (auto simp: parse_content_def result_simps tree_kind_def)
  next
    case 2
    then show ?thesis using res plain_content_sound [of m p bs a t kd cb depth] u hd
      by (auto simp: parse_content_def result_simps tree_kind_def)
  next
    case 3
    then show ?thesis using res
      by (intro parse_string_sound [OF child _ u, where kd = KBytes]) (auto simp: parse_content_def)
  next
    case 4
    then show ?thesis using res
      by (intro parse_string_sound [OF child _ u, where kd = KText]) (auto simp: parse_content_def)
  next
    case 5
    show ?thesis using res unfolding 5
      by (intro parse_array_sound [OF child u]) (simp add: parse_content_def)
  next
    case 6
    show ?thesis using res unfolding 6
      by (intro parse_map_sound [OF child u]) (simp add: parse_content_def)
  next
    case 7
    show ?thesis using res hd unfolding 7
      by (intro parse_tag_sound [OF child]) (simp_all add: parse_content_def)
  next
    case 8
    then have a: "a \<le> 27" "a \<noteq> 31" using hd by (auto simp: head_ok_def indefinite_majors)
    then have "simple_kind a (Some (tree_argument a t)) p = Inr kd" "its = []" "p' = p"
      using res 8 by (auto simp: parse_content_def result_simps)
    then show ?thesis
      using plain_content_sound [of m p bs a t kd cb depth] u hd 8 simple_kind_sound a(1) by fastforce
  qed
qed

section \<open>Soundness of the parser\<close>

text \<open>A node whose content has been read is within the limits.\<close>

lemma node_within:
  assumes c: "content_spells cb (depth + 1) (advance p n j) m a t b ks kd its p'" and hd: "head_ok m a t"
    and "depth \<le> cl_max_depth (pa_limits p)" and "cl_require_definite (pa_limits p) \<longrightarrow> a \<noteq> 31"
  shows "within cb p depth (Node m a t b ks)"
proof -
  have ks: "\<forall>k \<in> set ks. within cb p (depth + 1) k" and body: "body_ok m a (tree_argument a t) b ks"
    and keys: "m = 5 \<and> pa_reject_duplicate_keys p \<longrightarrow> keys_distinct (read_key cb) ks"
    using c by (simp_all add: content_spells_def)
  have "depth + tree_depth (Node m a t b ks) \<le> cl_max_depth (pa_limits p)"
    using ks assms(3) by (intro tree_depth_le) (auto simp: within_def)
  then show ?thesis using ks body hd keys assms(4) by (auto simp: within_def simp del: tree_depth.simps)
qed

lemma child_sound_parse: "child_sound cb depth (parse cb fuel depth)"
proof (induction fuel arbitrary: depth)
  case 0
  then show ?case by (simp add: child_sound_def)
next
  case (Suc fuel)
  show ?case unfolding child_sound_def
  proof (intro allI impI)
    fix p it p'
    assume "parse cb (Suc fuel) depth p = Some (Inr (it, p'))"
    then obtain h p1 kd its where head: "parse_head depth p = Inr (h, p1)"
      and content: "parse_content cb (parse cb fuel (depth + 1)) h p1 = Some (Inr (kd, its, p'))"
      and it: "it = Item kd (hd_start h) (pa_pos p1) (pa_pos p') (hd_argument h = None) its"
      by (auto simp: result_simps)
    obtain m a t rest where u: "unread p ((initial_byte m a # t) @ rest)" and hd: "head_ok m a t"
      and h: "h = tree_head (pa_pos p) m a t" and p1: "p1 = advance p (Suc (length t)) 1"
      and lim: "depth \<le> cl_max_depth (pa_limits p)" "cl_require_definite (pa_limits p) \<longrightarrow> a \<noteq> 31"
      by (rule head_sound [OF head])
    have u1: "unread p1 rest" using unread_advance [OF u] by (simp add: p1)
    from parse_content_sound [OF Suc.IH u1 hd content [unfolded h]] obtain b ks
      where c: "content_spells cb (depth + 1) p1 m a t b ks kd its p'" by blast
    let ?t = "Node m a t b ks"
    have bytes: "tree_bytes ?t = (initial_byte m a # t) @ body_bytes a b ks"
      by (simp add: body_bytes_def)
    obtain rest' where "unread p1 (body_bytes a b ks @ rest')" using c by (auto simp: content_spells_def)
    then have "unread p (((initial_byte m a # t) @ body_bytes a b ks) @ rest')"
      using unread_prefix [OF u] by (simp add: p1)
    then have "\<exists>rest. unread p (tree_bytes ?t @ rest)" unfolding bytes by blast
    moreover have "within cb p depth ?t" using node_within [OF c [unfolded p1] hd lim] .
    moreover have p': "p' = advance p (length (tree_bytes ?t)) (tree_count ?t)"
      using c unfolding bytes by (simp add: content_spells_def p1)
    moreover have "it = item_at (pa_pos p) ?t"
      using c unfolding it p' h by (simp add: content_spells_def p1 body_bytes_def)
    ultimately show "\<exists>t. spells cb depth p t it p'" unfolding spells_def by blast
  qed
qed

lemma root_spells:
  assumes "root_with_duplicate_policy cb data limits reject = Inr item"
  shows "\<exists>t. within cb (new_parser data limits reject) 0 t \<and> tree_bytes t = data \<and> item = item_at 0 t \<and>
    tree_count t \<le> cl_max_items limits"
proof -
  let ?p = "new_parser data limits reject"
  have p: "pa_pos ?p = 0" "pa_data ?p = data" "pa_items ?p = 0" "pa_limits ?p = limits"
    by (simp_all add: new_parser_def)
  obtain p' where res: "parse cb (loop_fuel ?p) 0 ?p = Some (Inr (item, p'))"
    and all: "pa_pos p' = length data" using assms by (auto simp: root_policy_cases)
  obtain t where t: "spells cb 0 ?p t item p'" by (rule child_soundE [OF child_sound_parse res])
  obtain rest where u: "unread ?p (tree_bytes t @ rest)" using t by (auto simp: spells_def)
  have "length (tree_bytes t) = length data" using t all p by (simp add: spells_def)
  moreover have data: "data = tree_bytes t @ rest" using u p by (simp add: unread_def)
  ultimately have "rest = []" by simp
  moreover have "pa_items p' \<le> cl_max_items limits"
    using child_readsD [OF child_reads_parse res] p by (simp add: reads_def)
  ultimately show ?thesis using t data p by (auto simp: spells_def)
qed

section \<open>The accepted inputs\<close>





section \<open>Map keys\<close>

lemma entry_keys_subset: "set (entry_keys ks) \<subseteq> set ks"
  by (induction ks rule: entry_keys.induct) auto

lemma keys_distinct_encodings:
  assumes "canonical_scalars cb" and "\<forall>k \<in> set ks. well_formed k" and "keys_distinct (read_key cb) ks"
  shows "keys_distinct (key_encoding cb) ks"
proof -
  obtain xs where xs: "list_all2 (read_key cb) (entry_keys ks) xs" "distinct xs"
    using assms(3) by (auto simp: keys_distinct_def)
  have "list_all2 (key_encoding cb) (entry_keys ks) xs"
    using xs(1) assms(1,2) entry_keys_subset [of ks]
    by (elim list.rel_mono_strong) (blast intro: read_key_encoding)
  then show ?thesis using xs(2) by (auto simp: keys_distinct_def)
qed

lemma map_keys_encodings:
  "canonical_scalars cb \<Longrightarrow> well_formed t \<Longrightarrow> map_keys_distinct (read_key cb) t \<Longrightarrow>
    map_keys_distinct (key_encoding cb) t"
  by (induction t) (auto intro: keys_distinct_encodings)

lemma scalar_data_encoding: "scalar_data a = scalar_data b \<Longrightarrow> scalar_encoding a = scalar_encoding b"
  by (cases a; cases b) simp

lemma distinct_scalar_data:
  "list_all2 (key_encoding cb) ks xs \<Longrightarrow> distinct xs \<Longrightarrow>
    distinct (map scalar_data (filter scalar_tree ks)) \<and>
    (\<forall>k \<in> set ks. scalar_tree k \<longrightarrow> scalar_encoding k \<in> set xs)"
proof (induction rule: list_all2_induct)
  case Nil
  then show ?case by simp
next
  case (Cons k ks x xs)
  have "scalar_data k \<noteq> scalar_data j" if "scalar_tree k" "j \<in> set ks" "scalar_tree j" for j
  proof
    assume "scalar_data k = scalar_data j"
    then have "scalar_encoding k = scalar_encoding j" by (rule scalar_data_encoding)
    then have "x = scalar_encoding j" using Cons.hyps(1) that(1) by (simp add: key_encoding_def)
    then show False using Cons.IH Cons.prems that by simp
  qed
  moreover have "scalar_tree k \<longrightarrow> x = scalar_encoding k" using Cons.hyps(1) by (simp add: key_encoding_def)
  ultimately show ?case using Cons.IH Cons.prems by auto
qed

lemma map_keys_scalars:
  "map_keys_distinct (key_encoding cb) t \<Longrightarrow> s \<in> set (subtrees t) \<Longrightarrow> t_major s = 5 \<Longrightarrow>
    distinct (map scalar_data (filter scalar_tree (entry_keys (t_kids s))))"
proof (induction t)
  case (Node m a t b ks)
  show ?case
  proof (cases "s = Node m a t b ks")
    case True
    then have "keys_distinct (key_encoding cb) ks" using Node.prems by simp
    then show ?thesis using True distinct_scalar_data by (auto simp: keys_distinct_def)
  next
    case False
    then show ?thesis using Node by auto
  qed
qed

text \<open>
  C26. With duplicate rejection on, every map in an accepted input, at any depth, has pairwise
  different keys: in the syntax tree of the input, the deterministic encodings of the keys of
  every map are distinct, where that of an integer or definite string is its preferred head and
  its payload, whatever the width of the head in the input. In particular no two integer or
  string keys of a map have the same major type, argument and payload. The library is relied on
  for what RFC 8949 says of deterministic encodings: it re-encodes a scalar with the preferred
  head.
\<close>

theorem strict_map_keys_distinct:
  assumes "root_with_duplicate_policy cb data limits True = Inr item" and "canonical_scalars cb"
  shows "\<exists>t. well_formed t \<and> tree_bytes t = data \<and> item = item_at 0 t \<and>
    map_keys_distinct (key_encoding cb) t \<and>
    (\<forall>s \<in> set (subtrees t). t_major s = 5 \<longrightarrow>
      distinct (map scalar_data (filter scalar_tree (entry_keys (t_kids s)))))"
proof -
  obtain t where t: "within cb (new_parser data limits True) 0 t" "tree_bytes t = data" "item = item_at 0 t"
    using root_spells [OF assms(1)] by blast
  then have wf: "well_formed t" and "map_keys_distinct (read_key cb) t"
    by (simp_all add: within_def new_parser_def)
  then have "map_keys_distinct (key_encoding cb) t" by (rule map_keys_encodings [OF assms(2)])
  with t wf map_keys_scalars show ?thesis by blast
qed

text \<open>A codec that decodes integers and byte strings with heads of any width.\<close>

definition read_scalar :: "bytes \<Rightarrow> value option" where
  "read_scalar raw = (case raw of [] \<Rightarrow> None | i # r \<Rightarrow>
     let m = drop_bit 5 i; a = i AND 0x1f; w = tail_width a; n = tree_argument a (take w r) in
     if m = 0 then Some (VInteger (int (unat n)))
     else if m = 1 then Some (VInteger (- 1 - int (unat n)))
     else if m = 2 then Some (VBytes (drop w r)) else None)"

definition scalar_codec :: cbor2 where
  "scalar_codec = ref_cbor\<lparr>lib_from_slice := (\<lambda>raw. ok_or (read_scalar raw) [])\<rparr>"

lemma read_scalar_value:
  assumes wf: "well_formed k" and s: "scalar_tree k" and v: "read_scalar (tree_bytes k) = Some v"
  shows "ref_value v = scalar_encoding k"
proof -
  obtain m a t b ks where k: "k = Node m a t b ks" by (cases k)
  have hd: "head_ok m a t" and body: "body_ok m a (tree_argument a t) b ks" using wf k by simp_all
  have "a \<noteq> 31" and ks: "ks = []" using s hd body
    by (auto simp: k head_ok_def body_ok_def indefinite_majors split: if_splits)
  then have t: "length t = tail_width a" "break_bytes a = []"
    using hd by (auto simp: head_ok_def break_bytes_def)
  have m: "m = 0 \<or> m = 1 \<or> m = 2 \<or> m = 3" using s by (auto simp: k)
  have b: "m \<noteq> 0" "m \<noteq> 1" "length b = unat (tree_argument a t)" if "m = 2"
    using body that \<open>a \<noteq> 31\<close> by (simp_all add: body_ok_def)
  have nil: "b = []" if "m = 0 \<or> m = 1" using body that by (auto simp: body_ok_def)
  have "read_scalar (tree_bytes k) =
     (if m = 0 then Some (VInteger (int (unat (tree_argument a t))))
      else if m = 1 then Some (VInteger (- 1 - int (unat (tree_argument a t))))
      else if m = 2 then Some (VBytes b) else None)"
    by (simp add: read_scalar_def k ks t head_ok_fields [OF hd] Let_def flip: t(1))
  moreover have "\<not> int (unat (tree_argument a t)) \<le> - 1" by linarith
  ultimately show ?thesis using v m b nil by (auto simp: k ref_head_def split: if_splits)
qed

lemma scalar_codec_canonical: "canonical_scalars scalar_codec"
  unfolding canonical_scalars_def
proof (intro allI impI)
  fix k x
  assume wf: "well_formed k" "scalar_tree k" and lib: "library_encoding scalar_codec (tree_bytes k) = Inr x"
  obtain v where v: "read_scalar (tree_bytes k) = Some v" "x = ref_value v"
    using lib by (auto simp: library_encoding_def scalar_codec_def ref_cbor_def result_simps)
  then show "x = scalar_encoding k" using read_scalar_value [OF wf v(1)] by simp
qed

text \<open>The key 1 in two bytes: beside 2 it is accepted, beside 1 in one byte it is refused.\<close>

lemma demo_keys_accepted:
  "is_ok (root_with_duplicate_policy scalar_codec [0xa2, 0x18, 1, 0, 2, 0] default_limits True)"
  by code_simp

lemma demo_keys_refused:
  "\<not> is_ok (root_with_duplicate_policy scalar_codec [0xa2, 0x18, 1, 0, 1, 0] default_limits True)"
  by code_simp

theorem strict_map_keys_distinct_witness:
  "(\<exists>t. well_formed t \<and> tree_bytes t = [0xa2, 0x18, 1, 0, 2, 0] \<and>
     (\<forall>s \<in> set (subtrees t). t_major s = 5 \<longrightarrow>
       distinct (map scalar_data (filter scalar_tree (entry_keys (t_kids s)))))) \<and>
   \<not> is_ok (root_with_duplicate_policy scalar_codec [0xa2, 0x18, 1, 0, 1, 0] default_limits True)"
proof -
  obtain item where
    r: "root_with_duplicate_policy scalar_codec [0xa2, 0x18, 1, 0, 2, 0] default_limits True = Inr item"
    using demo_keys_accepted by (auto simp: is_ok_iff)
  show ?thesis using strict_map_keys_distinct [OF r scalar_codec_canonical] demo_keys_refused by blast
qed

end
