(* ===== verification/StrictComplete.thy ===== *)
theory StrictComplete
  imports StrictGrammar
begin

text \<open>
  The converse of \<open>StrictGrammar\<close>: the strict parser accepts the encoding of every well-formed
  syntax tree that keeps the limits and the rule for map keys, and returns the items of the
  tree. Both directions together say that the descent of \<open>src/src/strict.rs\<close> recognises the
  grammar of \<open>CborTree\<close>.
\<close>

section \<open>Reading a tree\<close>

text \<open>There is room for \<open>n\<close> more items, and sizes fit the machine.\<close>

definition room :: "parser \<Rightarrow> nat \<Rightarrow> bool" where
  "room p n \<longleftrightarrow> pa_items p + n \<le> cl_max_items (pa_limits p) \<and>
     cl_max_items (pa_limits p) < usize_limit \<and> length (pa_data p) < usize_limit"

lemma room_left: "room p (j + k) \<Longrightarrow> room p j"
  by (simp add: room_def)

lemma room_right: "room p (j + k) \<Longrightarrow> room (advance p n j) k"
  by (simp add: room_def)

definition reads_tree :: "cbor2 \<Rightarrow> child_parser \<Rightarrow> nat \<Rightarrow> cbor_tree \<Rightarrow> bool" where
  "reads_tree cb child depth t \<longleftrightarrow> (\<forall>p rest. unread p (tree_bytes t @ rest) \<longrightarrow>
     within cb p depth t \<longrightarrow> room p (tree_count t) \<longrightarrow>
     child p = Some (Inr (item_at (pa_pos p) t, advance p (length (tree_bytes t)) (tree_count t))))"

lemma reads_treeD:
  "reads_tree cb child depth t \<Longrightarrow> unread p (tree_bytes t @ rest) \<Longrightarrow> within cb p depth t \<Longrightarrow>
    room p (tree_count t) \<Longrightarrow>
    child p = Some (Inr (item_at (pa_pos p) t, advance p (length (tree_bytes t)) (tree_count t)))"
  unfolding reads_tree_def by blast

section \<open>Heads\<close>

lemma uint_read:
  assumes t: "a \<le> 27 \<and> length t = tail_width a \<or> a = 31 \<and> t = []" and u: "unread p (t @ rest)"
    and "length (pa_data p) < usize_limit"
  shows "uint a p = Inr (if a = 31 then None else Some (tree_argument a t), advance p (length t) 0)"
proof (cases "a = 31")
  case True
  then show ?thesis using t by (auto simp: uint_def)
next
  case False
  obtain pre where pre: "pa_data p = pre @ t @ rest" "pa_pos p = length pre"
    using u by (auto simp: unread_def)
  have "uint a p = Inr (Some (if a \<le> 23 then ucast a else fold_be t), p\<lparr>pa_pos := length pre + length t\<rparr>)"
    using t False pre assms(3) by (intro uint_reads_tail [where rest = rest]) auto
  then show ?thesis using False pre(2) by (simp add: tree_argument_def advance_def)
qed

lemma head_read:
  assumes u: "unread p ((initial_byte m a # t) @ rest)" and hd: "head_ok m a t"
    and lim: "depth \<le> cl_max_depth (pa_limits p)" "cl_require_definite (pa_limits p) \<longrightarrow> a \<noteq> 31"
    and ok: "room p (Suc n)"
  shows "parse_head depth p = Inr (tree_head (pa_pos p) m a t, advance p (Suc (length t)) 1)"
proof -
  have c: "count_item p = Inr (advance p 0 1)"
    using ok by (simp add: count_item_ok room_def advance_def)
  have first: "byte (advance p 0 1) = Inr (initial_byte m a, advance p 1 1)"
    using u by (auto simp: byte_def get_at_def advance_def unread_def)
  have u1: "unread (advance p 1 1) (t @ rest)"
    using unread_advance [of p "[initial_byte m a]" "t @ rest" 1] u by simp
  have "uint a (advance p 1 1) =
      Inr (if a = 31 then None else Some (tree_argument a t), advance (advance p 1 1) (length t) 0)"
    using hd ok by (intro uint_read [OF _ u1]) (auto simp: head_ok_def room_def)
  moreover have "a = 31 \<longrightarrow> 2 \<le> m \<and> m \<le> 5 \<and> \<not> cl_require_definite (pa_limits p)"
    using hd lim(2) by (auto simp: head_ok_def)
  ultimately show ?thesis using c first lim
    by (simp add: parse_head_def head_ok_fields [OF hd] Let_def tree_head_def)
qed

lemma length_arg_fits [simp]: "length_arg v p = Inr (unat v)"
  using unsigned_less [of v] by (simp add: length_arg_def usize_limit_def)

section \<open>Loops\<close>

lemma body_bytes_Cons: "body_bytes a [] (k # ks) = tree_bytes k @ body_bytes a [] ks"
  by (simp add: body_bytes_def)

lemma break_read:
  "unread p (body_bytes a [] [] @ rest) \<Longrightarrow> a = 31 \<Longrightarrow>
    at_break p \<and> skip_break p = advance p (length (body_bytes a [] [])) 0"
  by (auto simp: body_bytes_def break_bytes_def at_break_unread skip_break_advance)

lemma item_no_break: "well_formed k \<Longrightarrow> unread p (tree_bytes k @ rest) \<Longrightarrow> \<not> at_break p"
  using well_formed_not_break [of k] well_formed_nonempty [of k]
  by (cases "tree_bytes k") (auto simp: at_break_unread)

lemma parse_chunks_read:
  assumes "\<forall>k \<in> set ks. reads_tree cb child depth k \<and> within cb p depth k"
    and "\<forall>k \<in> set ks. tree_kind (t_major k) (t_info k) (t_tail k) = kd \<and> t_info k \<noteq> 31"
    and "unread p (body_bytes 31 [] ks @ rest)" and "room p (sum_list (map tree_count ks))"
    and "length ks < fuel"
  shows "parse_chunks child fuel kd p = Some (Inr (items_at (pa_pos p) ks,
    advance p (length (body_bytes 31 [] ks)) (sum_list (map tree_count ks))))"
  using assms
proof (induction ks arbitrary: p fuel)
  case Nil
  then show ?case using break_read [of p 31 rest] by (cases fuel) auto
next
  case (Cons k ks)
  obtain f where fuel: "fuel = Suc f" using Cons.prems(5) by (cases fuel) auto
  let ?p = "advance p (length (tree_bytes k)) (tree_count k)"
  have u: "unread p (tree_bytes k @ body_bytes 31 [] ks @ rest)"
    using Cons.prems(3) by (simp add: body_bytes_Cons)
  have r: "room p (tree_count k + sum_list (map tree_count ks))" using Cons.prems(4) by simp
  have k: "child p = Some (Inr (item_at (pa_pos p) k, ?p))"
    using Cons.prems(1) by (intro reads_treeD [OF _ u _ room_left [OF r]]) auto
  have "\<not> at_break p" using Cons.prems(1) by (intro item_no_break [OF _ u]) (auto simp: within_def)
  moreover have "parse_chunks child f kd ?p = Some (Inr (items_at (pa_pos ?p) ks,
      advance ?p (length (body_bytes 31 [] ks)) (sum_list (map tree_count ks))))"
    using Cons.prems(1,2,5) unread_advance [OF u] room_right [OF r] by (intro Cons.IH) (auto simp: fuel)
  ultimately show ?case using k Cons.prems(2) by (simp add: fuel body_bytes_Cons)
qed

lemma parse_members_read:
  assumes "\<forall>k \<in> set ks. reads_tree cb child depth k \<and> within cb p depth k"
    and "unread p (body_bytes a [] ks @ rest)" and "room p (sum_list (map tree_count ks))"
    and "length ks < fuel"
  shows "parse_members child fuel (if a = 31 then None else Some (length ks)) p =
    Some (Inr (items_at (pa_pos p) ks,
      advance p (length (body_bytes a [] ks)) (sum_list (map tree_count ks))))"
  using assms
proof (induction ks arbitrary: p fuel)
  case Nil
  then show ?case using break_read [of p a rest]
    by (cases fuel; cases "a = 31") (auto simp: body_bytes_def break_bytes_def)
next
  case (Cons k ks)
  obtain f where fuel: "fuel = Suc f" using Cons.prems(4) by (cases fuel) auto
  let ?p = "advance p (length (tree_bytes k)) (tree_count k)"
  have u: "unread p (tree_bytes k @ body_bytes a [] ks @ rest)"
    using Cons.prems(2) by (simp add: body_bytes_Cons)
  have r: "room p (tree_count k + sum_list (map tree_count ks))" using Cons.prems(3) by simp
  have k: "child p = Some (Inr (item_at (pa_pos p) k, ?p))"
    using Cons.prems(1) by (intro reads_treeD [OF _ u _ room_left [OF r]]) auto
  have "\<not> at_break p" using Cons.prems(1) by (intro item_no_break [OF _ u]) (auto simp: within_def)
  moreover have "parse_members child f (if a = 31 then None else Some (length ks)) ?p =
      Some (Inr (items_at (pa_pos ?p) ks,
        advance ?p (length (body_bytes a [] ks)) (sum_list (map tree_count ks))))"
    using Cons.prems(1,4) unread_advance [OF u] room_right [OF r] by (intro Cons.IH) (auto simp: fuel)
  ultimately show ?case using k by (cases "a = 31") (simp_all add: fuel body_bytes_Cons)
qed

lemma insert_key_read:
  assumes wf: "well_formed t" and u: "unread p (tree_bytes t @ rest)"
    and new: "new_keys cb keys (t # v # ts)" and q: "pa_data q = pa_data p"
  obtains keys' where "insert_key cb keys (item_at (pa_pos p) t) q = Inr keys'" "new_keys cb keys' ts"
proof (cases keys)
  case None
  then show ?thesis by (intro that [of None]) (simp_all add: insert_key_def new_keys_def)
next
  case (Some seen)
  then obtain x xs where "read_key cb t x" "list_all2 (read_key cb) (entry_keys ts) xs"
    "distinct (x # xs)" "set (x # xs) \<inter> seen = {}"
    using new by (auto simp: new_keys_def list_all2_Cons1)
  then show ?thesis using canonical_key_tree [OF wf u, of cb x] Some
    by (intro that [of "Some (insert x seen)"]) (auto simp: insert_key_def new_keys_def q)
qed

lemma parse_entries_read:
  assumes "\<forall>k \<in> set ks. reads_tree cb child depth k \<and> within cb p depth k"
    and "unread p (body_bytes a [] ks @ rest)" and "room p (sum_list (map tree_count ks))"
    and "length ks < fuel" and "even (length ks)" and "new_keys cb keys ks"
  shows "parse_entries cb child fuel (if a = 31 then None else Some (n + length ks div 2)) n keys p =
    Some (Inr (advance p (length (body_bytes a [] ks)) (sum_list (map tree_count ks))))"
  using assms
proof (induction ks arbitrary: p fuel n keys rule: entry_keys.induct)
  case (1 k v ks)
  obtain f where fuel: "fuel = Suc f" using "1.prems"(4) by (cases fuel) auto
  let ?p1 = "advance p (length (tree_bytes k)) (tree_count k)"
  let ?p2 = "advance ?p1 (length (tree_bytes v)) (tree_count v)"
  have u: "unread p (tree_bytes k @ tree_bytes v @ body_bytes a [] ks @ rest)"
    using "1.prems"(2) by (simp add: body_bytes_Cons)
  note u1 = unread_advance [OF u, of "tree_count k"]
  note u2 = unread_advance [OF u1, of "tree_count v"]
  have r: "room p (tree_count k + (tree_count v + sum_list (map tree_count ks)))" using "1.prems"(3) by simp
  note r1 = room_right [OF r, of "length (tree_bytes k)"]
  note r2 = room_right [OF r1, of "length (tree_bytes v)"]
  have k: "child p = Some (Inr (item_at (pa_pos p) k, ?p1))"
    using "1.prems"(1) by (intro reads_treeD [OF _ u _ room_left [OF r]]) auto
  have v: "child ?p1 = Some (Inr (item_at (pa_pos ?p1) v, ?p2))"
    using "1.prems"(1) by (intro reads_treeD [OF _ u1 _ room_left [OF r1]]) auto
  have wf: "well_formed k" "well_formed v" using "1.prems"(1) by (auto simp: within_def)
  have b: "\<not> at_break p" "\<not> at_break ?p1" using item_no_break [OF wf(1) u] item_no_break [OF wf(2) u1] .
  obtain keys' where ins: "insert_key cb keys (item_at (pa_pos p) k) ?p1 = Inr keys'"
    and new: "new_keys cb keys' ks"
    by (rule insert_key_read [OF wf(1) u "1.prems"(6), of ?p1]) simp_all
  have "parse_entries cb child f (if a = 31 then None else Some (Suc n + length ks div 2)) (Suc n) keys' ?p2 =
      Some (Inr (advance ?p2 (length (body_bytes a [] ks)) (sum_list (map tree_count ks))))"
    using "1.prems"(1,4,5) u2 r2 new by (intro "1.IH") (auto simp: fuel)
  then show ?case using k v b ins
    by (cases "a = 31") (simp_all add: fuel body_bytes_Cons add.assoc)
next
  case "2_1"
  then show ?case using break_read [of p a rest]
    by (cases fuel; cases "a = 31") (auto simp: body_bytes_def break_bytes_def)
qed simp

section \<open>Contents\<close>

lemma concat_length_ge: "length ks \<le> length (concat (map tree_bytes ks))"
proof (induction ks)
  case (Cons k ks)
  have "0 < length (tree_bytes k)" using well_formed_nonempty [of k] by simp
  then show ?case unfolding list.map concat.simps length_append list.size
    using Cons by (metis Suc_leI add.commute add_mono)
qed simp

lemma enough_iterations: "unread p (body_bytes a b ks @ rest) \<Longrightarrow> length ks < loop_fuel p"
  using unread_length [of p "body_bytes a b ks @ rest"] concat_length_ge [of ks]
  by (simp add: loop_fuel_def body_bytes_def)

lemma parse_string_read:
  assumes kids: "\<forall>k \<in> set ks. reads_tree cb child depth k \<and> within cb p depth k"
    and m: "m = 2 \<and> kd = KBytes \<or> m = 3 \<and> kd = KText"
    and body: "body_ok m a (tree_argument a t) b ks" and u: "unread p (body_bytes a b ks @ rest)"
    and ok: "room p (sum_list (map tree_count ks))"
  shows "parse_string child kd (if a = 31 then None else Some (tree_argument a t)) p =
    Some (Inr (kd, items_at (pa_pos p) ks,
      advance p (length (body_bytes a b ks)) (sum_list (map tree_count ks))))"
proof (cases "a = 31")
  case True
  then have b: "b = []" and kinds: "\<forall>k \<in> set ks. t_major k = m \<and> t_info k \<noteq> 31"
    using body m by (auto simp: body_ok_def)
  then have "\<forall>k \<in> set ks. tree_kind (t_major k) (t_info k) (t_tail k) = kd \<and> t_info k \<noteq> 31"
    using m by (auto simp: tree_kind_def)
  moreover have "unread p (body_bytes 31 [] ks @ rest)" using u True b by simp
  ultimately have "parse_chunks child (loop_fuel p) kd p = Some (Inr (items_at (pa_pos p) ks,
      advance p (length (body_bytes 31 [] ks)) (sum_list (map tree_count ks))))"
    using kids ok enough_iterations [OF u] by (intro parse_chunks_read)
  then show ?thesis using True b by (simp add: parse_string_def)
next
  case False
  then have ks: "ks = []" and len: "length b = unat (tree_argument a t)" using body m by (auto simp: body_ok_def)
  have "pa_pos p + length b \<le> length (pa_data p)"
    using unread_length [OF u] by (simp add: body_bytes_def)
  moreover from this have "pa_pos p + length b < usize_limit" using ok by (simp add: room_def)
  ultimately show ?thesis using False
    by (simp add: parse_string_def skip_string_def checked_add_def ks body_bytes_def break_bytes_def
        advance_def flip: len)
qed

lemma parse_array_read:
  assumes kids: "\<forall>k \<in> set ks. reads_tree cb child depth k \<and> within cb p depth k"
    and body: "body_ok 4 a (tree_argument a t) b ks" and u: "unread p (body_bytes a b ks @ rest)"
    and ok: "room p (sum_list (map tree_count ks))"
  shows "parse_array child (if a = 31 then None else Some (tree_argument a t)) p =
    Some (Inr (KArray, items_at (pa_pos p) ks,
      advance p (length (body_bytes a b ks)) (sum_list (map tree_count ks))))"
proof -
  have b: "b = []" and len: "a \<noteq> 31 \<longrightarrow> length ks = unat (tree_argument a t)"
    using body by (auto simp: body_ok_def)
  note m = parse_members_read [OF kids u [unfolded b] ok enough_iterations [OF u]]
  show ?thesis using m len unfolding b by (cases "a = 31") (simp_all add: parse_array_def)
qed

lemma parse_map_read:
  assumes kids: "\<forall>k \<in> set ks. reads_tree cb child depth k \<and> within cb p depth k"
    and body: "body_ok 5 a (tree_argument a t) b ks" and u: "unread p (body_bytes a b ks @ rest)"
    and ok: "room p (sum_list (map tree_count ks))"
    and keys: "pa_reject_duplicate_keys p \<longrightarrow> keys_distinct (read_key cb) ks"
  shows "parse_map cb child (if a = 31 then None else Some (tree_argument a t)) p =
    Some (Inr (KMap, [], advance p (length (body_bytes a b ks)) (sum_list (map tree_count ks))))"
proof -
  have b: "b = []" and len: "a \<noteq> 31 \<longrightarrow> length ks = 2 * unat (tree_argument a t)" and e: "even (length ks)"
    using body by (auto simp: body_ok_def split: if_splits)
  have new: "new_keys cb (if pa_reject_duplicate_keys p then Some {} else None) ks"
    using keys by (auto simp: new_keys_def keys_distinct_def)
  note m = parse_entries_read [OF kids u [unfolded b] ok enough_iterations [OF u] e new, where n = 0]
  show ?thesis using m len unfolding b by (cases "a = 31") (simp_all add: parse_map_def)
qed

lemma fold_be_byte: "length t = 1 \<Longrightarrow> fold_be t \<le> 255"
proof -
  assume "length t = 1"
  then obtain x where t: "t = [x]" by (auto simp: length_Suc_conv)
  have "unat x < 256" using unsigned_less [of x, where ?'a = nat] by simp
  then have "unat (ucast x :: u64) \<le> 255" by (simp add: unsigned_ucast_eq take_bit_nat_eq_self)
  then show ?thesis by (simp add: t fold_be_def word_le_nat_alt)
qed

lemma simple_kind_read:
  assumes "a \<le> 27" and "length t = tail_width a"
  shows "simple_kind a (Some (tree_argument a t)) p = Inr (tree_kind 7 a t)"
  using info_cases [OF assms(1)] assms(2) fold_be_byte [of t]
  by (elim disjE)
    (simp_all add: simple_kind_def tree_kind_def tree_argument_def ucast_u8_u64 info_small tail_width_def)

lemma parse_content_read:
  assumes kids: "\<forall>k \<in> set ks. reads_tree cb child depth k \<and> within cb p depth k"
    and hd: "head_ok m a t" and body: "body_ok m a (tree_argument a t) b ks"
    and u: "unread p (body_bytes a b ks @ rest)" and ok: "room p (sum_list (map tree_count ks))"
    and keys: "m = 5 \<and> pa_reject_duplicate_keys p \<longrightarrow> keys_distinct (read_key cb) ks"
  shows "parse_content cb child (tree_head s m a t) p = Some (Inr (tree_kind m a t,
    if m = 5 then [] else items_at (pa_pos p) ks,
    advance p (length (body_bytes a b ks)) (sum_list (map tree_count ks))))"
proof -
  have "m < 8" using hd by (simp add: head_ok_def)
  then have "m \<le> 7" by (simp add: word_less_nat_alt word_le_nat_alt)
  then consider "m = 0 \<or> m = 1 \<or> m = 7" | "m = 2" | "m = 3" | "m = 4" | "m = 5" | "m = 6"
    using u8_major_7 by blast
  then show ?thesis
  proof cases
    case 1
    then have a: "a \<le> 27" "length t = tail_width a" "a \<noteq> 31" "b = []" "ks = []"
      using hd body by (auto simp: head_ok_def body_ok_def indefinite_majors)
    then show ?thesis using 1 simple_kind_read [OF a(1,2), of p]
      by (auto simp: parse_content_def body_bytes_def break_bytes_def tree_kind_def)
  next
    case 2
    then show ?thesis using parse_string_read [OF kids _ body u ok, of KBytes]
      by (simp add: parse_content_def tree_kind_def)
  next
    case 3
    then show ?thesis using parse_string_read [OF kids _ body u ok, of KText]
      by (simp add: parse_content_def tree_kind_def)
  next
    case 4
    show ?thesis using parse_array_read [OF kids body [unfolded 4] u ok]
      by (simp add: 4 parse_content_def tree_kind_def)
  next
    case 5
    show ?thesis using parse_map_read [OF kids body [unfolded 5] u ok] keys
      by (simp add: 5 parse_content_def tree_kind_def)
  next
    case 6
    then have a: "a \<noteq> 31" and b: "b = []" and "length ks = 1"
      using hd body by (auto simp: head_ok_def body_ok_def indefinite_majors)
    then obtain k where k: "ks = [k]" by (auto simp: length_Suc_conv)
    have "unread p (tree_bytes k @ rest)" using u a b k by (simp add: body_bytes_def break_bytes_def)
    then have "child p = Some (Inr (item_at (pa_pos p) k, advance p (length (tree_bytes k)) (tree_count k)))"
      using kids ok k by (intro reads_treeD) auto
    then show ?thesis using a b k
      by (simp add: 6 parse_content_def parse_tag_def tree_kind_def body_bytes_def break_bytes_def)
  qed
qed

section \<open>Completeness of the parser\<close>

lemma kids_within:
  assumes "within cb p depth (Node m a t b ks)" and "k \<in> set ks"
  shows "within cb p (depth + 1) k"
  using assms tree_depth_kid [OF assms(2), of m a t b] by (auto simp: within_def simp del: tree_depth.simps)

lemma tree_reads: "tree_depth t < fuel \<Longrightarrow> reads_tree cb (parse cb fuel depth) depth t"
proof (induction fuel arbitrary: t depth)
  case 0
  then show ?case by simp
next
  case (Suc f)
  obtain m a t' b ks where t: "t = Node m a t' b ks" by (cases t)
  show ?case unfolding reads_tree_def
  proof (intro allI impI)
    fix p rest
    assume u: "unread p (tree_bytes t @ rest)" and w: "within cb p depth t" and ok: "room p (tree_count t)"
    let ?p1 = "advance p (Suc (length t')) 1"
    have bytes: "tree_bytes t = (initial_byte m a # t') @ body_bytes a b ks"
      by (simp add: t body_bytes_def)
    have hd: "head_ok m a t'" and body: "body_ok m a (tree_argument a t') b ks"
      and lim: "depth \<le> cl_max_depth (pa_limits p)" "cl_require_definite (pa_limits p) \<longrightarrow> a \<noteq> 31"
      and keys: "m = 5 \<and> pa_reject_duplicate_keys ?p1 \<longrightarrow> keys_distinct (read_key cb) ks"
      using w by (auto simp: t within_def)
    have u0: "unread p ((initial_byte m a # t') @ body_bytes a b ks @ rest)" using u by (simp add: bytes)
    have u1: "unread ?p1 (body_bytes a b ks @ rest)" using unread_advance [OF u0] by simp
    have head: "parse_head depth p = Inr (tree_head (pa_pos p) m a t', ?p1)"
      using ok by (intro head_read [OF u0 hd lim]) (simp add: t)
    have kids: "\<forall>k \<in> set ks. reads_tree cb (parse cb f (depth + 1)) (depth + 1) k \<and>
        within cb ?p1 (depth + 1) k"
    proof
      fix k assume k: "k \<in> set ks"
      have "tree_depth k < f" using Suc.prems tree_depth_kid [OF k, of m a t' b] by (simp add: t)
      then show "reads_tree cb (parse cb f (depth + 1)) (depth + 1) k \<and> within cb ?p1 (depth + 1) k"
        using Suc.IH kids_within [OF w [unfolded t] k] by simp
    qed
    have "room ?p1 (sum_list (map tree_count ks))" using ok by (simp add: t room_def)
    from parse_content_read [OF kids hd body u1 this keys, of "pa_pos p"] head
    show "parse cb (Suc f) depth p =
        Some (Inr (item_at (pa_pos p) t, advance p (length (tree_bytes t)) (tree_count t)))"
      by (simp add: t body_bytes_def)
  qed
qed

lemma keys_distinct_mono: "(\<And>k x. enc k x \<Longrightarrow> enc' k x) \<Longrightarrow> keys_distinct enc ks \<Longrightarrow> keys_distinct enc' ks"
  unfolding keys_distinct_def by (auto intro: list_all2_mono)

lemma map_keys_mono:
  "(\<And>k x. enc k x \<Longrightarrow> enc' k x) \<Longrightarrow> map_keys_distinct enc t \<Longrightarrow> map_keys_distinct enc' t"
  by (induction t) (auto intro: keys_distinct_mono)

text \<open>
  C5. The strict parser accepts the encoding of every well-formed syntax tree that keeps the
  limits: heads of every width, integers, strings in one piece or in chunks, arrays, maps and
  tags of definite or indefinite length, simple values and floats of 16, 32 and 64 bits, and map
  keys of every kind. If the nesting, the number of items and the use of indefinite lengths are
  within the limits and, when duplicates are rejected, the keys of every map have pairwise
  different deterministic encodings, the parser returns exactly the item tree of the syntax
  tree.
\<close>

theorem strict_accepts_well_formed:
  assumes "well_formed t" and "tree_depth t \<le> cl_max_depth limits" and "tree_count t \<le> cl_max_items limits"
    and "cl_require_definite limits \<longrightarrow> tree_definite t"
    and "reject \<longrightarrow> map_keys_distinct (key_encoding cb) t"
    and "cl_max_items limits < usize_limit" and "length (tree_bytes t) < usize_limit"
  shows "root_with_duplicate_policy cb (tree_bytes t) limits reject = Inr (item_at 0 t)"
proof -
  let ?p = "new_parser (tree_bytes t) limits reject"
  have u: "unread ?p (tree_bytes t @ [])" and fields: "pa_pos ?p = 0"
    by (simp_all add: unread_def new_parser_def)
  have "reject \<longrightarrow> map_keys_distinct (read_key cb) t"
    using assms(5) by (blast intro: map_keys_mono key_encoding_read)
  then have w: "within cb ?p 0 t" using assms(1-4) by (simp add: within_def new_parser_def)
  have ok: "room ?p (tree_count t)" using assms(3,6,7) by (simp add: room_def new_parser_def)
  have it: "parse cb (Suc (tree_depth t)) 0 ?p =
      Some (Inr (item_at 0 t, advance ?p (length (tree_bytes t)) (tree_count t)))"
    using reads_treeD [OF tree_reads [OF lessI] u w ok] fields by simp
  have "parse cb (loop_fuel ?p) 0 ?p = parse cb (Suc (tree_depth t)) 0 ?p"
    using parse_fuel_mono [of cb "loop_fuel ?p" 0 ?p "Suc (tree_depth t)"]
      parse_fuel_mono [of cb "Suc (tree_depth t)" 0 ?p "loop_fuel ?p"]
      parse_root_returns [of cb ?p 0] it
    by (auto simp add: res_le_def returns_def add.commute simp del: parse.simps)
  then show ?thesis using it fields by (simp add: root_policy_cases del: parse.simps)
qed

text \<open>
  A codec that also decodes the key \<open>true\<close>, and a map of indefinite length with the keys 1 (in
  two bytes), \<open>true\<close> and the byte string 07, and a half float, a chunked text and a tagged
  array as values.
\<close>

definition bool_codec :: cbor2 where
  "bool_codec = ref_cbor\<lparr>lib_from_slice :=
     (\<lambda>raw. if raw = [0xf5] then Inr (VBool True) else ok_or (read_scalar raw) [])\<rparr>"

definition sample_tree :: cbor_tree where
  "sample_tree = Node 5 31 [] [] [
     Node 0 24 [1] [] [], Node 7 25 [0x3c, 0] [] [],
     Node 7 21 [] [] [], Node 3 31 [] [] [Node 3 1 [] [0x61] [], Node 3 24 [1] [0x62] []],
     Node 2 1 [] [7] [], Node 6 24 [0x20] [] [Node 4 1 [] [] [Node 1 0 [] [] []]]]"

lemma sample_tree_bytes: "tree_bytes sample_tree =
    [0xbf, 0x18, 1, 0xf9, 0x3c, 0, 0xf5, 0x7f, 0x61, 0x61, 0x78, 1, 0x62, 0xff, 0x41, 7,
     0xd8, 0x20, 0x81, 0x20, 0xff]"
  by (simp add: sample_tree_def initial_byte_def break_bytes_def)

lemma sample_tree_well_formed: "well_formed sample_tree"
  by (simp add: sample_tree_def head_ok_def body_ok_def tail_width_def tree_argument_def fold_be_def)

lemma sample_keys: "map_keys_distinct (key_encoding bool_codec) sample_tree"
proof -
  have "keys_distinct (key_encoding bool_codec)
      [Node 0 24 [1] [] [], f, Node 7 21 [] [] [], g, Node 2 1 [] [7] [], h]" for f g h
    unfolding keys_distinct_def
    by (intro exI [of _ "[[1], [0xf5], [0x41, 7]]"])
      (simp add: key_encoding_def library_encoding_def bool_codec_def ref_cbor_def read_scalar_def
        tree_argument_def tail_width_def fold_be_def initial_byte_def break_bytes_def write_head_def
        ref_head_def Let_def)
  then show ?thesis by (simp add: sample_tree_def)
qed

theorem strict_accepts_well_formed_witness:
  "root_with_duplicate_policy bool_codec (tree_bytes sample_tree) default_limits True =
    Inr (item_at 0 sample_tree)"
proof (rule strict_accepts_well_formed [OF sample_tree_well_formed])
  show "tree_depth sample_tree \<le> cl_max_depth default_limits"
    by (simp add: sample_tree_def default_limits_def)
  show "tree_count sample_tree \<le> cl_max_items default_limits"
    by (simp add: sample_tree_def default_limits_def)
  show "cl_require_definite default_limits \<longrightarrow> tree_definite sample_tree"
    by (simp add: default_limits_def)
  show "True \<longrightarrow> map_keys_distinct (key_encoding bool_codec) sample_tree"
    using sample_keys by simp
  show "cl_max_items default_limits < usize_limit" by (simp add: default_limits_def usize_limit_def)
  show "length (tree_bytes sample_tree) < usize_limit" by (simp add: sample_tree_bytes usize_limit_def)
qed

end
