(* ===== verification/DecodedRecipients.thy ===== *)
theory DecodedRecipients
  imports StrictGrammar RecipientProps Mac Encrypt
begin

text \<open>
  Why \<open>src/src/mac.rs\<close> and \<open>src/src/encrypt.rs\<close> may run the short check on the recipients that
  they have decoded: the decoder has checked every layer, and the strict parser bounds the
  nesting of the message body, so that the full validation would accept as well.
\<close>

section \<open>The body of a message is a syntax tree\<close>

text \<open>The item lies in the data as the encoding of a tree of depth at most \<open>n\<close>.\<close>

definition holds_tree :: "bytes \<Rightarrow> nat \<Rightarrow> item \<Rightarrow> bool" where
  "holds_tree data n it \<longleftrightarrow> (\<exists>t. well_formed t \<and> tree_depth t \<le> n \<and> it = item_at (it_start it) t \<and>
     slice data (it_start it) (it_end it) = tree_bytes t)"

lemma slice_inner:
  assumes "slice data a (a + length (x @ y @ z)) = x @ y @ z"
  shows "slice data (a + length x) (a + length x + length y) = y"
proof -
  have "drop (length x) (take (length (x @ y @ z)) (drop a data)) = y @ z"
    using assms by (simp add: slice_def)
  then have "take (length (y @ z)) (drop (a + length x) data) = y @ z"
    by (simp add: drop_take add.commute)
  then have "take (length y) (take (length (y @ z)) (drop (a + length x) data)) = y" by simp
  then show ?thesis by (simp add: slice_def)
qed

lemma holds_tree_tag:
  assumes "holds_tree data n it" and "it_kind it = KTag g"
  shows "holds_tree data n (it_children it ! 0)"
proof -
  obtain t where t: "well_formed t" "tree_depth t \<le> n" "it = item_at (it_start it) t"
    "slice data (it_start it) (it_end it) = tree_bytes t" using assms(1) by (auto simp: holds_tree_def)
  obtain m a tl b ks where node: "t = Node m a tl b ks" by (cases t)
  have "it_kind it = tree_kind m a tl" using arg_cong [OF t(3), of it_kind] by (simp add: node)
  then have m: "m = 6" using assms(2) by (auto simp: tree_kind_def split: if_splits)
  have hd: "head_ok 6 a tl" "body_ok 6 a (tree_argument a tl) b ks" using t(1) by (simp_all add: node m)
  then have "a \<noteq> 31" and b: "b = []" "length ks = 1" by (auto simp: head_ok_def body_ok_def indefinite_majors)
  then obtain k where k: "ks = [k]" by (auto simp: length_Suc_conv)
  let ?off = "it_start it + Suc (length tl)"
  have bytes: "tree_bytes t = (initial_byte 6 a # tl) @ tree_bytes k @ []"
    using \<open>a \<noteq> 31\<close> by (simp add: node m b k break_bytes_def)
  have child: "it_children it ! 0 = item_at ?off k"
    using arg_cong [OF t(3), of it_children] by (simp add: node m k)
  have "it_end it = it_start it + length (tree_bytes t)" using arg_cong [OF t(3), of it_end] by simp
  then have "slice data (it_start it) (it_start it + length ((initial_byte 6 a # tl) @ tree_bytes k @ [])) =
      (initial_byte 6 a # tl) @ tree_bytes k @ []" using t(4) unfolding bytes by simp
  from slice_inner [OF this] have "slice data ?off (?off + length (tree_bytes k)) = tree_bytes k" by simp
  moreover have "well_formed k" using t(1) by (simp add: node k)
  moreover have "tree_depth k \<le> n" using t(2) tree_depth_kid [of k ks m a tl b] by (simp add: node k)
  ultimately show ?thesis unfolding holds_tree_def child by auto
qed

lemma holds_tree_unwrap: "holds_tree data n it \<Longrightarrow> holds_tree data n (unwrap_tag g it)"
  by (simp add: unwrap_tag_def holds_tree_tag)

lemma message_body_tree:
  assumes "tag_message_body cb data tag = Inr body"
  shows "\<exists>t. well_formed t \<and> tree_bytes t = body \<and> tree_depth t \<le> MAX_RECIPIENT_DEPTH"
proof -
  obtain item inner where r: "root cb data default_limits = Inr item"
    and w: "message_wrapping tag item inner" and out: "body = slice data (it_start inner) (it_end inner)"
    using assms by (auto simp: tag_message_body_def message_body_cases)
  obtain t where t: "within cb (new_parser data default_limits True) 0 t" "tree_bytes t = data"
    "item = item_at 0 t"
    using root_spells [OF r [unfolded root_def]] by blast
  have "tree_depth t \<le> 128" using t(1) by (simp add: within_def new_parser_def default_limits_def)
  then have h: "holds_tree data 128 item"
    using t by (auto simp: holds_tree_def within_def slice_def)
  have u: "holds_tree data 128 (unwrap_tag 55799 item)" by (rule holds_tree_unwrap [OF h])
  have "holds_tree data 128 inner"
  proof (cases "it_kind (unwrap_tag 55799 item) = KTag 61")
    case True
    then show ?thesis using w holds_tree_tag [OF holds_tree_tag [OF u True]]
      by (auto simp: message_wrapping_def Let_def)
  next
    case False
    then show ?thesis using w holds_tree_unwrap [OF u, of tag] by (simp add: message_wrapping_def)
  qed
  then show ?thesis unfolding out MAX_RECIPIENT_DEPTH_def by (auto simp: holds_tree_def)
qed

section \<open>The nesting of decoded recipients\<close>

fun wire_nesting :: "wire_recipient \<Rightarrow> nat" where
  "wire_nesting (WireRecipient p u c ws) =
     (case ws of None \<Rightarrow> 0 | Some vs \<Rightarrow> foldr (\<lambda>w n. max (Suc (wire_nesting w)) n) vs 0)"

text \<open>
  The documented behaviour of the library that the bound rests on: nested recipients are
  decoded from nested arrays of the input, so they nest no deeper than it.
\<close>

definition bounded_recipients :: "cbor2 \<Rightarrow> bool" where
  "bounded_recipients cb \<longleftrightarrow> (\<forall>t p u payload tag ws. well_formed t \<longrightarrow>
     lib_from_slice_mac cb label_visitor (tree_bytes t) = Inr (p, u, payload, tag, ws) \<or>
     lib_from_slice_encrypt cb label_visitor (tree_bytes t) = Inr (p, u, payload, ws) \<longrightarrow>
     (\<forall>w \<in> set ws. wire_nesting w \<le> tree_depth t))"

lemma wire_nesting_member: "w \<in> set vs \<Longrightarrow> Suc (wire_nesting w) \<le> wire_nesting (WireRecipient p u c (Some vs))"
  by (induction vs) auto

lemma visited_nesting: "recipient_visitor cb w = Inr r \<Longrightarrow> nesting r \<le> wire_nesting w"
proof (induction cb w arbitrary: r rule: recipient_visitor.induct)
  case (1 cb p u c ws)
  from "1.prems" obtain protected_raw unprotected ciphertext nested protected where
    dec: "decode_bytes cb p = Inr protected_raw" "header_deserialize cb u = Inr unprotected"
      "decode_optional_bytes cb c = Inr ciphertext"
    and nested: "(case ws of None \<Rightarrow> Inr []
      | Some ws \<Rightarrow> andThen (traverse (recipient_visitor cb) ws) (\<lambda>nested.
          if nested = [] then Inl ''nested recipients array must not be empty when present''
          else Inr nested)) = Inr nested"
    and r: "r = Recipient protected unprotected ciphertext nested (Some protected_raw)"
    by (auto simp: andThen_eq_Inr map_err_eq Let_def)
  show ?case
  proof (cases ws)
    case None
    then have "nested = []" using nested by simp
    then show ?thesis by (simp add: r nesting.simps)
  next
    case (Some vs)
    then have tr: "traverse (recipient_visitor cb) vs = Inr nested"
      using nested by (auto simp: andThen_eq_Inr split: if_splits)
    have "Suc (nesting x) \<le> wire_nesting (WireRecipient p u c ws)" if x: "x \<in> set nested" for x
    proof -
      obtain w where w: "w \<in> set vs" "recipient_visitor cb w = Inr x" using traverse_mem [OF tr x] by blast
      have "nesting x \<le> wire_nesting w"
        by (rule "1.IH" [OF _ _ _ Some w]) (auto simp: map_err_eq dec)
      then show ?thesis using wire_nesting_member [OF w(1), of p u c] Some by simp
    qed
    then show ?thesis unfolding r nesting_le by blast
  qed
qed

text \<open>Decoded recipients whose wire form nests within the limit pass the full validation.\<close>

lemma decoded_fully_valid:
  assumes "traverse (recipient_visitor cb) ws = Inr rs" and "validate_decoded_recipients rs name = Inr ()"
    and "\<forall>w \<in> set ws. wire_nesting w \<le> MAX_RECIPIENT_DEPTH"
  shows "validate_message_recipients cb rs name = Inr ()"
proof -
  have "nesting r \<le> MAX_RECIPIENT_DEPTH" if "r \<in> set rs" for r
    using traverse_mem [OF assms(1) that] visited_nesting assms(3) by (meson le_trans)
  then show ?thesis using decoded_validation [OF assms(1)] assms(2) by fastforce
qed

section \<open>The messages\<close>

lemma mm_decoded:
  assumes "mm_from_slice cb data = Inr m"
  obtains body p u payload tag ws where "tag_message_body cb data CBORTagCOSEMac = Inr body"
    "lib_from_slice_mac cb label_visitor body = Inr (p, u, payload, tag, ws)"
    "traverse (recipient_visitor cb) ws = Inr (mm_recipients m)"
    "validate_decoded_recipients (mm_recipients m) ''MacMessage'' = Inr ()"
  using assms by (auto simp: mm_from_slice_def andThen_eq_Inr map_err_eq)

lemma em_decoded:
  assumes "em_from_slice cb data = Inr m"
  obtains body p u c ws where "tag_message_body cb data CBORTagCOSEEncrypt = Inr body"
    "lib_from_slice_encrypt cb label_visitor body = Inr (p, u, c, ws)"
    "traverse (recipient_visitor cb) ws = Inr (em_recipients m)"
    "validate_decoded_recipients (em_recipients m) ''EncryptMessage'' = Inr ()"
  using assms by (auto simp: em_from_slice_def andThen_eq_Inr map_err_eq split: option.splits)

text \<open>
  C36. Decoding runs only a short check on the recipients of a COSE_Mac or COSE_Encrypt message,
  and nothing is lost: the recipients of every message that is decoded pass the full validation,
  which checks every layer again and bounds the nesting. The layers were checked one by one as
  they were decoded, and the nesting is bounded because the strict parser has bounded that of
  the input and the library decodes nested recipients from nested arrays.
\<close>

theorem decoded_recipients_need_no_revalidation:
  assumes "bounded_recipients cb"
  shows "(mm_from_slice cb data = Inr m \<longrightarrow>
      validate_message_recipients cb (mm_recipients m) ''MacMessage'' = Inr ()) \<and>
    (em_from_slice cb data = Inr e \<longrightarrow>
      validate_message_recipients cb (em_recipients e) ''EncryptMessage'' = Inr ())"
proof (intro conjI impI)
  assume "mm_from_slice cb data = Inr m"
  then show "validate_message_recipients cb (mm_recipients m) ''MacMessage'' = Inr ()"
  proof (rule mm_decoded)
    fix body p u payload tag ws
    assume body: "tag_message_body cb data CBORTagCOSEMac = Inr body"
      and lib: "lib_from_slice_mac cb label_visitor body = Inr (p, u, payload, tag, ws)"
      and rs: "traverse (recipient_visitor cb) ws = Inr (mm_recipients m)"
      "validate_decoded_recipients (mm_recipients m) ''MacMessage'' = Inr ()"
    obtain t where t: "well_formed t" "tree_bytes t = body" "tree_depth t \<le> MAX_RECIPIENT_DEPTH"
      using message_body_tree [OF body] by blast
    have "\<forall>w \<in> set ws. wire_nesting w \<le> tree_depth t"
      using assms t(1) lib unfolding bounded_recipients_def t(2) [symmetric] by blast
    then show ?thesis using t(3) by (intro decoded_fully_valid [OF rs]) (blast intro: le_trans)
  qed
next
  assume "em_from_slice cb data = Inr e"
  then show "validate_message_recipients cb (em_recipients e) ''EncryptMessage'' = Inr ()"
  proof (rule em_decoded)
    fix body p u c ws
    assume body: "tag_message_body cb data CBORTagCOSEEncrypt = Inr body"
      and lib: "lib_from_slice_encrypt cb label_visitor body = Inr (p, u, c, ws)"
      and rs: "traverse (recipient_visitor cb) ws = Inr (em_recipients e)"
      "validate_decoded_recipients (em_recipients e) ''EncryptMessage'' = Inr ()"
    obtain t where t: "well_formed t" "tree_bytes t = body" "tree_depth t \<le> MAX_RECIPIENT_DEPTH"
      using message_body_tree [OF body] by blast
    have "\<forall>w \<in> set ws. wire_nesting w \<le> tree_depth t"
      using assms t(1) lib unfolding bounded_recipients_def t(2) [symmetric] by blast
    then show ?thesis using t(3) by (intro decoded_fully_valid [OF rs]) (blast intro: le_trans)
  qed
qed

text \<open>
  A codec that decodes one COSE_Mac body with one direct recipient,
  \<open>[h'', {}, h'07', h'09', [[h'', {1: -6}, h'']]]\<close>, and the header of that recipient.
\<close>

definition demo_recipient_cbor :: cbor2 where
  "demo_recipient_cbor = ref_cbor\<lparr>lib_from_slice_map := (\<lambda>visitor d.
       if d = [0xa1, 0x01, 0x25] then map_ok (\<lambda>l. [(l, VInteger (- 6))]) (visitor (VInteger 1))
       else Inl ''demo''),
     lib_from_slice_mac := (\<lambda>visitor d.
       if d = [0x85, 0x40, 0xa0, 0x41, 7, 0x41, 9, 0x81, 0x83, 0x40, 0xa1, 1, 0x25, 0x40]
       then Inr ([], [], Some [7], [9], [WireRecipient [0x40] [0xa1, 0x01, 0x25] [0x40] None])
       else Inl ''demo'')\<rparr>"

definition demo_mac_data :: bytes where
  "demo_mac_data = [0x85, 0x40, 0xa0, 0x41, 7, 0x41, 9, 0x81, 0x83, 0x40, 0xa1, 1, 0x25, 0x40]"

lemma demo_recipient_cbor_bounded: "bounded_recipients demo_recipient_cbor"
  by (auto simp: bounded_recipients_def demo_recipient_cbor_def ref_cbor_def split: if_splits)

lemma demo_mac_decoded: "mm_from_slice demo_recipient_cbor demo_mac_data =
    Inr \<lparr>mm_protected = [], mm_unprotected = [], mm_payload = Some [7],
      mm_recipients = [Recipient [] [(LInt 1, VInteger (- 6))] (Some []) [] (Some [])],
      mm_tag = [9], mm_protected_raw = [], mm_state = Complete\<rparr>"
  by code_simp

theorem decoded_recipients_need_no_revalidation_witness:
  "validate_message_recipients demo_recipient_cbor
     [Recipient [] [(LInt 1, VInteger (- 6))] (Some []) [] (Some [])] ''MacMessage'' = Inr ()"
  using decoded_recipients_need_no_revalidation [OF demo_recipient_cbor_bounded] demo_mac_decoded
  by fastforce

end
