(* ===== verification/Der.thy ===== *)
theory Der
  imports Key
begin

text \<open>
  The DER helpers of \<open>src/src/crypto.rs\<close>: definite lengths, unsigned integers, the PKCS\#1
  \<open>RSAPrivateKey\<close> document that both backends read, and the reader of PKCS\#1
  \<open>RSAPublicKey\<close> documents. A function that appends to a buffer returns what it appends;
  \<open>usize\<close> values are natural numbers below \<open>2\<^sup>6\<^sup>4\<close>.
\<close>

section \<open>Writing\<close>

text \<open>\<open>Iterator::position\<close>.\<close>

fun position :: "('a \<Rightarrow> bool) \<Rightarrow> 'a list \<Rightarrow> nat option" where
  "position p [] = None"
| "position p (x # xs) = (if p x then Some 0 else map_option Suc (position p xs))"

definition der_length :: "nat \<Rightarrow> bytes" where
  "der_length len =
     (if len < 0x80 then [word_of_nat len]
      else
        let be = to_be_bytes (word_of_nat len :: u64);
            first = (case position (\<lambda>b. b \<noteq> 0) be of Some i \<Rightarrow> i | None \<Rightarrow> length be - 1);
            bytes = drop first be in
        (0x80 OR word_of_nat (length bytes)) # bytes)"

text \<open>The loop that drops the leading zero bytes of a magnitude but its last byte.\<close>

fun trim_zeros :: "bytes \<Rightarrow> bytes" where
  "trim_zeros (b # c # bs) = (if b = 0 then trim_zeros (c # bs) else b # c # bs)"
| "trim_zeros bs = bs"

definition der_unsigned_integer :: "bytes \<Rightarrow> bytes" where
  "der_unsigned_integer v =
     (let magnitude = trim_zeros v in
      0x02 #
      (if (case magnitude of [] \<Rightarrow> False | b # _ \<Rightarrow> b AND 0x80 \<noteq> 0)
       then der_length (length magnitude + 1) @ [0]
       else der_length (length magnitude)) @ magnitude)"

definition rsa_fields :: "cose_key \<Rightarrow> error + bytes list" where
  "rsa_fields key =
     traverse (\<lambda>(label, name). required_bytes key label name)
       [(RSAKeyParameterN, ''n''), (RSAKeyParameterE, ''e''), (RSAKeyParameterD, ''d''),
        (RSAKeyParameterP, ''p''), (RSAKeyParameterQ, ''q''), (RSAKeyParameterDP, ''dP''),
        (RSAKeyParameterDQ, ''dQ''), (RSAKeyParameterQInv, ''qInv'')]"

definition rsa_pkcs1_private_key_der :: "cose_key \<Rightarrow> error + bytes" where
  "rsa_pkcs1_private_key_der key =
     andThen (rsa_fields key) (\<lambda>fields.
     let body = der_unsigned_integer [0] @ concat (map der_unsigned_integer fields) in
     Inr (0x30 # der_length (length body) @ body))"

section \<open>Reading\<close>

definition der_read_length :: "bytes \<Rightarrow> (nat \<times> bytes) option" where
  "der_read_length input =
     (case input of
        [] \<Rightarrow> None
      | first # rest \<Rightarrow>
          if first < 0x80 then Some (unat first, rest)
          else
            let count = unat (first AND 0x7f) in
            if count = 0 \<or> count > 8 \<or> length rest < count then None
            else Some (unat (fold_be (take count rest)), drop count rest))"

definition der_take_tlv :: "bytes \<Rightarrow> u8 \<Rightarrow> (bytes \<times> bytes) option" where
  "der_take_tlv input tag =
     (case input of
        [] \<Rightarrow> None
      | first # rest \<Rightarrow>
          if first \<noteq> tag then None
          else
            (case der_read_length rest of
               None \<Rightarrow> None
             | Some (len, rest) \<Rightarrow>
                 if length rest < len then None else Some (take len rest, drop len rest)))"

definition der_integer_magnitude :: "bytes \<Rightarrow> bytes" where
  "der_integer_magnitude bytes =
     (case bytes of
        b # rest \<Rightarrow> if b = 0 \<and> rest \<noteq> [] then rest else bytes
      | [] \<Rightarrow> bytes)"

definition rsa_public_key_from_der :: "bytes \<Rightarrow> error + (bytes \<times> bytes)" where
  "rsa_public_key_from_der der =
     (let invalid = Custom ''invalid RSA public key DER'' in
      andThen (ok_or (der_take_tlv der 0x30) invalid) (\<lambda>(seq, trailing).
      if trailing \<noteq> [] then Inl invalid
      else
        andThen (ok_or (der_take_tlv seq 0x02) invalid) (\<lambda>(n, rest).
        andThen (ok_or (der_take_tlv rest 0x02) invalid) (\<lambda>(e, rest).
        if rest \<noteq> [] then Inl invalid
        else Inr (der_integer_magnitude n, der_integer_magnitude e)))))"

section \<open>Lengths are read back\<close>

lemma position_None: "position p xs = None \<longleftrightarrow> (\<forall>x \<in> set xs. \<not> p x)"
  by (induction xs) auto

lemma position_Some:
  "position p xs = Some i \<Longrightarrow> i < length xs \<and> p (xs ! i) \<and> (\<forall>x \<in> set (take i xs). \<not> p x)"
  by (induction xs arbitrary: i) (auto split: if_splits)

lemma fold_be_zeros: "\<forall>b \<in> set zs. b = 0 \<Longrightarrow> fold_be (zs @ bs) = fold_be bs"
  by (induction zs) (auto simp: fold_be_def)

text \<open>The shortest big-endian form of a length that needs one.\<close>

lemma be_digits:
  assumes "0x80 \<le> len" and "len < usize_limit"
  obtains bs where "der_length len = (0x80 OR word_of_nat (length bs)) # bs"
    and "bs \<noteq> []" and "length bs \<le> 8" and "hd bs \<noteq> 0" and "unat (fold_be bs) = len"
proof -
  let ?w = "word_of_nat len :: u64"
  let ?be = "to_be_bytes ?w"
  have w: "unat ?w = len" using assms(2) by (simp add: usize_limit_def unat_of_nat)
  have fold: "fold_be ?be = ?w" by (subst fold_be_to_be_bytes) simp_all
  have "position (\<lambda>b. b \<noteq> 0) ?be \<noteq> None"
  proof
    assume "position (\<lambda>b. b \<noteq> 0) ?be = None"
    then have "fold_be (?be @ []) = fold_be []" by (intro fold_be_zeros) (simp add: position_None)
    then have "?w = 0" using fold by (simp add: fold_be_def)
    then show False using w assms(1) by simp
  qed
  then obtain i where i: "position (\<lambda>b. b \<noteq> 0) ?be = Some i" by blast
  note p = position_Some [OF i]
  have "fold_be (take i ?be @ drop i ?be) = fold_be (drop i ?be)"
    using p by (intro fold_be_zeros) simp
  then have value_kept: "unat (fold_be (drop i ?be)) = len" using fold w by simp
  show thesis
  proof (rule that [of "drop i ?be"])
    show "der_length len = (0x80 OR word_of_nat (length (drop i ?be))) # drop i ?be"
      using assms(1) i by (simp add: der_length_def Let_def)
    show "hd (drop i ?be) \<noteq> 0" using p by (simp add: hd_drop_conv_nth)
  qed (use p value_kept in simp_all)
qed

lemma length_octet:
  fixes c :: nat
  assumes "0 < c" and "c \<le> 8"
  shows "\<not> (0x80 OR word_of_nat c :: u8) < 0x80" and "unat ((0x80 OR word_of_nat c :: u8) AND 0x7f) = c"
proof -
  have "c \<in> {1, 2, 3, 4, 5, 6, 7, 8}" using assms by auto
  then show "\<not> (0x80 OR word_of_nat c :: u8) < 0x80" "unat ((0x80 OR word_of_nat c :: u8) AND 0x7f) = c"
    by auto
qed

lemma der_read_length_der_length:
  assumes "len < usize_limit"
  shows "der_read_length (der_length len @ rest) = Some (len, rest)"
proof (cases "len < 0x80")
  case True
  then have "unat (word_of_nat len :: u8) = len" by (simp add: unat_of_nat)
  then show ?thesis using True by (simp add: der_length_def der_read_length_def word_less_nat_alt)
next
  case False
  then obtain bs where "der_length len = (0x80 OR word_of_nat (length bs)) # bs"
    and "bs \<noteq> []" "length bs \<le> 8" "unat (fold_be bs) = len"
    using be_digits [of len] assms by auto
  then show ?thesis
    using length_octet [of "length bs"] by (simp add: der_read_length_def Let_def)
qed

lemma der_take_tlv_written:
  assumes "length contents < usize_limit"
  shows "der_take_tlv (tag # der_length (length contents) @ contents @ rest) tag = Some (contents, rest)"
  using assms by (simp add: der_take_tlv_def der_read_length_der_length)

section \<open>Integers are read back\<close>

lemma trim_zeros_length: "length (trim_zeros v) \<le> length v"
  by (induction v rule: trim_zeros.induct) auto

lemma trim_zeros_Nil [simp]: "trim_zeros v = [] \<longleftrightarrow> v = []"
  by (induction v rule: trim_zeros.induct) auto

lemma trim_zeros_head: "trim_zeros v = 0 # bs \<Longrightarrow> bs = []"
  by (induction v rule: trim_zeros.induct) (auto split: if_splits)

lemma trim_zeros_append: "\<exists>k. v = replicate k 0 @ trim_zeros v"
proof (induction v rule: trim_zeros.induct)
  case (1 b c bs)
  show ?case
  proof (cases "b = 0")
    case True
    obtain k where "c # bs = replicate k 0 @ trim_zeros (c # bs)" using 1 [OF True] by blast
    then have "b # c # bs = replicate (Suc k) 0 @ trim_zeros (b # c # bs)" using True by simp
    then show ?thesis by blast
  qed (auto intro: exI [of _ 0])
qed (auto intro: exI [of _ 0])

text \<open>The contents of an \<open>INTEGER\<close>: the magnitude, behind a sign byte when it needs one.\<close>

definition integer_contents :: "bytes \<Rightarrow> bytes" where
  "integer_contents v =
     (if (case trim_zeros v of [] \<Rightarrow> False | b # _ \<Rightarrow> b AND 0x80 \<noteq> 0) then [0] else []) @ trim_zeros v"

lemma der_unsigned_integer_form:
  "der_unsigned_integer v = 0x02 # der_length (length (integer_contents v)) @ integer_contents v"
  by (simp add: der_unsigned_integer_def integer_contents_def Let_def)

lemma magnitude_of_contents: "der_integer_magnitude (integer_contents v) = trim_zeros v"
proof (cases "trim_zeros v")
  case (Cons b bs)
  then show ?thesis using trim_zeros_head [of v bs]
    by (auto simp: integer_contents_def der_integer_magnitude_def)
qed (simp add: integer_contents_def der_integer_magnitude_def)

lemma der_integer_read:
  assumes "length (integer_contents v) < usize_limit"
  shows "der_take_tlv (der_unsigned_integer v @ rest) 0x02 = Some (integer_contents v, rest)"
  using der_take_tlv_written [OF assms] by (simp add: der_unsigned_integer_form)

lemma der_integer_length: "length (integer_contents v) < length (der_unsigned_integer v)"
  by (simp add: der_unsigned_integer_form)

end
