(* ===== verification/RingSym.thy ===== *)
theory RingSym
  imports Der Util
begin

text \<open>
  The symmetric providers of \<open>src/src/crypto.rs\<close>: \<open>RingMacer\<close> and \<open>RingEncryptor\<close>. The two
  backend crates are not part of the program: what their HMAC and AEAD primitives compute is a
  parameter, a record of the functions the code calls. The provider traits of a value are the
  records \<open>macer\<close> and \<open>encryptor\<close> with its methods. The copy of the key that is zeroized
  when it is dropped is a byte list.
\<close>

definition unsupported_alg :: "string \<Rightarrow> int \<Rightarrow> error" where
  "unsupported_alg operation a =
     Custom (''unsupported '' @ operation @ '' algorithm '' @ show_label (LInt a) @
       '' for the built-in crypto backend'')"

text \<open>\<open>s[..n]\<close>, which panics when \<open>n\<close> is out of range.\<close>

definition slice_to :: "bytes \<Rightarrow> nat \<Rightarrow> error + bytes" where
  "slice_to s n =
     (if n \<le> length s then Inr (take n s) else Inl (Custom ''panic: range end index out of range''))"

definition constant_time_eq :: "bytes \<Rightarrow> bytes \<Rightarrow> bool" where
  "constant_time_eq a b =
     (if length a \<noteq> length b then False
      else foldl (\<lambda>diff (x, y). diff OR (x XOR y)) 0 (zip a b) = 0)"

section \<open>HMAC\<close>

datatype hmac_algorithm = HMAC_SHA256 | HMAC_SHA384 | HMAC_SHA512

text \<open>\<open>hmac::Key::new\<close> and \<open>hmac::sign\<close>.\<close>

record 'h hmac_backend =
  hb_key :: "hmac_algorithm \<Rightarrow> bytes \<Rightarrow> 'h"
  hb_sign :: "'h \<Rightarrow> bytes \<Rightarrow> bytes"

definition hmac_algorithm_for :: "int \<Rightarrow> error + (hmac_algorithm \<times> nat)" where
  "hmac_algorithm_for a =
     (if a = AlgorithmHMAC_256_64 then Inr (HMAC_SHA256, 8)
      else if a = AlgorithmHMAC_256_256 then Inr (HMAC_SHA256, 32)
      else if a = AlgorithmHMAC_384_384 then Inr (HMAC_SHA384, 48)
      else if a = AlgorithmHMAC_512_512 then Inr (HMAC_SHA512, 64)
      else Inl (unsupported_alg ''HMAC'' a))"

record 'h ring_macer =
  rm_alg :: int
  rm_kid :: "bytes option"
  rm_key :: 'h
  rm_raw_key :: bytes
  rm_tag_len :: nat
  rm_key_ops :: "label list option"

definition ring_macer_new ::
  "'h hmac_backend \<Rightarrow> int \<Rightarrow> bytes \<Rightarrow> bytes option \<Rightarrow> error + 'h ring_macer" where
  "ring_macer_new hb a key key_id =
     andThen (hmac_algorithm_for a) (\<lambda>(algorithm, tag_len).
     Inr \<lparr>rm_alg = a, rm_kid = key_id, rm_key = hb_key hb algorithm key, rm_raw_key = key,
          rm_tag_len = tag_len, rm_key_ops = None\<rparr>)"

definition ring_macer_from_cose_key :: "'h hmac_backend \<Rightarrow> cose_key \<Rightarrow> error + 'h ring_macer" where
  "ring_macer_from_cose_key hb key =
     andThen (require_integer_kty key KeyTypeSymmetric) (\<lambda>_.
     andThen (required_integer_alg key ''crypto backend'') (\<lambda>a.
     andThen (required_bytes key SymmetricKeyParameterK ''k'') (\<lambda>k.
     andThen (key_kid key) (\<lambda>key_id.
     andThen (ring_macer_new hb a k key_id) (\<lambda>macer.
     andThen (ops key) (\<lambda>key_ops.
     if \<not> key_ops_allow key_ops [KeyOperationMacCreate, KeyOperationMacVerify]
     then Inl (Custom ''COSE_Key key_ops permits neither MAC create nor MAC verify'')
     else Inr (macer\<lparr>rm_key_ops := key_ops\<rparr>)))))))"

definition ring_macer_to_cose_key :: "'h ring_macer \<Rightarrow> error + cose_key" where
  "ring_macer_to_cose_key self =
     Inr (symmetric_key (rm_alg self) (rm_raw_key self) (rm_kid self) None (rm_key_ops self))"

definition ring_mac_create :: "'h hmac_backend \<Rightarrow> 'h ring_macer \<Rightarrow> bytes \<Rightarrow> error + bytes" where
  "ring_mac_create hb self data =
     andThen (require_key_ops (rm_key_ops self) [KeyOperationMacCreate] ''MAC create'') (\<lambda>_.
     let tag = hb_sign hb (rm_key self) data in
     slice_to tag (rm_tag_len self))"

definition ring_mac_verify :: "'h hmac_backend \<Rightarrow> 'h ring_macer \<Rightarrow> bytes \<Rightarrow> bytes \<Rightarrow> error + unit" where
  "ring_mac_verify hb self data tag =
     andThen (require_key_ops (rm_key_ops self) [KeyOperationMacVerify] ''MAC verify'') (\<lambda>_.
     if length tag \<noteq> rm_tag_len self then Inl (Verify ''HMAC tag length mismatch'')
     else
       let expected = hb_sign hb (rm_key self) data in
       andThen (slice_to expected (rm_tag_len self)) (\<lambda>expected.
       if constant_time_eq expected tag then Inr ()
       else Inl (Verify ''HMAC tag mismatch'')))"

definition ring_macer_provider :: "'h hmac_backend \<Rightarrow> 'h ring_macer \<Rightarrow> macer" where
  "ring_macer_provider hb self =
     \<lparr>mc_alg = Some (LInt (rm_alg self)), mc_kid = rm_kid self, mc_understood = [],
      mc_create = ring_mac_create hb self, mc_verify = ring_mac_verify hb self\<rparr>"

section \<open>AEAD\<close>

datatype aead_algorithm = AES_128_GCM | AES_256_GCM | CHACHA20_POLY1305

text \<open>
  \<open>UnboundKey::new\<close> with \<open>LessSafeKey::new\<close>, \<open>NONCE_LEN\<close>, \<open>try_assume_unique_for_key\<close>,
  \<open>tag_len\<close> of the algorithm of a key, \<open>seal_in_place_append_tag\<close> with the buffer it leaves, and
  \<open>open_in_place\<close> with the length of the plaintext and the buffer it leaves.
\<close>

record 'a aead_backend =
  ab_key :: "aead_algorithm \<Rightarrow> bytes \<Rightarrow> 'a option"
  ab_nonce_len :: nat
  ab_nonce_ok :: "bytes \<Rightarrow> bool"
  ab_tag_len :: "'a \<Rightarrow> nat"
  ab_seal :: "'a \<Rightarrow> bytes \<Rightarrow> bytes \<Rightarrow> bytes \<Rightarrow> bytes option"
  ab_open :: "'a \<Rightarrow> bytes \<Rightarrow> bytes \<Rightarrow> bytes \<Rightarrow> (nat \<times> bytes) option"

definition aead_algorithm_for :: "int \<Rightarrow> error + aead_algorithm" where
  "aead_algorithm_for a =
     (if a = AlgorithmA128GCM then Inr AES_128_GCM
      else if a = AlgorithmA256GCM then Inr AES_256_GCM
      else if a = AlgorithmChaCha20Poly1305 then Inr CHACHA20_POLY1305
      else Inl (unsupported_alg ''AEAD'' a))"

record 'a ring_encryptor =
  rn_alg :: int
  rn_kid :: "bytes option"
  rn_key :: 'a
  rn_raw_key :: bytes
  rn_base_iv :: "bytes option"
  rn_key_ops :: "label list option"

definition ring_encryptor_new ::
  "'a aead_backend \<Rightarrow> int \<Rightarrow> bytes \<Rightarrow> bytes option \<Rightarrow> error + 'a ring_encryptor" where
  "ring_encryptor_new ab a key key_id =
     andThen (aead_algorithm_for a) (\<lambda>algorithm.
     andThen (ok_or (ab_key ab algorithm key) (Custom ''invalid AEAD key length'')) (\<lambda>k.
     Inr \<lparr>rn_alg = a, rn_kid = key_id, rn_key = k, rn_raw_key = key, rn_base_iv = None,
          rn_key_ops = None\<rparr>))"

definition ring_encryptor_from_cose_key ::
  "'a aead_backend \<Rightarrow> cose_key \<Rightarrow> error + 'a ring_encryptor" where
  "ring_encryptor_from_cose_key ab key =
     andThen (require_integer_kty key KeyTypeSymmetric) (\<lambda>_.
     andThen (required_integer_alg key ''crypto backend'') (\<lambda>a.
     andThen (required_bytes key SymmetricKeyParameterK ''k'') (\<lambda>k.
     andThen (key_kid key) (\<lambda>key_id.
     andThen (ring_encryptor_new ab a k key_id) (\<lambda>encryptor.
     andThen (key_base_iv key) (\<lambda>base_iv.
     andThen (ops key) (\<lambda>key_ops.
     if \<not> key_ops_allow key_ops [KeyOperationEncrypt, KeyOperationDecrypt]
     then Inl (Custom ''COSE_Key key_ops permits neither encryption nor decryption'')
     else Inr (encryptor\<lparr>rn_base_iv := base_iv, rn_key_ops := key_ops\<rparr>))))))))"

definition ring_with_base_iv :: "'a ring_encryptor \<Rightarrow> bytes \<Rightarrow> 'a ring_encryptor" where
  "ring_with_base_iv self base_iv = self\<lparr>rn_base_iv := Some base_iv\<rparr>"

definition ring_encryptor_to_cose_key :: "'a ring_encryptor \<Rightarrow> error + cose_key" where
  "ring_encryptor_to_cose_key self =
     Inr (symmetric_key (rn_alg self) (rn_raw_key self) (rn_kid self) (rn_base_iv self)
       (rn_key_ops self))"

definition ring_encrypt ::
  "'a aead_backend \<Rightarrow> 'a ring_encryptor \<Rightarrow> bytes \<Rightarrow> bytes \<Rightarrow> bytes \<Rightarrow> error + bytes" where
  "ring_encrypt ab self nonce plaintext aad =
     andThen (require_key_ops (rn_key_ops self) [KeyOperationEncrypt] ''encryption'') (\<lambda>_.
     if \<not> ab_nonce_ok ab nonce then Inl (Custom ''invalid AEAD nonce length'')
     else
       andThen (ok_or (checked_add (length plaintext) (ab_tag_len ab (rn_key self)))
         (Custom ''AEAD ciphertext size overflow'')) (\<lambda>_.
       ok_or (ab_seal ab (rn_key self) nonce aad plaintext) (Custom ''AEAD encryption failed'')))"

definition ring_decrypt ::
  "'a aead_backend \<Rightarrow> 'a ring_encryptor \<Rightarrow> bytes \<Rightarrow> bytes \<Rightarrow> bytes \<Rightarrow> error + bytes" where
  "ring_decrypt ab self nonce ciphertext aad =
     andThen (require_key_ops (rn_key_ops self) [KeyOperationDecrypt] ''decryption'') (\<lambda>_.
     if \<not> ab_nonce_ok ab nonce then Inl (Custom ''invalid AEAD nonce length'')
     else
       andThen (ok_or (ab_open ab (rn_key self) nonce aad ciphertext)
         (Verify ''AEAD authentication failed'')) (\<lambda>(plaintext_len, in_out).
       Inr (take plaintext_len in_out)))"

definition ring_encryptor_provider :: "'a aead_backend \<Rightarrow> 'a ring_encryptor \<Rightarrow> encryptor" where
  "ring_encryptor_provider ab self =
     \<lparr>en_alg = Some (LInt (rn_alg self)), en_kid = rn_kid self, en_understood = [],
      en_nonce_size = ab_nonce_len ab, en_base_iv = rn_base_iv self,
      en_encrypt = ring_encrypt ab self, en_decrypt = ring_decrypt ab self\<rparr>"

section \<open>The constant-time comparison\<close>

lemma xor_zero_iff: "a XOR b = 0 \<longleftrightarrow> a = (b :: 'b::len word)"
  by (auto simp: bit_eq_iff bit_simps)

lemma foldl_or_zero:
  fixes d :: "'b::len word"
  shows "foldl (\<lambda>diff (x, y). diff OR (x XOR y)) d ps = 0 \<longleftrightarrow> d = 0 \<and> (\<forall>(x, y) \<in> set ps. x = y)"
  by (induction ps arbitrary: d) (auto simp: or_eq_0_iff xor_zero_iff)

lemma constant_time_eq_iff [simp]: "constant_time_eq a b \<longleftrightarrow> a = b"
proof -
  have "(\<forall>(x, y) \<in> set (zip a b). x = y) \<longleftrightarrow> a = b" if "length a = length b"
    using that by (induction a b rule: list_induct2) auto
  then show ?thesis by (auto simp: constant_time_eq_def foldl_or_zero)
qed

lemma slice_to_ok [guards]: "slice_to s n = Inr t \<longleftrightarrow> n \<le> length s \<and> t = take n s"
  by (auto simp: slice_to_def)

end
