(* ===== verification/RingSig.thy ===== *)
theory RingSig
  imports RingSym
begin

text \<open>
  The signature providers of \<open>src/src/crypto.rs\<close>: \<open>RingSigner\<close> and \<open>RingVerifier\<close>. The key
  pairs and primitives of the backend crates are parameters; a value of type \<open>'g\<close> is the
  randomness that one call draws from \<open>SystemRandom\<close> (\<open>aws-lc-rs\<close> ignores it where the code
  does not pass it).
\<close>

section \<open>Algorithms\<close>

datatype ecdsa_signing_algorithm = ECDSA_P256_SHA256_FIXED_SIGNING | ECDSA_P384_SHA384_FIXED_SIGNING

datatype ecdsa_verification_algorithm = ECDSA_P256_SHA256_FIXED | ECDSA_P384_SHA384_FIXED

datatype rsa_encoding = RSA_PKCS1_SHA256 | RSA_PKCS1_SHA384 | RSA_PKCS1_SHA512
  | RSA_PSS_SHA256 | RSA_PSS_SHA384 | RSA_PSS_SHA512

datatype rsa_parameters = RSA_PKCS1_2048_8192_SHA256 | RSA_PKCS1_2048_8192_SHA384
  | RSA_PKCS1_2048_8192_SHA512 | RSA_PSS_2048_8192_SHA256 | RSA_PSS_2048_8192_SHA384
  | RSA_PSS_2048_8192_SHA512

definition ecdsa_verification_algorithm_for :: "int \<Rightarrow> error + ecdsa_verification_algorithm" where
  "ecdsa_verification_algorithm_for a =
     (if a = AlgorithmES256 \<or> a = AlgorithmESP256 then Inr ECDSA_P256_SHA256_FIXED
      else if a = AlgorithmES384 \<or> a = AlgorithmESP384 then Inr ECDSA_P384_SHA384_FIXED
      else Inl (unsupported_alg ''ECDSA verification'' a))"

definition rsa_signing_algorithm :: "int \<Rightarrow> error + rsa_encoding" where
  "rsa_signing_algorithm a =
     (if a = AlgorithmRS256 then Inr RSA_PKCS1_SHA256
      else if a = AlgorithmRS384 then Inr RSA_PKCS1_SHA384
      else if a = AlgorithmRS512 then Inr RSA_PKCS1_SHA512
      else if a = AlgorithmPS256 then Inr RSA_PSS_SHA256
      else if a = AlgorithmPS384 then Inr RSA_PSS_SHA384
      else if a = AlgorithmPS512 then Inr RSA_PSS_SHA512
      else Inl (unsupported_alg ''RSA signing'' a))"

definition rsa_verification_algorithm :: "int \<Rightarrow> error + rsa_parameters" where
  "rsa_verification_algorithm a =
     (if a = AlgorithmRS256 then Inr RSA_PKCS1_2048_8192_SHA256
      else if a = AlgorithmRS384 then Inr RSA_PKCS1_2048_8192_SHA384
      else if a = AlgorithmRS512 then Inr RSA_PKCS1_2048_8192_SHA512
      else if a = AlgorithmPS256 then Inr RSA_PSS_2048_8192_SHA256
      else if a = AlgorithmPS384 then Inr RSA_PSS_2048_8192_SHA384
      else if a = AlgorithmPS512 then Inr RSA_PSS_2048_8192_SHA512
      else Inl (unsupported_alg ''RSA verification'' a))"

definition require_ed25519_alg :: "int \<Rightarrow> error + unit" where
  "require_ed25519_alg a =
     (if a = AlgorithmEd25519 \<or> a = AlgorithmEdDSA then Inr ()
      else Inl (unsupported_alg ''Ed25519'' a))"

section \<open>EC and RSA keys\<close>

definition ec2_uncompressed_public_key :: "cose_key \<Rightarrow> nat \<Rightarrow> error + bytes" where
  "ec2_uncompressed_public_key key coordinate_len =
     andThen (required_bytes key EC2KeyParameterX ''x'') (\<lambda>x.
     andThen (required_bytes key EC2KeyParameterY ''y'') (\<lambda>y.
     if length x \<noteq> coordinate_len \<or> length y \<noteq> coordinate_len then
       Inl (Custom (''EC2 coordinates must be '' @ show_nat coordinate_len @ '' bytes, got x = '' @
         show_nat (length x) @ '' and y = '' @ show_nat (length y)))
     else Inr (0x04 # x @ y)))"

definition ec2_public_cose_key :: "int \<Rightarrow> bytes \<Rightarrow> bytes option \<Rightarrow> error + cose_key" where
  "ec2_public_cose_key a point key_id =
     andThen
       (if a = AlgorithmES256 \<or> a = AlgorithmESP256 then Inr (EllipticCurveP_256, 32)
        else if a = AlgorithmES384 \<or> a = AlgorithmESP384 then Inr (EllipticCurveP_384, 48)
        else Inl (unsupported_alg ''ECDSA'' a)) (\<lambda>(curve, coord_len).
     if (case point of [] \<Rightarrow> True | b # _ \<Rightarrow> b \<noteq> 0x04) \<or> length point \<noteq> 1 + 2 * coord_len
     then Inl (Custom ''invalid uncompressed EC public key'')
     else
       Inr (set_ops [LInt KeyOperationVerify]
         (bt_insert (LInt EC2KeyParameterY) (VBytes (drop (1 + coord_len) point))
           (bt_insert (LInt EC2KeyParameterX) (VBytes (take coord_len (drop 1 point)))
             (bt_insert (LInt EC2KeyParameterCrv) (VInteger curve)
               (with_kty_alg KeyTypeEC2 a key_id))))))"

definition rsa_public_cose_key :: "int \<Rightarrow> bytes \<Rightarrow> bytes \<Rightarrow> bytes option \<Rightarrow> cose_key" where
  "rsa_public_cose_key a n e key_id =
     set_ops [LInt KeyOperationVerify]
       (bt_insert (LInt RSAKeyParameterE) (VBytes e)
         (bt_insert (LInt RSAKeyParameterN) (VBytes n) (with_kty_alg KeyTypeRSA a key_id)))"

section \<open>The signer\<close>

record ('ed, 'ec, 'rsa, 'g) signing_backend =
  sb_ed25519_pkcs8 :: "bytes \<Rightarrow> 'ed option"
  sb_ed25519_keys :: "bytes \<Rightarrow> bytes \<Rightarrow> 'ed option"
  sb_ed25519_public :: "'ed \<Rightarrow> bytes"
  sb_ed25519_sign :: "'ed \<Rightarrow> bytes \<Rightarrow> bytes"
  sb_ecdsa_pkcs8 :: "ecdsa_signing_algorithm \<Rightarrow> bytes \<Rightarrow> 'g \<Rightarrow> 'ec option"
  sb_ecdsa_keys :: "ecdsa_signing_algorithm \<Rightarrow> bytes \<Rightarrow> bytes \<Rightarrow> 'g \<Rightarrow> 'ec option"
  sb_ecdsa_public :: "'ec \<Rightarrow> bytes"
  sb_ecdsa_sign :: "'ec \<Rightarrow> 'g \<Rightarrow> bytes \<Rightarrow> bytes option"
  sb_rsa_pkcs8 :: "bytes \<Rightarrow> 'rsa option"
  sb_rsa_der :: "bytes \<Rightarrow> 'rsa option"
  sb_rsa_modulus_len :: "'rsa \<Rightarrow> nat"
  sb_rsa_sign :: "'rsa \<Rightarrow> rsa_encoding \<Rightarrow> 'g \<Rightarrow> bytes \<Rightarrow> bytes \<Rightarrow> bytes option"

datatype ('ed, 'ec, 'rsa) ring_signing_key =
    SkEd25519 'ed
  | SkEcdsa 'ec
  | SkRsa 'rsa rsa_encoding

record ('ed, 'ec, 'rsa) ring_signer =
  rs_alg :: int
  rs_kid :: "bytes option"
  rs_key :: "('ed, 'ec, 'rsa) ring_signing_key"

definition ed25519_from_pkcs8_with_alg ::
  "('ed, 'ec, 'rsa, 'g) signing_backend \<Rightarrow> int \<Rightarrow> bytes \<Rightarrow> bytes option \<Rightarrow>
     error + ('ed, 'ec, 'rsa) ring_signer" where
  "ed25519_from_pkcs8_with_alg sb a pkcs8 key_id =
     andThen (require_ed25519_alg a) (\<lambda>_.
     andThen (ok_or (sb_ed25519_pkcs8 sb pkcs8) (Custom ''invalid Ed25519 PKCS#8 key'')) (\<lambda>key.
     Inr \<lparr>rs_alg = a, rs_kid = key_id, rs_key = SkEd25519 key\<rparr>))"

definition ed25519_from_pkcs8 ::
  "('ed, 'ec, 'rsa, 'g) signing_backend \<Rightarrow> bytes \<Rightarrow> bytes option \<Rightarrow>
     error + ('ed, 'ec, 'rsa) ring_signer" where
  "ed25519_from_pkcs8 sb pkcs8 key_id = ed25519_from_pkcs8_with_alg sb AlgorithmEd25519 pkcs8 key_id"

definition ed25519_from_seed_and_public_key_with_alg ::
  "('ed, 'ec, 'rsa, 'g) signing_backend \<Rightarrow> int \<Rightarrow> bytes \<Rightarrow> bytes \<Rightarrow> bytes option \<Rightarrow>
     error + ('ed, 'ec, 'rsa) ring_signer" where
  "ed25519_from_seed_and_public_key_with_alg sb a seed public_key key_id =
     andThen (require_ed25519_alg a) (\<lambda>_.
     andThen (ok_or (sb_ed25519_keys sb seed public_key) (Custom ''invalid Ed25519 key material''))
       (\<lambda>key.
     Inr \<lparr>rs_alg = a, rs_kid = key_id, rs_key = SkEd25519 key\<rparr>))"

definition ed25519_from_seed_and_public_key ::
  "('ed, 'ec, 'rsa, 'g) signing_backend \<Rightarrow> bytes \<Rightarrow> bytes \<Rightarrow> bytes option \<Rightarrow>
     error + ('ed, 'ec, 'rsa) ring_signer" where
  "ed25519_from_seed_and_public_key sb seed public_key key_id =
     ed25519_from_seed_and_public_key_with_alg sb AlgorithmEd25519 seed public_key key_id"

definition ecdsa_from_pkcs8 ::
  "('ed, 'ec, 'rsa, 'g) signing_backend \<Rightarrow> 'g \<Rightarrow> int \<Rightarrow> ecdsa_signing_algorithm \<Rightarrow> bytes \<Rightarrow>
     bytes option \<Rightarrow> error + ('ed, 'ec, 'rsa) ring_signer" where
  "ecdsa_from_pkcs8 sb rng a signing_algorithm pkcs8 key_id =
     andThen (ok_or (sb_ecdsa_pkcs8 sb signing_algorithm pkcs8 rng)
       (Custom ''invalid ECDSA PKCS#8 key'')) (\<lambda>key.
     Inr \<lparr>rs_alg = a, rs_kid = key_id, rs_key = SkEcdsa key\<rparr>)"

definition es256_from_pkcs8 ::
  "('ed, 'ec, 'rsa, 'g) signing_backend \<Rightarrow> 'g \<Rightarrow> bytes \<Rightarrow> bytes option \<Rightarrow>
     error + ('ed, 'ec, 'rsa) ring_signer" where
  "es256_from_pkcs8 sb rng pkcs8 key_id =
     ecdsa_from_pkcs8 sb rng AlgorithmES256 ECDSA_P256_SHA256_FIXED_SIGNING pkcs8 key_id"

definition esp256_from_pkcs8 ::
  "('ed, 'ec, 'rsa, 'g) signing_backend \<Rightarrow> 'g \<Rightarrow> bytes \<Rightarrow> bytes option \<Rightarrow>
     error + ('ed, 'ec, 'rsa) ring_signer" where
  "esp256_from_pkcs8 sb rng pkcs8 key_id =
     ecdsa_from_pkcs8 sb rng AlgorithmESP256 ECDSA_P256_SHA256_FIXED_SIGNING pkcs8 key_id"

definition es384_from_pkcs8 ::
  "('ed, 'ec, 'rsa, 'g) signing_backend \<Rightarrow> 'g \<Rightarrow> bytes \<Rightarrow> bytes option \<Rightarrow>
     error + ('ed, 'ec, 'rsa) ring_signer" where
  "es384_from_pkcs8 sb rng pkcs8 key_id =
     ecdsa_from_pkcs8 sb rng AlgorithmES384 ECDSA_P384_SHA384_FIXED_SIGNING pkcs8 key_id"

definition esp384_from_pkcs8 ::
  "('ed, 'ec, 'rsa, 'g) signing_backend \<Rightarrow> 'g \<Rightarrow> bytes \<Rightarrow> bytes option \<Rightarrow>
     error + ('ed, 'ec, 'rsa) ring_signer" where
  "esp384_from_pkcs8 sb rng pkcs8 key_id =
     ecdsa_from_pkcs8 sb rng AlgorithmESP384 ECDSA_P384_SHA384_FIXED_SIGNING pkcs8 key_id"

definition rsa_from_pkcs8 ::
  "('ed, 'ec, 'rsa, 'g) signing_backend \<Rightarrow> int \<Rightarrow> bytes \<Rightarrow> bytes option \<Rightarrow>
     error + ('ed, 'ec, 'rsa) ring_signer" where
  "rsa_from_pkcs8 sb a pkcs8 key_id =
     andThen (rsa_signing_algorithm a) (\<lambda>padding.
     andThen (ok_or (sb_rsa_pkcs8 sb pkcs8) (Custom ''invalid RSA PKCS#8 key'')) (\<lambda>key_pair.
     Inr \<lparr>rs_alg = a, rs_kid = key_id, rs_key = SkRsa key_pair padding\<rparr>))"

definition rsa_from_der ::
  "('ed, 'ec, 'rsa, 'g) signing_backend \<Rightarrow> int \<Rightarrow> bytes \<Rightarrow> bytes option \<Rightarrow>
     error + ('ed, 'ec, 'rsa) ring_signer" where
  "rsa_from_der sb a der key_id =
     andThen (rsa_signing_algorithm a) (\<lambda>padding.
     andThen (ok_or (sb_rsa_der sb der) (Custom ''invalid RSA DER key'')) (\<lambda>key_pair.
     Inr \<lparr>rs_alg = a, rs_kid = key_id, rs_key = SkRsa key_pair padding\<rparr>))"

definition ed25519_from_cose_key ::
  "('ed, 'ec, 'rsa, 'g) signing_backend \<Rightarrow> cose_key \<Rightarrow> int \<Rightarrow> error + ('ed, 'ec, 'rsa) ring_signer"
where
  "ed25519_from_cose_key sb key a =
     andThen (require_integer_kty key KeyTypeOKP) (\<lambda>_.
     andThen (require_integer_parameter key OKPKeyParameterCrv EllipticCurveEd25519 ''curve'') (\<lambda>_.
     andThen (required_bytes key OKPKeyParameterD ''d'') (\<lambda>d.
     andThen (required_bytes key OKPKeyParameterX ''x'') (\<lambda>x.
     andThen (key_kid key) (\<lambda>key_id.
     ed25519_from_seed_and_public_key_with_alg sb a d x key_id)))))"

definition ecdsa_from_cose_key ::
  "('ed, 'ec, 'rsa, 'g) signing_backend \<Rightarrow> 'g \<Rightarrow> cose_key \<Rightarrow> int \<Rightarrow>
     error + ('ed, 'ec, 'rsa) ring_signer" where
  "ecdsa_from_cose_key sb rng key a =
     andThen (require_integer_kty key KeyTypeEC2) (\<lambda>_.
     andThen
       (if a = AlgorithmES256 \<or> a = AlgorithmESP256
        then Inr (EllipticCurveP_256, ECDSA_P256_SHA256_FIXED_SIGNING, 32)
        else if a = AlgorithmES384 \<or> a = AlgorithmESP384
        then Inr (EllipticCurveP_384, ECDSA_P384_SHA384_FIXED_SIGNING, 48)
        else Inl (unsupported_alg ''ECDSA signing'' a)) (\<lambda>(curve, signing_algorithm, coordinate_len).
     andThen (require_integer_parameter key EC2KeyParameterCrv curve ''curve'') (\<lambda>_.
     andThen (key_kid key) (\<lambda>key_id.
     andThen (ec2_uncompressed_public_key key coordinate_len) (\<lambda>public_key.
     andThen (required_bytes key EC2KeyParameterD ''d'') (\<lambda>d.
     andThen (ok_or (sb_ecdsa_keys sb signing_algorithm d public_key rng)
       (Custom ''invalid ECDSA key material'')) (\<lambda>signing_key.
     Inr \<lparr>rs_alg = a, rs_kid = key_id, rs_key = SkEcdsa signing_key\<rparr>)))))))"

definition rsa_from_cose_key ::
  "('ed, 'ec, 'rsa, 'g) signing_backend \<Rightarrow> cose_key \<Rightarrow> int \<Rightarrow> error + ('ed, 'ec, 'rsa) ring_signer"
where
  "rsa_from_cose_key sb key a =
     andThen (require_integer_kty key KeyTypeRSA) (\<lambda>_.
     andThen (rsa_signing_algorithm a) (\<lambda>padding.
     andThen (rsa_pkcs1_private_key_der key) (\<lambda>der.
     andThen (ok_or (sb_rsa_der sb der) (Custom ''invalid RSA key material'')) (\<lambda>key_pair.
     andThen (key_kid key) (\<lambda>key_id.
     Inr \<lparr>rs_alg = a, rs_kid = key_id, rs_key = SkRsa key_pair padding\<rparr>)))))"

definition ring_signer_from_cose_key ::
  "('ed, 'ec, 'rsa, 'g) signing_backend \<Rightarrow> 'g \<Rightarrow> cose_key \<Rightarrow> error + ('ed, 'ec, 'rsa) ring_signer"
where
  "ring_signer_from_cose_key sb rng key =
     andThen (require_any_operation key [KeyOperationSign] ''signing'') (\<lambda>_.
     andThen (required_integer_alg key ''crypto backend'') (\<lambda>a.
     if a \<in> {AlgorithmEdDSA, AlgorithmEd25519} then ed25519_from_cose_key sb key a
     else if a \<in> {AlgorithmES256, AlgorithmESP256, AlgorithmES384, AlgorithmESP384}
     then ecdsa_from_cose_key sb rng key a
     else if a \<in> {AlgorithmRS256, AlgorithmRS384, AlgorithmRS512,
                   AlgorithmPS256, AlgorithmPS384, AlgorithmPS512}
     then rsa_from_cose_key sb key a
     else Inl (unsupported_alg ''signing'' a)))"

definition ring_signer_public_key ::
  "('ed, 'ec, 'rsa, 'g) signing_backend \<Rightarrow> ('ed, 'ec, 'rsa) ring_signer \<Rightarrow> bytes option" where
  "ring_signer_public_key sb self =
     (case rs_key self of
        SkEd25519 key \<Rightarrow> Some (sb_ed25519_public sb key)
      | SkEcdsa key \<Rightarrow> Some (sb_ecdsa_public sb key)
      | SkRsa _ _ \<Rightarrow> None)"

definition ring_signer_to_cose_key ::
  "('ed, 'ec, 'rsa, 'g) signing_backend \<Rightarrow> ('ed, 'ec, 'rsa) ring_signer \<Rightarrow> error + cose_key" where
  "ring_signer_to_cose_key sb self =
     (case rs_key self of
        SkEd25519 key \<Rightarrow> Inr (ed25519_public (rs_alg self) (sb_ed25519_public sb key) (rs_kid self))
      | SkEcdsa key \<Rightarrow> ec2_public_cose_key (rs_alg self) (sb_ecdsa_public sb key) (rs_kid self)
      | SkRsa _ _ \<Rightarrow>
          Inl (Custom ''cannot export a COSE_Key from an RSA RingSigner: the backend exposes no public key''))"

definition ring_sign ::
  "('ed, 'ec, 'rsa, 'g) signing_backend \<Rightarrow> 'g \<Rightarrow> ('ed, 'ec, 'rsa) ring_signer \<Rightarrow> bytes \<Rightarrow> error + bytes"
where
  "ring_sign sb rng self data =
     (case rs_key self of
        SkEd25519 key \<Rightarrow> Inr (sb_ed25519_sign sb key data)
      | SkEcdsa key \<Rightarrow> ok_or (sb_ecdsa_sign sb key rng data) (Custom ''ECDSA signing failed'')
      | SkRsa key_pair padding \<Rightarrow>
          let sig_len = sb_rsa_modulus_len sb key_pair in
          ok_or (sb_rsa_sign sb key_pair padding rng data (replicate sig_len 0))
            (Custom ''RSA signing failed''))"

text \<open>The signer as a provider, for one draw of randomness.\<close>

definition ring_signer_provider ::
  "('ed, 'ec, 'rsa, 'g) signing_backend \<Rightarrow> 'g \<Rightarrow> ('ed, 'ec, 'rsa) ring_signer \<Rightarrow> signer" where
  "ring_signer_provider sb rng self =
     \<lparr>sg_alg = Some (LInt (rs_alg self)), sg_kid = rs_kid self, sg_sign = ring_sign sb rng self\<rparr>"

section \<open>The verifier\<close>

record verification_backend =
  vb_ed25519 :: "bytes \<Rightarrow> bytes \<Rightarrow> bytes \<Rightarrow> bool"
  vb_ecdsa :: "ecdsa_verification_algorithm \<Rightarrow> bytes \<Rightarrow> bytes \<Rightarrow> bytes \<Rightarrow> bool"
  vb_rsa_components :: "rsa_parameters \<Rightarrow> bytes \<Rightarrow> bytes \<Rightarrow> bytes \<Rightarrow> bytes \<Rightarrow> bool"
  vb_rsa_der :: "rsa_parameters \<Rightarrow> bytes \<Rightarrow> bytes \<Rightarrow> bytes \<Rightarrow> bool"

datatype ring_verification_key =
    VkEd25519 bytes
  | VkEcdsa bytes
  | VkRsaComponents bytes bytes
  | VkRsaDer bytes

record ring_verifier =
  rv_alg :: int
  rv_kid :: "bytes option"
  rv_key :: ring_verification_key

definition ed25519_with_alg :: "int \<Rightarrow> bytes \<Rightarrow> bytes option \<Rightarrow> error + ring_verifier" where
  "ed25519_with_alg a public_key key_id =
     andThen (require_ed25519_alg a) (\<lambda>_.
     Inr \<lparr>rv_alg = a, rv_kid = key_id, rv_key = VkEd25519 public_key\<rparr>)"

definition ring_ed25519_verifier :: "bytes \<Rightarrow> bytes option \<Rightarrow> error + ring_verifier" where
  "ring_ed25519_verifier public_key key_id = ed25519_with_alg AlgorithmEd25519 public_key key_id"

definition ecdsa_verifier :: "int \<Rightarrow> bytes \<Rightarrow> bytes option \<Rightarrow> error + ring_verifier" where
  "ecdsa_verifier a public_key key_id =
     andThen (ecdsa_verification_algorithm_for a) (\<lambda>_.
     Inr \<lparr>rv_alg = a, rv_kid = key_id, rv_key = VkEcdsa public_key\<rparr>)"

definition rsa_components :: "int \<Rightarrow> bytes \<Rightarrow> bytes \<Rightarrow> bytes option \<Rightarrow> error + ring_verifier" where
  "rsa_components a n e key_id =
     andThen (rsa_verification_algorithm a) (\<lambda>_.
     Inr \<lparr>rv_alg = a, rv_kid = key_id, rv_key = VkRsaComponents n e\<rparr>)"

definition rsa_der :: "int \<Rightarrow> bytes \<Rightarrow> bytes option \<Rightarrow> error + ring_verifier" where
  "rsa_der a der key_id =
     andThen (rsa_verification_algorithm a) (\<lambda>_.
     Inr \<lparr>rv_alg = a, rv_kid = key_id, rv_key = VkRsaDer der\<rparr>)"

definition ring_verifier_from_cose_key :: "cose_key \<Rightarrow> error + ring_verifier" where
  "ring_verifier_from_cose_key key =
     andThen (require_any_operation key [KeyOperationVerify] ''signature verification'') (\<lambda>_.
     andThen (required_integer_alg key ''crypto backend'') (\<lambda>a.
     if a \<in> {AlgorithmEdDSA, AlgorithmEd25519} then
       andThen (require_integer_kty key KeyTypeOKP) (\<lambda>_.
       andThen (require_integer_parameter key OKPKeyParameterCrv EllipticCurveEd25519 ''curve'') (\<lambda>_.
       andThen (required_bytes key OKPKeyParameterX ''x'') (\<lambda>x.
       andThen (key_kid key) (\<lambda>key_id. ed25519_with_alg a x key_id))))
     else if a \<in> {AlgorithmES256, AlgorithmESP256, AlgorithmES384, AlgorithmESP384} then
       andThen (require_integer_kty key KeyTypeEC2) (\<lambda>_.
       let (expected_curve, coordinate_len) =
         (if a = AlgorithmES256 \<or> a = AlgorithmESP256 then (EllipticCurveP_256, 32)
          else (EllipticCurveP_384, 48)) in
       andThen (require_integer_parameter key EC2KeyParameterCrv expected_curve ''curve'') (\<lambda>_.
       andThen (ec2_uncompressed_public_key key coordinate_len) (\<lambda>point.
       andThen (key_kid key) (\<lambda>key_id. ecdsa_verifier a point key_id))))
     else if a \<in> {AlgorithmRS256, AlgorithmRS384, AlgorithmRS512,
                   AlgorithmPS256, AlgorithmPS384, AlgorithmPS512} then
       andThen (require_integer_kty key KeyTypeRSA) (\<lambda>_.
       andThen (required_bytes key RSAKeyParameterN ''n'') (\<lambda>n.
       andThen (required_bytes key RSAKeyParameterE ''e'') (\<lambda>e.
       andThen (key_kid key) (\<lambda>key_id. rsa_components a n e key_id))))
     else Inl (unsupported_alg ''verification'' a)))"

definition ring_verifier_to_cose_key :: "ring_verifier \<Rightarrow> error + cose_key" where
  "ring_verifier_to_cose_key self =
     (case rv_key self of
        VkEd25519 public_key \<Rightarrow> Inr (ed25519_public (rv_alg self) public_key (rv_kid self))
      | VkEcdsa public_key \<Rightarrow> ec2_public_cose_key (rv_alg self) public_key (rv_kid self)
      | VkRsaComponents n e \<Rightarrow> Inr (rsa_public_cose_key (rv_alg self) n e (rv_kid self))
      | VkRsaDer der \<Rightarrow>
          andThen (rsa_public_key_from_der der) (\<lambda>(n, e).
          Inr (rsa_public_cose_key (rv_alg self) n e (rv_kid self))))"

definition ring_verify ::
  "verification_backend \<Rightarrow> ring_verifier \<Rightarrow> bytes \<Rightarrow> bytes \<Rightarrow> error + unit" where
  "ring_verify vb self data signature =
     (case rv_key self of
        VkEd25519 public_key \<Rightarrow>
          require (vb_ed25519 vb public_key data signature) (Verify ''Ed25519 signature mismatch'')
      | VkEcdsa public_key \<Rightarrow>
          andThen (ecdsa_verification_algorithm_for (rv_alg self)) (\<lambda>algorithm.
          require (vb_ecdsa vb algorithm public_key data signature) (Verify ''ECDSA signature mismatch''))
      | VkRsaComponents n e \<Rightarrow>
          andThen (rsa_verification_algorithm (rv_alg self)) (\<lambda>algorithm.
          require (vb_rsa_components vb algorithm n e data signature) (Verify ''RSA signature mismatch''))
      | VkRsaDer der \<Rightarrow>
          andThen (rsa_verification_algorithm (rv_alg self)) (\<lambda>algorithm.
          require (vb_rsa_der vb algorithm der data signature) (Verify ''RSA signature mismatch'')))"

definition ring_verifier_provider :: "verification_backend \<Rightarrow> ring_verifier \<Rightarrow> verifier" where
  "ring_verifier_provider vb self =
     \<lparr>vf_alg = Some (LInt (rv_alg self)), vf_kid = rv_kid self, vf_understood = [],
      vf_verify = ring_verify vb self\<rparr>"

end
