(* ===== verification/Builtin.thy ===== *)
theory Builtin
  imports RingSym
begin

text \<open>
  The other built-in providers: \<open>src/src/ed25519.rs\<close> over \<open>ed25519-dalek\<close> and
  \<open>src/src/aes_gcm.rs\<close> over \<open>aes-gcm\<close>. The crates' key, signature and cipher types are type
  variables and what they compute is a parameter.
\<close>

section \<open>Ed25519\<close>

text \<open>
  \<open>SigningKey::from_bytes\<close>, \<open>verifying_key\<close> and \<open>sign\<close>; \<open>VerifyingKey::from_bytes\<close>, \<open>to_bytes\<close> and
  \<open>verify_strict\<close>; \<open>Signature::from_slice\<close> and \<open>to_bytes\<close>. Keys are 32 bytes long, the lengths
  \<open>SECRET_KEY_LENGTH\<close> and \<open>PUBLIC_KEY_LENGTH\<close> that the code and its messages name.
\<close>

record ('s, 'v, 'z) dalek =
  dk_signing_key :: "bytes \<Rightarrow> 's"
  dk_verifying_key_of :: "'s \<Rightarrow> 'v"
  dk_sign :: "'s \<Rightarrow> bytes \<Rightarrow> 'z"
  dk_verifying_key :: "bytes \<Rightarrow> 'v option"
  dk_key_bytes :: "'v \<Rightarrow> bytes"
  dk_verify_strict :: "'v \<Rightarrow> bytes \<Rightarrow> 'z \<Rightarrow> bool"
  dk_signature :: "bytes \<Rightarrow> 'z option"
  dk_signature_bytes :: "'z \<Rightarrow> bytes"

definition require_supported_alg :: "int \<Rightarrow> error + unit" where
  "require_supported_alg a =
     (if a = AlgorithmEd25519 \<or> a = AlgorithmEdDSA then Inr ()
      else Inl (Custom (''unsupported Ed25519 algorithm '' @ show_label (LInt a))))"

definition require_alg :: "cose_key \<Rightarrow> error + int" where
  "require_alg key =
     andThen (key_alg key) (\<lambda>found.
     case found of
       None \<Rightarrow> Inr AlgorithmEd25519
     | Some other \<Rightarrow>
         (case (case other of
             LInt a \<Rightarrow> if a = AlgorithmEd25519 \<or> a = AlgorithmEdDSA then Some a else None
           | LText _ \<Rightarrow> None) of
            Some a \<Rightarrow> Inr a
          | None \<Rightarrow>
              Inl (Custom (''COSE_Key alg mismatch, expected '' @ show_label (LInt AlgorithmEd25519) @
                '' or '' @ show_label (LInt AlgorithmEdDSA) @ '', got '' @ show_label other))))"

record 's ed25519_signer =
  es_alg :: int
  es_kid :: "bytes option"
  es_key :: 's

definition from_secret_key_with_alg ::
  "('s, 'v, 'z) dalek \<Rightarrow> int \<Rightarrow> bytes \<Rightarrow> bytes option \<Rightarrow> error + 's ed25519_signer" where
  "from_secret_key_with_alg dk a secret_key key_id =
     andThen (require_supported_alg a) (\<lambda>_.
     if length secret_key \<noteq> 32 then Inl (Custom ''Ed25519 private key must be 32 bytes'')
     else Inr \<lparr>es_alg = a, es_kid = key_id, es_key = dk_signing_key dk secret_key\<rparr>)"

definition from_secret_key ::
  "('s, 'v, 'z) dalek \<Rightarrow> bytes \<Rightarrow> bytes option \<Rightarrow> error + 's ed25519_signer" where
  "from_secret_key dk secret_key key_id = from_secret_key_with_alg dk AlgorithmEd25519 secret_key key_id"

definition ed25519_signer_public_key :: "('s, 'v, 'z) dalek \<Rightarrow> 's ed25519_signer \<Rightarrow> bytes" where
  "ed25519_signer_public_key dk self = dk_key_bytes dk (dk_verifying_key_of dk (es_key self))"

definition ed25519_signer_from_cose_key ::
  "('s, 'v, 'z) dalek \<Rightarrow> cose_key \<Rightarrow> error + 's ed25519_signer" where
  "ed25519_signer_from_cose_key dk key =
     andThen (require_any_operation key [KeyOperationSign] ''signing'') (\<lambda>_.
     andThen (require_alg key) (\<lambda>a.
     andThen (require_integer_kty key KeyTypeOKP) (\<lambda>_.
     andThen (require_integer_parameter key OKPKeyParameterCrv EllipticCurveEd25519 ''curve'') (\<lambda>_.
     andThen (required_bytes key OKPKeyParameterD ''d'') (\<lambda>d.
     andThen (key_kid key) (\<lambda>key_id.
     andThen (from_secret_key_with_alg dk a d key_id) (\<lambda>signer.
     andThen (get_bytes key (LInt OKPKeyParameterX)) (\<lambda>x.
     case x of
       None \<Rightarrow> Inr signer
     | Some expected \<Rightarrow>
         if expected \<noteq> ed25519_signer_public_key dk signer
         then Inl (Custom ''COSE_Key Ed25519 public key x does not match private key d'')
         else Inr signer))))))))"

definition ed25519_signer_to_cose_key ::
  "('s, 'v, 'z) dalek \<Rightarrow> 's ed25519_signer \<Rightarrow> error + cose_key" where
  "ed25519_signer_to_cose_key dk self =
     Inr (ed25519_public (es_alg self) (dk_key_bytes dk (dk_verifying_key_of dk (es_key self)))
       (es_kid self))"

definition ed25519_sign :: "('s, 'v, 'z) dalek \<Rightarrow> 's ed25519_signer \<Rightarrow> bytes \<Rightarrow> error + bytes" where
  "ed25519_sign dk self data = Inr (dk_signature_bytes dk (dk_sign dk (es_key self) data))"

definition ed25519_signer_provider :: "('s, 'v, 'z) dalek \<Rightarrow> 's ed25519_signer \<Rightarrow> signer" where
  "ed25519_signer_provider dk self =
     \<lparr>sg_alg = Some (LInt (es_alg self)), sg_kid = es_kid self, sg_sign = ed25519_sign dk self\<rparr>"

record 'v ed25519_verifier =
  ev_alg :: int
  ev_kid :: "bytes option"
  ev_key :: 'v

definition from_public_key_with_alg ::
  "('s, 'v, 'z) dalek \<Rightarrow> int \<Rightarrow> bytes \<Rightarrow> bytes option \<Rightarrow> error + 'v ed25519_verifier" where
  "from_public_key_with_alg dk a public_key key_id =
     andThen (require_supported_alg a) (\<lambda>_.
     if length public_key \<noteq> 32 then Inl (Custom ''Ed25519 public key must be 32 bytes'')
     else
       andThen (ok_or (dk_verifying_key dk public_key) (Custom ''invalid Ed25519 public key'')) (\<lambda>key.
       Inr \<lparr>ev_alg = a, ev_kid = key_id, ev_key = key\<rparr>))"

definition from_public_key ::
  "('s, 'v, 'z) dalek \<Rightarrow> bytes \<Rightarrow> bytes option \<Rightarrow> error + 'v ed25519_verifier" where
  "from_public_key dk public_key key_id = from_public_key_with_alg dk AlgorithmEd25519 public_key key_id"

definition ed25519_verifier_from_cose_key ::
  "('s, 'v, 'z) dalek \<Rightarrow> cose_key \<Rightarrow> error + 'v ed25519_verifier" where
  "ed25519_verifier_from_cose_key dk key =
     andThen (require_any_operation key [KeyOperationVerify] ''signature verification'') (\<lambda>_.
     andThen (require_alg key) (\<lambda>a.
     andThen (require_integer_kty key KeyTypeOKP) (\<lambda>_.
     andThen (require_integer_parameter key OKPKeyParameterCrv EllipticCurveEd25519 ''curve'') (\<lambda>_.
     andThen (required_bytes key OKPKeyParameterX ''x'') (\<lambda>x.
     andThen (key_kid key) (\<lambda>key_id. from_public_key_with_alg dk a x key_id))))))"

definition ed25519_verifier_public_key :: "('s, 'v, 'z) dalek \<Rightarrow> 'v ed25519_verifier \<Rightarrow> bytes" where
  "ed25519_verifier_public_key dk self = dk_key_bytes dk (ev_key self)"

definition ed25519_verifier_to_cose_key ::
  "('s, 'v, 'z) dalek \<Rightarrow> 'v ed25519_verifier \<Rightarrow> error + cose_key" where
  "ed25519_verifier_to_cose_key dk self =
     Inr (ed25519_public (ev_alg self) (dk_key_bytes dk (ev_key self)) (ev_kid self))"

definition ed25519_verify ::
  "('s, 'v, 'z) dalek \<Rightarrow> 'v ed25519_verifier \<Rightarrow> bytes \<Rightarrow> bytes \<Rightarrow> error + unit" where
  "ed25519_verify dk self data signature =
     andThen (ok_or (dk_signature dk signature) (Verify ''invalid Ed25519 signature'')) (\<lambda>signature.
     require (dk_verify_strict dk (ev_key self) data signature) (Verify ''Ed25519 signature mismatch''))"

definition ed25519_verifier_provider :: "('s, 'v, 'z) dalek \<Rightarrow> 'v ed25519_verifier \<Rightarrow> verifier" where
  "ed25519_verifier_provider dk self =
     \<lparr>vf_alg = Some (LInt (ev_alg self)), vf_kid = ev_kid self, vf_understood = [],
      vf_verify = ed25519_verify dk self\<rparr>"

section \<open>AES-GCM\<close>

text \<open>One cipher of the crate: \<open>new_from_slice\<close>, the nonce conversion, \<open>encrypt\<close> and \<open>decrypt\<close>.\<close>

record 'c aead_cipher =
  ci_new :: "bytes \<Rightarrow> 'c option"
  ci_nonce_ok :: "bytes \<Rightarrow> bool"
  ci_encrypt :: "'c \<Rightarrow> bytes \<Rightarrow> bytes \<Rightarrow> bytes \<Rightarrow> bytes option"
  ci_decrypt :: "'c \<Rightarrow> bytes \<Rightarrow> bytes \<Rightarrow> bytes \<Rightarrow> bytes option"

definition NONCE_LEN :: nat where
  "NONCE_LEN = 12"

datatype ('a, 'b) aes_gcm_cipher = Aes128 'a | Aes256 'b

record ('a, 'b) aes_gcm_encryptor =
  ag_alg :: int
  ag_kid :: "bytes option"
  ag_cipher :: "('a, 'b) aes_gcm_cipher"
  ag_raw_key :: bytes
  ag_base_iv :: "bytes option"
  ag_key_ops :: "label list option"

definition aes_gcm_unsupported_alg :: "int \<Rightarrow> error" where
  "aes_gcm_unsupported_alg a =
     Custom (''unsupported AEAD algorithm '' @ show_label (LInt a) @
       '' for the built-in AES-GCM backend'')"

definition aes_gcm_new ::
  "'a aead_cipher \<Rightarrow> 'b aead_cipher \<Rightarrow> int \<Rightarrow> bytes \<Rightarrow> bytes option \<Rightarrow> error + ('a, 'b) aes_gcm_encryptor"
where
  "aes_gcm_new c128 c256 a key key_id =
     andThen
       (if a = AlgorithmA128GCM then
          map_ok Aes128 (ok_or (ci_new c128 key) (Custom ''invalid A128GCM key length''))
        else if a = AlgorithmA256GCM then
          map_ok Aes256 (ok_or (ci_new c256 key) (Custom ''invalid A256GCM key length''))
        else Inl (aes_gcm_unsupported_alg a)) (\<lambda>cipher.
     Inr \<lparr>ag_alg = a, ag_kid = key_id, ag_cipher = cipher, ag_raw_key = key, ag_base_iv = None,
          ag_key_ops = None\<rparr>)"

definition aes_gcm_from_cose_key ::
  "'a aead_cipher \<Rightarrow> 'b aead_cipher \<Rightarrow> cose_key \<Rightarrow> error + ('a, 'b) aes_gcm_encryptor" where
  "aes_gcm_from_cose_key c128 c256 key =
     andThen (require_integer_kty key KeyTypeSymmetric) (\<lambda>_.
     andThen (required_integer_alg key ''AES-GCM backend'') (\<lambda>a.
     andThen (required_bytes key SymmetricKeyParameterK ''k'') (\<lambda>k.
     andThen (key_kid key) (\<lambda>key_id.
     andThen (aes_gcm_new c128 c256 a k key_id) (\<lambda>encryptor.
     andThen (key_base_iv key) (\<lambda>base_iv.
     andThen (ops key) (\<lambda>key_ops.
     if \<not> key_ops_allow key_ops [KeyOperationEncrypt, KeyOperationDecrypt]
     then Inl (Custom ''COSE_Key key_ops permits neither encryption nor decryption'')
     else Inr (encryptor\<lparr>ag_base_iv := base_iv, ag_key_ops := key_ops\<rparr>))))))))"

definition aes_gcm_with_base_iv ::
  "('a, 'b) aes_gcm_encryptor \<Rightarrow> bytes \<Rightarrow> ('a, 'b) aes_gcm_encryptor" where
  "aes_gcm_with_base_iv self base_iv = self\<lparr>ag_base_iv := Some base_iv\<rparr>"

definition aes_gcm_to_cose_key :: "('a, 'b) aes_gcm_encryptor \<Rightarrow> error + cose_key" where
  "aes_gcm_to_cose_key self =
     Inr (symmetric_key (ag_alg self) (ag_raw_key self) (ag_kid self) (ag_base_iv self)
       (ag_key_ops self))"

definition aead_seal :: "'c aead_cipher \<Rightarrow> 'c \<Rightarrow> bytes \<Rightarrow> bytes \<Rightarrow> bytes \<Rightarrow> error + bytes" where
  "aead_seal ci cipher nonce msg aad =
     (if \<not> ci_nonce_ok ci nonce then Inl (Custom ''invalid AEAD nonce length'')
      else ok_or (ci_encrypt ci cipher nonce msg aad) (Custom ''AEAD encryption failed''))"

definition aead_open :: "'c aead_cipher \<Rightarrow> 'c \<Rightarrow> bytes \<Rightarrow> bytes \<Rightarrow> bytes \<Rightarrow> error + bytes" where
  "aead_open ci cipher nonce msg aad =
     (if \<not> ci_nonce_ok ci nonce then Inl (Custom ''invalid AEAD nonce length'')
      else ok_or (ci_decrypt ci cipher nonce msg aad) (Verify ''AEAD authentication failed''))"

definition aes_gcm_encrypt ::
  "'a aead_cipher \<Rightarrow> 'b aead_cipher \<Rightarrow> ('a, 'b) aes_gcm_encryptor \<Rightarrow> bytes \<Rightarrow> bytes \<Rightarrow> bytes \<Rightarrow>
     error + bytes" where
  "aes_gcm_encrypt c128 c256 self nonce plaintext aad =
     andThen (require_key_ops (ag_key_ops self) [KeyOperationEncrypt] ''encryption'') (\<lambda>_.
     case ag_cipher self of
       Aes128 c \<Rightarrow> aead_seal c128 c nonce plaintext aad
     | Aes256 c \<Rightarrow> aead_seal c256 c nonce plaintext aad)"

definition aes_gcm_decrypt ::
  "'a aead_cipher \<Rightarrow> 'b aead_cipher \<Rightarrow> ('a, 'b) aes_gcm_encryptor \<Rightarrow> bytes \<Rightarrow> bytes \<Rightarrow> bytes \<Rightarrow>
     error + bytes" where
  "aes_gcm_decrypt c128 c256 self nonce ciphertext aad =
     andThen (require_key_ops (ag_key_ops self) [KeyOperationDecrypt] ''decryption'') (\<lambda>_.
     case ag_cipher self of
       Aes128 c \<Rightarrow> aead_open c128 c nonce ciphertext aad
     | Aes256 c \<Rightarrow> aead_open c256 c nonce ciphertext aad)"

definition aes_gcm_provider ::
  "'a aead_cipher \<Rightarrow> 'b aead_cipher \<Rightarrow> ('a, 'b) aes_gcm_encryptor \<Rightarrow> encryptor" where
  "aes_gcm_provider c128 c256 self =
     \<lparr>en_alg = Some (LInt (ag_alg self)), en_kid = ag_kid self, en_understood = [],
      en_nonce_size = NONCE_LEN, en_base_iv = ag_base_iv self,
      en_encrypt = aes_gcm_encrypt c128 c256 self, en_decrypt = aes_gcm_decrypt c128 c256 self\<rparr>"

end
