(* ===== verification/Providers.thy ===== *)
theory Providers
  imports RingSig Builtin KeyLaws Sign1Props Mac0Props Encrypt0Props
begin

text \<open>
  What the built-in providers guarantee: they meet the provider contracts under which the
  message theorems are stated, and a key that one party exports lets another party check or
  open its messages. The laws of the backend crates are predicates on their parameters.
\<close>

section \<open>Reading the fields of a key\<close>

named_theorems key_fields

lemma kty_field [key_fields]:
  "bt_get k (LInt 1) = Some (VInteger t) \<Longrightarrow> in_i64 t \<Longrightarrow> require_integer_kty k t = Inr ()"
  by (simp add: require_integer_kty_def kty_def get_label_def try_i64_def)

lemma alg_field [key_fields]:
  "bt_get k (LInt 3) = Some (VInteger a) \<Longrightarrow> in_i64 a \<Longrightarrow> required_integer_alg k provider = Inr a"
  by (simp add: required_integer_alg_def key_alg_def get_label_def try_i64_def)

lemma parameter_field [key_fields]:
  "bt_get k (LInt l) = Some (VInteger v) \<Longrightarrow> in_i64 v \<Longrightarrow> require_integer_parameter k l v name = Inr ()"
  by (simp add: require_integer_parameter_def get_label_def try_i64_def)

lemma bytes_field [key_fields]:
  "bt_get k (LInt l) = Some (VBytes b) \<Longrightarrow> required_bytes k l name = Inr b"
  by (simp add: required_bytes_def get_bytes_def)

lemma kid_field [key_fields]:
  "bt_get k (LInt 2) = map_option VBytes key_id \<Longrightarrow> key_kid k = Inr key_id"
  by (cases key_id) (simp_all add: key_kid_def get_bytes_def)

lemma operation_field [key_fields]:
  assumes "bt_get k (LInt 4) = Some (VArray [VInteger v])" and "in_i64 v"
  shows "require_any_operation k [v] name = Inr ()"
proof -
  have "ops k = Inr (Some [LInt v])" using assms by (simp add: ops_Some)
  then show ?thesis by (simp add: require_any_operation_def allows_any_operation_def)
qed

lemma required_integer_alg_in_i64:
  assumes "required_integer_alg k provider = Inr a"
  shows "in_i64 a"
proof -
  obtain found where found: "key_alg k = Inr found"
    and "(case found of Some (LInt i) \<Rightarrow> Inr i
      | Some (LText _) \<Rightarrow> Inl (Custom (''the built-in '' @ provider @ '' does not support text-string algorithms''))
      | None \<Rightarrow> Inl (Custom ''COSE_Key is missing alg'')) = Inr a"
    using assms by (auto simp: required_integer_alg_def andThen_eq_Inr)
  then have "found = Some (LInt a)" by (auto split: option.splits label.splits)
  then show ?thesis using found by (simp add: key_alg_def get_label_present)
qed

lemma ops_wf: "ops k = Inr (Some ls) \<Longrightarrow> l \<in> set ls \<Longrightarrow> wf_label l"
  by (simp add: ops_Some)

lemma public_key_fields:
  shows "bt_get (ed25519_public a x key_id) l =
      (if l = LInt 1 then Some (VInteger 1) else if l = LInt 3 then Some (VInteger a)
       else if l = LInt 2 then map_option VBytes key_id else if l = LInt (- 1) then Some (VInteger 6)
       else if l = LInt (- 2) then Some (VBytes x) else if l = LInt 4 then Some (VArray [VInteger 2])
       else None)"
    and "bt_get (rsa_public_cose_key a n e key_id) l =
      (if l = LInt 1 then Some (VInteger 3) else if l = LInt 3 then Some (VInteger a)
       else if l = LInt 2 then map_option VBytes key_id else if l = LInt (- 1) then Some (VBytes n)
       else if l = LInt (- 2) then Some (VBytes e) else if l = LInt 4 then Some (VArray [VInteger 2])
       else None)"
  by (cases key_id;
      simp add: ed25519_public_def rsa_public_cose_key_def with_kty_alg_def set_key_alg_def set_kty_def
        set_key_kid_def set_ops_def cm_new_def bt_get_insert Let_def)+

text \<open>The curve and the coordinate length of an ECDSA algorithm.\<close>

definition ec_curve :: "int \<Rightarrow> (int \<times> nat) option" where
  "ec_curve a = (if a \<in> {AlgorithmES256, AlgorithmESP256} then Some (EllipticCurveP_256, 32)
     else if a \<in> {AlgorithmES384, AlgorithmESP384} then Some (EllipticCurveP_384, 48) else None)"

lemma ec2_public_fields:
  assumes "ec2_public_cose_key a point key_id = Inr k"
  obtains curve n x y where "ec_curve a = Some (curve, n)" and "point = 0x04 # x @ y"
    and "length x = n" and "length y = n"
    and "\<And>l. bt_get k l =
      (if l = LInt 1 then Some (VInteger 2) else if l = LInt 3 then Some (VInteger a)
       else if l = LInt 2 then map_option VBytes key_id else if l = LInt (- 1) then Some (VInteger curve)
       else if l = LInt (- 2) then Some (VBytes x) else if l = LInt (- 3) then Some (VBytes y)
       else if l = LInt 4 then Some (VArray [VInteger 2]) else None)"
proof -
  obtain curve n where c: "ec_curve a = Some (curve, n)"
    using assms by (auto simp: ec2_public_cose_key_def ec_curve_def result_simps split: if_splits)
  obtain xy where point: "point = 0x04 # xy" and len: "length xy = 2 * n"
    and k: "k = set_ops [LInt 2]
        (bt_insert (LInt (- 3)) (VBytes (drop n xy))
          (bt_insert (LInt (- 2)) (VBytes (take n xy))
            (bt_insert (LInt (- 1)) (VInteger curve) (with_kty_alg 2 a key_id))))"
    using assms c
    by (auto simp: ec2_public_cose_key_def ec_curve_def result_simps split: if_splits list.splits)
  show thesis
  proof (rule that [OF c])
    show "point = 0x04 # take n xy @ drop n xy" by (simp add: point)
    show "bt_get k l =
      (if l = LInt 1 then Some (VInteger 2) else if l = LInt 3 then Some (VInteger a)
       else if l = LInt 2 then map_option VBytes key_id else if l = LInt (- 1) then Some (VInteger curve)
       else if l = LInt (- 2) then Some (VBytes (take n xy))
       else if l = LInt (- 3) then Some (VBytes (drop n xy))
       else if l = LInt 4 then Some (VArray [VInteger 2]) else None)" for l
      by (cases key_id)
        (simp_all add: k with_kty_alg_def set_key_alg_def set_kty_def set_key_kid_def set_ops_def
          cm_new_def bt_get_insert Let_def)
  qed (use len in simp_all)
qed

section \<open>Verifiers\<close>

text \<open>What every constructor of \<open>RingVerifier\<close> establishes: the algorithm fits the kind of key.\<close>

definition ed25519_algorithm :: "int \<Rightarrow> bool" where
  "ed25519_algorithm a \<longleftrightarrow> a \<in> {AlgorithmEd25519, AlgorithmEdDSA}"

definition rsa_algorithm :: "int \<Rightarrow> bool" where
  "rsa_algorithm a \<longleftrightarrow> a \<in> {AlgorithmRS256, AlgorithmRS384, AlgorithmRS512,
     AlgorithmPS256, AlgorithmPS384, AlgorithmPS512}"

definition verifier_ok :: "ring_verifier \<Rightarrow> bool" where
  "verifier_ok v \<longleftrightarrow>
     (case rv_key v of
        VkEd25519 _ \<Rightarrow> ed25519_algorithm (rv_alg v)
      | VkEcdsa _ \<Rightarrow> ec_curve (rv_alg v) \<noteq> None
      | _ \<Rightarrow> rsa_algorithm (rv_alg v))"

lemma algorithm_guards [guards]:
  "require_ed25519_alg a = Inr u \<longleftrightarrow> ed25519_algorithm a"
  "(\<exists>p. rsa_verification_algorithm a = Inr p) \<longleftrightarrow> rsa_algorithm a"
  "(\<exists>v. ecdsa_verification_algorithm_for a = Inr v) \<longleftrightarrow> ec_curve a \<noteq> None"
  by (auto simp: require_ed25519_alg_def ed25519_algorithm_def rsa_verification_algorithm_def
      rsa_algorithm_def ecdsa_verification_algorithm_for_def ec_curve_def)

lemma verifier_constructors:
  "ed25519_with_alg a x key_id = Inr v \<longleftrightarrow>
     ed25519_algorithm a \<and> v = \<lparr>rv_alg = a, rv_kid = key_id, rv_key = VkEd25519 x\<rparr>"
  "ecdsa_verifier a point key_id = Inr v \<longleftrightarrow>
     ec_curve a \<noteq> None \<and> v = \<lparr>rv_alg = a, rv_kid = key_id, rv_key = VkEcdsa point\<rparr>"
  "rsa_components a n e key_id = Inr v \<longleftrightarrow>
     rsa_algorithm a \<and> v = \<lparr>rv_alg = a, rv_kid = key_id, rv_key = VkRsaComponents n e\<rparr>"
  "rsa_der a der key_id = Inr v \<longleftrightarrow>
     rsa_algorithm a \<and> v = \<lparr>rv_alg = a, rv_kid = key_id, rv_key = VkRsaDer der\<rparr>"
  unfolding ed25519_with_alg_def ecdsa_verifier_def rsa_components_def rsa_der_def andThen_eq_Inr
  using algorithm_guards(1) [of a "()"] algorithm_guards(2,3) [of a] by auto

lemma verifier_ok_constructed:
  "ed25519_with_alg a x key_id = Inr v \<Longrightarrow> verifier_ok v"
  "ecdsa_verifier a point key_id = Inr v \<Longrightarrow> verifier_ok v"
  "rsa_components a n e key_id = Inr v \<Longrightarrow> verifier_ok v"
  "rsa_der a der key_id = Inr v \<Longrightarrow> verifier_ok v"
  by (auto simp: verifier_constructors verifier_ok_def)

lemma verifier_ok_from_key: "ring_verifier_from_cose_key k = Inr v \<Longrightarrow> verifier_ok v"
  by (auto simp: ring_verifier_from_cose_key_def andThen_eq_Inr Let_def
      split: if_splits intro: verifier_ok_constructed)

text \<open>The keys that the crate writes are read back as verifiers.\<close>

lemma ed25519_key_verifier:
  assumes "ed25519_algorithm a"
  shows "ring_verifier_from_cose_key (ed25519_public a x key_id) =
    Inr \<lparr>rv_alg = a, rv_kid = key_id, rv_key = VkEd25519 x\<rparr>"
proof -
  have a: "a \<in> {- 19, - 8}" "in_i64 a" using assms by (auto simp: ed25519_algorithm_def in_i64_def)
  then have "require_any_operation (ed25519_public a x key_id) [2] nm = Inr ()"
    "required_integer_alg (ed25519_public a x key_id) nm = Inr a"
    "require_integer_kty (ed25519_public a x key_id) 1 = Inr ()"
    "require_integer_parameter (ed25519_public a x key_id) (- 1) 6 nm = Inr ()"
    "required_bytes (ed25519_public a x key_id) (- 2) nm = Inr x"
    "key_kid (ed25519_public a x key_id) = Inr key_id" for nm
    by (simp_all add: key_fields public_key_fields in_i64_def)
  moreover have "ed25519_with_alg a x key_id = Inr \<lparr>rv_alg = a, rv_kid = key_id, rv_key = VkEd25519 x\<rparr>"
    using assms by (simp add: verifier_constructors)
  ultimately show ?thesis using a by (auto simp: ring_verifier_from_cose_key_def)
qed

lemma rsa_key_verifier:
  assumes "rsa_algorithm a"
  shows "ring_verifier_from_cose_key (rsa_public_cose_key a n e key_id) =
    Inr \<lparr>rv_alg = a, rv_kid = key_id, rv_key = VkRsaComponents n e\<rparr>"
proof -
  let ?k = "rsa_public_cose_key a n e key_id"
  have a: "a \<in> {- 257, - 258, - 259, - 37, - 38, - 39}" "in_i64 a"
    using assms by (auto simp: rsa_algorithm_def in_i64_def)
  then have "require_any_operation ?k [2] nm = Inr ()" "required_integer_alg ?k nm = Inr a"
    "require_integer_kty ?k 3 = Inr ()" "required_bytes ?k (- 1) nm = Inr n"
    "required_bytes ?k (- 2) nm = Inr e" "key_kid ?k = Inr key_id" for nm
    by (simp_all add: key_fields public_key_fields in_i64_def)
  moreover have "rsa_components a n e key_id =
      Inr \<lparr>rv_alg = a, rv_kid = key_id, rv_key = VkRsaComponents n e\<rparr>"
    using assms by (simp add: verifier_constructors)
  ultimately show ?thesis using a by (auto simp: ring_verifier_from_cose_key_def)
qed

lemma ec2_key_verifier:
  assumes "ec2_public_cose_key a point key_id = Inr k"
  shows "ring_verifier_from_cose_key k = Inr \<lparr>rv_alg = a, rv_kid = key_id, rv_key = VkEcdsa point\<rparr>"
  using assms
proof (rule ec2_public_fields)
  fix curve n x y
  assume c: "ec_curve a = Some (curve, n)" and point: "point = 0x04 # x @ y"
    and len: "length x = n" "length y = n"
    and get: "\<And>l. bt_get k l =
      (if l = LInt 1 then Some (VInteger 2) else if l = LInt 3 then Some (VInteger a)
       else if l = LInt 2 then map_option VBytes key_id else if l = LInt (- 1) then Some (VInteger curve)
       else if l = LInt (- 2) then Some (VBytes x) else if l = LInt (- 3) then Some (VBytes y)
       else if l = LInt 4 then Some (VArray [VInteger 2]) else None)"
  have a: "a \<in> {- 7, - 9, - 35, - 51}" "in_i64 a" "in_i64 curve"
    using c by (auto simp: ec_curve_def in_i64_def split: if_splits)
  then have fields: "require_any_operation k [2] nm = Inr ()" "required_integer_alg k nm = Inr a"
    "require_integer_kty k 2 = Inr ()" "require_integer_parameter k (- 1) curve nm = Inr ()"
    "required_bytes k (- 2) nm = Inr x" "required_bytes k (- 3) nm = Inr y" "key_kid k = Inr key_id" for nm
    by (simp_all add: key_fields get in_i64_def)
  then have "ec2_uncompressed_public_key k n = Inr point"
    using len by (simp add: ec2_uncompressed_public_key_def point)
  moreover have "ecdsa_verifier a point key_id = Inr \<lparr>rv_alg = a, rv_kid = key_id, rv_key = VkEcdsa point\<rparr>"
    using c by (simp add: verifier_constructors)
  ultimately show ?thesis using a(1) c fields
    by (auto simp: ring_verifier_from_cose_key_def ec_curve_def)
qed

text \<open>The key as an export writes it: a DER document is exported as its two numbers.\<close>

definition exported_verifier :: "ring_verifier \<Rightarrow> ring_verifier" where
  "exported_verifier v =
     (case rv_key v of
        VkRsaDer der \<Rightarrow>
          (case rsa_public_key_from_der der of
             Inr (n, e) \<Rightarrow> v\<lparr>rv_key := VkRsaComponents n e\<rparr> | Inl _ \<Rightarrow> v)
      | _ \<Rightarrow> v)"

lemma verifier_exported:
  assumes "verifier_ok v" and "ring_verifier_to_cose_key v = Inr k"
  shows "ring_verifier_from_cose_key k = Inr (exported_verifier v)"
proof (cases "rv_key v")
  case (VkEd25519 x)
  then show ?thesis using assms
    by (cases v) (auto simp: verifier_ok_def ring_verifier_to_cose_key_def exported_verifier_def
        ed25519_key_verifier)
next
  case (VkEcdsa point)
  then have "ec2_public_cose_key (rv_alg v) point (rv_kid v) = Inr k"
    using assms(2) by (simp add: ring_verifier_to_cose_key_def)
  from ec2_key_verifier [OF this] VkEcdsa show ?thesis by (cases v) (simp add: exported_verifier_def)
next
  case (VkRsaComponents n e)
  then show ?thesis using assms
    by (cases v) (auto simp: verifier_ok_def ring_verifier_to_cose_key_def exported_verifier_def
        rsa_key_verifier)
next
  case (VkRsaDer der)
  then obtain n e where "rsa_public_key_from_der der = Inr (n, e)"
    and "k = rsa_public_cose_key (rv_alg v) n e (rv_kid v)"
    using assms(2) by (auto simp: ring_verifier_to_cose_key_def andThen_eq_Inr)
  then show ?thesis using assms(1) VkRsaDer
    by (simp add: verifier_ok_def exported_verifier_def rsa_key_verifier)
qed

section \<open>A published key verifies what its owner signs\<close>

text \<open>
  The interface between a party that signs and one that was given its exported public key:
  the export can be read back, and the verifier read from it belongs to the signer.
\<close>

locale published_key =
  fixes signer_of :: "'s \<Rightarrow> signer"
    and verifier_of :: "'v \<Rightarrow> verifier"
    and export :: "'s \<Rightarrow> error + cose_key"
    and load :: "cose_key \<Rightarrow> error + 'v"
    and usable :: "'s \<Rightarrow> bool"
  assumes publishes: "usable s \<Longrightarrow>
      \<exists>k v. export s = Inr k \<and> load k = Inr v \<and> verifies_for (signer_of s) (verifier_of v)"
    and understands_nothing: "vf_understood (verifier_of v) = []"
begin

lemma message_verifies:
  assumes "usable s" and "s1_sign cb m (signer_of s) aad = (Inr (), m')"
    and "wf_bt (s1_protected m)" and "wf_bt (s1_unprotected m)"
    and "crit_understood cb (s1_protected m') []"
  shows "\<exists>k v. export s = Inr k \<and> load k = Inr v \<and> s1_verify cb m' (verifier_of v) aad = Inr ()"
proof -
  obtain k v where k: "export s = Inr k" "load k = Inr v" and "verifies_for (signer_of s) (verifier_of v)"
    using publishes [OF assms(1)] by blast
  from s1_signed_verifies [OF assms(2-4) this(3)] assms(5)
  have "s1_verify cb m' (verifier_of v) aad = Inr ()" by (simp add: understands_nothing)
  then show ?thesis using k by blast
qed

end

text \<open>The signing algorithm of \<open>ecdsa_from_cose_key\<close> and its counterpart for verification.\<close>

definition ecdsa_pair :: "int \<Rightarrow> ecdsa_signing_algorithm \<Rightarrow> ecdsa_verification_algorithm \<Rightarrow> bool" where
  "ecdsa_pair a sa va \<longleftrightarrow>
     a \<in> {AlgorithmES256, AlgorithmESP256} \<and> sa = ECDSA_P256_SHA256_FIXED_SIGNING \<and> va = ECDSA_P256_SHA256_FIXED \<or>
     a \<in> {AlgorithmES384, AlgorithmESP384} \<and> sa = ECDSA_P384_SHA384_FIXED_SIGNING \<and> va = ECDSA_P384_SHA384_FIXED"

text \<open>The key pairs that the backend made for a signing algorithm.\<close>

definition ecdsa_made ::
  "('ed, 'ec, 'rsa, 'g) signing_backend \<Rightarrow> ecdsa_signing_algorithm \<Rightarrow> 'ec \<Rightarrow> bool" where
  "ecdsa_made sb sa key \<longleftrightarrow> (\<exists>d p g. sb_ecdsa_keys sb sa d p g = Some key) \<or>
     (\<exists>b g. sb_ecdsa_pkcs8 sb sa b g = Some key)"

lemma ecdsa_madeI:
  "sb_ecdsa_keys sb sa d p g = Some key \<Longrightarrow> ecdsa_made sb sa key"
  "sb_ecdsa_pkcs8 sb sa b g = Some key \<Longrightarrow> ecdsa_made sb sa key"
  by (auto simp: ecdsa_made_def)

text \<open>
  What the backend crates document: a signature verifies under the public key of its pair and
  the matching algorithm, and an ECDSA public key is an uncompressed SEC 1 point.
\<close>

definition signature_laws ::
  "('ed, 'ec, 'rsa, 'g) signing_backend \<Rightarrow> verification_backend \<Rightarrow> bool" where
  "signature_laws sb vb \<longleftrightarrow>
     (\<forall>key data. vb_ed25519 vb (sb_ed25519_public sb key) data (sb_ed25519_sign sb key data)) \<and>
     (\<forall>a sa va key. ecdsa_pair a sa va \<longrightarrow> ecdsa_made sb sa key \<longrightarrow>
        (\<forall>g data s. sb_ecdsa_sign sb key g data = Some s \<longrightarrow>
           vb_ecdsa vb va (sb_ecdsa_public sb key) data s) \<and>
        (\<exists>curve n xy. ec_curve a = Some (curve, n) \<and> sb_ecdsa_public sb key = 0x04 # xy \<and>
           length xy = 2 * n))"

definition signer_ok ::
  "('ed, 'ec, 'rsa, 'g) signing_backend \<Rightarrow> ('ed, 'ec, 'rsa) ring_signer \<Rightarrow> bool" where
  "signer_ok sb s \<longleftrightarrow>
     (case rs_key s of
        SkEd25519 _ \<Rightarrow> ed25519_algorithm (rs_alg s)
      | SkEcdsa key \<Rightarrow> \<exists>sa va. ecdsa_pair (rs_alg s) sa va \<and> ecdsa_made sb sa key
      | SkRsa _ padding \<Rightarrow> rsa_signing_algorithm (rs_alg s) = Inr padding)"

lemma signer_ok_from_key:
  assumes "ring_signer_from_cose_key sb g key = Inr s"
  shows "signer_ok sb s"
proof -
  obtain a where "ed25519_from_cose_key sb key a = Inr s \<or> ecdsa_from_cose_key sb g key a = Inr s \<or>
      rsa_from_cose_key sb key a = Inr s"
    using assms by (auto simp: ring_signer_from_cose_key_def andThen_eq_Inr split: if_splits)
  then show ?thesis
    by (auto simp: ed25519_from_cose_key_def ed25519_from_seed_and_public_key_with_alg_def
        ecdsa_from_cose_key_def rsa_from_cose_key_def result_simps guards signer_ok_def
        ecdsa_pair_def intro: ecdsa_madeI split: if_splits)
qed

lemma signer_ok_from_pkcs8:
  "ed25519_from_pkcs8_with_alg sb a p key_id = Inr s \<Longrightarrow> signer_ok sb s"
  "es256_from_pkcs8 sb g p key_id = Inr s \<Longrightarrow> signer_ok sb s"
  "esp256_from_pkcs8 sb g p key_id = Inr s \<Longrightarrow> signer_ok sb s"
  "es384_from_pkcs8 sb g p key_id = Inr s \<Longrightarrow> signer_ok sb s"
  "esp384_from_pkcs8 sb g p key_id = Inr s \<Longrightarrow> signer_ok sb s"
  "rsa_from_pkcs8 sb a p key_id = Inr s \<Longrightarrow> signer_ok sb s"
  "rsa_from_der sb a p key_id = Inr s \<Longrightarrow> signer_ok sb s"
  by (auto simp: ed25519_from_pkcs8_with_alg_def ecdsa_from_pkcs8_def es256_from_pkcs8_def
      esp256_from_pkcs8_def es384_from_pkcs8_def esp384_from_pkcs8_def rsa_from_pkcs8_def
      rsa_from_der_def result_simps guards signer_ok_def ecdsa_pair_def intro: ecdsa_madeI)

text \<open>Verification with the exported key, for each kind that can be exported.\<close>

lemma ring_signer_publishes:
  assumes laws: "signature_laws sb vb" and ok: "signer_ok sb s"
    and some: "ring_signer_public_key sb s \<noteq> None"
  shows "\<exists>k v. ring_signer_to_cose_key sb s = Inr k \<and> ring_verifier_from_cose_key k = Inr v \<and>
    verifies_for (ring_signer_provider sb g s) (ring_verifier_provider vb v)"
proof (cases "rs_key s")
  case (SkEd25519 key)
  then have a: "ed25519_algorithm (rs_alg s)" using ok by (simp add: signer_ok_def)
  then have "in_i64 (rs_alg s)" by (auto simp: ed25519_algorithm_def in_i64_def)
  then show ?thesis using SkEd25519 laws ed25519_key_verifier [OF a]
    by (auto simp: ring_signer_to_cose_key_def verifies_for_def ring_signer_provider_def
        ring_verifier_provider_def ring_sign_def ring_verify_def require_def signature_laws_def)
next
  case (SkEcdsa key)
  then obtain sa va where pair: "ecdsa_pair (rs_alg s) sa va" "ecdsa_made sb sa key"
    using ok by (auto simp: signer_ok_def)
  have law: "(\<forall>g data sig. sb_ecdsa_sign sb key g data = Some sig \<longrightarrow>
      vb_ecdsa vb va (sb_ecdsa_public sb key) data sig) \<and>
    (\<exists>curve n xy. ec_curve (rs_alg s) = Some (curve, n) \<and> sb_ecdsa_public sb key = 0x04 # xy \<and>
      length xy = 2 * n)"
    using laws pair unfolding signature_laws_def by blast
  then obtain curve n xy where point: "ec_curve (rs_alg s) = Some (curve, n)"
    "sb_ecdsa_public sb key = 0x04 # xy" "length xy = 2 * n" by blast
  have signs: "sb_ecdsa_sign sb key g data = Some sig \<Longrightarrow>
      vb_ecdsa vb va (sb_ecdsa_public sb key) data sig" for g data sig
    using law by blast
  have "\<exists>k. ec2_public_cose_key (rs_alg s) (sb_ecdsa_public sb key) (rs_kid s) = Inr k"
    using point by (auto simp: ec2_public_cose_key_def ec_curve_def split: if_splits)
  then obtain k where k: "ec2_public_cose_key (rs_alg s) (sb_ecdsa_public sb key) (rs_kid s) = Inr k"
    by blast
  have va: "ecdsa_verification_algorithm_for (rs_alg s) = Inr va" and "in_i64 (rs_alg s)"
    using pair(1) by (auto simp: ecdsa_pair_def ecdsa_verification_algorithm_for_def in_i64_def)
  then show ?thesis using SkEcdsa k ec2_key_verifier [OF k] signs
    by (auto simp: ring_signer_to_cose_key_def verifies_for_def ring_signer_provider_def
        ring_verifier_provider_def ring_sign_def ring_verify_def require_def ok_or_eq)
next
  case (SkRsa key padding)
  then show ?thesis using some by (simp add: ring_signer_public_key_def)
qed

interpretation ring: published_key "ring_signer_provider sb g" "ring_verifier_provider vb"
    "ring_signer_to_cose_key sb" ring_verifier_from_cose_key
    "\<lambda>s. signature_laws sb vb \<and> signer_ok sb s \<and> ring_signer_public_key sb s \<noteq> None" for sb vb g
  by unfold_locales (blast intro: ring_signer_publishes, simp add: ring_verifier_provider_def)

text \<open>The same for \<open>ed25519-dalek\<close>.\<close>

definition dalek_laws :: "('s, 'v, 'z) dalek \<Rightarrow> bool" where
  "dalek_laws dk \<longleftrightarrow>
     (\<forall>sk. let vk = dk_verifying_key_of dk sk in
        length (dk_key_bytes dk vk) = 32 \<and> dk_verifying_key dk (dk_key_bytes dk vk) = Some vk \<and>
        (\<forall>data. dk_verify_strict dk vk data (dk_sign dk sk data))) \<and>
     (\<forall>z. dk_signature dk (dk_signature_bytes dk z) = Some z)"

lemma dalek_alg [guards]: "require_supported_alg a = Inr u \<longleftrightarrow> ed25519_algorithm a"
  by (auto simp: require_supported_alg_def ed25519_algorithm_def)

lemma dalek_key_verifier:
  assumes "ed25519_algorithm a" and "length x = 32" and "dk_verifying_key dk x = Some vk"
  shows "ed25519_verifier_from_cose_key dk (ed25519_public a x key_id) =
    Inr \<lparr>ev_alg = a, ev_kid = key_id, ev_key = vk\<rparr>"
proof -
  let ?k = "ed25519_public a x key_id"
  have a: "in_i64 a" "require_supported_alg a = Inr ()" using assms(1)
    by (auto simp: ed25519_algorithm_def in_i64_def dalek_alg)
  then have "require_any_operation ?k [2] nm = Inr ()" "require_integer_kty ?k 1 = Inr ()"
    "require_integer_parameter ?k (- 1) 6 nm = Inr ()" "required_bytes ?k (- 2) nm = Inr x"
    "key_kid ?k = Inr key_id" for nm
    by (simp_all add: key_fields public_key_fields in_i64_def)
  moreover have "require_alg ?k = Inr a"
    using a assms(1)
    by (auto simp: require_alg_def key_alg_def get_label_def public_key_fields try_i64_def
        ed25519_algorithm_def)
  ultimately show ?thesis using a assms
    by (simp add: ed25519_verifier_from_cose_key_def from_public_key_with_alg_def ok_or.simps)
qed

lemma dalek_signer_publishes:
  assumes "dalek_laws dk" and "ed25519_algorithm (es_alg s)"
  shows "\<exists>k v. ed25519_signer_to_cose_key dk s = Inr k \<and> ed25519_verifier_from_cose_key dk k = Inr v \<and>
    verifies_for (ed25519_signer_provider dk s) (ed25519_verifier_provider dk v)"
proof -
  let ?vk = "dk_verifying_key_of dk (es_key s)"
  have vk: "length (dk_key_bytes dk ?vk) = 32" "dk_verifying_key dk (dk_key_bytes dk ?vk) = Some ?vk"
    "\<And>data. dk_verify_strict dk ?vk data (dk_sign dk (es_key s) data)"
    "\<And>z. dk_signature dk (dk_signature_bytes dk z) = Some z"
    using assms(1) by (auto simp: dalek_laws_def Let_def)
  moreover have "in_i64 (es_alg s)" using assms(2) by (auto simp: ed25519_algorithm_def in_i64_def)
  ultimately show ?thesis using dalek_key_verifier [OF assms(2) vk(1,2)]
    by (auto simp: ed25519_signer_to_cose_key_def verifies_for_def ed25519_signer_provider_def
        ed25519_verifier_provider_def ed25519_sign_def ed25519_verify_def ok_or.simps require_def)
qed

interpretation dalek: published_key "ed25519_signer_provider dk" "ed25519_verifier_provider dk"
    "ed25519_signer_to_cose_key dk" "ed25519_verifier_from_cose_key dk"
    "\<lambda>s. dalek_laws dk \<and> ed25519_algorithm (es_alg s)" for dk
  by unfold_locales (blast intro: dalek_signer_publishes, simp add: ed25519_verifier_provider_def)

section \<open>A shared symmetric key\<close>

text \<open>
  The interface between two parties that share an exported symmetric key: what one exports
  the other reads back as the same provider.
\<close>

locale shared_key =
  fixes export :: "'p \<Rightarrow> error + cose_key"
    and load :: "cose_key \<Rightarrow> error + 'p"
    and usable :: "'p \<Rightarrow> bool"
  assumes loads_itself: "usable p \<Longrightarrow> \<exists>k. export p = Inr k \<and> load k = Inr p"
    and loaded_usable: "load k = Inr p \<Longrightarrow> usable p"
begin

lemma reload:
  assumes "load k = Inr p"
  shows "\<exists>k'. export p = Inr k' \<and> load k' = Inr p"
  by (rule loads_itself [OF loaded_usable [OF assms]])

end

definition wf_key_ops :: "label list option \<Rightarrow> bool" where
  "wf_key_ops key_ops \<longleftrightarrow> (\<forall>ls. key_ops = Some ls \<longrightarrow> (\<forall>l \<in> set ls. wf_label l))"

lemma wf_key_ops_read: "ops k = Inr key_ops \<Longrightarrow> wf_key_ops key_ops"
  by (auto simp: wf_key_ops_def dest: ops_wf)

lemma symmetric_fields:
  assumes "in_i64 a" and "wf_key_ops key_ops"
  shows "require_integer_kty (symmetric_key a k key_id base_iv key_ops) 4 = Inr ()"
    "required_integer_alg (symmetric_key a k key_id base_iv key_ops) provider = Inr a"
    "required_bytes (symmetric_key a k key_id base_iv key_ops) (- 1) name = Inr k"
    "key_kid (symmetric_key a k key_id base_iv key_ops) = Inr key_id"
    "key_base_iv (symmetric_key a k key_id base_iv key_ops) = Inr base_iv"
    "ops (symmetric_key a k key_id base_iv key_ops) = Inr key_ops"
  using symmetric_key_fields [of a key_ops k key_id base_iv provider name] assms
  by (simp_all add: wf_key_ops_def Let_def)

text \<open>What the constructors of the providers establish.\<close>

definition macer_ok :: "'h hmac_backend \<Rightarrow> 'h ring_macer \<Rightarrow> bool" where
  "macer_ok hb rm \<longleftrightarrow> wf_key_ops (rm_key_ops rm) \<and>
     key_ops_allow (rm_key_ops rm) [KeyOperationMacCreate, KeyOperationMacVerify] \<and>
     (\<exists>A. hmac_algorithm_for (rm_alg rm) = Inr (A, rm_tag_len rm) \<and> rm_key rm = hb_key hb A (rm_raw_key rm))"

lemma macer_new_ok: "ring_macer_new hb a k key_id = Inr rm \<Longrightarrow> macer_ok hb rm"
  by (auto simp: ring_macer_new_def andThen_eq_Inr macer_ok_def wf_key_ops_def key_ops_allow_def)

lemma macer_ok_ops:
  "ring_macer_new hb a k key_id = Inr rm \<Longrightarrow> wf_key_ops key_ops \<Longrightarrow> key_ops_allow key_ops [9, 10] \<Longrightarrow>
    macer_ok hb (rm\<lparr>rm_key_ops := key_ops\<rparr>)"
  by (auto simp: ring_macer_new_def andThen_eq_Inr macer_ok_def)

lemma macer_loaded_ok: "ring_macer_from_cose_key hb key = Inr rm \<Longrightarrow> macer_ok hb rm"
  by (auto simp: ring_macer_from_cose_key_def andThen_eq_Inr early_return_eq
      dest: wf_key_ops_read intro: macer_ok_ops)

lemma hmac_in_i64: "hmac_algorithm_for a = Inr r \<Longrightarrow> in_i64 a"
  by (auto simp: hmac_algorithm_for_def in_i64_def split: if_splits)

lemma macer_reloads:
  assumes "macer_ok hb rm"
  shows "\<exists>k. ring_macer_to_cose_key rm = Inr k \<and> ring_macer_from_cose_key hb k = Inr rm"
proof -
  obtain A where A: "hmac_algorithm_for (rm_alg rm) = Inr (A, rm_tag_len rm)"
    and "rm_key rm = hb_key hb A (rm_raw_key rm)" and wf: "wf_key_ops (rm_key_ops rm)"
    using assms by (auto simp: macer_ok_def)
  then show ?thesis using assms symmetric_fields [OF hmac_in_i64 [OF A] wf]
    by (simp add: ring_macer_to_cose_key_def ring_macer_from_cose_key_def ring_macer_new_def macer_ok_def)
qed

interpretation hmac_key: shared_key ring_macer_to_cose_key "ring_macer_from_cose_key hb"
    "macer_ok hb" for hb :: "'h hmac_backend"
  by unfold_locales (blast intro: macer_reloads macer_loaded_ok)+

definition encryptor_ok :: "'a aead_backend \<Rightarrow> 'a ring_encryptor \<Rightarrow> bool" where
  "encryptor_ok ab e \<longleftrightarrow> wf_key_ops (rn_key_ops e) \<and>
     key_ops_allow (rn_key_ops e) [KeyOperationEncrypt, KeyOperationDecrypt] \<and>
     (\<exists>A. aead_algorithm_for (rn_alg e) = Inr A \<and> ab_key ab A (rn_raw_key e) = Some (rn_key e))"

lemma encryptor_ok_ops:
  "ring_encryptor_new ab a k key_id = Inr e \<Longrightarrow> wf_key_ops key_ops \<Longrightarrow> key_ops_allow key_ops [3, 4] \<Longrightarrow>
    encryptor_ok ab (e\<lparr>rn_base_iv := base_iv, rn_key_ops := key_ops\<rparr>)"
  by (auto simp: ring_encryptor_new_def result_simps encryptor_ok_def)

lemma encryptor_loaded_ok: "ring_encryptor_from_cose_key ab key = Inr e \<Longrightarrow> encryptor_ok ab e"
  by (auto simp: ring_encryptor_from_cose_key_def andThen_eq_Inr early_return_eq
      dest: wf_key_ops_read intro: encryptor_ok_ops)

lemma aead_in_i64: "aead_algorithm_for a = Inr r \<Longrightarrow> in_i64 a"
  by (auto simp: aead_algorithm_for_def in_i64_def split: if_splits)

lemma encryptor_reloads:
  assumes "encryptor_ok ab e"
  shows "\<exists>k. ring_encryptor_to_cose_key e = Inr k \<and> ring_encryptor_from_cose_key ab k = Inr e"
proof -
  obtain A where A: "aead_algorithm_for (rn_alg e) = Inr A"
    and "ab_key ab A (rn_raw_key e) = Some (rn_key e)" and wf: "wf_key_ops (rn_key_ops e)"
    using assms by (auto simp: encryptor_ok_def)
  then show ?thesis using assms symmetric_fields [OF aead_in_i64 [OF A] wf]
    by (simp add: ring_encryptor_to_cose_key_def ring_encryptor_from_cose_key_def
        ring_encryptor_new_def encryptor_ok_def)
qed

interpretation aead_key: shared_key ring_encryptor_to_cose_key "ring_encryptor_from_cose_key ab"
    "encryptor_ok ab" for ab :: "'a aead_backend"
  by unfold_locales (blast intro: encryptor_reloads encryptor_loaded_ok)+

definition aes_gcm_ok ::
  "'a aead_cipher \<Rightarrow> 'b aead_cipher \<Rightarrow> ('a, 'b) aes_gcm_encryptor \<Rightarrow> bool" where
  "aes_gcm_ok c128 c256 e \<longleftrightarrow> wf_key_ops (ag_key_ops e) \<and>
     key_ops_allow (ag_key_ops e) [KeyOperationEncrypt, KeyOperationDecrypt] \<and>
     (case ag_cipher e of
        Aes128 c \<Rightarrow> ag_alg e = AlgorithmA128GCM \<and> ci_new c128 (ag_raw_key e) = Some c
      | Aes256 c \<Rightarrow> ag_alg e = AlgorithmA256GCM \<and> ci_new c256 (ag_raw_key e) = Some c)"

lemma aes_gcm_ok_ops:
  "aes_gcm_new c128 c256 a k key_id = Inr e \<Longrightarrow> wf_key_ops key_ops \<Longrightarrow> key_ops_allow key_ops [3, 4] \<Longrightarrow>
    aes_gcm_ok c128 c256 (e\<lparr>ag_base_iv := base_iv, ag_key_ops := key_ops\<rparr>)"
  by (auto simp: aes_gcm_new_def result_simps aes_gcm_ok_def split: if_splits)

lemma aes_gcm_loaded_ok: "aes_gcm_from_cose_key c128 c256 key = Inr e \<Longrightarrow> aes_gcm_ok c128 c256 e"
  by (auto simp: aes_gcm_from_cose_key_def andThen_eq_Inr early_return_eq
      dest: wf_key_ops_read intro: aes_gcm_ok_ops)

lemma aes_gcm_reloads:
  assumes ok: "aes_gcm_ok c128 c256 e"
  shows "\<exists>k. aes_gcm_to_cose_key e = Inr k \<and> aes_gcm_from_cose_key c128 c256 k = Inr e"
proof -
  have "in_i64 (ag_alg e)" and wf: "wf_key_ops (ag_key_ops e)"
    using ok by (auto simp: aes_gcm_ok_def in_i64_def split: aes_gcm_cipher.splits)
  moreover have "aes_gcm_new c128 c256 (ag_alg e) (ag_raw_key e) (ag_kid e) =
      Inr (e\<lparr>ag_base_iv := None, ag_key_ops := None\<rparr>)"
    using ok by (cases e) (auto simp: aes_gcm_ok_def aes_gcm_new_def split: aes_gcm_cipher.splits)
  ultimately show ?thesis using ok
    by (simp add: symmetric_fields aes_gcm_to_cose_key_def aes_gcm_from_cose_key_def aes_gcm_ok_def)
qed

interpretation gcm_key: shared_key aes_gcm_to_cose_key "aes_gcm_from_cose_key c128 c256"
    "aes_gcm_ok c128 c256" for c128 :: "'a aead_cipher" and c256 :: "'b aead_cipher"
  by unfold_locales (blast intro: aes_gcm_reloads aes_gcm_loaded_ok)+

section \<open>The symmetric providers meet their contracts\<close>

text \<open>HMAC outputs have the length of the digest.\<close>

fun digest_length :: "hmac_algorithm \<Rightarrow> nat" where
  "digest_length HMAC_SHA256 = 32"
| "digest_length HMAC_SHA384 = 48"
| "digest_length HMAC_SHA512 = 64"

definition hmac_laws :: "'h hmac_backend \<Rightarrow> bool" where
  "hmac_laws hb \<longleftrightarrow> (\<forall>A k data. length (hb_sign hb (hb_key hb A k) data) = digest_length A)"

lemma hmac_tag_fits: "hmac_algorithm_for a = Inr (A, n) \<Longrightarrow> 0 < n \<and> n \<le> digest_length A"
  by (auto simp: hmac_algorithm_for_def split: if_splits)

text \<open>The tag that a provider computes over some bytes.\<close>

definition hmac_tag :: "'h hmac_backend \<Rightarrow> 'h ring_macer \<Rightarrow> bytes \<Rightarrow> bytes" where
  "hmac_tag hb rm data = take (rm_tag_len rm) (hb_sign hb (rm_key rm) data)"

lemma hmac_output:
  assumes "macer_ok hb rm" and "hmac_laws hb"
  shows "0 < rm_tag_len rm \<and> rm_tag_len rm \<le> length (hb_sign hb (rm_key rm) data)"
  using assms hmac_tag_fits by (fastforce simp: macer_ok_def hmac_laws_def)

lemma ring_mac_create_ok:
  assumes "macer_ok hb rm" and "hmac_laws hb"
  shows "ring_mac_create hb rm data = Inr t \<longleftrightarrow>
    key_ops_allow (rm_key_ops rm) [KeyOperationMacCreate] \<and> t = hmac_tag hb rm data"
  using hmac_output [OF assms, of data]
  by (auto simp: ring_mac_create_def require_key_ops_def result_simps guards hmac_tag_def require_def)

lemma ring_mac_verify_ok:
  assumes "macer_ok hb rm" and "hmac_laws hb"
  shows "ring_mac_verify hb rm data t = Inr () \<longleftrightarrow>
    key_ops_allow (rm_key_ops rm) [KeyOperationMacVerify] \<and> t = hmac_tag hb rm data"
  using hmac_output [OF assms, of data]
  by (auto simp: ring_mac_verify_def require_key_ops_def result_simps guards hmac_tag_def require_def)

lemma ring_macer_sound:
  assumes "macer_ok hb rm" and "hmac_laws hb"
    and "key_ops_allow (rm_key_ops rm) [KeyOperationMacVerify]"
  shows "sound_macer (ring_macer_provider hb rm)"
  using assms(3) ring_mac_create_ok [OF assms(1,2)] ring_mac_verify_ok [OF assms(1,2)] assms(1) hmac_in_i64
  by (auto simp: sound_macer_def ring_macer_provider_def macer_ok_def)

text \<open>AEAD primitives open what they sealed.\<close>

definition aead_laws :: "'a aead_backend \<Rightarrow> bool" where
  "aead_laws ab \<longleftrightarrow> (\<forall>key n aad p c. ab_seal ab key n aad p = Some c \<longrightarrow>
     (\<exists>buf. ab_open ab key n aad c = Some (length p, buf) \<and> take (length p) buf = p))"

lemma ring_encryptor_sound:
  assumes "encryptor_ok ab e" and "aead_laws ab"
    and "key_ops_allow (rn_key_ops e) [KeyOperationDecrypt]"
  shows "sound_encryptor (ring_encryptor_provider ab e)"
  using assms aead_in_i64
  by (fastforce simp: sound_encryptor_def ring_encryptor_provider_def encryptor_ok_def aead_laws_def
      ring_encrypt_def ring_decrypt_def require_key_ops_def require_def result_simps)

definition cipher_laws :: "'c aead_cipher \<Rightarrow> bool" where
  "cipher_laws ci \<longleftrightarrow> (\<forall>key n aad p c. ci_encrypt ci key n p aad = Some c \<longrightarrow>
     ci_decrypt ci key n c aad = Some p)"

lemma aes_gcm_sound:
  assumes "aes_gcm_ok c128 c256 e" and "cipher_laws c128" and "cipher_laws c256"
    and "key_ops_allow (ag_key_ops e) [KeyOperationDecrypt]"
  shows "sound_encryptor (aes_gcm_provider c128 c256 e)"
  using assms
  by (auto simp: sound_encryptor_def aes_gcm_provider_def aes_gcm_ok_def cipher_laws_def
      aes_gcm_encrypt_def aes_gcm_decrypt_def aead_seal_def aead_open_def require_key_ops_def
      require_def result_simps in_i64_def split: aes_gcm_cipher.splits)

section \<open>Messages under a shared key\<close>

text \<open>An encryptor whose exported key another party reads.\<close>

locale shared_encryptor = shared_key export load usable
  for export :: "'p \<Rightarrow> error + cose_key" and load :: "cose_key \<Rightarrow> error + 'p" and usable :: "'p \<Rightarrow> bool" +
  fixes provider :: "'p \<Rightarrow> encryptor"
    and opens :: "'p \<Rightarrow> bool"
  assumes contract: "usable p \<Longrightarrow> opens p \<Longrightarrow> sound_encryptor (provider p)"
    and understands_nothing: "en_understood (provider p) = []"
begin

lemma message_opens:
  assumes "load key = Inr p" and "opens p" and "e0_encrypt cb m (provider p) aad = (Inr (), m')"
    and "wf_bt (e0_protected m)" and "wf_bt (e0_unprotected m)"
    and "crit_understood cb (e0_protected m') []"
  shows "\<exists>k q plaintext. export p = Inr k \<and> load k = Inr q \<and> e0_payload m = Some plaintext \<and>
    e0_decrypt cb (m'\<lparr>e0_payload := None\<rparr>) (provider q) aad = (Inr plaintext, m')"
proof -
  obtain k where "export p = Inr k" "load k = Inr p" using reload [OF assms(1)] by blast
  moreover have "\<exists>plaintext. e0_payload m = Some plaintext \<and>
      e0_decrypt cb (m'\<lparr>e0_payload := None\<rparr>) (provider p) aad = (Inr plaintext, m')"
    using e0_encrypted_decrypts [OF assms(3-5) contract [OF loaded_usable [OF assms(1)] assms(2)]] assms(6)
    by (auto simp: understands_nothing)
  ultimately show ?thesis by blast
qed

end

interpretation ring_aead: shared_encryptor ring_encryptor_to_cose_key "ring_encryptor_from_cose_key ab"
    "encryptor_ok ab" "ring_encryptor_provider ab"
    "\<lambda>e. aead_laws ab \<and> key_ops_allow (rn_key_ops e) [KeyOperationDecrypt]"
    for ab :: "'a aead_backend"
  by unfold_locales (blast intro: ring_encryptor_sound, simp add: ring_encryptor_provider_def)

interpretation aes_gcm: shared_encryptor aes_gcm_to_cose_key "aes_gcm_from_cose_key c128 c256"
    "aes_gcm_ok c128 c256" "aes_gcm_provider c128 c256"
    "\<lambda>e. cipher_laws c128 \<and> cipher_laws c256 \<and> key_ops_allow (ag_key_ops e) [KeyOperationDecrypt]"
    for c128 :: "'a aead_cipher" and c256 :: "'b aead_cipher"
  by unfold_locales (blast intro: aes_gcm_sound, simp add: aes_gcm_provider_def)

end
