(* ===== verification/DerLaws.thy ===== *)
theory DerLaws
  imports Der
begin

text \<open>
  The DER documents of RSA keys: lengths are written in their shortest form, integers keep
  their number, and the private-key document carries the numbers of the key. An empty
  component is not covered: it is written as an \<open>INTEGER\<close> without contents, which is not DER
  (\<open>der_writer_empty_integer\<close>).
\<close>

section \<open>Big-endian numbers\<close>

fun be_value :: "bytes \<Rightarrow> nat" where
  "be_value [] = 0"
| "be_value (b # bs) = unat b * 256 ^ length bs + be_value bs"

lemma byte_less: "unat (b :: u8) < 256"
proof -
  have "unat b < 2 ^ LENGTH(8)" by (rule unsigned_less)
  then show ?thesis by simp
qed

lemma be_value_less: "be_value bs < 256 ^ length bs"
proof (induction bs)
  case (Cons b bs)
  have "be_value (b # bs) < (unat b + 1) * 256 ^ length bs" using Cons by (simp add: algebra_simps)
  also have "\<dots> \<le> 256 * 256 ^ length bs" using byte_less [of b] by (intro mult_le_mono1) simp
  finally show ?case by simp
qed simp

lemma be_value_leading: "hd bs \<noteq> 0 \<Longrightarrow> bs \<noteq> [] \<Longrightarrow> 256 ^ (length bs - 1) \<le> be_value bs"
  by (cases bs) (auto simp: unat_gt_0 Suc_le_eq word_neq_0_conv intro: trans_le_add1)

lemma be_value_trim [simp]: "be_value (trim_zeros bs) = be_value bs"
  by (induction bs rule: trim_zeros.induct) auto

lemma shift_in_byte:
  fixes v :: u64 and b :: u8
  assumes "unat v * 256 + 256 \<le> 2 ^ 64"
  shows "unat (push_bit 8 v OR ucast b) = unat v * 256 + unat b"
proof -
  have "push_bit 8 v + ucast b = push_bit 8 v OR (ucast b :: u64)"
    by (rule disjunctive_add) (auto simp: bit_simps not_le dest: bit_imp_le_length)
  then have eq: "push_bit 8 v OR ucast b = v * 256 + ucast b" by (simp add: push_bit_eq_mult)
  have "unat (ucast b :: u64) = unat b"
    using byte_less [of b] by (simp add: unsigned_ucast_eq unsigned_take_bit_eq take_bit_nat_eq_self)
  then show ?thesis unfolding eq using assms byte_less [of b] by (simp add: unat_word_ariths)
qed

lemma fold_be_value:
  assumes "length bs \<le> 8"
  shows "unat (fold_be bs) = be_value bs"
proof -
  have "unat (foldl (\<lambda>value byte. push_bit 8 value OR ucast byte) v bs) =
      unat v * 256 ^ length bs + be_value bs"
    if "unat v * 256 ^ length bs + 256 ^ length bs \<le> 2 ^ 64" for v :: u64
    using that
  proof (induction bs arbitrary: v)
    case (Cons b bs)
    have fits: "(unat v * 256 + 256) * 256 ^ length bs \<le> 2 ^ 64" using Cons.prems by (simp add: algebra_simps)
    moreover have "(1 :: nat) \<le> 256 ^ length bs" by simp
    ultimately have "unat v * 256 + 256 \<le> 2 ^ 64" by (metis le_trans mult.right_neutral mult_le_mono2)
    note step = shift_in_byte [OF this, of b]
    have "(unat v * 256 + unat b + 1) * 256 ^ length bs \<le> (unat v * 256 + 256) * 256 ^ length bs"
      using byte_less [of b] by (intro mult_le_mono1) simp
    also have "\<dots> \<le> 2 ^ 64" by (rule fits)
    finally have "unat (push_bit 8 v OR ucast b :: u64) * 256 ^ length bs + 256 ^ length bs \<le> 2 ^ 64"
      by (simp add: step algebra_simps)
    from Cons.IH [OF this] show ?case by (simp add: step algebra_simps)
  qed simp
  moreover have "(256 :: nat) ^ length bs \<le> 256 ^ 8" using assms by (intro power_increasing) auto
  ultimately show ?thesis by (simp add: fold_be_def)
qed

section \<open>Sequences of integers\<close>

text \<open>
  The contents of a DER \<open>INTEGER\<close> are a number in two's complement; they are in their shortest
  form when there is at least one byte and the first nine bits are not all equal (X.690, 8.3).
\<close>

definition signed_value :: "bytes \<Rightarrow> int" where
  "signed_value c = int (be_value c) -
     (case c of [] \<Rightarrow> 0 | b # _ \<Rightarrow> if b AND 0x80 \<noteq> 0 then 256 ^ length c else 0)"

definition shortest :: "bytes \<Rightarrow> bool" where
  "shortest c \<longleftrightarrow> (case c of
     [] \<Rightarrow> False
   | [b] \<Rightarrow> True
   | b # b' # _ \<Rightarrow> \<not> (b = 0 \<and> b' AND 0x80 = 0) \<and> \<not> (b = 0xff \<and> b' AND 0x80 \<noteq> 0))"

lemma contents_value: "signed_value (integer_contents v) = int (be_value v)"
proof -
  have "be_value (trim_zeros v) = be_value v" by simp
  then show ?thesis
    by (auto simp: signed_value_def integer_contents_def simp del: be_value_trim split: list.splits)
qed

lemma contents_shortest: "v \<noteq> [] \<Longrightarrow> shortest (integer_contents v)"
proof (cases "trim_zeros v")
  case (Cons b bs)
  then show ?thesis using trim_zeros_head [of v bs]
    by (cases "b = 0xff") (auto simp: integer_contents_def shortest_def split: list.splits)
qed simp

text \<open>
  The shortest length octets (X.690, 10.1): one byte below 128, otherwise the number of the
  bytes that follow, without a leading zero; and a tag, length and value in that form.
\<close>

definition shortest_length :: "nat \<Rightarrow> bytes \<Rightarrow> bool" where
  "shortest_length n l \<longleftrightarrow>
     (if n < 128 then l = [word_of_nat n]
      else \<exists>ds. l = word_of_nat (128 + length ds) # ds \<and> length ds < 127 \<and> ds \<noteq> [] \<and> hd ds \<noteq> 0 \<and>
        be_value ds = n)"

definition der_tlv :: "u8 \<Rightarrow> bytes \<Rightarrow> bytes \<Rightarrow> bool" where
  "der_tlv tag c bs \<longleftrightarrow> (\<exists>l. bs = tag # l @ c \<and> shortest_length (length c) l)"

lemma der_length_shortest:
  assumes "n < usize_limit"
  shows "shortest_length n (der_length n)"
proof (cases "n < 128")
  case True
  then show ?thesis by (simp add: shortest_length_def der_length_def)
next
  case False
  then obtain ds where ds: "der_length n = (0x80 OR word_of_nat (length ds)) # ds" "ds \<noteq> []"
    "length ds \<le> 8" "hd ds \<noteq> 0" "unat (fold_be ds) = n"
    using be_digits [of n] assms by auto
  have "0 < length ds" using ds(2) by simp
  then have "length ds = 1 \<or> length ds = 2 \<or> length ds = 3 \<or> length ds = 4 \<or> length ds = 5 \<or>
      length ds = 6 \<or> length ds = 7 \<or> length ds = 8" using ds(3) by linarith
  then have "(0x80 OR word_of_nat (length ds) :: u8) = word_of_nat (128 + length ds)" by auto
  then show ?thesis using False ds fold_be_value [OF ds(3)] by (simp add: shortest_length_def)
qed

lemma der_unsigned_integer_tlv:
  "length (integer_contents v) < usize_limit \<Longrightarrow>
    der_tlv 0x02 (integer_contents v) (der_unsigned_integer v)"
  by (simp add: der_tlv_def der_unsigned_integer_form der_length_shortest)

fun der_integers :: "nat \<Rightarrow> bytes \<Rightarrow> bytes list option" where
  "der_integers 0 bs = (if bs = [] then Some [] else None)"
| "der_integers (Suc n) bs =
     (case der_take_tlv bs 0x02 of
        None \<Rightarrow> None
      | Some (c, rest) \<Rightarrow> map_option ((#) c) (der_integers n rest))"

lemma der_integers_written:
  assumes "\<forall>v \<in> set vs. length (integer_contents v) < usize_limit"
  shows "der_integers (length vs) (concat (map der_unsigned_integer vs)) = Some (map integer_contents vs)"
  using assms by (induction vs) (simp_all add: der_integer_read)

lemma integers_fit:
  assumes "length (concat (map der_unsigned_integer vs)) < n" and "v \<in> set vs"
  shows "length (integer_contents v) < n"
proof -
  have "length (der_unsigned_integer v) \<le> length (concat (map der_unsigned_integer vs))"
    using assms(2) by (induction vs) auto
  then show ?thesis using assms(1) der_integer_length [of v] by simp
qed

text \<open>A PKCS\#1 \<open>RSAPublicKey\<close> document with the given numbers.\<close>

definition rsa_public_key_der :: "bytes \<Rightarrow> bytes \<Rightarrow> bytes" where
  "rsa_public_key_der n e =
     (let body = der_unsigned_integer n @ der_unsigned_integer e in
      0x30 # der_length (length body) @ body)"

lemma rsa_public_key_read:
  assumes "length (rsa_public_key_der n e) < usize_limit"
  shows "rsa_public_key_from_der (rsa_public_key_der n e) = Inr (trim_zeros n, trim_zeros e)"
proof -
  let ?body = "der_unsigned_integer n @ der_unsigned_integer e"
  have body: "length ?body < usize_limit" using assms by (simp add: rsa_public_key_der_def Let_def)
  have seq: "der_take_tlv (rsa_public_key_der n e) 0x30 = Some (?body, [])"
    using der_take_tlv_written [OF body, of "0x30" "[]"] by (simp add: rsa_public_key_der_def Let_def)
  have "length (integer_contents n) < usize_limit" "length (integer_contents e) < usize_limit"
    using body der_integer_length [of n] der_integer_length [of e] by simp_all
  from this der_integer_read [OF this(1), of "der_unsigned_integer e"]
    der_integer_read [OF this(2), of "[]"] seq
  show ?thesis by (simp add: rsa_public_key_from_der_def magnitude_of_contents Let_def)
qed

text \<open>
  Two places where the helpers are laxer than DER: the reader accepts lengths that are not in
  their shortest form, and an empty magnitude is written as an \<open>INTEGER\<close> without contents.
\<close>

lemma der_reader_accepts_long_lengths:
  "der_take_tlv [0x02, 0x81, 0x01, 0x05] 0x02 = Some ([0x05], [])"
  by code_simp

lemma der_writer_empty_integer: "der_unsigned_integer [] = [0x02, 0x00]"
  by code_simp

section \<open>Properties\<close>

text \<open>
  The length octets that \<open>der_length\<close> writes are read back, whatever follows
  them, and no other octets that \<open>der_read_length\<close> accepts for the same length are shorter.
\<close>

theorem der_length_read_back_shortest:
  assumes "len < usize_limit"
  shows "der_read_length (der_length len @ rest) = Some (len, rest) \<and>
    (\<forall>bs. der_read_length (bs @ rest) = Some (len, rest) \<longrightarrow> length (der_length len) \<le> length bs)"
proof (intro conjI allI impI)
  show "der_read_length (der_length len @ rest) = Some (len, rest)"
    by (rule der_read_length_der_length [OF assms])
next
  fix bs
  assume read: "der_read_length (bs @ rest) = Some (len, rest)"
  then obtain first tail where input: "bs @ rest = first # tail"
    by (cases "bs @ rest") (auto simp: der_read_length_def)
  show "length (der_length len) \<le> length bs"
  proof (cases "len < 0x80")
    case True
    have "bs \<noteq> []"
    proof
      assume "bs = []"
      then have "length rest < length rest"
        using read input by (auto simp: der_read_length_def Let_def split: if_splits dest!: arg_cong [of _ _ length])
      then show False by simp
    qed
    then show ?thesis using True by (simp add: der_length_def Suc_le_eq)
  next
    case False
    then obtain ds where ds: "length (der_length len) = Suc (length ds)" "ds \<noteq> []" "hd ds \<noteq> 0"
      "unat (fold_be ds) = len" "length ds \<le> 8"
      using be_digits [of len] assms by (metis length_Cons not_le)
    have "\<not> first < 0x80"
      using read input False by (auto simp: der_read_length_def word_less_nat_alt)
    then have "let c = unat (first AND 0x7f) in
        c \<le> 8 \<and> len = unat (fold_be (take c tail)) \<and> rest = drop c tail \<and> c \<le> length tail"
      using read unfolding input by (auto simp: der_read_length_def Let_def split: if_splits)
    then obtain c where c: "c \<le> 8" "len = unat (fold_be (take c tail))" "rest = drop c tail" "c \<le> length tail"
      by (auto simp: Let_def)
    have bs: "length bs = Suc c"
      using arg_cong [OF input, of length] c(3,4) by (simp add: c(3))
    have "256 ^ (length ds - 1) \<le> len"
      using be_value_leading [OF ds(3,2)] ds(4,5) by (simp add: fold_be_value)
    also have "len < 256 ^ c"
      using be_value_less [of "take c tail"] c by (simp add: fold_be_value)
    finally have "length ds - 1 < c" by (rule power_less_imp_less_exp [rotated]) simp
    then show ?thesis using ds(1) bs by simp
  qed
qed

theorem der_length_read_back_shortest_witness:
  "der_read_length ([0x82, 0x01, 0x01] @ [7]) = Some (257, [7])"
proof -
  have "der_length 257 = [0x82, 0x01, 0x01]" by code_simp
  then show ?thesis using der_length_read_back_shortest [of 257 "[7]"] by (simp add: usize_limit_def)
qed

text \<open>The eight components of an RSA key in the order of their labels (RFC 8230, section 4).\<close>

lemma rsa_fields_labels:
  "map (\<lambda>l. get_bytes key (LInt l)) [- 1, - 2, - 3, - 4, - 5, - 6, - 7, - 8] =
      map (\<lambda>b. Inr (Some b)) parts \<Longrightarrow> rsa_fields key = Inr parts \<and> length parts = 8"
  by (auto simp: rsa_fields_def required_bytes_def map_eq_Cons_conv Cons_eq_map_conv)

text \<open>
  C22. For an RSA key whose components n, e, d, p, q, dP, dQ and qInv, under their labels -1 to
  -8, are not empty, \<open>rsa_pkcs1_private_key_der\<close> writes the DER document of RFC 8017: one
  \<open>SEQUENCE\<close> of exactly nine \<open>INTEGER\<close>s, the version zero and then the eight numbers in that
  order, each non-negative, with contents in their shortest two's-complement form and with
  length octets in their shortest form throughout. The crate's own reader takes it apart again.
\<close>

theorem rsa_private_key_document:
  assumes "map (\<lambda>l. get_bytes key (LInt l)) [- 1, - 2, - 3, - 4, - 5, - 6, - 7, - 8] =
      map (\<lambda>b. Inr (Some b)) parts"
    and "[] \<notin> set parts" and "rsa_pkcs1_private_key_der key = Inr der" and "length der < usize_limit"
  shows "\<exists>integers numbers. der_tlv 0x30 (concat integers) der \<and>
    list_all2 (der_tlv 0x02) numbers integers \<and> length numbers = 9 \<and>
    map signed_value numbers = 0 # map (int \<circ> be_value) parts \<and> list_all shortest numbers \<and>
    der_take_tlv der 0x30 = Some (concat integers, []) \<and> der_integers 9 (concat integers) = Some numbers"
proof -
  let ?all = "[0] # parts"
  let ?body = "concat (map der_unsigned_integer ?all)"
  have parts: "rsa_fields key = Inr parts" "length parts = 8"
    using rsa_fields_labels [OF assms(1)] by simp_all
  then have der: "der = 0x30 # der_length (length ?body) @ ?body"
    using assms(3) by (simp add: rsa_pkcs1_private_key_der_def)
  have body: "length ?body < usize_limit" using assms(4) by (simp add: der)
  have fit: "\<forall>v \<in> set ?all. length (integer_contents v) < usize_limit"
    using integers_fit [OF body] by blast
  have "der_tlv 0x30 ?body der" using der_length_shortest [OF body] by (auto simp: der_tlv_def der)
  moreover have "list_all2 (der_tlv 0x02) (map integer_contents ?all) (map der_unsigned_integer ?all)"
    unfolding list.rel_map using fit by (intro list.rel_refl_strong der_unsigned_integer_tlv) blast
  moreover have "map signed_value (map integer_contents ?all) = 0 # map (int \<circ> be_value) parts"
    by (simp add: contents_value comp_def)
  moreover have "list_all shortest (map integer_contents ?all)"
    using assms(2) by (auto simp: list_all_iff intro!: contents_shortest)
  moreover have "der_take_tlv der 0x30 = Some (?body, [])"
    using der_take_tlv_written [OF body, of "0x30" "[]"] by (simp add: der)
  moreover have "der_integers 9 ?body = Some (map integer_contents ?all)"
    using der_integers_written [OF fit] parts(2) by simp
  moreover have "length (map integer_contents ?all) = 9" using parts(2) by simp
  ultimately show ?thesis
    by (intro exI [of _ "map der_unsigned_integer ?all"] exI [of _ "map integer_contents ?all"] conjI)
qed

definition demo_rsa_key :: cose_key where
  "demo_rsa_key = map (\<lambda>(i, n). (LInt (- i), VBytes [n]))
     [(1, 1), (2, 2), (3, 3), (4, 4), (5, 5), (6, 6), (7, 7), (8, 0x80)]"

theorem rsa_private_key_document_witness:
  "\<exists>der numbers. rsa_pkcs1_private_key_der demo_rsa_key = Inr der \<and>
    list_all shortest numbers \<and> map signed_value numbers = [0, 1, 2, 3, 4, 5, 6, 7, 128]"
proof -
  have der: "rsa_pkcs1_private_key_der demo_rsa_key = Inr ([48, 28, 2, 1, 0, 2, 1, 1, 2, 1, 2, 2, 1, 3,
      2, 1, 4, 2, 1, 5, 2, 1, 6, 2, 1, 7, 2, 2, 0, 128])" by code_simp
  have "map (\<lambda>l. get_bytes demo_rsa_key (LInt l)) [- 1, - 2, - 3, - 4, - 5, - 6, - 7, - 8] =
      map (\<lambda>b. Inr (Some b)) [[1], [2], [3], [4], [5], [6], [7], [128]]" by code_simp
  from rsa_private_key_document [OF this _ der] der show ?thesis by (auto simp: usize_limit_def)
qed

end
