(* ===== verification/ProviderLaws.thy ===== *)
theory ProviderLaws
  imports Providers DerLaws
begin

text \<open>
  The properties of the built-in providers: exported keys are read back, messages of one party
  are accepted by another that holds the exported key, and what an HMAC provider accepts. The
  concrete backends of the witnesses satisfy the laws of the crates.
\<close>

section \<open>Verifiers and their keys\<close>

lemma loaded_point:
  assumes "ec2_uncompressed_public_key key n = Inr point"
  shows "\<exists>xy. point = 0x04 # xy \<and> length xy = 2 * n"
  using assms by (auto simp: ec2_uncompressed_public_key_def result_simps)

lemma ec2_exports:
  assumes "ec_curve a = Some (curve, n)" and "length xy = 2 * n"
  shows "\<exists>k. ec2_public_cose_key a (0x04 # xy) key_id = Inr k"
  using assms by (auto simp: ec2_public_cose_key_def ec_curve_def split: if_splits)

lemma loaded_verifier_exports:
  assumes "ring_verifier_from_cose_key key = Inr v"
  shows "\<exists>k. ring_verifier_to_cose_key v = Inr k \<and> exported_verifier v = v"
proof (cases "rv_key v")
  case (VkEcdsa point)
  then obtain curve n where c: "ec_curve (rv_alg v) = Some (curve, n)"
    and "ec2_uncompressed_public_key key n = Inr point"
    using assms
    by (auto simp: ring_verifier_from_cose_key_def andThen_eq_Inr Let_def verifier_constructors
        ec_curve_def split: if_splits)
  then obtain xy where "point = 0x04 # xy" "length xy = 2 * n" using loaded_point by blast
  then show ?thesis using ec2_exports [OF c] VkEcdsa
    by (simp add: ring_verifier_to_cose_key_def exported_verifier_def)
next
  case (VkRsaDer der)
  then show ?thesis using assms
    by (auto simp: ring_verifier_from_cose_key_def andThen_eq_Inr Let_def verifier_constructors
        split: if_splits)
qed (simp_all add: ring_verifier_to_cose_key_def exported_verifier_def)

text \<open>
  C16. A verifier read from a \<open>COSE_Key\<close> can be exported, and its export is read back
  as the same verifier; one made from a PKCS\#1 document of a modulus and an exponent is exported
  as these two numbers without leading zeros.
\<close>

theorem verifier_key_roundtrip:
  assumes "ring_verifier_from_cose_key key = Inr v"
    and "rsa_der a (rsa_public_key_der n e) key_id = Inr w"
    and "length (rsa_public_key_der n e) < usize_limit"
  shows "(\<exists>k. ring_verifier_to_cose_key v = Inr k \<and> ring_verifier_from_cose_key k = Inr v) \<and>
    (\<exists>k. ring_verifier_to_cose_key w = Inr k \<and> ring_verifier_from_cose_key k =
      Inr \<lparr>rv_alg = a, rv_kid = key_id, rv_key = VkRsaComponents (trim_zeros n) (trim_zeros e)\<rparr>)"
proof
  obtain k where "ring_verifier_to_cose_key v = Inr k" "exported_verifier v = v"
    using loaded_verifier_exports [OF assms(1)] by blast
  then show "\<exists>k. ring_verifier_to_cose_key v = Inr k \<and> ring_verifier_from_cose_key k = Inr v"
    using verifier_exported [OF verifier_ok_from_key [OF assms(1)]] by auto
next
  have w: "w = \<lparr>rv_alg = a, rv_kid = key_id, rv_key = VkRsaDer (rsa_public_key_der n e)\<rparr>"
    and "verifier_ok w"
    using assms(2) verifier_ok_constructed(4) by (auto simp: verifier_constructors)
  then show "\<exists>k. ring_verifier_to_cose_key w = Inr k \<and> ring_verifier_from_cose_key k =
      Inr \<lparr>rv_alg = a, rv_kid = key_id, rv_key = VkRsaComponents (trim_zeros n) (trim_zeros e)\<rparr>"
    using verifier_exported [of w] rsa_public_key_read [OF assms(3)]
    by (simp add: ring_verifier_to_cose_key_def exported_verifier_def)
qed

definition demo_public_key :: cose_key where
  "demo_public_key = [(LInt 1, VInteger 1), (LInt 3, VInteger (- 19)), (LInt (- 1), VInteger 6),
     (LInt (- 2), VBytes [9, 9])]"

theorem verifier_key_roundtrip_witness:
  "\<exists>k. ring_verifier_to_cose_key \<lparr>rv_alg = - 257, rv_kid = None, rv_key = VkRsaDer (rsa_public_key_der [0, 5] [3])\<rparr> =
     Inr k \<and> ring_verifier_from_cose_key k =
       Inr \<lparr>rv_alg = - 257, rv_kid = None, rv_key = VkRsaComponents [5] [3]\<rparr>"
proof -
  have "ring_verifier_from_cose_key demo_public_key =
      Inr \<lparr>rv_alg = - 19, rv_kid = None, rv_key = VkEd25519 [9, 9]\<rparr>" by code_simp
  moreover have "rsa_der (- 257) (rsa_public_key_der [0, 5] [3]) None =
      Inr \<lparr>rv_alg = - 257, rv_kid = None, rv_key = VkRsaDer (rsa_public_key_der [0, 5] [3])\<rparr>"
    by (simp add: rsa_der_def rsa_verification_algorithm_def)
  moreover have "length (rsa_public_key_der [0, 5] [3]) = 8" by code_simp
  ultimately show ?thesis using verifier_key_roundtrip [of demo_public_key _ "- 257" "[0, 5]" "[3]" None]
    by (simp add: usize_limit_def)
qed

section \<open>Signatures\<close>

text \<open>
  C17. A message that a built-in signer read from a key signs with \<open>Sign1Message::sign\<close>
  is accepted by every party that reads a verifier from the signer's exported public key: the
  export exists for Ed25519 and ECDSA, is read back, and its verifier accepts the message.
\<close>

theorem ring_signed_message_verifies:
  assumes "ring_signer_from_cose_key sb g0 key = Inr s" and "ring_signer_public_key sb s \<noteq> None"
    and "signature_laws sb vb" and "s1_sign cb m (ring_signer_provider sb g s) aad = (Inr (), m')"
    and "wf_bt (s1_protected m)" and "wf_bt (s1_unprotected m)"
    and "crit_understood cb (s1_protected m') []"
  shows "\<exists>k v. ring_signer_to_cose_key sb s = Inr k \<and> ring_verifier_from_cose_key k = Inr v \<and>
    s1_verify cb m' (ring_verifier_provider vb v) aad = Inr ()"
  using assms signer_ok_from_key [OF assms(1)] by (intro ring.message_verifies) auto

definition demo_signing ::
  "(bytes, ecdsa_signing_algorithm \<times> bytes, unit, unit) signing_backend" where
  "demo_signing = \<lparr>
     sb_ed25519_pkcs8 = Some, sb_ed25519_keys = (\<lambda>seed public. if seed = public then Some public else None),
     sb_ed25519_public = (\<lambda>key. key), sb_ed25519_sign = (\<lambda>key data. key @ data),
     sb_ecdsa_pkcs8 = (\<lambda>sa b g. None),
     sb_ecdsa_keys = (\<lambda>sa d p g. case p of
         b # xy \<Rightarrow> if b = 4 \<and> length xy = (if sa = ECDSA_P256_SHA256_FIXED_SIGNING then 64 else 96)
           then Some (sa, p) else None
       | [] \<Rightarrow> None),
     sb_ecdsa_public = snd, sb_ecdsa_sign = (\<lambda>key g data. Some (snd key @ data)),
     sb_rsa_pkcs8 = (\<lambda>b. None), sb_rsa_der = (\<lambda>b. None), sb_rsa_modulus_len = (\<lambda>k. 0),
     sb_rsa_sign = (\<lambda>k e g d b. None)\<rparr>"

definition demo_verification :: verification_backend where
  "demo_verification = \<lparr>vb_ed25519 = (\<lambda>pk data s. s = pk @ data), vb_ecdsa = (\<lambda>va pk data s. s = pk @ data),
     vb_rsa_components = (\<lambda>p n e data s. False), vb_rsa_der = (\<lambda>p der data s. False)\<rparr>"

lemma demo_ecdsa_made:
  assumes "ecdsa_made demo_signing sa key"
  shows "\<exists>xy. key = (sa, 4 # xy) \<and> length xy = (if sa = ECDSA_P256_SHA256_FIXED_SIGNING then 64 else 96)"
proof -
  obtain d p where p: "sb_ecdsa_keys demo_signing sa d p () = Some key"
    using assms by (auto simp: ecdsa_made_def demo_signing_def)
  then show ?thesis by (cases p) (auto simp: demo_signing_def split: if_splits)
qed

lemma demo_signature_laws: "signature_laws demo_signing demo_verification"
proof -
  have ed: "vb_ed25519 demo_verification (sb_ed25519_public demo_signing key) data
      (sb_ed25519_sign demo_signing key data)" for key data
    by (simp add: demo_signing_def demo_verification_def)
  have public: "sb_ecdsa_public demo_signing key = snd key" for key
    by (simp add: demo_signing_def)
  have ec: "vb_ecdsa demo_verification va (snd key) data s"
    if "sb_ecdsa_sign demo_signing key g data = Some s" for va key g data s
    using that by (simp add: demo_signing_def demo_verification_def)
  have "\<exists>curve n xy. ec_curve a = Some (curve, n) \<and> snd key = 4 # xy \<and> length xy = 2 * n"
    if "ecdsa_pair a sa va" and "ecdsa_made demo_signing sa key" for a sa va key
    using that(1) demo_ecdsa_made [OF that(2)] by (auto simp: ecdsa_pair_def ec_curve_def)
  then show ?thesis using ed ec unfolding signature_laws_def public by blast
qed

definition demo_private_key :: cose_key where
  "demo_private_key = [(LInt 1, VInteger 1), (LInt 3, VInteger (- 19)), (LInt (- 1), VInteger 6),
     (LInt (- 2), VBytes [9, 9]), (LInt (- 4), VBytes [9, 9])]"

definition demo_ring_signer :: "(bytes, ecdsa_signing_algorithm \<times> bytes, unit) ring_signer" where
  "demo_ring_signer = \<lparr>rs_alg = - 19, rs_kid = None, rs_key = SkEd25519 [9, 9]\<rparr>"

definition demo_ring_sign1 :: sign1 where
  "demo_ring_sign1 = snd (s1_sign ref_cbor (s1_new (Some [7]))
     (ring_signer_provider demo_signing () demo_ring_signer) None)"

theorem ring_signed_message_verifies_witness:
  "\<exists>k v. ring_signer_to_cose_key demo_signing demo_ring_signer = Inr k \<and>
    ring_verifier_from_cose_key k = Inr v \<and>
    s1_verify ref_cbor demo_ring_sign1 (ring_verifier_provider demo_verification v) None = Inr ()"
proof (rule ring_signed_message_verifies [OF _ _ demo_signature_laws])
  show "ring_signer_from_cose_key demo_signing () demo_private_key = Inr demo_ring_signer" by code_simp
  show "ring_signer_public_key demo_signing demo_ring_signer \<noteq> None" by code_simp
  have "fst (s1_sign ref_cbor (s1_new (Some [7]))
      (ring_signer_provider demo_signing () demo_ring_signer) None) = Inr ()" by code_simp
  then show "s1_sign ref_cbor (s1_new (Some [7])) (ring_signer_provider demo_signing () demo_ring_signer)
      None = (Inr (), demo_ring_sign1)" by (simp add: demo_ring_sign1_def prod_eq_iff)
  have "s1_protected demo_ring_sign1 = [(LInt 1, VInteger (- 19))]" by code_simp
  then show "crit_understood ref_cbor (s1_protected demo_ring_sign1) []"
    by (intro crit_understood_no_crit) (simp add: crit_None)
qed (simp_all add: s1_new_def)

text \<open>
  C18. A signer of the \<open>ed25519-dalek\<close> provider is only read from a key whose public
  part, when it is there, is the public key of its private part; a message that it signs is
  accepted by every party that reads a verifier from its exported public key.
\<close>

theorem dalek_signed_message_verifies:
  assumes "ed25519_signer_from_cose_key dk key = Inr s" and "dalek_laws dk"
    and "s1_sign cb m (ed25519_signer_provider dk s) aad = (Inr (), m')"
    and "wf_bt (s1_protected m)" and "wf_bt (s1_unprotected m)"
    and "crit_understood cb (s1_protected m') []"
  shows "get_bytes key (LInt OKPKeyParameterX) \<in> {Inr None, Inr (Some (ed25519_signer_public_key dk s))} \<and>
    (\<exists>k v. ed25519_signer_to_cose_key dk s = Inr k \<and> ed25519_verifier_from_cose_key dk k = Inr v \<and>
      s1_verify cb m' (ed25519_verifier_provider dk v) aad = Inr ())"
proof
  obtain x a d key_id signer where x: "get_bytes key (LInt (- 2)) = Inr x"
    and signer: "from_secret_key_with_alg dk a d key_id = Inr signer"
    and checked: "(case x of None \<Rightarrow> Inr signer
      | Some expected \<Rightarrow>
          if expected \<noteq> ed25519_signer_public_key dk signer
          then Inl (Custom ''COSE_Key Ed25519 public key x does not match private key d'')
          else Inr signer) = Inr s"
    using assms(1) by (auto simp: ed25519_signer_from_cose_key_def andThen_eq_Inr)
  have "signer = s" and x_ok: "x = None \<or> x = Some (ed25519_signer_public_key dk s)"
    using checked by (cases x; simp split: if_splits)+
  then have alg: "ed25519_algorithm (es_alg s)"
    using signer by (auto simp: from_secret_key_with_alg_def andThen_eq_Inr dalek_alg early_return_eq)
  show "get_bytes key (LInt OKPKeyParameterX) \<in> {Inr None, Inr (Some (ed25519_signer_public_key dk s))}"
    using x x_ok by auto
  show "\<exists>k v. ed25519_signer_to_cose_key dk s = Inr k \<and> ed25519_verifier_from_cose_key dk k = Inr v \<and>
      s1_verify cb m' (ed25519_verifier_provider dk v) aad = Inr ()"
    using assms alg by (intro dalek.message_verifies) auto
qed

definition pad :: "nat \<Rightarrow> bytes \<Rightarrow> bytes" where
  "pad n bs = take n (bs @ replicate n 0)"

lemma length_pad [simp]: "length (pad n bs) = n"
  by (simp add: pad_def)

definition demo_dalek :: "(bytes, bytes, bytes) dalek" where
  "demo_dalek = \<lparr>dk_signing_key = (\<lambda>b. b), dk_verifying_key_of = (\<lambda>k. pad 32 k),
     dk_sign = (\<lambda>k d. pad 32 k @ d), dk_verifying_key = Some, dk_key_bytes = (\<lambda>v. v),
     dk_verify_strict = (\<lambda>v d z. z = v @ d), dk_signature = Some, dk_signature_bytes = (\<lambda>z. z)\<rparr>"

lemma demo_dalek_laws: "dalek_laws demo_dalek"
  by (simp add: dalek_laws_def demo_dalek_def Let_def)

definition demo_dalek_key :: cose_key where
  "demo_dalek_key = [(LInt 1, VInteger 1), (LInt (- 1), VInteger 6), (LInt (- 4), VBytes (replicate 32 5))]"

definition demo_dalek_signer :: "bytes ed25519_signer" where
  "demo_dalek_signer = \<lparr>es_alg = - 19, es_kid = None, es_key = replicate 32 5\<rparr>"

definition demo_dalek_sign1 :: sign1 where
  "demo_dalek_sign1 = snd (s1_sign ref_cbor (s1_new (Some [7]))
     (ed25519_signer_provider demo_dalek demo_dalek_signer) None)"

theorem dalek_signed_message_verifies_witness:
  "\<exists>k v. ed25519_signer_to_cose_key demo_dalek demo_dalek_signer = Inr k \<and>
    ed25519_verifier_from_cose_key demo_dalek k = Inr v \<and>
    s1_verify ref_cbor demo_dalek_sign1 (ed25519_verifier_provider demo_dalek v) None = Inr ()"
proof -
  have key: "ed25519_signer_from_cose_key demo_dalek demo_dalek_key = Inr demo_dalek_signer" by code_simp
  have "fst (s1_sign ref_cbor (s1_new (Some [7]))
      (ed25519_signer_provider demo_dalek demo_dalek_signer) None) = Inr ()" by code_simp
  then have "s1_sign ref_cbor (s1_new (Some [7])) (ed25519_signer_provider demo_dalek demo_dalek_signer)
      None = (Inr (), demo_dalek_sign1)" by (simp add: demo_dalek_sign1_def prod_eq_iff)
  moreover have "s1_protected demo_dalek_sign1 = [(LInt 1, VInteger (- 19))]" by code_simp
  then have "crit_understood ref_cbor (s1_protected demo_dalek_sign1) []"
    by (intro crit_understood_no_crit) (simp add: crit_None)
  ultimately show ?thesis
    using dalek_signed_message_verifies [OF key demo_dalek_laws] by (simp add: s1_new_def)
qed

section \<open>Symmetric providers\<close>

text \<open>
  C20. The symmetric providers are exported losslessly: an HMAC provider, an AEAD
  provider of either backend that was read from a \<open>COSE_Key\<close> exports a key from which the same
  provider is read, with its algorithm, key, identifier, Base IV and permitted operations.
\<close>

theorem symmetric_providers_roundtrip:
  shows "(ring_macer_from_cose_key hb key = Inr rm \<longrightarrow>
      (\<exists>k. ring_macer_to_cose_key rm = Inr k \<and> ring_macer_from_cose_key hb k = Inr rm)) \<and>
    (ring_encryptor_from_cose_key ab key = Inr e \<longrightarrow>
      (\<exists>k. ring_encryptor_to_cose_key e = Inr k \<and> ring_encryptor_from_cose_key ab k = Inr e)) \<and>
    (aes_gcm_from_cose_key c128 c256 key = Inr g \<longrightarrow>
      (\<exists>k. aes_gcm_to_cose_key g = Inr k \<and> aes_gcm_from_cose_key c128 c256 k = Inr g))"
  using hmac_key.reload aead_key.reload gcm_key.reload by blast

definition demo_hmac :: "(hmac_algorithm \<times> bytes) hmac_backend" where
  "demo_hmac = \<lparr>hb_key = Pair, hb_sign = (\<lambda>(A, k) d. pad (digest_length A) (rev (k @ d)))\<rparr>"

lemma demo_hmac_laws: "hmac_laws demo_hmac"
  by (simp add: hmac_laws_def demo_hmac_def)

definition demo_hmac_key :: cose_key where
  "demo_hmac_key = [(LInt 1, VInteger 4), (LInt 3, VInteger 4), (LInt 2, VBytes [8]),
     (LInt 4, VArray [VInteger 9, VInteger 10]), (LInt (- 1), VBytes [5, 6])]"

definition demo_ring_macer :: "(hmac_algorithm \<times> bytes) ring_macer" where
  "demo_ring_macer = \<lparr>rm_alg = 4, rm_kid = Some [8], rm_key = (HMAC_SHA256, [5, 6]), rm_raw_key = [5, 6],
     rm_tag_len = 8, rm_key_ops = Some [LInt 9, LInt 10]\<rparr>"

lemma demo_macer_loaded: "ring_macer_from_cose_key demo_hmac demo_hmac_key = Inr demo_ring_macer"
  by code_simp

theorem symmetric_providers_roundtrip_witness:
  "\<exists>k. ring_macer_to_cose_key demo_ring_macer = Inr k \<and> ring_macer_from_cose_key demo_hmac k = Inr demo_ring_macer"
  using symmetric_providers_roundtrip [of demo_hmac demo_hmac_key demo_ring_macer] demo_macer_loaded by blast

text \<open>
  C19. The tags of an HMAC provider that was read from a key are exact: it creates, and
  accepts, for every data precisely one tag, the HMAC under its key cut to the length that its
  algorithm fixes (which is never more than the digest has, so the cut cannot panic), and it
  does either only when the operations of the key permit it.
\<close>

theorem hmac_tags_exact:
  assumes "ring_macer_from_cose_key hb key = Inr rm" and "hmac_laws hb"
  shows "(\<exists>A. hmac_algorithm_for (rm_alg rm) = Inr (A, rm_tag_len rm) \<and>
      rm_tag_len rm \<le> digest_length A \<and> rm_key rm = hb_key hb A (rm_raw_key rm)) \<and>
    (ring_mac_create hb rm data = Inr t \<longleftrightarrow>
      key_ops_allow (rm_key_ops rm) [KeyOperationMacCreate] \<and>
      t = take (rm_tag_len rm) (hb_sign hb (rm_key rm) data)) \<and>
    (ring_mac_verify hb rm data t = Inr () \<longleftrightarrow>
      key_ops_allow (rm_key_ops rm) [KeyOperationMacVerify] \<and>
      t = take (rm_tag_len rm) (hb_sign hb (rm_key rm) data))"
proof (intro conjI)
  note ok = macer_loaded_ok [OF assms(1)]
  then obtain A where A: "hmac_algorithm_for (rm_alg rm) = Inr (A, rm_tag_len rm)"
    "rm_key rm = hb_key hb A (rm_raw_key rm)"
    by (auto simp: macer_ok_def)
  then show "\<exists>A. hmac_algorithm_for (rm_alg rm) = Inr (A, rm_tag_len rm) \<and>
      rm_tag_len rm \<le> digest_length A \<and> rm_key rm = hb_key hb A (rm_raw_key rm)"
    using hmac_tag_fits by blast
  show "ring_mac_create hb rm data = Inr t \<longleftrightarrow> key_ops_allow (rm_key_ops rm) [KeyOperationMacCreate] \<and>
      t = take (rm_tag_len rm) (hb_sign hb (rm_key rm) data)"
    by (simp only: ring_mac_create_ok [OF ok assms(2)] hmac_tag_def)
  show "ring_mac_verify hb rm data t = Inr () \<longleftrightarrow> key_ops_allow (rm_key_ops rm) [KeyOperationMacVerify] \<and>
      t = take (rm_tag_len rm) (hb_sign hb (rm_key rm) data)"
    by (simp only: ring_mac_verify_ok [OF ok assms(2)] hmac_tag_def)
qed

theorem hmac_tags_exact_witness:
  "ring_mac_verify demo_hmac demo_ring_macer [1, 2] [2, 1, 6, 5, 0, 0, 0, 0] = Inr ()"
proof -
  have "key_ops_allow (rm_key_ops demo_ring_macer) [10]"
    "take (rm_tag_len demo_ring_macer) (hb_sign demo_hmac (rm_key demo_ring_macer) [1, 2]) =
      [2, 1, 6, 5, 0, 0, 0, 0]" by code_simp+
  then show ?thesis using hmac_tags_exact [OF demo_macer_loaded demo_hmac_laws, of "[1, 2]"] by simp
qed

text \<open>
  C21. An \<open>Encrypt0\<close> message that a built-in AEAD provider encrypts is decrypted, to its
  plaintext, by every party that reads a provider from the exported key, when the key permits
  decryption; this holds of both AEAD backends.
\<close>

theorem exported_key_decrypts:
  assumes "wf_bt (e0_protected m)" and "wf_bt (e0_unprotected m)"
    and "crit_understood cb (e0_protected m') []"
  shows "(ring_encryptor_from_cose_key ab key = Inr p \<and> aead_laws ab \<and>
      key_ops_allow (rn_key_ops p) [KeyOperationDecrypt] \<and>
      e0_encrypt cb m (ring_encryptor_provider ab p) aad = (Inr (), m') \<longrightarrow>
      (\<exists>k q plaintext. ring_encryptor_to_cose_key p = Inr k \<and> ring_encryptor_from_cose_key ab k = Inr q \<and>
        e0_payload m = Some plaintext \<and>
        e0_decrypt cb (m'\<lparr>e0_payload := None\<rparr>) (ring_encryptor_provider ab q) aad = (Inr plaintext, m'))) \<and>
    (aes_gcm_from_cose_key c128 c256 key = Inr g \<and> cipher_laws c128 \<and> cipher_laws c256 \<and>
      key_ops_allow (ag_key_ops g) [KeyOperationDecrypt] \<and>
      e0_encrypt cb m (aes_gcm_provider c128 c256 g) aad = (Inr (), m') \<longrightarrow>
      (\<exists>k q plaintext. aes_gcm_to_cose_key g = Inr k \<and> aes_gcm_from_cose_key c128 c256 k = Inr q \<and>
        e0_payload m = Some plaintext \<and>
        e0_decrypt cb (m'\<lparr>e0_payload := None\<rparr>) (aes_gcm_provider c128 c256 q) aad = (Inr plaintext, m')))"
  using ring_aead.message_opens [of ab key p cb m aad m'] aes_gcm.message_opens [of c128 c256 key g cb m aad m']
    assms by blast

definition demo_aead :: "bytes aead_backend" where
  "demo_aead = \<lparr>ab_key = (\<lambda>A k. Some k), ab_nonce_len = 12, ab_nonce_ok = (\<lambda>n. length n = 12),
     ab_tag_len = (\<lambda>k. 16), ab_seal = (\<lambda>k n aad p. Some (p @ replicate 16 0)),
     ab_open = (\<lambda>k n aad c. if 16 \<le> length c then Some (length c - 16, c) else None)\<rparr>"

lemma demo_aead_laws: "aead_laws demo_aead"
  by (simp add: aead_laws_def demo_aead_def)

definition demo_content_key :: cose_key where
  "demo_content_key = [(LInt 1, VInteger 4), (LInt 3, VInteger 24), (LInt (- 1), VBytes [5, 6])]"

definition demo_ring_encryptor :: "bytes ring_encryptor" where
  "demo_ring_encryptor = \<lparr>rn_alg = 24, rn_kid = None, rn_key = [5, 6], rn_raw_key = [5, 6],
     rn_base_iv = None, rn_key_ops = None\<rparr>"

definition demo_ring_plain :: encrypt0 where
  "demo_ring_plain = (e0_new (Some [7, 8]))\<lparr>e0_unprotected := [(LInt 5, VBytes (replicate 12 1))]\<rparr>"

definition demo_ring_encrypt0 :: encrypt0 where
  "demo_ring_encrypt0 = snd (e0_encrypt ref_cbor demo_ring_plain
     (ring_encryptor_provider demo_aead demo_ring_encryptor) None)"

theorem exported_key_decrypts_witness:
  "\<exists>k q. ring_encryptor_to_cose_key demo_ring_encryptor = Inr k \<and>
    ring_encryptor_from_cose_key demo_aead k = Inr q \<and>
    e0_decrypt ref_cbor (demo_ring_encrypt0\<lparr>e0_payload := None\<rparr>) (ring_encryptor_provider demo_aead q) None =
      (Inr [7, 8], demo_ring_encrypt0)"
proof -
  have loaded: "ring_encryptor_from_cose_key demo_aead demo_content_key = Inr demo_ring_encryptor" by code_simp
  have "key_ops_allow (rn_key_ops demo_ring_encryptor) [4]" by code_simp
  have "fst (e0_encrypt ref_cbor demo_ring_plain (ring_encryptor_provider demo_aead demo_ring_encryptor) None) =
      Inr ()" by code_simp
  then have enc: "e0_encrypt ref_cbor demo_ring_plain (ring_encryptor_provider demo_aead demo_ring_encryptor)
      None = (Inr (), demo_ring_encrypt0)" by (simp add: demo_ring_encrypt0_def prod_eq_iff)
  have "e0_protected demo_ring_encrypt0 = [(LInt 1, VInteger 24)]" by code_simp
  then have crit: "crit_understood ref_cbor (e0_protected demo_ring_encrypt0) []"
    by (intro crit_understood_no_crit) (simp add: crit_None)
  have "wf_bt (e0_protected demo_ring_plain)" "wf_bt (e0_unprotected demo_ring_plain)"
    "e0_payload demo_ring_plain = Some [7, 8]" by (simp_all add: demo_ring_plain_def e0_new_def)
  then show ?thesis
    using conjunct1 [OF exported_key_decrypts [of demo_ring_plain ref_cbor demo_ring_encrypt0 demo_aead
          demo_content_key demo_ring_encryptor None]] loaded demo_aead_laws enc crit
      \<open>key_ops_allow (rn_key_ops demo_ring_encryptor) [4]\<close>
    by auto
qed

end
