(* ===== verification/Registry.thy ===== *)
theory Registry
  imports Iana
begin

text \<open>
  The rest of the registry numbers of \<open>src/src/iana.rs\<close>, which no modelled function names,
  and the registries as wholes: within a registry no number stands for two names.
\<close>

section \<open>Algorithms\<close>

abbreviation (input) AlgorithmRS1 :: int where "AlgorithmRS1 \<equiv> - 65535"
abbreviation (input) AlgorithmA128CTR :: int where "AlgorithmA128CTR \<equiv> - 65534"
abbreviation (input) AlgorithmA192CTR :: int where "AlgorithmA192CTR \<equiv> - 65533"
abbreviation (input) AlgorithmA256CTR :: int where "AlgorithmA256CTR \<equiv> - 65532"
abbreviation (input) AlgorithmA128CBC :: int where "AlgorithmA128CBC \<equiv> - 65531"
abbreviation (input) AlgorithmA192CBC :: int where "AlgorithmA192CBC \<equiv> - 65530"
abbreviation (input) AlgorithmA256CBC :: int where "AlgorithmA256CBC \<equiv> - 65529"
abbreviation (input) AlgorithmESB512 :: int where "AlgorithmESB512 \<equiv> - 268"
abbreviation (input) AlgorithmESB384 :: int where "AlgorithmESB384 \<equiv> - 267"
abbreviation (input) AlgorithmESB320 :: int where "AlgorithmESB320 \<equiv> - 266"
abbreviation (input) AlgorithmESB256 :: int where "AlgorithmESB256 \<equiv> - 265"
abbreviation (input) AlgorithmKT256 :: int where "AlgorithmKT256 \<equiv> - 264"
abbreviation (input) AlgorithmKT128 :: int where "AlgorithmKT128 \<equiv> - 263"
abbreviation (input) AlgorithmTurboSHAKE256 :: int where "AlgorithmTurboSHAKE256 \<equiv> - 262"
abbreviation (input) AlgorithmTurboSHAKE128 :: int where "AlgorithmTurboSHAKE128 \<equiv> - 261"
abbreviation (input) AlgorithmWalnutDSA :: int where "AlgorithmWalnutDSA \<equiv> - 260"
abbreviation (input) AlgorithmEd448 :: int where "AlgorithmEd448 \<equiv> - 53"
abbreviation (input) AlgorithmESP512 :: int where "AlgorithmESP512 \<equiv> - 52"
abbreviation (input) AlgorithmML_DSA_87 :: int where "AlgorithmML_DSA_87 \<equiv> - 50"
abbreviation (input) AlgorithmML_DSA_65 :: int where "AlgorithmML_DSA_65 \<equiv> - 49"
abbreviation (input) AlgorithmML_DSA_44 :: int where "AlgorithmML_DSA_44 \<equiv> - 48"
abbreviation (input) AlgorithmES256K :: int where "AlgorithmES256K \<equiv> - 47"
abbreviation (input) AlgorithmHSS_LMS :: int where "AlgorithmHSS_LMS \<equiv> - 46"
abbreviation (input) AlgorithmSHAKE256 :: int where "AlgorithmSHAKE256 \<equiv> - 45"
abbreviation (input) AlgorithmSHA_512 :: int where "AlgorithmSHA_512 \<equiv> - 44"
abbreviation (input) AlgorithmSHA_384 :: int where "AlgorithmSHA_384 \<equiv> - 43"
abbreviation (input) AlgorithmSHAKE128 :: int where "AlgorithmSHAKE128 \<equiv> - 18"
abbreviation (input) AlgorithmSHA_512_256 :: int where "AlgorithmSHA_512_256 \<equiv> - 17"
abbreviation (input) AlgorithmSHA_256_64 :: int where "AlgorithmSHA_256_64 \<equiv> - 15"
abbreviation (input) AlgorithmSHA_1 :: int where "AlgorithmSHA_1 \<equiv> - 14"
abbreviation (input) AlgorithmReserved :: int where "AlgorithmReserved \<equiv> 0"
abbreviation (input) AlgorithmAES_CCM_16_64_128 :: int where "AlgorithmAES_CCM_16_64_128 \<equiv> 10"
abbreviation (input) AlgorithmAES_CCM_16_64_256 :: int where "AlgorithmAES_CCM_16_64_256 \<equiv> 11"
abbreviation (input) AlgorithmAES_CCM_64_64_128 :: int where "AlgorithmAES_CCM_64_64_128 \<equiv> 12"
abbreviation (input) AlgorithmAES_CCM_64_64_256 :: int where "AlgorithmAES_CCM_64_64_256 \<equiv> 13"
abbreviation (input) AlgorithmAES_MAC_128_64 :: int where "AlgorithmAES_MAC_128_64 \<equiv> 14"
abbreviation (input) AlgorithmAES_MAC_256_64 :: int where "AlgorithmAES_MAC_256_64 \<equiv> 15"
abbreviation (input) AlgorithmAES_MAC_128_128 :: int where "AlgorithmAES_MAC_128_128 \<equiv> 25"
abbreviation (input) AlgorithmAES_MAC_256_128 :: int where "AlgorithmAES_MAC_256_128 \<equiv> 26"
abbreviation (input) AlgorithmAES_CCM_16_128_128 :: int where "AlgorithmAES_CCM_16_128_128 \<equiv> 30"
abbreviation (input) AlgorithmAES_CCM_16_128_256 :: int where "AlgorithmAES_CCM_16_128_256 \<equiv> 31"
abbreviation (input) AlgorithmAES_CCM_64_128_128 :: int where "AlgorithmAES_CCM_64_128_128 \<equiv> 32"
abbreviation (input) AlgorithmAES_CCM_64_128_256 :: int where "AlgorithmAES_CCM_64_128_256 \<equiv> 33"
abbreviation (input) AlgorithmIV_GENERATION :: int where "AlgorithmIV_GENERATION \<equiv> 34"

section \<open>Header parameters\<close>

abbreviation (input) HeaderParameterReserved :: int where "HeaderParameterReserved \<equiv> 0"
abbreviation (input) HeaderParameterCounterSignature0 :: int where "HeaderParameterCounterSignature0 \<equiv> 9"
abbreviation (input) HeaderParameterKidContext :: int where "HeaderParameterKidContext \<equiv> 10"
abbreviation (input) HeaderParameterCountersignatureV2 :: int where "HeaderParameterCountersignatureV2 \<equiv> 11"
abbreviation (input) HeaderParameterCountersignature0V2 :: int where "HeaderParameterCountersignature0V2 \<equiv> 12"
abbreviation (input) HeaderParameterX5Bag :: int where "HeaderParameterX5Bag \<equiv> 32"
abbreviation (input) HeaderParameterX5Chain :: int where "HeaderParameterX5Chain \<equiv> 33"
abbreviation (input) HeaderParameterX5T :: int where "HeaderParameterX5T \<equiv> 34"
abbreviation (input) HeaderParameterX5U :: int where "HeaderParameterX5U \<equiv> 35"
abbreviation (input) HeaderParameterCuphNonce :: int where "HeaderParameterCuphNonce \<equiv> 256"
abbreviation (input) HeaderParameterCuphOwnerPubKey :: int where "HeaderParameterCuphOwnerPubKey \<equiv> 257"

section \<open>Header algorithm parameters\<close>

abbreviation (input) HeaderAlgorithmParameterX5ChainSender :: int where "HeaderAlgorithmParameterX5ChainSender \<equiv> - 29"
abbreviation (input) HeaderAlgorithmParameterX5USender :: int where "HeaderAlgorithmParameterX5USender \<equiv> - 28"
abbreviation (input) HeaderAlgorithmParameterX5TSender :: int where "HeaderAlgorithmParameterX5TSender \<equiv> - 27"
abbreviation (input) HeaderAlgorithmParameterPartyVOther :: int where "HeaderAlgorithmParameterPartyVOther \<equiv> - 26"
abbreviation (input) HeaderAlgorithmParameterPartyVNonce :: int where "HeaderAlgorithmParameterPartyVNonce \<equiv> - 25"
abbreviation (input) HeaderAlgorithmParameterPartyVIdentity :: int where "HeaderAlgorithmParameterPartyVIdentity \<equiv> - 24"
abbreviation (input) HeaderAlgorithmParameterPartyUOther :: int where "HeaderAlgorithmParameterPartyUOther \<equiv> - 23"
abbreviation (input) HeaderAlgorithmParameterPartyUIdentity :: int where "HeaderAlgorithmParameterPartyUIdentity \<equiv> - 21"

section \<open>Key common parameters\<close>

abbreviation (input) KeyParameterReserved :: int where "KeyParameterReserved \<equiv> 0"

section \<open>Key types\<close>

abbreviation (input) KeyTypeReserved :: int where "KeyTypeReserved \<equiv> 0"
abbreviation (input) KeyTypeHSS_LMS :: int where "KeyTypeHSS_LMS \<equiv> 5"
abbreviation (input) KeyTypeWalnutDSA :: int where "KeyTypeWalnutDSA \<equiv> 6"

section \<open>Key type parameters: RSA\<close>

abbreviation (input) RSAKeyParameterOther :: int where "RSAKeyParameterOther \<equiv> - 9"
abbreviation (input) RSAKeyParameterRI :: int where "RSAKeyParameterRI \<equiv> - 10"
abbreviation (input) RSAKeyParameterDI :: int where "RSAKeyParameterDI \<equiv> - 11"
abbreviation (input) RSAKeyParameterTI :: int where "RSAKeyParameterTI \<equiv> - 12"

section \<open>Key type parameters: HSS_LMS\<close>

abbreviation (input) HSS_LMSKeyParameterPub :: int where "HSS_LMSKeyParameterPub \<equiv> - 1"

section \<open>Key type parameters: WalnutDSA\<close>

abbreviation (input) WalnutDSAKeyParameterN :: int where "WalnutDSAKeyParameterN \<equiv> - 1"
abbreviation (input) WalnutDSAKeyParameterQ :: int where "WalnutDSAKeyParameterQ \<equiv> - 2"
abbreviation (input) WalnutDSAKeyParameterTValues :: int where "WalnutDSAKeyParameterTValues \<equiv> - 3"
abbreviation (input) WalnutDSAKeyParameterMatrix1 :: int where "WalnutDSAKeyParameterMatrix1 \<equiv> - 4"
abbreviation (input) WalnutDSAKeyParameterPermutation1 :: int where "WalnutDSAKeyParameterPermutation1 \<equiv> - 5"
abbreviation (input) WalnutDSAKeyParameterMatrix2 :: int where "WalnutDSAKeyParameterMatrix2 \<equiv> - 6"

section \<open>Elliptic curves\<close>

abbreviation (input) EllipticCurveReserved :: int where "EllipticCurveReserved \<equiv> 0"
abbreviation (input) EllipticCurveEd448 :: int where "EllipticCurveEd448 \<equiv> 7"
abbreviation (input) EllipticCurveSecp256k1 :: int where "EllipticCurveSecp256k1 \<equiv> 8"

section \<open>Key operation values\<close>

abbreviation (input) KeyOperationWrapKey :: int where "KeyOperationWrapKey \<equiv> 5"
abbreviation (input) KeyOperationUnwrapKey :: int where "KeyOperationUnwrapKey \<equiv> 6"
abbreviation (input) KeyOperationDeriveKey :: int where "KeyOperationDeriveKey \<equiv> 7"
abbreviation (input) KeyOperationDeriveBits :: int where "KeyOperationDeriveBits \<equiv> 8"

section \<open>CWT claims\<close>

abbreviation (input) CWTClaimHCert :: int where "CWTClaimHCert \<equiv> - 260"
abbreviation (input) CWTClaimEUPHNonce :: int where "CWTClaimEUPHNonce \<equiv> - 259"
abbreviation (input) CWTClaimEATMAROEPrefix :: int where "CWTClaimEATMAROEPrefix \<equiv> - 258"
abbreviation (input) CWTClaimEATFDO :: int where "CWTClaimEATFDO \<equiv> - 257"
abbreviation (input) CWTClaimReserved :: int where "CWTClaimReserved \<equiv> 0"
abbreviation (input) CWTClaimCnf :: int where "CWTClaimCnf \<equiv> 8"
abbreviation (input) CWTClaimScope :: int where "CWTClaimScope \<equiv> 9"
abbreviation (input) CWTClaimNonce :: int where "CWTClaimNonce \<equiv> 10"
abbreviation (input) CWTClaimACEProfile :: int where "CWTClaimACEProfile \<equiv> 38"
abbreviation (input) CWTClaimCNonce :: int where "CWTClaimCNonce \<equiv> 39"
abbreviation (input) CWTClaimExi :: int where "CWTClaimExi \<equiv> 40"
abbreviation (input) CWTClaimUEID :: int where "CWTClaimUEID \<equiv> 256"
abbreviation (input) CWTClaimSUEIDs :: int where "CWTClaimSUEIDs \<equiv> 257"
abbreviation (input) CWTClaimOEMID :: int where "CWTClaimOEMID \<equiv> 258"
abbreviation (input) CWTClaimHWModel :: int where "CWTClaimHWModel \<equiv> 259"
abbreviation (input) CWTClaimHWVersion :: int where "CWTClaimHWVersion \<equiv> 260"
abbreviation (input) CWTClaimUptime :: int where "CWTClaimUptime \<equiv> 261"
abbreviation (input) CWTClaimOEMBoot :: int where "CWTClaimOEMBoot \<equiv> 262"
abbreviation (input) CWTClaimDebugStatus :: int where "CWTClaimDebugStatus \<equiv> 263"
abbreviation (input) CWTClaimLocation :: int where "CWTClaimLocation \<equiv> 264"
abbreviation (input) CWTClaimProfile :: int where "CWTClaimProfile \<equiv> 265"
abbreviation (input) CWTClaimSubmodules :: int where "CWTClaimSubmodules \<equiv> 266"
abbreviation (input) CWTClaimBootCount :: int where "CWTClaimBootCount \<equiv> 267"
abbreviation (input) CWTClaimBootSeed :: int where "CWTClaimBootSeed \<equiv> 268"
abbreviation (input) CWTClaimPSAClientID :: int where "CWTClaimPSAClientID \<equiv> 2394"
abbreviation (input) CWTClaimPSASecurityLifecycle :: int where "CWTClaimPSASecurityLifecycle \<equiv> 2395"
abbreviation (input) CWTClaimPSAImplementationID :: int where "CWTClaimPSAImplementationID \<equiv> 2396"
abbreviation (input) CWTClaimPSACertificationReference :: int where "CWTClaimPSACertificationReference \<equiv> 2398"
abbreviation (input) CWTClaimPSASoftwareComponents :: int where "CWTClaimPSASoftwareComponents \<equiv> 2399"
abbreviation (input) CWTClaimPSAVerificationServiceIndicator :: int where "CWTClaimPSAVerificationServiceIndicator \<equiv> 2400"

section \<open>Registries\<close>

definition algorithm_registry :: "int list" where
  "algorithm_registry = [
    AlgorithmRS1, AlgorithmA128CTR, AlgorithmA192CTR, AlgorithmA256CTR, AlgorithmA128CBC,
    AlgorithmA192CBC, AlgorithmA256CBC, AlgorithmESB512, AlgorithmESB384, AlgorithmESB320,
    AlgorithmESB256, AlgorithmKT256, AlgorithmKT128, AlgorithmTurboSHAKE256,
    AlgorithmTurboSHAKE128, AlgorithmWalnutDSA, AlgorithmRS512, AlgorithmRS384, AlgorithmRS256,
    AlgorithmEd448, AlgorithmESP512, AlgorithmESP384, AlgorithmML_DSA_87, AlgorithmML_DSA_65,
    AlgorithmML_DSA_44, AlgorithmES256K, AlgorithmHSS_LMS, AlgorithmSHAKE256, AlgorithmSHA_512,
    AlgorithmSHA_384, AlgorithmRSAES_OAEP_SHA_512, AlgorithmRSAES_OAEP_SHA_256,
    AlgorithmRSAES_OAEP_RFC_8017_default, AlgorithmPS512, AlgorithmPS384, AlgorithmPS256,
    AlgorithmES512, AlgorithmES384, AlgorithmECDH_SS_A256KW, AlgorithmECDH_SS_A192KW,
    AlgorithmECDH_SS_A128KW, AlgorithmECDH_ES_A256KW, AlgorithmECDH_ES_A192KW,
    AlgorithmECDH_ES_A128KW, AlgorithmECDH_SS_HKDF_512, AlgorithmECDH_SS_HKDF_256,
    AlgorithmECDH_ES_HKDF_512, AlgorithmECDH_ES_HKDF_256, AlgorithmEd25519, AlgorithmSHAKE128,
    AlgorithmSHA_512_256, AlgorithmSHA_256, AlgorithmSHA_256_64, AlgorithmSHA_1,
    AlgorithmDirect_HKDF_AES_256, AlgorithmDirect_HKDF_AES_128, AlgorithmDirect_HKDF_SHA_512,
    AlgorithmDirect_HKDF_SHA_256, AlgorithmESP256, AlgorithmEdDSA, AlgorithmES256,
    AlgorithmDirect, AlgorithmA256KW, AlgorithmA192KW, AlgorithmA128KW, AlgorithmReserved,
    AlgorithmA128GCM, AlgorithmA192GCM, AlgorithmA256GCM, AlgorithmHMAC_256_64,
    AlgorithmHMAC_256_256, AlgorithmHMAC_384_384, AlgorithmHMAC_512_512,
    AlgorithmAES_CCM_16_64_128, AlgorithmAES_CCM_16_64_256, AlgorithmAES_CCM_64_64_128,
    AlgorithmAES_CCM_64_64_256, AlgorithmAES_MAC_128_64, AlgorithmAES_MAC_256_64,
    AlgorithmChaCha20Poly1305, AlgorithmAES_MAC_128_128, AlgorithmAES_MAC_256_128,
    AlgorithmAES_CCM_16_128_128, AlgorithmAES_CCM_16_128_256, AlgorithmAES_CCM_64_128_128,
    AlgorithmAES_CCM_64_128_256, AlgorithmIV_GENERATION]"

definition header_registry :: "int list" where
  "header_registry = [
    HeaderParameterReserved, HeaderParameterAlg, HeaderParameterCrit, HeaderParameterContentType,
    HeaderParameterKid, HeaderParameterIV, HeaderParameterPartialIV,
    HeaderParameterCounterSignature, HeaderParameterCounterSignature0, HeaderParameterKidContext,
    HeaderParameterCountersignatureV2, HeaderParameterCountersignature0V2, HeaderParameterX5Bag,
    HeaderParameterX5Chain, HeaderParameterX5T, HeaderParameterX5U, HeaderParameterCuphNonce,
    HeaderParameterCuphOwnerPubKey]"

definition header_algorithm_registry :: "int list" where
  "header_algorithm_registry = [
    HeaderAlgorithmParameterX5ChainSender, HeaderAlgorithmParameterX5USender,
    HeaderAlgorithmParameterX5TSender, HeaderAlgorithmParameterPartyVOther,
    HeaderAlgorithmParameterPartyVNonce, HeaderAlgorithmParameterPartyVIdentity,
    HeaderAlgorithmParameterPartyUOther, HeaderAlgorithmParameterPartyUNonce,
    HeaderAlgorithmParameterPartyUIdentity, HeaderAlgorithmParameterSalt,
    HeaderAlgorithmParameterStaticKeyId, HeaderAlgorithmParameterStaticKey,
    HeaderAlgorithmParameterEphemeralKey]"

definition key_registry :: "int list" where
  "key_registry = [
    KeyParameterReserved, KeyParameterKty, KeyParameterKid, KeyParameterAlg, KeyParameterKeyOps,
    KeyParameterBaseIV]"

definition key_type_registry :: "int list" where
  "key_type_registry = [
    KeyTypeReserved, KeyTypeOKP, KeyTypeEC2, KeyTypeRSA, KeyTypeSymmetric, KeyTypeHSS_LMS,
    KeyTypeWalnutDSA]"

definition okp_registry :: "int list" where
  "okp_registry = [
    OKPKeyParameterCrv, OKPKeyParameterX, OKPKeyParameterD]"

definition ec2_registry :: "int list" where
  "ec2_registry = [
    EC2KeyParameterCrv, EC2KeyParameterX, EC2KeyParameterY, EC2KeyParameterD]"

definition rsa_registry :: "int list" where
  "rsa_registry = [
    RSAKeyParameterN, RSAKeyParameterE, RSAKeyParameterD, RSAKeyParameterP, RSAKeyParameterQ,
    RSAKeyParameterDP, RSAKeyParameterDQ, RSAKeyParameterQInv, RSAKeyParameterOther,
    RSAKeyParameterRI, RSAKeyParameterDI, RSAKeyParameterTI]"

definition symmetric_registry :: "int list" where
  "symmetric_registry = [
    SymmetricKeyParameterK]"

definition hss_lms_registry :: "int list" where
  "hss_lms_registry = [
    HSS_LMSKeyParameterPub]"

definition walnut_registry :: "int list" where
  "walnut_registry = [
    WalnutDSAKeyParameterN, WalnutDSAKeyParameterQ, WalnutDSAKeyParameterTValues,
    WalnutDSAKeyParameterMatrix1, WalnutDSAKeyParameterPermutation1, WalnutDSAKeyParameterMatrix2]"

definition curve_registry :: "int list" where
  "curve_registry = [
    EllipticCurveReserved, EllipticCurveP_256, EllipticCurveP_384, EllipticCurveP_521,
    EllipticCurveX25519, EllipticCurveX448, EllipticCurveEd25519, EllipticCurveEd448,
    EllipticCurveSecp256k1]"

definition operation_registry :: "int list" where
  "operation_registry = [
    KeyOperationSign, KeyOperationVerify, KeyOperationEncrypt, KeyOperationDecrypt,
    KeyOperationWrapKey, KeyOperationUnwrapKey, KeyOperationDeriveKey, KeyOperationDeriveBits,
    KeyOperationMacCreate, KeyOperationMacVerify]"

definition claim_registry :: "int list" where
  "claim_registry = [
    CWTClaimHCert, CWTClaimEUPHNonce, CWTClaimEATMAROEPrefix, CWTClaimEATFDO, CWTClaimReserved,
    CWTClaimIss, CWTClaimSub, CWTClaimAud, CWTClaimExp, CWTClaimNbf, CWTClaimIat, CWTClaimCti,
    CWTClaimCnf, CWTClaimScope, CWTClaimNonce, CWTClaimACEProfile, CWTClaimCNonce, CWTClaimExi,
    CWTClaimUEID, CWTClaimSUEIDs, CWTClaimOEMID, CWTClaimHWModel, CWTClaimHWVersion,
    CWTClaimUptime, CWTClaimOEMBoot, CWTClaimDebugStatus, CWTClaimLocation, CWTClaimProfile,
    CWTClaimSubmodules, CWTClaimBootCount, CWTClaimBootSeed, CWTClaimPSAClientID,
    CWTClaimPSASecurityLifecycle, CWTClaimPSAImplementationID, CWTClaimPSACertificationReference,
    CWTClaimPSASoftwareComponents, CWTClaimPSAVerificationServiceIndicator]"

definition tag_registry :: "u64 list" where
  "tag_registry = [
    CBORTagCOSEEncrypt0, CBORTagCOSEMac0, CBORTagCOSESign1, CBORTagCWT, CBORTagCOSEEncrypt,
    CBORTagCOSEMac, CBORTagCOSESign]"

lemmas registry_defs = algorithm_registry_def header_registry_def header_algorithm_registry_def
  key_registry_def key_type_registry_def okp_registry_def ec2_registry_def rsa_registry_def
  symmetric_registry_def hss_lms_registry_def walnut_registry_def curve_registry_def
  operation_registry_def claim_registry_def tag_registry_def

text \<open>
  No number stands for two names where the names share a map or a field: the labels of a
  header, the labels of a key of each type, the values of \<open>alg\<close>, \<open>kty\<close>, \<open>crv\<close> and \<open>key_ops\<close>,
  the claims and the tags.
\<close>

lemma registries_distinct:
  "distinct algorithm_registry" "distinct (header_registry @ header_algorithm_registry)"
  "distinct key_type_registry" "distinct curve_registry" "distinct operation_registry"
  "distinct claim_registry" "distinct tag_registry"
  "\<forall>r \<in> {okp_registry, ec2_registry, rsa_registry, symmetric_registry, hss_lms_registry,
     walnut_registry}. distinct (key_registry @ r)"
  by (simp_all add: registry_defs)

lemma registries_in_i64:
  "\<forall>n \<in> set (algorithm_registry @ header_registry @ header_algorithm_registry @ key_registry @
     key_type_registry @ curve_registry @ operation_registry @ claim_registry). in_i64 n"
  by (simp add: registry_defs in_i64_def)

end
