(* ===== verification/HumanReadable.thy ===== *)
theory HumanReadable
  imports Cwt
begin

text \<open>
  The serde implementations of the wrapper types, for formats that announce themselves as human
  readable and for CBOR. What the format's decoder hands to the code is a parameter: a human
  readable map is the sequence of its entries, each decoded or failed, and a CBOR item is its
  raw bytes. (\<open>src/src/map.rs\<close>, \<open>header.rs\<close>, \<open>key.rs\<close>, \<open>strict.rs\<close>, \<open>cwt.rs\<close>.)
\<close>

section \<open>Maps\<close>

datatype map_document = HumanMap "(string + label \<times> value) list" | RawMap bytes

text \<open>\<open>MapVisitor::visit_map\<close>: the loop over \<open>next_entry\<close>.\<close>

fun visit_map :: "(string + label \<times> value) list \<Rightarrow> cose_map \<Rightarrow> string + cose_map" where
  "visit_map [] m = Inr m"
| "visit_map (Inl e # es) m = Inl e"
| "visit_map (Inr (key, v) # es) m =
     (if bt_get m key \<noteq> None then Inl ''duplicate COSE map label''
      else visit_map es (bt_insert key v m))"

definition cose_map_deserialize :: "cbor2 \<Rightarrow> map_document \<Rightarrow> string + cose_map" where
  "cose_map_deserialize cb doc =
     (case doc of HumanMap es \<Rightarrow> visit_map es [] | RawMap raw \<Rightarrow> map_deserialize cb raw)"

definition header_document_deserialize :: "cbor2 \<Rightarrow> map_document \<Rightarrow> string + header" where
  "header_document_deserialize cb doc =
     andThen (cose_map_deserialize cb doc) (\<lambda>h.
     andThen (map_err error_display (validate_common h)) (\<lambda>_. Inr h))"

definition header_serialize :: "header \<Rightarrow> string + value" where
  "header_serialize h = andThen (map_err error_display (validate_common h)) (\<lambda>_. Inr (map_value h))"

section \<open>Keys and key sets\<close>

definition key_document_deserialize :: "cbor2 \<Rightarrow> map_document \<Rightarrow> string + cose_key" where
  "key_document_deserialize cb doc =
     andThen (cose_map_deserialize cb doc) (\<lambda>k.
     andThen (map_err error_display (key_validate k)) (\<lambda>_. Inr k))"

definition key_serialize :: "cose_key \<Rightarrow> string + value" where
  "key_serialize k = andThen (map_err error_display (key_validate k)) (\<lambda>_. Inr (map_value k))"

text \<open>A human readable key set is the sequence of its members, any of which fails the whole.\<close>

datatype key_set_document = HumanKeys "(string + (string + label \<times> value) list) list" | RawKeys bytes

definition key_set_deserialize :: "cbor2 \<Rightarrow> key_set_document \<Rightarrow> string + key_set" where
  "key_set_deserialize cb doc =
     (case doc of
        HumanKeys ds \<Rightarrow>
          andThen (traverse (\<lambda>d. andThen d (\<lambda>es. key_document_deserialize cb (HumanMap es))) ds) (\<lambda>ks.
          andThen (map_err error_display (ks_validate ks)) (\<lambda>_. Inr ks))
      | RawKeys raw \<Rightarrow> map_err error_display (ks_from_slice cb raw))"

definition key_set_serialize :: "key_set \<Rightarrow> string + value" where
  "key_set_serialize ks =
     andThen (map_err error_display (ks_validate ks)) (\<lambda>_.
     andThen (traverse key_serialize ks) (\<lambda>vs. Inr (VArray vs)))"

section \<open>Byte strings\<close>

text \<open>What \<open>serde_bytes\<close> reads from a human readable format, or the raw item.\<close>

datatype 'a bytes_document = HumanBytes "string + 'a" | RawBytes bytes

definition strict_bytes_deserialize :: "cbor2 \<Rightarrow> bytes bytes_document \<Rightarrow> string + bytes" where
  "strict_bytes_deserialize cb doc =
     (case doc of HumanBytes r \<Rightarrow> r | RawBytes raw \<Rightarrow> map_err error_display (decode_bytes cb raw))"

definition strict_bytes_serialize :: "bytes \<Rightarrow> value" where
  "strict_bytes_serialize b = VBytes b"

definition strict_optional_bytes_deserialize ::
  "cbor2 \<Rightarrow> bytes option bytes_document \<Rightarrow> string + bytes option" where
  "strict_optional_bytes_deserialize cb doc =
     (case doc of
        HumanBytes r \<Rightarrow> r
      | RawBytes raw \<Rightarrow> map_err error_display (decode_optional_bytes cb raw))"

definition strict_optional_bytes_serialize :: "bytes option \<Rightarrow> value" where
  "strict_optional_bytes_serialize b = (case b of Some b \<Rightarrow> VBytes b | None \<Rightarrow> VNull)"

section \<open>Claims\<close>

text \<open>\<open>HumanClaims\<close>, whose encoder and decoder are derived.\<close>

record human_claims =
  hc_issuer :: "string option"
  hc_subject :: "string option"
  hc_audience :: "audience option"
  hc_expiration :: "numeric_date option"
  hc_not_before :: "numeric_date option"
  hc_issued_at :: "numeric_date option"
  hc_cwt_id :: "bytes option"
  hc_extra :: cose_map

definition claims_from_human :: "human_claims \<Rightarrow> claims" where
  "claims_from_human h =
     \<lparr>issuer = hc_issuer h, subject = hc_subject h, audience_of = hc_audience h,
      expiration = hc_expiration h, not_before = hc_not_before h, issued_at = hc_issued_at h,
      cwt_id = hc_cwt_id h, extra = hc_extra h\<rparr>"

definition human_from_claims :: "claims \<Rightarrow> human_claims" where
  "human_from_claims c =
     \<lparr>hc_issuer = issuer c, hc_subject = subject c, hc_audience = audience_of c,
      hc_expiration = expiration c, hc_not_before = not_before c, hc_issued_at = issued_at c,
      hc_cwt_id = cwt_id c, hc_extra = extra c\<rparr>"

datatype claims_document = HumanDoc "string + human_claims" | RawDoc bytes

definition claims_document_deserialize :: "cbor2 \<Rightarrow> claims_document \<Rightarrow> string + claims" where
  "claims_document_deserialize cb doc =
     (case doc of
        HumanDoc r \<Rightarrow> map_ok claims_from_human r
      | RawDoc raw \<Rightarrow> claims_deserialize cb raw)"

definition claims_document_serialize ::
  "(int \<Rightarrow> int option) \<Rightarrow> (human_claims \<Rightarrow> string + 'd) \<Rightarrow> (value \<Rightarrow> 'd) \<Rightarrow> bool \<Rightarrow> claims \<Rightarrow> string + 'd"
where
  "claims_document_serialize to_integer derived write human_readable self =
     (if human_readable then derived (human_from_claims self)
      else map_ok write (claims_serialize to_integer self))"

section \<open>What the decoders accept\<close>

text \<open>A human readable map is accepted exactly when its entries decode and its labels differ.\<close>

lemma visit_map_ok:
  "wf_bt m \<Longrightarrow> visit_map es m = Inr m' \<longleftrightarrow>
    (\<exists>kvs. es = map Inr kvs \<and> distinct (map fst kvs) \<and> bt_keys m \<inter> fst ` set kvs = {} \<and>
       m' = fold (\<lambda>(k, v) m. bt_insert k v m) kvs m)"
proof (induction es m rule: visit_map.induct)
  case (3 key v es m)
  have present: "bt_get m key \<noteq> None \<longleftrightarrow> key \<in> bt_keys m"
    by (simp add: bt_get_eq_map_of bt_keys_def map_of_eq_None_iff)
  show ?case
  proof (cases "bt_get m key = None")
    case True
    then have "visit_map es (bt_insert key v m) = Inr m' \<longleftrightarrow>
      (\<exists>kvs. es = map Inr kvs \<and> distinct (map fst kvs) \<and>
         bt_keys (bt_insert key v m) \<inter> fst ` set kvs = {} \<and>
         m' = fold (\<lambda>(k, v) m. bt_insert k v m) kvs (bt_insert key v m))"
      using 3 by (simp add: wf_bt_insert)
    then show ?thesis using True present by (auto simp: Cons_eq_map_conv)
  next
    case False
    then show ?thesis using present by (auto simp: Cons_eq_map_conv)
  qed
qed auto

lemma human_map_iff:
  "cose_map_deserialize cb (HumanMap es) = Inr m \<longleftrightarrow>
    (\<exists>kvs. es = map Inr kvs \<and> distinct (map fst kvs) \<and> m = bt_from_list kvs)"
  by (simp add: cose_map_deserialize_def visit_map_ok bt_from_list_def bt_keys_def)

text \<open>Whatever the format, a decoded map is ordered without duplicates.\<close>

lemma document_map_wf: "cose_map_deserialize cb doc = Inr m \<Longrightarrow> wf_bt m"
  by (cases doc)
    (auto simp: human_map_iff wf_bt_from_list cose_map_deserialize_def [of _ "RawMap _"]
      map_deserialize_def andThen_eq_Inr)

lemma header_document_valid:
  "header_document_deserialize cb doc = Inr h \<Longrightarrow> wf_bt h \<and> header_serialize h = Inr (map_value h)"
  by (auto simp: header_document_deserialize_def header_serialize_def andThen_eq_Inr dest: document_map_wf)

lemma key_document_valid:
  "key_document_deserialize cb doc = Inr k \<Longrightarrow> wf_bt k \<and> key_serialize k = Inr (map_value k)"
  by (auto simp: key_document_deserialize_def key_serialize_def andThen_eq_Inr dest: document_map_wf)

text \<open>A decoded key set, of either form, is serialized again without an error.\<close>

lemma ks_from_slice_valid: "ks_from_slice cb raw = Inr ks \<Longrightarrow> ks_validate ks = Inr ()"
  by (auto simp: ks_from_slice_def andThen_eq_Inr Let_def)

lemma key_set_document_valid:
  assumes "key_set_deserialize cb doc = Inr ks"
  shows "ks \<noteq> [] \<and> key_set_serialize ks = Inr (VArray (map map_value ks))"
proof -
  have ok: "ks_validate ks = Inr ()"
    using assms
    by (auto simp: key_set_deserialize_def andThen_eq_Inr map_err_eq dest: ks_from_slice_valid
        split: key_set_document.splits)
  then have "ks \<noteq> []" and valid: "\<forall>k \<in> set ks. key_validate k = Inr ()"
    by (auto simp: ks_validate_def for_each_ok split: if_splits)
  have "traverse key_serialize ks = Inr (map map_value ks)"
    using valid by (induction ks) (simp_all add: key_serialize_def)
  then show ?thesis using ok \<open>ks \<noteq> []\<close> by (simp add: key_set_serialize_def)
qed

lemma human_claims_inverse [simp]:
  "claims_from_human (human_from_claims c) = c" "human_from_claims (claims_from_human h) = h"
  by (simp_all add: claims_from_human_def human_from_claims_def)

end
