(* ===== verification/Spec2Isabelle.thy ===== *)
theory Spec2Isabelle
  imports StrictLaws HeaderLaws Sign1Props SignProps Mac0Props Encrypt0Props RecipientProps KeyLaws
    MacProps EncryptProps Separation Kdf CwtLaws SdProps StrictComplete DecodedRecipients ProviderLaws
    Registry HumanReadable
begin

text \<open>
  Verification of \<open>cose2\<close>, a Rust library for CBOR Object Signing and Encryption (RFC 9052)
  and CBOR Web Tokens (RFC 8392), sources under \<open>src/src/\<close>, and of its companion crate for
  selective disclosure, \<open>src/sd-cwt/src/\<close>.

  How the program fits together. A COSE message is an array of a protected header (a byte
  string that holds an encoded map), an unprotected header, content, and one or more
  signatures, tags or recipients. Decoding first runs a strict parser over the input that
  bounds depth and item count and rejects duplicate map keys (\<open>strict.rs\<close>, \<open>tag.rs\<close>), then the
  library \<open>cbor2\<close> decodes the validated body, then the two header buckets are checked
  (\<open>header.rs\<close>). Producing a message prepares the headers (\<open>util.rs\<close>), builds the array to be
  authenticated, calls a provider (\<open>traits.rs\<close>) and stores its result; an operation state keeps
  unfinished messages from being encoded.

  A CWT is a claims map as the payload of such a message (\<open>cwt.rs\<close>). An SD-CWT hides claims: its
  issuer replaces marked claims and array elements by digests of salted disclosures
  (\<open>issuance.rs\<close>), the holder presents a choice of the disclosures in the unprotected header, and
  the verifier checks the signature and the header policy (\<open>validation.rs\<close>) and puts the disclosed
  values back where their digests stand (\<open>restore.rs\<close>).

  Theories, in the order of the imports.
  \<^item> \<open>Prelude\<close>: words, results as sums, checked arithmetic, printing. \<open>Errors\<close>, \<open>Labels\<close>,
    \<open>CborValue\<close>, \<open>Iana\<close>: \<open>error.rs\<close>, \<open>label.rs\<close>, the value type of \<open>cbor2\<close> and the library's
    functions as the record \<open>cbor2\<close> of parameters, the registry numbers in use.
  \<^item> \<open>BTreeMap\<close>: the ordered map as a locale, interpreted on association lists; \<open>CoseMap\<close> is
    \<open>map.rs\<close>, with \<open>CborHead\<close> the encoding of item heads.
  \<^item> \<open>Strict\<close>, \<open>MessageBody\<close>: \<open>strict.rs\<close> and \<open>tag.rs\<close>. \<open>StrictProps\<close> and \<open>StrictLaws\<close> show that
    the parser returns on every input, and what its item trees and the message bodies look
    like (\<open>item_wf\<close>). \<open>CborTree\<close> states the grammar of CBOR apart from the parser: syntax trees
    that keep every byte, the entries of maps included, their encoding, their measures and the
    rule for map keys. \<open>StrictGrammar\<close> and \<open>StrictComplete\<close> are the two directions: what the parser
    accepts is the encoding of a well-formed tree within the limits and with different keys,
    and the encoding of every such tree is accepted, with the items of the tree.
  \<^item> \<open>Header\<close>, \<open>HeaderLaws\<close>: \<open>header.rs\<close>; every check is characterised by a predicate
    (\<open>common_ok\<close>, \<open>buckets_ok\<close>). \<open>Util\<close>, \<open>UtilProps\<close>: \<open>util.rs\<close> and the provider traits as records
    of functions; header preparation and nonces.
  \<^item> \<open>Lifecycle\<close>: the locale \<open>sealed_layer\<close>, a layer whose cryptographic result is genuine
    whenever it is complete, interpreted by every message type with a step relation.
  \<^item> \<open>Countersign\<close>, \<open>Sign1\<close>, \<open>Sign\<close>, \<open>Mac0\<close>, \<open>Mac\<close>, \<open>Encrypt0\<close>, \<open>Encrypt\<close>: the files of the same
    names; \<open>Sign1Props\<close> and so on hold their properties: what verification accepts, round
    trips, integrity, and provenance of what is encoded.
  \<^item> \<open>Key\<close>, \<open>KeyLaws\<close>: \<open>key.rs\<close>. \<open>Recipient\<close>, \<open>RecipientProps\<close>: \<open>recipient.rs\<close>, the recipient tree,
    its class rules and its decoder. \<open>DecodedRecipients\<close>: why messages need not validate
    decoded recipients again.
  \<^item> \<open>Separation\<close>: the authenticated arrays of all message types never coincide.
  \<^item> \<open>Kdf\<close>: \<open>context.rs\<close>, the key derivation context and what it binds.
  \<^item> \<open>Float64\<close>, \<open>Cwt\<close>, \<open>CwtLaws\<close>: \<open>cwt.rs\<close>. \<open>Float64\<close> defines the operations on \<open>f64\<close> that it
    uses on bit patterns, with the rational number that a pattern denotes; the laws show that
    dates are compared exactly, that claims survive the label map, and what is accepted.
  \<^item> \<open>SdCore\<close>, \<open>SdDisclosure\<close>, \<open>SdIssuance\<close>, \<open>SdMatching\<close>, \<open>SdRestore\<close>, \<open>SdValidation\<close>: the crate
    \<open>sd-cwt\<close>: \<open>lib.rs\<close>, \<open>disclosure.rs\<close>, \<open>issuance.rs\<close>, \<open>restore.rs\<close> and \<open>validation.rs\<close>, whose
    functions stand in the theory of the component that calls them.
  \<^item> \<open>SdRoundtrip\<close>: a restoration of everything that was issued yields the revealed claims; the
    locale \<open>issue_invariant\<close> carries the invariant of the issuing context through the traversal.
    \<open>SdLaws\<close>: the locale \<open>restore_rules\<close>, an induction over the successful branches of the
    restoration, interpreted three times: disclosures are used once, limits hold for the result,
    no redaction is left. \<open>SdProps\<close>: a whole verified presentation.
  \<^item> \<open>Der\<close>, \<open>DerLaws\<close>: the reader and the writer of PKCS\#1 documents in \<open>crypto.rs\<close>, and what is
    read back of what is written. \<open>RingSym\<close>, \<open>RingSig\<close>: the providers of \<open>crypto.rs\<close> for tags,
    content encryption and signatures. \<open>Builtin\<close>: \<open>ed25519.rs\<close> and \<open>aes_gcm.rs\<close>.
  \<^item> \<open>Providers\<close>, \<open>ProviderLaws\<close>: the interfaces of the providers as locales. In \<open>published_key\<close>
    a signer is exported as a public key from which a verifier is read (interpreted on both
    signature providers), in \<open>shared_key\<close> and \<open>shared_encryptor\<close> a symmetric provider is exported
    and read back; the laws compose the providers with the messages of \<open>Sign1\<close>, \<open>Mac0\<close> and
    \<open>Encrypt0\<close>.
  \<^item> \<open>HumanReadable\<close>: the serde implementations of maps, headers, keys, key sets, byte strings and
    claims, for human-readable formats and for CBOR. \<open>DisclosureSet\<close>: the list of disclosures that
    a holder presents. \<open>Registry\<close>: the other numbers of \<open>iana.rs\<close>, distinct within each registry.
  \<^item> \<open>ReferenceCbor\<close>: a concrete codec and toy providers, used only by witnesses.

  Conventions. A method on \<open>&mut self\<close> returns its result and the state it leaves behind,
  also when it fails half-way; a pure function returns \<open>error + 'a\<close>. A string is the list of its
  UTF-8 bytes. Sizes are natural numbers below \<open>usize_limit\<close>, \<open>2 ^ 64\<close>; integers that the code
  narrows are checked with \<open>in_i64\<close>, \<open>in_u64\<close> or \<open>in_u16\<close>.

  Fuel. The strict parser is a loop over the input; \<open>parse\<close> takes fuel, and \<open>loop_fuel\<close> (one more
  than the bytes that remain) always suffices (\<open>parse_enough_fuel\<close>). The restoration of an
  SD-CWT follows disclosed values, so it recurses on the levels that \<open>max_depth\<close> still allows and
  needs no fuel.

  Parameters. \<open>cbor2\<close>, the primitives of the cryptographic crates, the hash of the disclosures,
  the source of salts and the clock are not in the repository: they are arguments of the
  definitions. Hypotheses on them state documented behaviour (\<open>injective_encoder\<close>,
  \<open>canonical_scalars\<close>, \<open>self_delimiting\<close>, \<open>stable_maps\<close> and \<open>bounded_recipients\<close> for the library;
  \<open>sound_macer\<close>, \<open>sound_encryptor\<close>, \<open>verifies_for\<close>; for the primitives \<open>signature_laws\<close>,
  \<open>dalek_laws\<close>, \<open>hmac_laws\<close>, \<open>aead_laws\<close>, \<open>cipher_laws\<close>) and are shown to hold of concrete
  instances. The random generator of a signer is an argument too.

  Not modelled. The derived serde code and the formats themselves, which are parameters; \<open>Debug\<close>,
  \<open>Clone\<close> and the conversions that only apply a constructor; re-exports and module declarations;
  the examples and the fuzz targets.
\<close>

end
